(* ===== verification/Go_Std.thy ===== *)
theory Go_Std
  imports Prelude Complex_Main "HOL-Library.Log_Nat"
begin

text \<open>
  The part of Go's \<open>strconv\<close>, \<open>net\<close> and \<open>float64\<close> arithmetic the sources use.
  A \<open>float64\<close> is a rational number and every operation is the exact one followed by
  \<open>rnd\<close>, IEEE 754 rounding to a 53-bit significand, ties to even. The exponent range is
  unbounded (no infinities, no subnormals): the program's values are seconds, tokens and
  prices, far from both ends. The rounding is executable and proved monotone and exact on
  the integers up to \<open>2 ^ 53\<close>.
\<close>

section \<open>Decimal integers\<close>

fun nat_digits :: "nat \<Rightarrow> string" where
  "nat_digits n =
     (if n < 10 then [char_of (48 + n)]
      else nat_digits (n div 10) @ [char_of (48 + n mod 10)])"

declare nat_digits.simps [simp del]

definition itoa :: "int \<Rightarrow> string" where
  "itoa i = (if i < 0 then CHR ''-'' # nat_digits (nat (- i)) else nat_digits (nat i))"

definition is_digit :: "char \<Rightarrow> bool" where
  "is_digit c \<longleftrightarrow> 48 \<le> (of_char c :: nat) \<and> (of_char c :: nat) \<le> 57"

definition digit_val :: "char \<Rightarrow> nat" where
  "digit_val c = of_char c - 48"

fun digits_val :: "nat \<Rightarrow> string \<Rightarrow> nat option" where
  "digits_val acc [] = Some acc"
| "digits_val acc (c # cs) =
     (if is_digit c then digits_val (10 * acc + digit_val c) cs else None)"

definition parse_nat :: "string \<Rightarrow> nat option" where
  "parse_nat s = (if s = [] then None else digits_val 0 s)"

text \<open>\<open>strconv.Atoi\<close> and \<open>ParseInt(s, 10, 64)\<close>: an optional sign, digits, the range of \<open>int64\<close>.\<close>

definition in_range :: "int \<Rightarrow> int option" where
  "in_range i = (if in_int64 i then Some i else None)"

definition atoi :: "string \<Rightarrow> int option" where
  "atoi s =
     (case s of
        [] \<Rightarrow> None
      | c # cs \<Rightarrow>
          if c = CHR ''-'' then Option.bind (parse_nat cs) (\<lambda>n. in_range (- int n))
          else if c = CHR ''+'' then Option.bind (parse_nat cs) (\<lambda>n. in_range (int n))
          else Option.bind (parse_nat s) (\<lambda>n. in_range (int n)))"

text \<open>\<open>strconv.ParseUint(s, 10, 64)\<close>: digits only.\<close>

definition parse_uint :: "string \<Rightarrow> nat option" where
  "parse_uint s = Option.bind (parse_nat s) (\<lambda>n. if n < 2 ^ 64 then Some n else None)"

lemma digit_char [simp]:
  fixes n :: nat
  assumes "n < 10"
  shows "is_digit (char_of (48 + n))" "digit_val (char_of (48 + n)) = n"
  using assms by (simp_all add: is_digit_def digit_val_def)

lemma digits_val_append:
  "digits_val acc (xs @ ys) = Option.bind (digits_val acc xs) (\<lambda>a. digits_val a ys)"
  by (induction xs arbitrary: acc) simp_all

lemma digits_val_nat_digits: "digits_val 0 (nat_digits n) = Some n"
proof (induction n rule: nat_digits.induct)
  case (1 n)
  show ?case
  proof (cases "n < 10")
    case True
    then show ?thesis by (simp add: nat_digits.simps [of n])
  next
    case False
    with 1 have "digits_val 0 (nat_digits (n div 10)) = Some (n div 10)" by simp
    with False show ?thesis by (simp add: nat_digits.simps [of n] digits_val_append)
  qed
qed

lemma nat_digits_nonempty [simp]: "nat_digits n \<noteq> []"
  by (subst nat_digits.simps) simp

lemma parse_nat_nat_digits [simp]: "parse_nat (nat_digits n) = Some n"
  by (simp add: parse_nat_def digits_val_nat_digits)

lemma nat_digits_all_digits: "list_all is_digit (nat_digits n)"
proof (induction n rule: nat_digits.induct)
  case (1 n)
  then show ?case by (cases "n < 10") (simp_all add: nat_digits.simps [of n])
qed

lemma nat_digits_digit: "c \<in> set (nat_digits n) \<Longrightarrow> is_digit c"
  using nat_digits_all_digits [of n] by (simp add: list_all_iff)

lemma hd_nat_digits: "is_digit (hd (nat_digits n))"
  by (rule nat_digits_digit [of _ n]) simp

lemma atoi_itoa: "in_int64 i \<Longrightarrow> atoi (itoa i) = Some i"
proof -
  assume i: "in_int64 i"
  obtain c cs where d: "nat_digits (nat i) = c # cs"
    by (cases "nat_digits (nat i)") simp_all
  then have "is_digit c" using hd_nat_digits [of "nat i"] by simp
  then have c: "c \<noteq> CHR ''-''" "c \<noteq> CHR ''+''" by (auto simp: is_digit_def)
  show ?thesis
  proof (cases "i < 0")
    case True
    with i show ?thesis by (simp add: itoa_def atoi_def in_range_def)
  next
    case False
    have "parse_nat (c # cs) = Some (nat i)" using parse_nat_nat_digits [of "nat i"] d by simp
    with False i c show ?thesis by (simp add: itoa_def atoi_def in_range_def d)
  qed
qed

lemma itoa_inj: "in_int64 i \<Longrightarrow> in_int64 j \<Longrightarrow> itoa i = itoa j \<Longrightarrow> i = j"
  by (metis atoi_itoa option.inject)

lemma length_nat_digits_le: "n < 10 ^ k \<Longrightarrow> 0 < k \<Longrightarrow> length (nat_digits n) \<le> k"
proof (induction k arbitrary: n)
  case 0
  then show ?case by simp
next
  case (Suc k)
  show ?case
  proof (cases "n < 10")
    case True
    then show ?thesis by (simp add: nat_digits.simps [of n])
  next
    case False
    from Suc.prems have lt: "n div 10 < 10 ^ k" by (simp add: less_mult_imp_div_less mult.commute)
    with False have "0 < k" by (cases k) auto
    with lt have "length (nat_digits (n div 10)) \<le> k" by (rule Suc.IH)
    with False show ?thesis by (simp add: nat_digits.simps [of n])
  qed
qed

lemma length_nat_digits_ge: "10 ^ k \<le> n \<Longrightarrow> k < length (nat_digits n)"
proof (induction k arbitrary: n)
  case 0
  then show ?case by simp
next
  case (Suc k)
  have "1 \<le> (10 :: nat) ^ k" by simp
  with Suc.prems have big: "\<not> n < 10" by (simp only: power_Suc)
  from Suc.prems have "10 ^ k \<le> n div 10" by (simp add: less_eq_div_iff_mult_less_eq mult.commute)
  then have "k < length (nat_digits (n div 10))" by (intro Suc.IH)
  with big show ?case by (simp add: nat_digits.simps [of n])
qed

section \<open>Floating point\<close>

definition pow2 :: "int \<Rightarrow> rat" where
  "pow2 e = (if 0 \<le> e then 2 ^ nat e else 1 / 2 ^ nat (- e))"

text \<open>\<open>ilog2 x\<close> for a positive \<open>x\<close> is the exponent of its binade, \<open>pow2 e \<le> x < pow2 (e + 1)\<close>.\<close>

definition ilog2 :: "rat \<Rightarrow> int" where
  "ilog2 x =
     (case quotient_of x of (p, q) \<Rightarrow>
        let e = bitlen p - bitlen q in if pow2 e \<le> x then e else e - 1)"

definition round_even :: "rat \<Rightarrow> int" where
  "round_even y =
     (let f = \<lfloor>y\<rfloor>; r = y - of_int f
      in if r < 1 / 2 then f else if r > 1 / 2 then f + 1 else if even f then f else f + 1)"

definition rnd_pos :: "rat \<Rightarrow> rat" where
  "rnd_pos x = (let u = pow2 (ilog2 x - 52) in of_int (round_even (x / u)) * u)"

definition rnd :: "rat \<Rightarrow> rat" where
  "rnd x = (if x = 0 then 0 else if 0 < x then rnd_pos x else - rnd_pos (- x))"

text \<open>Conversion of a \<open>float64\<close> to an integer type truncates.\<close>

definition trunc :: "rat \<Rightarrow> int" where
  "trunc x = (if 0 \<le> x then \<lfloor>x\<rfloor> else - \<lfloor>- x\<rfloor>)"

text \<open>\<open>time.Duration.Seconds\<close>: whole seconds plus the nanoseconds scaled, each a \<open>float64\<close>.\<close>

definition seconds :: "duration \<Rightarrow> rat" where
  "seconds d = rnd (rnd (of_int (go_div d 1000000000)) + rnd (of_int (go_mod d 1000000000) / 1000000000))"

lemma pow2_pos [simp]: "0 < pow2 e"
  by (simp add: pow2_def)

lemma pow2_nonneg [simp]: "0 \<le> pow2 e"
  by (rule less_imp_le) simp

lemma pow2_nz [simp]: "pow2 e \<noteq> 0"
  using pow2_pos [of e] by linarith

lemma pow2_not_neg [simp]: "\<not> pow2 e < 0"
  by (simp add: not_less)

lemma pow2_not_nonpos [simp]: "\<not> pow2 e \<le> 0"
  by (simp add: not_le)

lemma pow2_powi: "pow2 e = 2 powi e"
  by (simp add: pow2_def power_int_def inverse_eq_divide power_one_over)

lemma pow2_add: "pow2 (a + b) = pow2 a * pow2 b"
  by (simp add: pow2_powi power_int_add)

lemma pow2_mono: "a \<le> b \<Longrightarrow> pow2 a \<le> pow2 b"
  by (simp add: pow2_powi power_int_increasing)

lemma pow2_le_iff [simp]: "pow2 a \<le> pow2 b \<longleftrightarrow> a \<le> b"
proof
  assume le: "pow2 a \<le> pow2 b"
  show "a \<le> b"
  proof (rule ccontr)
    assume "\<not> a \<le> b"
    then have "pow2 (b + 1) \<le> pow2 a" by (intro pow2_mono) simp
    moreover have "pow2 (b + 1) = 2 * pow2 b" by (subst pow2_add) (simp add: pow2_def)
    ultimately show False using le pow2_pos [of b] by linarith
  qed
qed (rule pow2_mono)

lemma pow2_52: "pow2 52 = of_int (2 ^ 52)"
  by (simp add: pow2_def)

lemma pow2_53: "pow2 53 = of_int (2 ^ 53)"
  by (simp add: pow2_def)

lemma bitlen_pow2:
  assumes "0 < n"
  shows "pow2 (bitlen n - 1) \<le> of_int n \<and> of_int n < pow2 (bitlen n)"
proof -
  have b: "2 ^ nat (bitlen n - 1) \<le> n" "n < 2 ^ nat (bitlen n)"
    using bitlen_bounds [OF assms] by auto
  have "0 < bitlen n" using b(2) assms by (cases "0 < bitlen n") simp_all
  then have "pow2 (bitlen n - 1) = of_int (2 ^ nat (bitlen n - 1))"
    "pow2 (bitlen n) = of_int (2 ^ nat (bitlen n))" by (simp_all add: pow2_def)
  with b show ?thesis by (simp only: of_int_le_iff of_int_less_iff)
qed

lemma ilog2_bounds:
  assumes "0 < x"
  shows "pow2 (ilog2 x) \<le> x \<and> x < pow2 (ilog2 x + 1)"
proof -
  obtain p q where pq: "quotient_of x = (p, q)" by fastforce
  have q: "0 < q" using quotient_of_denom_pos [OF pq] .
  have x: "x = of_int p / of_int q" using quotient_of_div [OF pq] .
  with assms q have p: "0 < p" by (simp add: zero_less_divide_iff)
  let ?a = "bitlen p" and ?b = "bitlen q"
  have P: "pow2 (?a - 1) \<le> of_int p" "of_int p < pow2 ?a"
    using bitlen_pow2 [OF p] by simp_all
  have Q: "pow2 (?b - 1) \<le> of_int q" "of_int q < pow2 ?b"
    using bitlen_pow2 [OF q] by simp_all
  have "x * pow2 ?b \<ge> x * of_int q" "x * pow2 (?b - 1) \<le> x * of_int q"
    using assms Q by (simp_all add: mult_left_mono)
  moreover have "x * of_int q = of_int p" using x q by simp
  ultimately have "pow2 (?a - 1) \<le> x * pow2 ?b" "x * pow2 (?b - 1) < pow2 ?a"
    using P by linarith+
  moreover have "pow2 (?a - 1) = pow2 (?a - ?b - 1) * pow2 ?b"
    "pow2 ?a = pow2 (?a - ?b + 1) * pow2 (?b - 1)"
    by (simp_all flip: pow2_add)
  ultimately have "pow2 (?a - ?b - 1) \<le> x" "x < pow2 (?a - ?b + 1)"
    by (simp_all add: mult_le_cancel_right mult_less_cancel_right)
  then show ?thesis by (auto simp: ilog2_def pq Let_def)
qed

lemma round_even_near: "\<lfloor>y\<rfloor> \<le> round_even y" "round_even y \<le> \<lfloor>y\<rfloor> + 1"
  by (auto simp: round_even_def Let_def)

lemma round_even_of_int [simp]: "round_even (of_int n) = n"
  by (simp add: round_even_def)

lemma round_even_mono: "y \<le> z \<Longrightarrow> round_even y \<le> round_even z"
proof -
  assume yz: "y \<le> z"
  then have "\<lfloor>y\<rfloor> \<le> \<lfloor>z\<rfloor>" by (rule floor_mono)
  then consider "\<lfloor>y\<rfloor> = \<lfloor>z\<rfloor>" | "\<lfloor>y\<rfloor> + 1 \<le> \<lfloor>z\<rfloor>" by linarith
  then show ?thesis
  proof cases
    case 1
    with yz show ?thesis by (auto simp: round_even_def Let_def)
  next
    case 2
    then show ?thesis using round_even_near [of y] round_even_near [of z] by linarith
  qed
qed

text \<open>A rounded value stays in the closed binade of its argument.\<close>

lemma rnd_pos_binade:
  assumes "0 < x"
  shows "pow2 (ilog2 x) \<le> rnd_pos x \<and> rnd_pos x \<le> pow2 (ilog2 x + 1)"
proof -
  let ?e = "ilog2 x" and ?u = "pow2 (ilog2 x - 52)"
  have e: "pow2 ?e = of_int (2 ^ 52) * ?u" "pow2 (?e + 1) = of_int (2 ^ 53) * ?u"
    using pow2_add [of 52 "?e - 52"] pow2_add [of 53 "?e - 52"]
    by (simp_all add: pow2_52 pow2_53 add.commute)
  have "of_int (2 ^ 52) \<le> x / ?u" "x / ?u \<le> of_int (2 ^ 53)"
    using ilog2_bounds [OF assms] by (simp_all only: e) (simp_all add: divide_simps)
  then have "2 ^ 52 \<le> round_even (x / ?u)" "round_even (x / ?u) \<le> 2 ^ 53"
    using round_even_mono round_even_of_int by metis+
  then have "(of_int (2 ^ 52) :: rat) \<le> of_int (round_even (x / ?u))"
    "(of_int (round_even (x / ?u)) :: rat) \<le> of_int (2 ^ 53)" by (simp_all only: of_int_le_iff)
  then show ?thesis by (simp add: rnd_pos_def e Let_def mult_right_mono del: of_int_power)
qed

lemma rnd_pos_mono:
  assumes "0 < x" "x \<le> y"
  shows "rnd_pos x \<le> rnd_pos y"
proof -
  have y: "0 < y" using assms by linarith
  note bx = ilog2_bounds [OF assms(1)] and by' = ilog2_bounds [OF y]
  have "ilog2 x \<le> ilog2 y"
  proof (rule ccontr)
    assume "\<not> ilog2 x \<le> ilog2 y"
    then have "pow2 (ilog2 y + 1) \<le> pow2 (ilog2 x)" by (intro pow2_mono) simp
    with bx by' assms show False by linarith
  qed
  then consider "ilog2 x = ilog2 y" | "ilog2 x + 1 \<le> ilog2 y" by linarith
  then show ?thesis
  proof cases
    case 1
    have "round_even (x / pow2 (ilog2 y - 52)) \<le> round_even (y / pow2 (ilog2 y - 52))"
      using assms by (intro round_even_mono) (simp add: divide_right_mono less_imp_le)
    then show ?thesis by (simp add: rnd_pos_def Let_def 1 mult_right_mono less_imp_le)
  next
    case 2
    then have "pow2 (ilog2 x + 1) \<le> pow2 (ilog2 y)" by (rule pow2_mono)
    then show ?thesis using rnd_pos_binade [OF assms(1)] rnd_pos_binade [OF y] by linarith
  qed
qed

lemma rnd_pos_pos: "0 < x \<Longrightarrow> 0 < rnd_pos x"
  using rnd_pos_binade [of x] pow2_pos [of "ilog2 x"] by linarith

lemma rnd_0 [simp]: "rnd 0 = 0"
  by (simp add: rnd_def)

lemma rnd_mono: "x \<le> y \<Longrightarrow> rnd x \<le> rnd y"
  using rnd_pos_mono [of x y] rnd_pos_mono [of "- y" "- x"] rnd_pos_pos [of y] rnd_pos_pos [of "- x"]
  by (auto simp: rnd_def)

lemma rnd_of_int_pos:
  assumes "0 < n" "n \<le> 2 ^ 53"
  shows "rnd_pos (of_int n) = of_int n"
proof -
  let ?x = "of_int n :: rat" and ?e = "ilog2 (of_int n)"
  have pos: "0 < ?x" using assms by simp
  have "?x \<le> of_int (2 ^ 53)" using assms by (simp only: of_int_le_iff)
  then have "pow2 ?e \<le> pow2 53" using ilog2_bounds [OF pos]
    by (simp only: pow2_53) linarith
  then have e: "?e \<le> 53" by simp
  show ?thesis
  proof (cases "?e \<le> 52")
    case True
    then have "?x / pow2 (?e - 52) = of_int (n * 2 ^ nat (52 - ?e))"
      by (cases "?e = 52") (simp_all add: pow2_def)
    then have "of_int (round_even (?x / pow2 (?e - 52))) = ?x / pow2 (?e - 52)"
      by (simp only: round_even_of_int)
    then show ?thesis by (simp add: rnd_pos_def Let_def)
  next
    case False
    with e have e53: "?e = 53" by simp
    with ilog2_bounds [OF pos] assms have n53: "n = 2 ^ 53"
      by (simp add: pow2_def)
    have "?x / pow2 (?e - 52) = of_int (2 ^ 52)"
      by (simp only: e53) (simp add: pow2_def n53)
    then have "of_int (round_even (?x / pow2 (?e - 52))) = ?x / pow2 (?e - 52)"
      by (simp only: round_even_of_int)
    then show ?thesis by (simp add: rnd_pos_def Let_def)
  qed
qed

lemma rnd_of_int: "\<bar>n\<bar> \<le> 2 ^ 53 \<Longrightarrow> rnd (of_int n) = of_int n"
  using rnd_of_int_pos [of n] rnd_of_int_pos [of "- n"] by (auto simp: rnd_def)

lemma rnd_nonneg: "0 \<le> x \<Longrightarrow> 0 \<le> rnd x"
  using rnd_mono [of 0 x] by simp

lemma rnd_le_int: "x \<le> of_int n \<Longrightarrow> \<bar>n\<bar> \<le> 2 ^ 53 \<Longrightarrow> rnd x \<le> of_int n"
  using rnd_mono [of x "of_int n"] by (simp add: rnd_of_int)

lemma rnd_ge_int: "of_int n \<le> x \<Longrightarrow> \<bar>n\<bar> \<le> 2 ^ 53 \<Longrightarrow> of_int n \<le> rnd x"
  using rnd_mono [of "of_int n" x] by (simp add: rnd_of_int)

lemma rnd_numeral [simp]: "(numeral w :: int) \<le> 2 ^ 53 \<Longrightarrow> rnd (numeral w) = numeral w"
  using rnd_of_int [of "numeral w"] by simp

lemma rnd_1 [simp]: "rnd 1 = 1"
  using rnd_of_int [of 1] by simp

lemma seconds_nonneg: "0 \<le> d \<Longrightarrow> 0 \<le> seconds d"
  by (simp add: seconds_def rnd_nonneg)

lemma seconds_whole: "0 \<le> n \<Longrightarrow> n \<le> 2 ^ 53 \<Longrightarrow> seconds (n * Second) = of_int n"
  by (simp add: seconds_def Second_def rnd_of_int)

lemma trunc_of_int [simp]: "trunc (of_int n) = n"
  by (simp add: trunc_def floor_minus)

lemma trunc_nonneg: "0 \<le> x \<Longrightarrow> 0 \<le> trunc x"
  by (simp add: trunc_def)

lemma trunc_ge:
  assumes "0 \<le> n" "of_int n \<le> x"
  shows "n \<le> trunc x"
proof -
  have "0 \<le> x" using assms by (simp add: order_trans [of 0 "of_int n" x])
  with assms show ?thesis by (simp add: trunc_def le_floor_iff)
qed

lemma trunc_less:
  assumes "0 \<le> x" "x < of_int n"
  shows "trunc x < n"
  using assms by (simp add: trunc_def floor_less_iff)

subsection \<open>Representable values and the size of a rounding error\<close>

definition is_float :: "rat \<Rightarrow> bool" where
  "is_float x \<longleftrightarrow> rnd x = x"

lemma ilog2_unique: "pow2 a \<le> x \<Longrightarrow> x < pow2 (a + 1) \<Longrightarrow> ilog2 x = a"
proof -
  assume a: "pow2 a \<le> x" "x < pow2 (a + 1)"
  then have "0 < x" using pow2_pos [of a] by linarith
  from ilog2_bounds [OF this] a have "pow2 a < pow2 (ilog2 x + 1)" "pow2 (ilog2 x) < pow2 (a + 1)"
    by linarith+
  then have "\<not> ilog2 x + 1 \<le> a" "\<not> a + 1 \<le> ilog2 x"
    using pow2_mono [of "ilog2 x + 1" a] pow2_mono [of "a + 1" "ilog2 x"] by linarith+
  then show ?thesis by linarith
qed

lemma ilog2_scale: "0 < x \<Longrightarrow> ilog2 (x * pow2 m) = ilog2 x + m"
proof (rule ilog2_unique)
  assume x: "0 < x"
  show "pow2 (ilog2 x + m) \<le> x * pow2 m"
    using ilog2_bounds [OF x] by (simp add: pow2_add mult_right_mono)
  have "ilog2 x + m + 1 = ilog2 x + 1 + m" by simp
  then show "x * pow2 m < pow2 (ilog2 x + m + 1)"
    using ilog2_bounds [OF x] by (simp only: pow2_add [of "ilog2 x + 1" m]) simp
qed

lemma rnd_pos_scale: "0 < x \<Longrightarrow> rnd_pos (x * pow2 m) = rnd_pos x * pow2 m"
proof -
  assume x: "0 < x"
  have u: "pow2 (ilog2 x + m - 52) = pow2 (ilog2 x - 52) * pow2 m"
    by (simp flip: pow2_add add: algebra_simps)
  show ?thesis by (simp add: rnd_pos_def ilog2_scale [OF x] u Let_def)
qed

lemma rnd_scale: "rnd (x * pow2 m) = rnd x * pow2 m"
  using rnd_pos_scale [of x m] rnd_pos_scale [of "- x" m] pow2_pos [of m]
  by (auto simp: rnd_def mult_less_0_iff zero_less_mult_iff)

lemma float_scaled_int: "\<bar>j\<bar> \<le> 2 ^ 53 \<Longrightarrow> is_float (of_int j * pow2 m)"
  by (simp add: is_float_def rnd_scale rnd_of_int)

lemma rnd_pos_repr:
  assumes "0 < x"
  shows "\<exists>k. rnd_pos x = of_int k * pow2 (ilog2 x - 52) \<and> 0 \<le> k \<and> k \<le> 2 ^ 53"
proof -
  let ?u = "pow2 (ilog2 x - 52)" and ?k = "round_even (x / pow2 (ilog2 x - 52))"
  have "pow2 (ilog2 x + 1) = of_int (2 ^ 53) * ?u"
    using pow2_add [of 53 "ilog2 x - 52"] by (simp add: pow2_53 add.commute)
  then have "x / ?u \<le> of_int (2 ^ 53)"
    using ilog2_bounds [OF assms] by (simp add: divide_simps)
  then have "?k \<le> 2 ^ 53" using round_even_mono round_even_of_int by metis
  moreover have "0 \<le> ?k"
    using round_even_mono [of "of_int 0" "x / ?u"] assms by (simp only: round_even_of_int) simp
  ultimately show ?thesis by (auto simp: rnd_pos_def Let_def)
qed

lemma rnd_is_float: "is_float (rnd x)"
proof -
  have pos: "is_float (rnd_pos y)" if "0 < y" for y
    using rnd_pos_repr [OF that] float_scaled_int by auto
  have neg: "rnd (- y) = - rnd y" for y by (auto simp: rnd_def)
  show ?thesis
    using pos [of x] pos [of "- x"] by (auto simp: rnd_def [of x] is_float_def neg)
qed

lemma rnd_idem [simp]: "rnd (rnd x) = rnd x"
  using rnd_is_float [of x] by (simp add: is_float_def)

lemma float_int: "\<bar>n\<bar> \<le> 2 ^ 53 \<Longrightarrow> is_float (of_int n)"
  by (simp add: is_float_def rnd_of_int)

lemma float_minus_one:
  assumes t: "is_float t" "1 \<le> t" "t < 2 ^ 53"
  shows "is_float (t - 1)"
proof -
  have pos: "0 < t" using t by simp
  let ?e = "ilog2 t"
  note b = ilog2_bounds [OF pos]
  have "pow2 0 < pow2 (?e + 1)" using b t by (simp add: pow2_def [of 0])
  then have e0: "0 \<le> ?e" using pow2_mono [of "?e + 1" 0] by linarith
  have "pow2 ?e < pow2 53" using b t by (simp only: pow2_53) simp
  then have e52: "?e \<le> 52" using pow2_mono [of 53 "?e"] by linarith
  obtain k where k: "t = of_int k * pow2 (?e - 52)" "k \<le> 2 ^ 53"
    using rnd_pos_repr [OF pos] t by (auto simp: is_float_def rnd_def pos)
  have one: "1 = of_int (2 ^ nat (52 - ?e)) * pow2 (?e - 52)"
    using e52 by (cases "?e = 52") (simp_all add: pow2_def)
  have "t - 1 = of_int (k - 2 ^ nat (52 - ?e)) * pow2 (?e - 52)"
    by (subst one) (simp add: k(1) [symmetric] left_diff_distrib)
  moreover have "0 \<le> (of_int (k - 2 ^ nat (52 - ?e)) :: rat)"
  proof -
    have "0 \<le> of_int (k - 2 ^ nat (52 - ?e)) * pow2 (?e - 52)" using t calculation by simp
    then show ?thesis by (simp only: zero_le_mult_iff) auto
  qed
  moreover have "k - 2 ^ nat (52 - ?e) \<le> 2 ^ 53"
    using k(2) zero_le_power [of "2 :: int" "nat (52 - ?e)"] by linarith
  ultimately show ?thesis using float_scaled_int [of "k - 2 ^ nat (52 - ?e)" "?e - 52"]
    by (simp only: of_int_0_le_iff)
qed

lemma round_even_error: "\<bar>of_int (round_even y) - y\<bar> \<le> 1 / 2"
proof -
  have "of_int \<lfloor>y\<rfloor> \<le> y" "y < of_int \<lfloor>y\<rfloor> + 1" by linarith+
  then show ?thesis by (auto simp: round_even_def Let_def abs_le_iff)
qed

lemma rnd_pos_error:
  assumes "0 < x"
  shows "\<bar>rnd_pos x - x\<bar> \<le> pow2 (ilog2 x - 53)"
proof -
  let ?u = "pow2 (ilog2 x - 52)"
  have "rnd_pos x - x = (of_int (round_even (x / ?u)) - x / ?u) * ?u"
    by (simp add: rnd_pos_def Let_def left_diff_distrib)
  then have "\<bar>rnd_pos x - x\<bar> \<le> 1 / 2 * ?u"
    using round_even_error [of "x / ?u"] by (simp add: abs_mult mult_right_mono)
  also have "1 / 2 * ?u = pow2 (ilog2 x - 53)"
    using pow2_add [of "-1" "ilog2 x - 52"] by (simp add: pow2_def [of "-1"])
  finally show ?thesis .
qed

text \<open>A crude relative bound is enough for the limiters.\<close>

lemma rnd_le_percent:
  assumes "0 \<le> x"
  shows "rnd x \<le> x * (101 / 100)"
proof (cases "x = 0")
  case False
  with assms have x: "0 < x" by simp
  have "pow2 (ilog2 x - 53) = pow2 (ilog2 x) * pow2 (- 53)" by (simp flip: pow2_add)
  also have "\<dots> \<le> x * pow2 (- 53)" using ilog2_bounds [OF x] by (simp add: mult_right_mono)
  also have "\<dots> \<le> x * (1 / 100)"
    using x by (intro mult_left_mono) (simp_all add: pow2_def)
  finally have "pow2 (ilog2 x - 53) \<le> x * (1 / 100)" .
  moreover have "rnd x \<le> x + pow2 (ilog2 x - 53)"
    using rnd_pos_error [OF x] x by (simp add: rnd_def abs_le_iff)
  ultimately show ?thesis by simp
qed simp

lemma rnd_error_unit:
  assumes "0 < x" "x < 1"
  shows "\<bar>rnd x - x\<bar> \<le> pow2 (- 54)"
proof -
  have "pow2 (ilog2 x) < pow2 0" using ilog2_bounds [OF assms(1)] assms(2) by (simp add: pow2_def [of 0])
  then have "ilog2 x \<le> - 1" using pow2_mono [of 0 "ilog2 x"] by linarith
  then have "pow2 (ilog2 x - 53) \<le> pow2 (- 54)" by (intro pow2_mono) simp
  with rnd_pos_error [OF assms(1)] have "\<bar>rnd_pos x - x\<bar> \<le> pow2 (- 54)" by (rule order_trans)
  then show ?thesis using assms(1) by (simp add: rnd_def)
qed

lemma rnd_near_one: "rnd (1 - pow2 (- 54)) = 1"
  by code_simp

lemma seconds_ge_whole:
  assumes "0 \<le> n" "n \<le> 2 ^ 53" "n * 1000000000 \<le> d"
  shows "of_int n \<le> seconds d"
proof -
  have d: "0 \<le> d" using assms by (simp add: order_trans [of 0 "n * 1000000000" d])
  have "n \<le> d div 1000000000" using assms(3) by linarith
  then have "of_int n \<le> rnd (of_int (d div 1000000000))"
    using assms by (intro rnd_ge_int) simp_all
  moreover have "0 \<le> rnd (of_int (d mod 1000000000) / 1000000000)" by (simp add: rnd_nonneg)
  ultimately show ?thesis using assms d unfolding seconds_def by (intro rnd_ge_int) simp_all
qed

lemma seconds_le_percent:
  assumes "0 \<le> d"
  shows "seconds d \<le> of_int d / 1000000000 * (102011 / 100000)"
proof -
  let ?q = "of_int (d div 1000000000) :: rat" and ?r = "of_int (d mod 1000000000) / 1000000000 :: rat"
  have q: "0 \<le> ?q" "0 \<le> ?r" using assms by (simp_all add: pos_imp_zdiv_nonneg_iff)
  have "of_int d = (of_int (d div 1000000000 * 1000000000 + d mod 1000000000) :: rat)"
    by (simp only: div_mult_mod_eq)
  then have "of_int d = of_int (d div 1000000000) * 1000000000 + (of_int (d mod 1000000000) :: rat)"
    by (simp only: of_int_add of_int_mult of_int_numeral)
  then have d: "of_int d / 1000000000 = ?q + ?r" by (simp add: add_divide_distrib)
  have "rnd ?q + rnd ?r \<le> (?q + ?r) * (101 / 100)"
    using rnd_le_percent [OF q(1)] rnd_le_percent [OF q(2)] by (simp add: distrib_right)
  moreover have "0 \<le> rnd ?q + rnd ?r" using q by (simp add: rnd_nonneg)
  ultimately have "seconds d \<le> (?q + ?r) * (101 / 100) * (101 / 100)"
    using rnd_le_percent [of "rnd ?q + rnd ?r"] assms unfolding seconds_def by simp
  also have "\<dots> \<le> (?q + ?r) * (102011 / 100000)" using q by simp
  finally show ?thesis by (simp only: d)
qed

section \<open>\<open>net.SplitHostPort\<close>\<close>

text \<open>
  \<open>None\<close> is the error: a missing port, too many colons, or a stray bracket. \<open>Some (host, port)\<close>
  otherwise, with the brackets of an IPv6 literal removed.
\<close>

definition split_host_port :: "string \<Rightarrow> (string \<times> string) option" where
  "split_host_port hp =
     (case last_index_byte hp CHR '':'' of
        None \<Rightarrow> None
      | Some i \<Rightarrow>
          if hp \<noteq> [] \<and> hd hp = CHR ''['' then
            (case index_byte hp CHR '']'' of
               None \<Rightarrow> None
             | Some e \<Rightarrow>
                 if e + 1 \<noteq> i then None
                 else let host = take (e - 1) (drop 1 hp); port = drop (i + 1) hp
                      in if index_byte (drop 1 hp) CHR ''['' \<noteq> None
                            \<or> index_byte (drop (e + 1) hp) CHR '']'' \<noteq> None then None
                         else Some (host, port))
          else let host = take i hp; port = drop (i + 1) hp
               in if index_byte host CHR '':'' \<noteq> None then None
                  else if index_byte hp CHR ''['' \<noteq> None \<or> index_byte hp CHR '']'' \<noteq> None then None
                  else Some (host, port))"

lemma split_host_port_v4: "split_host_port ''10.0.0.1:4711'' = Some (''10.0.0.1'', ''4711'')"
  by code_simp

lemma split_host_port_v6: "split_host_port ''[::1]:80'' = Some (''::1'', ''80'')"
  by code_simp

lemma split_host_port_missing: "split_host_port ''localhost'' = None"
  by code_simp

section \<open>Base64 (\<open>encoding/base64\<close>)\<close>

definition b64_std :: "nat \<Rightarrow> char" where
  "b64_std i = ''ABCDEFGHIJKLMNOPQRSTUVWXYZabcdefghijklmnopqrstuvwxyz0123456789+/'' ! i"

definition b64_url :: "nat \<Rightarrow> char" where
  "b64_url i = ''ABCDEFGHIJKLMNOPQRSTUVWXYZabcdefghijklmnopqrstuvwxyz0123456789-_'' ! i"

fun b64_raw :: "(nat \<Rightarrow> char) \<Rightarrow> byte list \<Rightarrow> string" where
  "b64_raw f (a # b # c # bs) =
     f (unat a div 4) # f (unat a mod 4 * 16 + unat b div 16)
       # f (unat b mod 16 * 4 + unat c div 64) # f (unat c mod 64) # b64_raw f bs"
| "b64_raw f [a, b] =
     [f (unat a div 4), f (unat a mod 4 * 16 + unat b div 16), f (unat b mod 16 * 4)]"
| "b64_raw f [a] = [f (unat a div 4), f (unat a mod 4 * 16)]"
| "b64_raw f [] = []"

lemma length_b64_raw: "length (b64_raw f bs) = (8 * length bs + 5) div 6"
  by (induction f bs rule: b64_raw.induct) simp_all

text \<open>\<open>StdEncoding\<close>: padded to a multiple of four characters.\<close>

definition b64_padded :: "byte list \<Rightarrow> string" where
  "b64_padded bs = (let r = b64_raw b64_std bs in r @ replicate ((4 - length r mod 4) mod 4) CHR ''='')"

end
