(* ===== verification/Pow_Challenge.thy ===== *)
theory Pow_Challenge
  imports Go_Std
begin

text \<open>
  \<^verbatim>\<open>internal/pow/pow.go\<close>: challenges, their canonical preimage, the difficulty metric on
  digests, the verification of submitted counters, and the fixed-width counter encoding.
  The two hash functions are parameters (a record of functions from byte strings to
  digests); the code relies on nothing but that they return 32 bytes.
\<close>

unbundle bit_operations_syntax

section \<open>Challenges\<close>

definition Version :: int where "Version = 1"
definition AlgoBLAKE3 :: string where "AlgoBLAKE3 = ''blake3''"
definition AlgoSHA256 :: string where "AlgoSHA256 = ''sha256''"
definition ResourceAPIKey :: string where "ResourceAPIKey = ''api-key''"

definition ValidPlan :: "string \<Rightarrow> bool" where
  "ValidPlan plan \<longleftrightarrow> plan = ''basic'' \<or> plan = ''plus'' \<or> plan = ''pro''"

definition ValidAlgo :: "string \<Rightarrow> bool" where
  "ValidAlgo algo \<longleftrightarrow> algo = AlgoBLAKE3 \<or> algo = AlgoSHA256"

record challenge =
  ch_version :: int
  ch_id :: string
  ch_resource :: string
  ch_algo :: string
  ch_difficulty :: int
  ch_salt :: string
  ch_bind :: string
  ch_issued_at :: int
  ch_expires_at :: int
  ch_plan :: string

record hashes =
  sha256_sum :: "string \<Rightarrow> byte list"
  blake3_sum :: "string \<Rightarrow> byte list"

definition Preimage :: "challenge \<Rightarrow> string \<Rightarrow> string" where
  "Preimage c counter =
     ''pow-v'' @ itoa (ch_version c) @ ''|'' @ ch_id c @ ''|'' @ ch_resource c @ ''|''
       @ ch_algo c @ ''|'' @ itoa (ch_difficulty c) @ ''|'' @ ch_salt c @ ''|''
       @ ch_bind c @ ''|'' @ counter"

definition Digest :: "hashes \<Rightarrow> challenge \<Rightarrow> string \<Rightarrow> byte list" where
  "Digest h c pre = (if ch_algo c = AlgoSHA256 then sha256_sum h pre else blake3_sum h pre)"

section \<open>The difficulty metric\<close>

text \<open>
  The inner loop of \<open>LeadingZeroBits\<close>: \<open>k\<close> counts \<open>shift + 1\<close>; the flag says whether the
  function returned from inside the loop.
\<close>

fun lz_scan :: "byte \<Rightarrow> nat \<Rightarrow> nat \<Rightarrow> nat \<times> bool" where
  "lz_scan b bits 0 = (bits, False)"
| "lz_scan b bits (Suc k) =
     (if b AND push_bit k 1 \<noteq> 0 then (bits, True) else lz_scan b (bits + 1) k)"

fun lz_loop :: "nat \<Rightarrow> byte list \<Rightarrow> nat" where
  "lz_loop bits [] = bits"
| "lz_loop bits (b # bs) =
     (if b = 0 then lz_loop (bits + 8) bs
      else (case lz_scan b bits 8 of (n, ret) \<Rightarrow> if ret then n else lz_loop n bs))"

definition LeadingZeroBits :: "byte list \<Rightarrow> nat" where
  "LeadingZeroBits d = lz_loop 0 d"

definition Satisfies :: "byte list \<Rightarrow> int \<Rightarrow> bool" where
  "Satisfies d difficulty \<longleftrightarrow> int (LeadingZeroBits d) \<ge> difficulty"

section \<open>Verification\<close>

datatype verify_error = No_solution | Not_met int

fun verify_loop :: "hashes \<Rightarrow> challenge \<Rightarrow> string list \<Rightarrow> verify_error + nat" where
  "verify_loop h c [] = Inl (Not_met (ch_difficulty c))"
| "verify_loop h c (ctr # ctrs) =
     (if length ctr = 0 \<or> length ctr > 20 then verify_loop h c ctrs
      else let d = Digest h c (Preimage c ctr)
           in if Satisfies d (ch_difficulty c) then Inr (LeadingZeroBits d)
              else verify_loop h c ctrs)"

definition Verify :: "hashes \<Rightarrow> challenge \<Rightarrow> string list \<Rightarrow> verify_error + nat" where
  "Verify h c counters =
     (if length counters = 0 then Inl No_solution
      else verify_loop h c (if length counters > 8 then take 8 counters else counters))"

section \<open>Salts, bindings, key hashes, counters\<close>

text \<open>\<open>rand.Read\<close> is the environment's: \<open>None\<close> when it fails, else the bytes it produced.\<close>

definition NewSalt :: "byte list option \<Rightarrow> string option" where
  "NewSalt rnd_bytes = map_option (b64_raw b64_std) rnd_bytes"

definition BindingHash :: "hashes \<Rightarrow> string \<Rightarrow> string \<Rightarrow> string" where
  "BindingHash h ip ua =
     b64_raw b64_std (take 16 (blake3_sum h (''pow-bind-v1|'' @ ip @ ''|'' @ ua)))"

definition KeyHash :: "hashes \<Rightarrow> string \<Rightarrow> string" where
  "KeyHash h key = b64_raw b64_std (sha256_sum h key)"

text \<open>
  \<open>CounterToBytes\<close> copies the digits into \<open>out[10-len(s):]\<close>; with more than ten digits the
  slice bound is negative and the Go program panics, here \<open>None\<close>.
\<close>

definition CounterToBytes :: "nat \<Rightarrow> string option" where
  "CounterToBytes counter =
     (let s = nat_digits counter
      in if length s > 10 then None else Some (replicate (10 - length s) CHR ''0'' @ s))"

definition CounterFromBytes :: "string \<Rightarrow> nat option" where
  "CounterFromBytes b = (if length b \<noteq> 10 then None else parse_uint b)"

section \<open>Leading zero bits: the loop against its specification\<close>

definition byte_bits :: "byte \<Rightarrow> bool list" where
  "byte_bits b = map (bit b) (rev [0..<8])"

definition digest_bits :: "byte list \<Rightarrow> bool list" where
  "digest_bits d = concat (map byte_bits d)"

fun bits_val :: "bool list \<Rightarrow> nat" where
  "bits_val [] = 0"
| "bits_val (x # xs) = (if x then 2 ^ length xs else 0) + bits_val xs"

fun be_value :: "byte list \<Rightarrow> nat" where
  "be_value [] = 0"
| "be_value (b # bs) = unat b * 256 ^ length bs + be_value bs"

lemma lz_scan_test: "b AND push_bit k 1 \<noteq> 0 \<longleftrightarrow> bit (b :: byte) k"
  by (simp only: bit_iff_and_push_bit_not_eq_0)

lemma lz_scan_eq:
  "lz_scan b bits k =
     (let w = takeWhile Not (map (bit b) (rev [0..<k])) in (bits + length w, length w < k))"
proof (induction k arbitrary: bits)
  case 0
  then show ?case by simp
next
  case (Suc k)
  then show ?case
    by (cases "bit b k") (simp_all only: lz_scan.simps lz_scan_test, simp_all add: Let_def)
qed

lemma length_byte_bits [simp]: "length (byte_bits b) = 8"
  by (simp add: byte_bits_def)

lemma byte_bits_zero: "byte_bits 0 = replicate 8 False"
  by (simp add: byte_bits_def numeral_eq_Suc)

lemma byte_bits_nonzero:
  assumes "b \<noteq> 0"
  shows "\<exists>x \<in> set (byte_bits b). x"
proof -
  from assms obtain i where "bit b i" by (auto simp: bit_eq_iff)
  then have "i < 8" using bit_imp_le_length [of b i] by simp
  with \<open>bit b i\<close> show ?thesis by (auto simp: byte_bits_def)
qed

lemma lz_loop_eq: "lz_loop bits d = bits + length (takeWhile Not (digest_bits d))"
proof (induction d arbitrary: bits)
  case Nil
  then show ?case by (simp add: digest_bits_def)
next
  case (Cons b bs)
  show ?case
  proof (cases "b = 0")
    case True
    have "takeWhile Not (byte_bits 0 @ digest_bits bs) = byte_bits 0 @ takeWhile Not (digest_bits bs)"
      by (rule takeWhile_append2) (simp add: byte_bits_zero)
    with True Cons show ?thesis by (simp add: digest_bits_def)
  next
    case False
    then obtain x where x: "x \<in> set (byte_bits b)" "\<not> (\<not> x)" using byte_bits_nonzero by blast
    then have tw: "takeWhile Not (byte_bits b @ digest_bits bs) = takeWhile Not (byte_bits b)"
      by (intro takeWhile_append1) simp_all
    have "takeWhile Not (byte_bits b) \<noteq> byte_bits b"
      using x by (auto simp: takeWhile_eq_all_conv)
    then have "length (takeWhile Not (byte_bits b)) \<noteq> 8"
      by (metis length_byte_bits take_all takeWhile_eq_take order_refl)
    then have "length (takeWhile Not (byte_bits b)) < 8"
      using length_takeWhile_le [of Not "byte_bits b"] by simp
    with False tw show ?thesis
      by (simp add: lz_scan_eq digest_bits_def flip: byte_bits_def)
  qed
qed

lemma bits_val_bound: "bits_val xs < 2 ^ length xs"
  by (induction xs) auto

lemma leading_False_iff:
  "k \<le> length xs \<Longrightarrow> k \<le> length (takeWhile Not xs) \<longleftrightarrow> bits_val xs < 2 ^ (length xs - k)"
proof (induction xs arbitrary: k)
  case Nil
  then show ?case by simp
next
  case (Cons x xs)
  show ?case
  proof (cases k)
    case 0
    then show ?thesis using bits_val_bound [of "x # xs"] by simp
  next
    case (Suc j)
    then have j: "j \<le> length xs" using Cons.prems by simp
    have "(2 :: nat) ^ (length xs - j) \<le> 2 ^ length xs" by (rule power_increasing) simp_all
    then have "\<not> 2 ^ length xs + bits_val xs < 2 ^ (length xs - j)" by linarith
    with Cons.IH [OF j] Suc show ?thesis by (cases x) simp_all
  qed
qed

lemma bits_val_append: "bits_val (xs @ ys) = bits_val xs * 2 ^ length ys + bits_val ys"
  by (induction xs) (simp_all add: power_add algebra_simps)

lemma bits_val_rev_horner: "bits_val (rev xs) = horner_sum of_bool 2 xs"
  by (induction xs) (simp_all add: bits_val_append)

lemma bits_val_byte_bits: "bits_val (byte_bits b) = unat b"
proof -
  have "bits_val (byte_bits b) = horner_sum of_bool 2 (map (bit b) [0..<8])"
    by (simp only: byte_bits_def rev_map [symmetric] bits_val_rev_horner)
  also have "map (bit b) [0..<8] = map (bit (unat b)) [0..<8]"
    by (simp add: bit_unsigned_iff bit_imp_le_length)
  also have "horner_sum of_bool 2 (map (bit (unat b)) [0..<8]) = take_bit 8 (unat b)"
    by (rule horner_sum_bit_eq_take_bit)
  also have "\<dots> = unat b"
    using unsigned_less [of b, where ?'a = nat] by (simp add: take_bit_eq_mod)
  finally show ?thesis .
qed

lemma length_digest_bits [simp]: "length (digest_bits d) = 8 * length d"
  by (induction d) (simp_all add: digest_bits_def)

lemma bits_val_digest_bits: "bits_val (digest_bits d) = be_value d"
proof (induction d)
  case Nil
  then show ?case by (simp add: digest_bits_def)
next
  case (Cons b bs)
  have "(2 :: nat) ^ (8 * length bs) = 256 ^ length bs" by (simp add: power_mult)
  with Cons show ?case
    using bits_val_append [of "byte_bits b" "digest_bits bs"]
    by (simp add: bits_val_byte_bits) (simp add: digest_bits_def)
qed

lemma LeadingZeroBits_digest_bits: "LeadingZeroBits d = length (takeWhile Not (digest_bits d))"
  by (simp add: LeadingZeroBits_def lz_loop_eq)

lemma LeadingZeroBits_le: "LeadingZeroBits d \<le> 8 * length d"
  using length_takeWhile_le [of Not "digest_bits d"] by (simp add: LeadingZeroBits_digest_bits)

lemma LeadingZeroBits_ge_iff:
  "k \<le> 8 * length d \<Longrightarrow> k \<le> LeadingZeroBits d \<longleftrightarrow> be_value d < 2 ^ (8 * length d - k)"
  using leading_False_iff [of k "digest_bits d"]
  by (simp add: LeadingZeroBits_digest_bits bits_val_digest_bits)

text \<open>
  C13: the byte-and-bit loop of \<open>LeadingZeroBits\<close> measures the size of the digest: a digest
  satisfies difficulty \<open>k\<close> exactly when, read as a big-endian number, it lies below
  \<open>2 ^ (bits - k)\<close>; so a uniformly distributed digest passes with probability \<open>2 ^ - k\<close>, the
  work the protocol promises. A non-positive difficulty is always satisfied and one above the
  digest's width never.
\<close>

theorem Satisfies_iff_value:
  "Satisfies d k \<longleftrightarrow>
     k \<le> 0 \<or> (k \<le> int (8 * length d) \<and> be_value d < 2 ^ nat (int (8 * length d) - k))"
proof (cases "k \<le> 0 \<or> int (8 * length d) < k")
  case True
  then show ?thesis using LeadingZeroBits_le [of d] by (auto simp: Satisfies_def)
next
  case False
  then have k: "nat k \<le> 8 * length d" and e: "nat (int (8 * length d) - k) = 8 * length d - nat k"
    by linarith+
  show ?thesis using LeadingZeroBits_ge_iff [OF k] False
    by (simp only: Satisfies_def e nat_le_iff) simp
qed

section \<open>Which counter a verification accepts\<close>

definition acceptable :: "hashes \<Rightarrow> challenge \<Rightarrow> string \<Rightarrow> bool" where
  "acceptable h c ctr \<longleftrightarrow>
     0 < length ctr \<and> length ctr \<le> 20 \<and> Satisfies (Digest h c (Preimage c ctr)) (ch_difficulty c)"

lemma verify_loop_find:
  "verify_loop h c ctrs =
     (case find (acceptable h c) ctrs of
        None \<Rightarrow> Inl (Not_met (ch_difficulty c))
      | Some ctr \<Rightarrow> Inr (LeadingZeroBits (Digest h c (Preimage c ctr))))"
  by (induction ctrs) (auto simp: acceptable_def Let_def not_less)

lemma Verify_find:
  "Verify h c counters =
     (if counters = [] then Inl No_solution
      else case find (acceptable h c) (take 8 counters) of
             None \<Rightarrow> Inl (Not_met (ch_difficulty c))
           | Some ctr \<Rightarrow> Inr (LeadingZeroBits (Digest h c (Preimage c ctr))))"
  by (simp add: Verify_def verify_loop_find)

text \<open>
  C7: \<open>Verify\<close> is sound and complete within its cap. It accepts a submission exactly when one of
  the first eight counters has between one and twenty bytes and hashes, in the challenge's own
  preimage and algorithm, to a digest with at least the challenge's difficulty in leading zero
  bits. No counter beyond the eighth and no oversized one is ever hashed into an acceptance.
\<close>

theorem Verify_accepts_iff:
  "(\<exists>bits. Verify h c counters = Inr bits) \<longleftrightarrow>
     (\<exists>ctr \<in> set (take 8 counters).
        ctr \<noteq> [] \<and> length ctr \<le> 20
          \<and> ch_difficulty c \<le> int (LeadingZeroBits (Digest h c (Preimage c ctr))))"
proof (cases "find (acceptable h c) (take 8 counters)")
  case None
  then have "\<not> (\<exists>bits. Verify h c counters = Inr bits)" by (simp add: Verify_find)
  with None show ?thesis by (auto simp: find_None_iff acceptable_def Satisfies_def)
next
  case (Some ctr)
  then have ctr: "ctr \<in> set (take 8 counters)" "acceptable h c ctr"
    by (auto simp: find_Some_iff in_set_conv_nth)
  then have "Verify h c counters = Inr (LeadingZeroBits (Digest h c (Preimage c ctr)))"
    using Some by (cases counters) (simp_all add: Verify_find)
  with ctr show ?thesis by (auto simp: acceptable_def Satisfies_def)
qed

text \<open>The bits a verification reports reach the difficulty.\<close>

lemma Verify_bits_ge: "Verify h c counters = Inr bits \<Longrightarrow> ch_difficulty c \<le> int bits"
  by (auto simp: Verify_find find_Some_iff acceptable_def Satisfies_def split: if_splits option.splits)

section \<open>The preimage determines the challenge\<close>

lemma sep_cancel:
  "z \<notin> set xs \<Longrightarrow> z \<notin> set ys \<Longrightarrow> xs @ z # r = ys @ z # s \<longleftrightarrow> xs = ys \<and> r = s"
proof (induction xs arbitrary: ys)
  case Nil
  then show ?case by (cases ys) auto
next
  case (Cons x xs)
  then show ?case by (cases ys) auto
qed

lemma itoa_no_bar: "CHR ''|'' \<notin> set (itoa i)"
  by (auto simp: itoa_def is_digit_def dest: nat_digits_digit)

definition bar_free :: "challenge \<Rightarrow> bool" where
  "bar_free c \<longleftrightarrow>
     (\<forall>w \<in> {ch_id c, ch_resource c, ch_algo c, ch_salt c, ch_bind c}. CHR ''|'' \<notin> set w)
       \<and> in_int64 (ch_version c) \<and> in_int64 (ch_difficulty c)"

text \<open>
  C36: the canonical preimage is unambiguous. When no textual field contains the separator (the
  gateway's ids, algorithms, base64 salts and bindings never do), equal preimages come from
  challenges that agree on version, id, resource, algorithm, difficulty, salt and binding and
  from the same counter, so work done for one challenge is work for no other.
\<close>

theorem Preimage_inj:
  assumes "bar_free c" "bar_free c'"
    and "Preimage c ctr = Preimage c' ctr'"
  shows "ch_version c = ch_version c' \<and> ch_id c = ch_id c' \<and> ch_resource c = ch_resource c'
    \<and> ch_algo c = ch_algo c' \<and> ch_difficulty c = ch_difficulty c' \<and> ch_salt c = ch_salt c'
    \<and> ch_bind c = ch_bind c' \<and> ctr = ctr'"
proof -
  have "itoa (ch_version c) = itoa (ch_version c') \<and> ch_id c = ch_id c' \<and> ch_resource c = ch_resource c'
    \<and> ch_algo c = ch_algo c' \<and> itoa (ch_difficulty c) = itoa (ch_difficulty c')
    \<and> ch_salt c = ch_salt c' \<and> ch_bind c = ch_bind c' \<and> ctr = ctr'"
    using assms by (simp add: Preimage_def bar_free_def itoa_no_bar sep_cancel)
  with assms show ?thesis by (auto simp: bar_free_def dest!: itoa_inj [rotated 2])
qed

definition sample_challenge :: challenge where
  "sample_challenge = \<lparr> ch_version = 1, ch_id = ''id'', ch_resource = ResourceAPIKey,
     ch_algo = AlgoSHA256, ch_difficulty = 3, ch_salt = ''c2FsdA'', ch_bind = ''YmluZA'',
     ch_issued_at = 0, ch_expires_at = 60, ch_plan = ''basic'' \<rparr>"

theorem Preimage_inj_witness:
  "bar_free sample_challenge \<and> bar_free (sample_challenge\<lparr> ch_plan := ''pro'' \<rparr>)
     \<and> ch_bind sample_challenge = ch_bind (sample_challenge\<lparr> ch_plan := ''pro'' \<rparr>)"
proof -
  have b: "bar_free sample_challenge" by code_simp
  have b': "bar_free (sample_challenge\<lparr> ch_plan := ''pro'' \<rparr>)" by code_simp
  have "Preimage sample_challenge ''7'' = Preimage (sample_challenge\<lparr> ch_plan := ''pro'' \<rparr>) ''7''"
    by code_simp
  from Preimage_inj [OF b b' this] b b' show ?thesis by blast
qed

section \<open>The fixed-width counter\<close>

definition pad :: "nat \<Rightarrow> nat \<Rightarrow> string" where
  "pad k n = replicate (k - length (nat_digits n)) CHR ''0'' @ nat_digits n"

lemma digit_val_less: "is_digit c \<Longrightarrow> digit_val c < 10"
  unfolding is_digit_def digit_val_def by linarith

lemma char_of_digit_val: "is_digit c \<Longrightarrow> char_of (48 + digit_val c) = c"
  by (simp add: is_digit_def digit_val_def)

lemma nat_digits_0: "nat_digits 0 = ''0''"
  by code_simp

lemma pad_0: "0 < k \<Longrightarrow> pad k 0 = replicate k CHR ''0''"
  by (cases k) (simp_all add: pad_def nat_digits_0 replicate_append_same)

lemma digits_val_pad: "digits_val 0 (pad k n) = Some n"
proof -
  have "digits_val 0 (replicate m CHR ''0'' @ nat_digits n) = Some n" for m
    by (induction m) (simp_all add: digits_val_nat_digits is_digit_def digit_val_def)
  then show ?thesis by (simp add: pad_def)
qed

lemma pad_digits_val:
  "s \<noteq> [] \<Longrightarrow> digits_val 0 s = Some n \<Longrightarrow> pad (length s) n = s \<and> n < 10 ^ length s"
proof (induction s arbitrary: n rule: rev_induct)
  case Nil
  then show ?case by simp
next
  case (snoc c s)
  from snoc.prems obtain m where m: "digits_val 0 s = Some m" and c: "is_digit c"
    and n: "n = 10 * m + digit_val c"
    by (auto simp: digits_val_append bind_eq_Some_conv split: if_splits)
  have d: "digit_val c < 10" using c by (rule digit_val_less)
  show ?case
  proof (cases "s = []")
    case True
    with m have "m = 0" by simp
    with True d c n show ?thesis
      by (simp add: pad_def nat_digits.simps [of "digit_val c"] char_of_digit_val)
  next
    case False
    with snoc.IH m have IH: "pad (length s) m = s" "m < 10 ^ length s" by auto
    have "nat_digits n = (if m = 0 then [c] else nat_digits m @ [c])"
      using n d c nat_digits.simps [of n] by (simp add: char_of_digit_val)
    moreover have "m = 0 \<Longrightarrow> s = replicate (length s) CHR ''0''"
      using IH False pad_0 [of "length s"] by simp
    ultimately have "pad (length (s @ [c])) n = s @ [c]"
      using IH False by (cases "m = 0") (simp_all add: pad_def)
    with IH n d show ?thesis by simp
  qed
qed

lemma CounterToBytes_pad: "CounterToBytes n = (if n < 10 ^ 10 then Some (pad 10 n) else None)"
  using length_nat_digits_le [of n 10] length_nat_digits_ge [of 10 n]
  by (auto simp: CounterToBytes_def pad_def Let_def)

text \<open>
  the fixed-width rendering and its parser are inverse to each other on every input: ten
  bytes parse to \<open>n\<close> exactly when they are what \<open>CounterToBytes\<close> renders for \<open>n\<close>.
\<close>

theorem Counter_roundtrip: "CounterFromBytes s = Some n \<longleftrightarrow> CounterToBytes n = Some s"
proof
  assume "CounterFromBytes s = Some n"
  then have len: "length s = 10" and "s \<noteq> []" and "digits_val 0 s = Some n"
    by (auto simp: CounterFromBytes_def parse_uint_def parse_nat_def bind_eq_Some_conv split: if_splits)
  then show "CounterToBytes n = Some s"
    using pad_digits_val [of s n] by (simp add: CounterToBytes_pad)
next
  assume "CounterToBytes n = Some s"
  then have n: "n < 10 ^ 10" and s: "s = pad 10 n" by (auto simp: CounterToBytes_pad split: if_splits)
  have "length (nat_digits n) \<le> 10" using n by (simp add: length_nat_digits_le)
  then have len: "length s = 10" by (simp add: s pad_def)
  then have "parse_nat s = Some n" using digits_val_pad [of 10 n] by (auto simp: parse_nat_def s)
  with len n show "CounterFromBytes s = Some n" by (simp add: CounterFromBytes_def parse_uint_def)
qed

text \<open>
  \<open>CounterToBytes\<close> has a result only below \<open>10 ^ 10\<close>; every larger \<open>uint64\<close> makes the copy
  into the ten-byte array start at a negative index, a run-time panic.
\<close>

theorem CounterToBytes_panics_iff: "CounterToBytes n = None \<longleftrightarrow> 10 ^ 10 \<le> n"
  by (simp add: CounterToBytes_pad)

end
