(* ===== verification/Powsolver.thy ===== *)
theory Powsolver
  imports Pow_Challenge
begin

text \<open>
  \<^verbatim>\<open>cmd/powsolver/main.go\<close>: the native client. The workers are a transition system whose
  steps are the atomic accesses of the solver goroutines (\<open>done.Load\<close>, the hash of one counter,
  \<open>found.Store\<close>, \<open>done.Store\<close>), in any interleaving. The two HTTP exchanges are inputs.
\<close>

section \<open>The client's copy of the protocol\<close>

definition validAlgo :: "string \<Rightarrow> bool" where
  "validAlgo a \<longleftrightarrow> a = ''blake3'' \<or> a = ''sha256''"

record solver_challenge =
  sv_version :: int
  sv_id :: string
  sv_resource :: string
  sv_algo :: string
  sv_difficulty :: int
  sv_salt :: string
  sv_bind :: string
  sv_issued_at :: int
  sv_expires_at :: int

definition solver_preimage :: "solver_challenge \<Rightarrow> 64 word \<Rightarrow> string" where
  "solver_preimage c counter =
     ''pow-v'' @ itoa (sv_version c) @ ''|'' @ sv_id c @ ''|'' @ sv_resource c @ ''|''
       @ sv_algo c @ ''|'' @ itoa (sv_difficulty c) @ ''|'' @ sv_salt c @ ''|''
       @ sv_bind c @ ''|'' @ pad 10 (unat counter)"

definition solver_digest :: "hashes \<Rightarrow> solver_challenge \<Rightarrow> string \<Rightarrow> byte list" where
  "solver_digest h c pre = (if sv_algo c = ''sha256'' then sha256_sum h pre else blake3_sum h pre)"

fun solver_lz_loop :: "nat \<Rightarrow> byte list \<Rightarrow> nat" where
  "solver_lz_loop bits [] = bits"
| "solver_lz_loop bits (b # bs) =
     (if b = 0 then solver_lz_loop (bits + 8) bs
      else (case lz_scan b bits 8 of (n, ret) \<Rightarrow> if ret then n else solver_lz_loop n bs))"

definition leadingZeroBits :: "byte list \<Rightarrow> nat" where
  "leadingZeroBits d = solver_lz_loop 0 d"

definition solves :: "hashes \<Rightarrow> solver_challenge \<Rightarrow> 64 word \<Rightarrow> bool" where
  "solves h c n \<longleftrightarrow> int (leadingZeroBits (solver_digest h c (solver_preimage c n))) \<ge> sv_difficulty c"

text \<open>\<open>uint64(1) << ch.Difficulty\<close>: a negative shift count panics, 64 and more give 0.\<close>

definition expected_hashes :: "solver_challenge \<Rightarrow> 64 word option" where
  "expected_hashes c = (if sv_difficulty c < 0 then None else Some (push_bit (nat (sv_difficulty c)) 1))"

section \<open>The workers\<close>

text \<open>Where a worker is in its loop: before \<open>done.Load\<close>, hashing, before each store, returned.\<close>

datatype pc = Loading | Hashing | Storing_found | Storing_done | Returned

record worker =
  wk_pc :: pc
  wk_counter :: "64 word"

record solver =
  so_found :: "64 word"
  so_done :: bool
  so_workers :: "worker list"

definition start_worker :: "nat \<Rightarrow> worker" where
  "start_worker lane = \<lparr> wk_pc = Loading, wk_counter = of_nat lane \<rparr>"

definition solver_init :: "nat \<Rightarrow> solver" where
  "solver_init workers =
     \<lparr> so_found = 0, so_done = False, so_workers = map start_worker [0..<workers] \<rparr>"

text \<open>One atomic step of one worker; \<open>n\<close> is the number of workers, the stride of the scan.\<close>

definition worker_step :: "hashes \<Rightarrow> solver_challenge \<Rightarrow> nat \<Rightarrow> worker \<Rightarrow> solver \<Rightarrow> worker \<times> solver" where
  "worker_step h c n w s =
     (case wk_pc w of
        Loading \<Rightarrow> (w\<lparr> wk_pc := if so_done s then Returned else Hashing \<rparr>, s)
      | Hashing \<Rightarrow>
          (if solves h c (wk_counter w) then (w\<lparr> wk_pc := Storing_found \<rparr>, s)
           else (w\<lparr> wk_pc := Loading, wk_counter := wk_counter w + of_nat n \<rparr>, s))
      | Storing_found \<Rightarrow> (w\<lparr> wk_pc := Storing_done \<rparr>, s\<lparr> so_found := wk_counter w \<rparr>)
      | Storing_done \<Rightarrow> (w\<lparr> wk_pc := Returned \<rparr>, s\<lparr> so_done := True \<rparr>)
      | Returned \<Rightarrow> (w, s))"

definition solver_exec :: "hashes \<Rightarrow> solver_challenge \<Rightarrow> nat \<Rightarrow> solver \<Rightarrow> solver" where
  "solver_exec h c i s =
     (if i < length (so_workers s) then
        (case worker_step h c (length (so_workers s)) (so_workers s ! i) s of
           (w, t) \<Rightarrow> t\<lparr> so_workers := (so_workers s)[i := w] \<rparr>)
      else s)"

definition all_returned :: "solver \<Rightarrow> bool" where
  "all_returned s \<longleftrightarrow> list_all (\<lambda>w. wk_pc w = Returned) (so_workers s)"

text \<open>After \<open>wg.Wait\<close>: \<open>solvedFlag\<close> is the constant false, so a zero \<open>found\<close> is fatal.\<close>

definition solvedFlag :: bool where "solvedFlag = False"

datatype outcome = Fatal string | Redeem string "string list"

definition finish :: "solver_challenge \<Rightarrow> solver \<Rightarrow> outcome" where
  "finish c s =
     (if so_found s = 0 \<and> \<not> solvedFlag then Fatal ''no solution found''
      else Redeem (sv_id c) [pad 10 (unat (so_found s))])"

section \<open>The client computes what the server checks\<close>

lemma solver_lz_loop_eq: "solver_lz_loop bits d = lz_loop bits d"
  by (induction bits d rule: solver_lz_loop.induct) (simp_all split: prod.split)

lemma leadingZeroBits_eq: "leadingZeroBits d = LeadingZeroBits d"
  by (simp add: leadingZeroBits_def LeadingZeroBits_def solver_lz_loop_eq)

definition server_view :: "solver_challenge \<Rightarrow> challenge \<Rightarrow> bool" where
  "server_view c sc \<longleftrightarrow>
     sv_version c = ch_version sc \<and> sv_id c = ch_id sc \<and> sv_resource c = ch_resource sc
       \<and> sv_algo c = ch_algo sc \<and> sv_difficulty c = ch_difficulty sc \<and> sv_salt c = ch_salt sc
       \<and> sv_bind c = ch_bind sc"

lemma solver_preimage_eq: "server_view c sc \<Longrightarrow> solver_preimage c n = Preimage sc (pad 10 (unat n))"
  by (simp add: server_view_def solver_preimage_def Preimage_def)

lemma solver_digest_eq: "server_view c sc \<Longrightarrow> solver_digest h c pre = Digest h sc pre"
  by (simp add: server_view_def solver_digest_def Digest_def AlgoSHA256_def)

lemma length_pad_u64: "0 < length (pad 10 (unat (n :: 64 word))) \<and> length (pad 10 (unat n)) \<le> 20"
  using length_nat_digits_le [of "unat n" 20] unsigned_less [of n, where ?'a = nat] by (simp add: pad_def)

lemma solves_acceptable:
  "server_view c sc \<Longrightarrow> acceptable h sc (pad 10 (unat n)) \<longleftrightarrow> solves h c n"
  using length_pad_u64 [of n]
  by (auto simp: acceptable_def solves_def Satisfies_def leadingZeroBits_eq solver_preimage_eq
      solver_digest_eq server_view_def)

section \<open>Invariant of the workers\<close>

definition worker_ok :: "hashes \<Rightarrow> solver_challenge \<Rightarrow> bool \<Rightarrow> 64 word \<Rightarrow> worker \<Rightarrow> bool" where
  "worker_ok h c dn fnd w \<longleftrightarrow>
     (wk_pc w \<in> {Storing_found, Storing_done} \<longrightarrow> solves h c (wk_counter w))
       \<and> (wk_pc w = Storing_done \<longrightarrow> solves h c fnd)
       \<and> (wk_pc w = Returned \<longrightarrow> dn)"

definition solver_inv :: "hashes \<Rightarrow> solver_challenge \<Rightarrow> nat \<Rightarrow> solver \<Rightarrow> bool" where
  "solver_inv h c n s \<longleftrightarrow>
     length (so_workers s) = n
       \<and> (so_found s \<noteq> 0 \<longrightarrow> solves h c (so_found s))
       \<and> (so_done s \<longrightarrow> solves h c (so_found s))
       \<and> (\<forall>w \<in> set (so_workers s). worker_ok h c (so_done s) (so_found s) w)"

lemma solver_inv_init: "solver_inv h c n (solver_init n)"
  by (auto simp: solver_inv_def solver_init_def start_worker_def worker_ok_def)

definition shared_ok :: "hashes \<Rightarrow> solver_challenge \<Rightarrow> solver \<Rightarrow> bool" where
  "shared_ok h c s \<longleftrightarrow>
     (so_found s \<noteq> 0 \<longrightarrow> solves h c (so_found s))
       \<and> (so_done s \<longrightarrow> solves h c (so_found s))"

lemma solver_inv_shared:
  "solver_inv h c n s \<longleftrightarrow>
     length (so_workers s) = n \<and> shared_ok h c s
       \<and> (\<forall>w \<in> set (so_workers s). worker_ok h c (so_done s) (so_found s) w)"
  by (auto simp: solver_inv_def shared_ok_def)

lemma worker_step_frame [simp]:
  "worker_step h c n w s = (w', t) \<Longrightarrow> so_workers t = so_workers s"
  by (auto simp: worker_step_def split: pc.splits if_splits)

lemma worker_step_shared:
  "worker_step h c n w s = (w', t) \<Longrightarrow> shared_ok h c s
     \<Longrightarrow> worker_ok h c (so_done s) (so_found s) w \<Longrightarrow> shared_ok h c t"
  by (cases "wk_pc w") (auto simp: worker_step_def shared_ok_def worker_ok_def split: if_splits)

lemma worker_step_self:
  "worker_step h c n w s = (w', t) \<Longrightarrow> worker_ok h c (so_done s) (so_found s) w
     \<Longrightarrow> worker_ok h c (so_done t) (so_found t) w'"
  by (cases "wk_pc w") (auto simp: worker_step_def worker_ok_def split: if_splits)

lemma worker_step_others:
  "worker_step h c n w s = (w', t) \<Longrightarrow> worker_ok h c (so_done s) (so_found s) w
     \<Longrightarrow> worker_ok h c (so_done s) (so_found s) v \<Longrightarrow> worker_ok h c (so_done t) (so_found t) v"
  by (cases "wk_pc w") (auto simp: worker_step_def worker_ok_def split: if_splits)

lemma solver_exec_inv:
  assumes inv: "solver_inv h c n s"
  shows "solver_inv h c n (solver_exec h c i s)"
proof (cases "i < length (so_workers s)")
  case False
  with inv show ?thesis by (simp add: solver_exec_def)
next
  case True
  let ?w = "so_workers s ! i"
  obtain w' t where st: "worker_step h c (length (so_workers s)) ?w s = (w', t)" by fastforce
  have all: "\<forall>v \<in> set (so_workers s). worker_ok h c (so_done s) (so_found s) v"
    and sh: "shared_ok h c s" and n: "length (so_workers s) = n"
    using inv by (simp_all add: solver_inv_shared)
  with True have wi: "worker_ok h c (so_done s) (so_found s) ?w" by simp
  have "shared_ok h c (t\<lparr> so_workers := (so_workers s)[i := w'] \<rparr>)"
    using worker_step_shared [OF st sh wi] by (simp add: shared_ok_def)
  moreover have "worker_ok h c (so_done t) (so_found t) v" if "v \<in> set ((so_workers s)[i := w'])" for v
    using set_update_subset_insert [THEN subsetD, OF that] all worker_step_self [OF st wi]
      worker_step_others [OF st wi] by auto
  ultimately show ?thesis using True n by (simp add: solver_exec_def st [unfolded n] solver_inv_shared)
qed

interpretation sv: invariant_ops "solver_exec h c" "solver_inv h c n" for h c n
  by unfold_locales (rule solver_exec_inv)

lemma solver_run_inv: "solver_inv h c n (fold (solver_exec h c) is (solver_init n))"
  by (intro sv.run_inv solver_inv_init)

section \<open>What the client redeems\<close>

text \<open>
  C17: under every interleaving of the workers' atomic steps, once all workers have
  returned and the shared result is not 0, the client redeems exactly one counter, and the
  server's \<open>Verify\<close> accepts it for the challenge it issued: client and server hash the same
  preimage with the same metric, and a racing second store can only replace a solution by a
  solution.
\<close>

theorem solver_redeems_valid:
  assumes "server_view c sc"
    and "s = fold (solver_exec h c) steps (solver_init n)"
    and "all_returned s" "so_found s \<noteq> 0"
  shows "finish c s = Redeem (ch_id sc) [pad 10 (unat (so_found s))]
    \<and> (\<exists>bits. Verify h sc [pad 10 (unat (so_found s))] = Inr bits)"
proof -
  have inv: "solver_inv h c n s" using assms solver_run_inv by simp
  then have sv: "solves h c (so_found s)"
    using assms by (simp_all add: solver_inv_shared shared_ok_def)
  have "acceptable h sc (pad 10 (unat (so_found s)))" using solves_acceptable [OF assms(1)] sv by simp
  then show ?thesis using assms by (simp add: finish_def Verify_find server_view_def)
qed

definition toy_hashes :: hashes where
  "toy_hashes = \<lparr> sha256_sum = (\<lambda>p. if last p = CHR ''1'' then [0, 255] else [255, 255]),
     blake3_sum = (\<lambda>p. if last p = CHR ''1'' then [0, 255] else [255, 255]) \<rparr>"

definition sample_solver :: solver_challenge where
  "sample_solver = \<lparr> sv_version = 1, sv_id = ''id'', sv_resource = ''api-key'',
     sv_algo = ''sha256'', sv_difficulty = 3, sv_salt = ''c2FsdA'', sv_bind = ''YmluZA'',
     sv_issued_at = 0, sv_expires_at = 60 \<rparr>"

definition sample_schedule :: "nat list" where
  "sample_schedule = [0, 1, 1, 0, 1, 1, 0, 0]"

theorem solver_redeems_valid_witness:
  "finish sample_solver (fold (solver_exec toy_hashes sample_solver) sample_schedule (solver_init 2))
     = Redeem ''id'' [''0000000001'']"
proof -
  let ?s = "fold (solver_exec toy_hashes sample_solver) sample_schedule (solver_init 2)"
  have v: "server_view sample_solver sample_challenge" by code_simp
  have r: "all_returned ?s" by code_simp
  have f: "so_found ?s = 1" by code_simp
  have p: "pad 10 (unat (1 :: 64 word)) = ''0000000001''" by code_simp
  have i: "ch_id sample_challenge = ''id''" by code_simp
  have nz: "so_found ?s \<noteq> 0" by (subst f) simp
  from solver_redeems_valid [OF v refl r nz]
  have "finish sample_solver ?s = Redeem (ch_id sample_challenge) [pad 10 (unat (so_found ?s))]" ..
  then show ?thesis by (simp only: f p i)
qed

text \<open>
  a run whose only stored solution is the counter 0 ends in the fatal exit although the
  server would accept that counter: the client uses 0 both as "nothing found" and as lane 0's
  first counter.
\<close>

theorem solver_loses_counter_zero:
  assumes "server_view c sc" "solves h c 0"
  shows "(\<exists>bits. Verify h sc [pad 10 0] = Inr bits)
    \<and> all_returned (fold (solver_exec h c) [0, 0, 0, 0] (solver_init 1))
    \<and> finish c (fold (solver_exec h c) [0, 0, 0, 0] (solver_init 1)) = Fatal ''no solution found''"
proof -
  have "acceptable h sc (pad 10 0)" using solves_acceptable [OF assms(1), where n = 0] assms by simp
  then have "\<exists>bits. Verify h sc [pad 10 0] = Inr bits" by (simp add: Verify_find)
  moreover have "fold (solver_exec h c) [0, 0, 0, 0] (solver_init 1) =
      \<lparr> so_found = 0, so_done = True, so_workers = [\<lparr> wk_pc = Returned, wk_counter = 0 \<rparr>] \<rparr>"
    using assms by (simp add: solver_exec_def worker_step_def solver_init_def start_worker_def)
  ultimately show ?thesis by (simp add: all_returned_def finish_def solvedFlag_def)
qed

theorem solver_loses_counter_zero_witness:
  "finish (sample_solver\<lparr> sv_difficulty := 0 \<rparr>)
     (fold (solver_exec toy_hashes (sample_solver\<lparr> sv_difficulty := 0 \<rparr>)) [0, 0, 0, 0] (solver_init 1))
     = Fatal ''no solution found''"
proof -
  let ?c = "sample_solver\<lparr> sv_difficulty := 0 \<rparr>"
  have v: "server_view ?c (sample_challenge\<lparr> ch_difficulty := 0 \<rparr>)" by code_simp
  have z: "solves toy_hashes ?c 0" by (simp add: solves_def)
  from solver_loses_counter_zero [OF v z] show ?thesis by blast
qed

end
