(* ===== verification/Go_Duration.thy ===== *)
theory Go_Duration
  imports Go_Std
begin

text \<open>
  \<open>time.ParseDuration\<close> of Go's standard library, which the configuration reads every duration
  with: an optional sign, then number-and-unit terms such as \<open>1h30m\<close> or \<open>1.5s\<close>, summed in
  \<open>uint64\<close> nanoseconds with the library's overflow checks. \<open>None\<close> is the error.
\<close>

fun leading_int :: "int \<Rightarrow> string \<Rightarrow> (int \<times> string) option" where
  "leading_int x [] = Some (x, [])"
| "leading_int x (c # cs) =
     (if \<not> is_digit c then Some (x, c # cs)
      else if x > 2 ^ 63 div 10 then None
      else let y = x * 10 + int (digit_val c) in if y > 2 ^ 63 then None else leading_int y cs)"

text \<open>The fraction's digits, with its scale; further digits are dropped once it would overflow.\<close>

fun leading_fraction :: "int \<Rightarrow> int \<Rightarrow> bool \<Rightarrow> string \<Rightarrow> int \<times> int \<times> string" where
  "leading_fraction x scale ovf [] = (x, scale, [])"
| "leading_fraction x scale ovf (c # cs) =
     (if \<not> is_digit c then (x, scale, c # cs)
      else if ovf then leading_fraction x scale True cs
      else if x > (2 ^ 63 - 1) div 10 then leading_fraction x scale True cs
      else let y = x * 10 + int (digit_val c)
           in if y > 2 ^ 63 then leading_fraction x scale True cs
              else leading_fraction y (scale * 10) False cs)"

definition unit_map :: "string \<Rightarrow> int option" where
  "unit_map u = map_of
     [(''ns'', 1), (''us'', 1000), ([CHR 0xC2, CHR 0xB5, CHR ''s''], 1000),
      ([CHR 0xCE, CHR 0xBC, CHR ''s''], 1000), (''ms'', Millisecond), (''s'', Second),
      (''m'', Minute), (''h'', Hour)] u"

text \<open>One term: its value in nanoseconds and the rest of the input.\<close>

definition parse_term :: "string \<Rightarrow> (int \<times> string) option" where
  "parse_term s =
     (if s = [] \<or> \<not> (hd s = CHR ''.'' \<or> is_digit (hd s)) then None
      else case leading_int 0 s of
        None \<Rightarrow> None
      | Some (v, s1) \<Rightarrow>
          let pre = length s1 \<noteq> length s;
              (f, scale, s2, post) =
                (if s1 \<noteq> [] \<and> hd s1 = CHR ''.'' then
                   (case leading_fraction 0 1 False (tl s1) of
                      (f, scale, r) \<Rightarrow> (f, scale, r, length r \<noteq> length (tl s1)))
                 else (0, 1, s1, False));
              u = takeWhile (\<lambda>c. \<not> (c = CHR ''.'' \<or> is_digit c)) s2;
              s3 = drop (length u) s2
          in if \<not> pre \<and> \<not> post then None
             else if u = [] then None
             else case unit_map u of
               None \<Rightarrow> None
             | Some unit \<Rightarrow>
                 if v > 2 ^ 63 div unit then None
                 else let v = v * unit;
                          v = (if f > 0 then
                                 v + trunc (rnd (of_int f * rnd (of_int unit / of_int scale)))
                               else v)
                      in if v > 2 ^ 63 then None else Some (v, s3))"

lemma leading_int_le: "leading_int x s = Some (v, r) \<Longrightarrow> length r \<le> length s"
  by (induction x s rule: leading_int.induct) (auto simp: Let_def split: if_splits)

lemma leading_fraction_le: "leading_fraction x sc ov s = (f, sc', r) \<Longrightarrow> length r \<le> length s"
  by (induction x sc ov s rule: leading_fraction.induct) (fastforce simp: Let_def split: if_splits)+

lemma parse_term_shorter: "parse_term s = Some (v, r) \<Longrightarrow> length r < length s"
proof -
  assume p: "parse_term s = Some (v, r)"
  then obtain w s1 where s1: "leading_int 0 s = Some (w, s1)"
    by (auto simp: parse_term_def split: if_splits option.splits)
  define s2 where "s2 = (if s1 \<noteq> [] \<and> hd s1 = CHR ''.'' then
      snd (snd (leading_fraction 0 1 False (tl s1))) else s1)"
  define u where "u = takeWhile (\<lambda>c. \<not> (c = CHR ''.'' \<or> is_digit c)) s2"
  have "length s1 \<le> length s" using leading_int_le [OF s1] .
  moreover have "length s2 \<le> length s1"
    using leading_fraction_le [of 0 1 False "tl s1"]
    by (cases "leading_fraction 0 1 False (tl s1)") (auto simp: s2_def)
  moreover have "u \<noteq> [] \<and> r = drop (length u) s2"
    using p s1 by (auto simp: parse_term_def u_def s2_def Let_def split: if_splits option.splits prod.splits)
  moreover then have "0 < length u" "length u \<le> length s2"
    by (auto simp: u_def length_takeWhile_le)
  ultimately show ?thesis by (cases u) auto
qed

function parse_terms :: "int \<Rightarrow> string \<Rightarrow> int option" where
  "parse_terms d s =
     (if s = [] then Some d
      else case parse_term s of
        None \<Rightarrow> None
      | Some (v, r) \<Rightarrow>
          let d = (d + v) mod 2 ^ 64 in if d > 2 ^ 63 then None else parse_terms d r)"
  by pat_completeness auto

termination
  by (relation "measure (\<lambda>(d, s). length s)") (auto dest: parse_term_shorter)

declare parse_terms.simps [simp del]

definition parse_duration :: "string \<Rightarrow> duration option" where
  "parse_duration s0 =
     (let neg = (s0 \<noteq> [] \<and> hd s0 = CHR ''-'');
          s = (if s0 \<noteq> [] \<and> (hd s0 = CHR ''-'' \<or> hd s0 = CHR ''+'') then tl s0 else s0)
      in if s = ''0'' then Some 0
         else if s = [] then None
         else case parse_terms 0 s of
           None \<Rightarrow> None
         | Some d \<Rightarrow>
             if neg then Some (wrap64 (- d)) else if d > 2 ^ 63 - 1 then None else Some d)"

lemma parse_duration_minutes: "parse_duration ''1h30m'' = Some (90 * Minute)"
  by code_simp

lemma parse_duration_fraction: "parse_duration ''1.5s'' = Some (1500 * Millisecond)"
  by code_simp

lemma parse_duration_no_unit: "parse_duration ''30'' = None"
  by code_simp

section \<open>Whole seconds round trip\<close>

lemma digits_val_ge: "digits_val acc s = Some n \<Longrightarrow> acc \<le> n"
proof (induction s arbitrary: acc)
  case Nil
  then show ?case by simp
next
  case (Cons c s)
  then have "10 * acc + digit_val c \<le> n" by (auto split: if_splits)
  then show ?case by simp
qed

lemma leading_int_digits:
  "digits_val acc ds = Some n \<Longrightarrow> int n \<le> 2 ^ 63 \<Longrightarrow> \<not> is_digit c \<Longrightarrow>
     leading_int (int acc) (ds @ c # r) = Some (int n, c # r)"
proof (induction ds arbitrary: acc)
  case Nil
  then show ?case by simp
next
  case (Cons d ds)
  then have d: "is_digit d" and dv: "digits_val (10 * acc + digit_val d) ds = Some n"
    by (auto split: if_splits)
  from digits_val_ge [OF dv] Cons.prems(2) have "10 * int acc + int (digit_val d) \<le> 2 ^ 63" by simp
  with Cons.IH [OF dv Cons.prems(2,3)] d show ?case by (simp add: Let_def algebra_simps)
qed

lemma parse_duration_seconds:
  assumes "int n * Second < 2 ^ 63"
  shows "parse_duration (nat_digits n @ ''s'') = Some (int n * Second)"
proof -
  let ?s = "nat_digits n @ ''s''"
  have n: "int n \<le> 2 ^ 63 div 1000000000" using assms by (simp add: Second_def)
  then have n': "int n \<le> 2 ^ 63" by simp
  have li: "leading_int 0 ?s = Some (int n, ''s'')"
    using leading_int_digits [OF digits_val_nat_digits n', of "CHR ''s''" "[]"]
    by (simp add: is_digit_def)
  have hd: "hd ?s = hd (nat_digits n)" by simp
  have "parse_term ?s = Some (int n * Second, [])"
    using n hd hd_nat_digits [of n] assms
    by (simp add: parse_term_def li unit_map_def is_digit_def Second_def)
  then have "parse_terms 0 ?s = Some (int n * Second)"
    using assms by (simp add: parse_terms.simps [of 0] parse_terms.simps [of _ "[]"] Let_def Second_def)
  moreover have "hd ?s \<noteq> CHR ''-''" "hd ?s \<noteq> CHR ''+''"
    using hd hd_nat_digits [of n] by (auto simp: is_digit_def)
  moreover have "?s \<noteq> ''0''" by (cases "nat_digits n") auto
  ultimately show ?thesis using assms by (simp add: parse_duration_def Let_def Second_def)
qed

end
