(* ===== verification/Config.thy ===== *)
theory Config
  imports Go_Duration
begin

text \<open>
  \<^verbatim>\<open>internal/config/config.go\<close>: the configuration record (built in groups by record extension,
  one field per field of \<open>Config\<close>), its defaults, the environment overrides, validation, and the
  two list parsers. The environment is a function from names to values (unset is the empty
  string, which the code treats alike); the effect of the YAML file, decoded by a third-party
  package, is a parameter of \<open>Load\<close>. \<open>strings.EqualFold\<close> is modelled on ASCII.
\<close>

section \<open>The configuration\<close>

record upstream_config =
  ListenAddr :: string
  UpstreamBaseURL :: string
  UpstreamAPIKey :: string
  UpstreamProvider :: string
  OpenCodeServerURL :: string
  OpenCodeServerPassword :: string
  OpenCodeProviderID :: string
  OpenCodeModel :: string
  OpenCodeCLIModel :: string
  OpenCodeCLIProviderEnv :: string
  OpenCodeCLIArgs :: "string list"
  OpenCodeCLIModels :: "string list"

record pool_config = upstream_config +
  ProxyPoolSize :: int
  ProxyBasePort :: int
  ProxyIPRotateAttempts :: int
  ProxySOCKS5Addrs :: string

record pow_config = pool_config +
  PowEnabled :: bool
  PowStorePath :: string
  PowChallengeTTL :: duration
  PowKeyTTL :: duration
  PowBaseDifficulty :: int
  PowMinDifficulty :: int
  PowMaxDifficulty :: int
  PowPlan1Difficulty :: int
  PowPlan2Difficulty :: int
  PowPlan3Difficulty :: int
  PowPlan1RPM :: int
  PowPlan2RPM :: int
  PowPlan3RPM :: int
  PowBurstRPS :: int
  PowBurstCooldown :: duration
  PowChallengePerMin :: int
  PowChallengePerDay :: int
  PowAdjustInterval :: duration

record vpn_config = pow_config +
  VPNImage :: string
  CooldownDuration :: duration
  HealthCheckPeriod :: duration
  ResourceCPULimit :: string
  ResourceMemoryLimit :: string
  ProtonVPNUsername :: string
  ProtonVPNPassword :: string
  ProtonVPNAPIBase :: string
  ProtonVPNVpnAPIBase :: string
  ProtonVPNStorePath :: string
  ProtonVPNRegions :: string
  ProtonVPNIPCheckURL :: string
  ProtonVPNSessionCookies :: string
  ProtonVPNAccounts :: string

record retry_config = vpn_config +
  MaxRetries :: int
  RetryBaseDelay :: duration
  RetryMaxDelay :: duration
  RateLimitRetryAfter :: string
  IPBanDuration :: duration
  RateLimitFreshIPWait :: duration
  MaxConcurrent :: int
  StickySessionTTL :: duration
  CORSOrigin :: string
  LogLevel :: string
  LogFormat :: string
  RequestTimeout :: duration
  MetricsDBPath :: string
  ModelPricing :: string
  UpstreamAPIKeys :: "string list"
  GatewayAPIKeys :: "string list"

record config = retry_config +
  WebSearchEnabled :: bool
  WebSearchMaxResults :: int
  WebSearchMaxPages :: int
  WebSearchMaxPageChar :: int
  WebSearchMaxRounds :: int
  SearxngURL :: string
  BraveAPIKey :: string
  ModelFilter :: string

definition DefaultConfig :: config where
  "DefaultConfig =
     \<lparr> ListenAddr = '':8082'', UpstreamBaseURL = ''https://opencode.ai/zen/v1'',
       UpstreamAPIKey = [], UpstreamProvider = ''zen'',
       OpenCodeServerURL = ''http://127.0.0.1:4096'', OpenCodeServerPassword = [],
       OpenCodeProviderID = [], OpenCodeModel = [], OpenCodeCLIModel = [],
       OpenCodeCLIProviderEnv = ''ANTHROPIC_API_KEY'', OpenCodeCLIArgs = [],
       OpenCodeCLIModels = [], ProxyPoolSize = 3, ProxyBasePort = 10801, ProxyIPRotateAttempts = 3,
       ProxySOCKS5Addrs = [], PowEnabled = False, PowStorePath = ''data/pow.db'',
       PowChallengeTTL = 10 * Minute, PowKeyTTL = 7 * 24 * Hour, PowBaseDifficulty = 24,
       PowMinDifficulty = 20, PowMaxDifficulty = 40, PowPlan1Difficulty = 0,
       PowPlan2Difficulty = 4, PowPlan3Difficulty = 8, PowPlan1RPM = 100, PowPlan2RPM = 250,
       PowPlan3RPM = 500, PowBurstRPS = 5, PowBurstCooldown = 5 * Minute, PowChallengePerMin = 6,
       PowChallengePerDay = 60, PowAdjustInterval = 30 * Second,
       VPNImage = ''ghcr.io/tprasadtp/protonwire:latest'', CooldownDuration = 5 * Minute,
       HealthCheckPeriod = 30 * Second, ResourceCPULimit = ''0.25'',
       ResourceMemoryLimit = ''512M'', ProtonVPNUsername = [], ProtonVPNPassword = [],
       ProtonVPNAPIBase = ''https://account.protonvpn.com'',
       ProtonVPNVpnAPIBase = ''https://vpn-api.proton.me'',
       ProtonVPNStorePath = ''data/protonvpn.db'', ProtonVPNRegions = ''NL,US,JP,DE'',
       ProtonVPNIPCheckURL = ''https://icanhazip.com/'', ProtonVPNSessionCookies = [],
       ProtonVPNAccounts = [], MaxRetries = 3, RetryBaseDelay = 1 * Second,
       RetryMaxDelay = 30 * Second, RateLimitRetryAfter = ''60'', IPBanDuration = 10 * Minute,
       RateLimitFreshIPWait = 90 * Second, MaxConcurrent = 100, StickySessionTTL = 10 * Minute,
       CORSOrigin = ''*'', LogLevel = ''info'', LogFormat = ''json'', RequestTimeout = 60 * Second,
       MetricsDBPath = ''data/metrics.db'',
       ModelPricing = ''gpt-4o:2.50,10.00,1.25;gpt-4o-mini:0.15,0.60,0.075;gpt-4-turbo:10.00,30.00,5.00;gpt-3.5-turbo:0.50,1.50,0.25;claude-3-5-sonnet:3.00,15.00,1.50;claude-3-5-haiku:0.25,1.25,0.125'',
       UpstreamAPIKeys = [], GatewayAPIKeys = [], WebSearchEnabled = True, WebSearchMaxResults = 5,
       WebSearchMaxPages = 2, WebSearchMaxPageChar = 6000, WebSearchMaxRounds = 3, SearxngURL = [],
       BraveAPIKey = [], ModelFilter = ''-free'' \<rparr>"

section \<open>Environment overrides\<close>

definition run_all :: "('a \<Rightarrow> 'a) list \<Rightarrow> 'a \<Rightarrow> 'a" where
  "run_all fs c = foldl (\<lambda>x f. f x) c fs"

definition equal_fold :: "string \<Rightarrow> string \<Rightarrow> bool" where
  "equal_fold a b \<longleftrightarrow> to_lower a = to_lower b"

definition env_string ::
  "(string \<Rightarrow> string) \<Rightarrow> string \<Rightarrow> ((string \<Rightarrow> string) \<Rightarrow> config \<Rightarrow> config) \<Rightarrow> config \<Rightarrow> config" where
  "env_string env name upd c = (let v = env name in if v \<noteq> [] then upd (\<lambda>_. v) c else c)"

definition env_int ::
  "(string \<Rightarrow> string) \<Rightarrow> string \<Rightarrow> ((int \<Rightarrow> int) \<Rightarrow> config \<Rightarrow> config) \<Rightarrow> config \<Rightarrow> config" where
  "env_int env name upd c =
     (let v = env name
      in if v \<noteq> [] then (case atoi v of Some i \<Rightarrow> upd (\<lambda>_. i) c | None \<Rightarrow> c) else c)"

definition env_duration ::
  "(string \<Rightarrow> string) \<Rightarrow> string \<Rightarrow> ((duration \<Rightarrow> duration) \<Rightarrow> config \<Rightarrow> config) \<Rightarrow> config \<Rightarrow> config" where
  "env_duration env name upd c =
     (let v = env name
      in if v \<noteq> [] then (case parse_duration v of Some d \<Rightarrow> upd (\<lambda>_. d) c | None \<Rightarrow> c) else c)"

definition env_bool ::
  "(string \<Rightarrow> string) \<Rightarrow> string \<Rightarrow> ((bool \<Rightarrow> bool) \<Rightarrow> config \<Rightarrow> config) \<Rightarrow> config \<Rightarrow> config" where
  "env_bool env name upd c =
     (let v = env name
      in if v \<noteq> [] then upd (\<lambda>_. equal_fold v ''true'' \<or> v = ''1'' \<or> equal_fold v ''yes'') c else c)"

definition trimmed_parts :: "char \<Rightarrow> string \<Rightarrow> string list" where
  "trimmed_parts sep v = filter (\<lambda>w. w \<noteq> []) (map trim_space (split_on sep v))"

definition env_list ::
  "(string \<Rightarrow> string) \<Rightarrow> char \<Rightarrow> string \<Rightarrow> ((string list \<Rightarrow> string list) \<Rightarrow> config \<Rightarrow> config)
     \<Rightarrow> config \<Rightarrow> config" where
  "env_list env sep name upd c =
     (let v = env name in if v \<noteq> [] then upd (\<lambda>xs. xs @ trimmed_parts sep v) c else c)"

definition env_upstream :: "(string \<Rightarrow> string) \<Rightarrow> config \<Rightarrow> config" where
  "env_upstream env = run_all
     [env_string env ''LISTEN_ADDR'' ListenAddr_update,
      env_string env ''UPSTREAM_BASE_URL'' UpstreamBaseURL_update,
      env_string env ''UPSTREAM_API_KEY'' UpstreamAPIKey_update,
      env_string env ''UPSTREAM_PROVIDER'' UpstreamProvider_update,
      env_string env ''OPENCODE_SERVER_URL'' OpenCodeServerURL_update,
      env_string env ''OPENCODE_SERVER_PASSWORD'' OpenCodeServerPassword_update,
      env_string env ''OPENCODE_PROVIDER_ID'' OpenCodeProviderID_update,
      env_string env ''OPENCODE_MODEL'' OpenCodeModel_update,
      env_string env ''OPENCODE_CLI_MODEL'' OpenCodeCLIModel_update,
      env_string env ''OPENCODE_CLI_PROVIDER_ENV'' OpenCodeCLIProviderEnv_update,
      env_list env CHR '' '' ''OPENCODE_CLI_ARGS'' OpenCodeCLIArgs_update,
      env_list env CHR '','' ''OPENCODE_CLI_MODELS'' OpenCodeCLIModels_update,
      env_list env CHR '','' ''UPSTREAM_API_KEYS'' UpstreamAPIKeys_update,
      env_list env CHR '','' ''GATEWAY_API_KEYS'' GatewayAPIKeys_update]"

definition env_websearch :: "(string \<Rightarrow> string) \<Rightarrow> config \<Rightarrow> config" where
  "env_websearch env = run_all
     [env_bool env ''WEB_SEARCH_ENABLED'' WebSearchEnabled_update,
      env_int env ''WEB_SEARCH_MAX_RESULTS'' WebSearchMaxResults_update,
      env_int env ''WEB_SEARCH_MAX_PAGES'' WebSearchMaxPages_update,
      env_int env ''WEB_SEARCH_MAX_PAGE_CHARS'' WebSearchMaxPageChar_update,
      env_int env ''WEB_SEARCH_MAX_ROUNDS'' WebSearchMaxRounds_update,
      env_string env ''SEARXNG_URL'' SearxngURL_update,
      env_string env ''BRAVE_API_KEY'' BraveAPIKey_update]"

definition env_pool :: "(string \<Rightarrow> string) \<Rightarrow> config \<Rightarrow> config" where
  "env_pool env = run_all
     [env_int env ''PROXY_POOL_SIZE'' ProxyPoolSize_update,
      env_int env ''PROXY_BASE_PORT'' ProxyBasePort_update,
      env_int env ''PROXY_IP_ROTATE_ATTEMPTS'' ProxyIPRotateAttempts_update]"

definition env_pow :: "(string \<Rightarrow> string) \<Rightarrow> config \<Rightarrow> config" where
  "env_pow env = run_all
     [env_bool env ''POW_ENABLED'' PowEnabled_update,
      env_string env ''POW_STORE_PATH'' PowStorePath_update,
      env_duration env ''POW_CHALLENGE_TTL'' PowChallengeTTL_update,
      env_duration env ''POW_KEY_TTL'' PowKeyTTL_update,
      env_int env ''POW_BASE_DIFFICULTY'' PowBaseDifficulty_update,
      env_int env ''POW_MIN_DIFFICULTY'' PowMinDifficulty_update,
      env_int env ''POW_MAX_DIFFICULTY'' PowMaxDifficulty_update,
      env_int env ''POW_PLAN1_DIFFICULTY'' PowPlan1Difficulty_update,
      env_int env ''POW_PLAN2_DIFFICULTY'' PowPlan2Difficulty_update,
      env_int env ''POW_PLAN3_DIFFICULTY'' PowPlan3Difficulty_update,
      env_int env ''POW_PLAN1_RPM'' PowPlan1RPM_update,
      env_int env ''POW_PLAN2_RPM'' PowPlan2RPM_update,
      env_int env ''POW_PLAN3_RPM'' PowPlan3RPM_update,
      env_int env ''POW_BURST_RPS'' PowBurstRPS_update,
      env_duration env ''POW_BURST_COOLDOWN'' PowBurstCooldown_update,
      env_int env ''POW_CHALLENGE_RATE_PER_MIN'' PowChallengePerMin_update,
      env_int env ''POW_CHALLENGE_RATE_PER_DAY'' PowChallengePerDay_update,
      env_duration env ''POW_ADJUST_INTERVAL'' PowAdjustInterval_update]"

definition env_vpn :: "(string \<Rightarrow> string) \<Rightarrow> config \<Rightarrow> config" where
  "env_vpn env = run_all
     [env_string env ''WARP_IMAGE'' VPNImage_update,
      env_string env ''VPN_IMAGE'' VPNImage_update,
      env_string env ''PROTONVPN_USERNAME'' ProtonVPNUsername_update,
      env_string env ''PROTONVPN_PASSWORD'' ProtonVPNPassword_update,
      env_string env ''PROTONVPN_API_BASE'' ProtonVPNAPIBase_update,
      env_string env ''PROTONVPN_STORE_PATH'' ProtonVPNStorePath_update,
      env_string env ''PROTONVPN_REGIONS'' ProtonVPNRegions_update,
      env_string env ''PROTONVPN_IP_CHECK_URL'' ProtonVPNIPCheckURL_update,
      env_string env ''PROTONVPN_SESSION_COOKIES'' ProtonVPNSessionCookies_update,
      env_string env ''PROTONVPN_ACCOUNTS'' ProtonVPNAccounts_update,
      env_string env ''PROXY_SOCKS5_ADDRS'' ProxySOCKS5Addrs_update]"

definition env_limits :: "(string \<Rightarrow> string) \<Rightarrow> config \<Rightarrow> config" where
  "env_limits env = run_all
     [env_duration env ''RATE_LIMIT_COOLDOWN'' CooldownDuration_update,
      env_duration env ''HEALTH_CHECK_PERIOD'' HealthCheckPeriod_update,
      env_string env ''RESOURCE_CPU_LIMIT'' ResourceCPULimit_update,
      env_string env ''RESOURCE_MEMORY_LIMIT'' ResourceMemoryLimit_update]"

definition env_runtime :: "(string \<Rightarrow> string) \<Rightarrow> config \<Rightarrow> config" where
  "env_runtime env = run_all
     [env_int env ''MAX_RETRIES'' MaxRetries_update,
      env_duration env ''RETRY_BASE_DELAY'' RetryBaseDelay_update,
      env_duration env ''RETRY_MAX_DELAY'' RetryMaxDelay_update,
      env_int env ''MAX_CONCURRENT'' MaxConcurrent_update,
      env_duration env ''STICKY_SESSION_TTL'' StickySessionTTL_update,
      env_string env ''CORS_ORIGIN'' CORSOrigin_update,
      env_string env ''LOG_LEVEL'' LogLevel_update,
      env_string env ''LOG_FORMAT'' LogFormat_update,
      env_duration env ''REQUEST_TIMEOUT'' RequestTimeout_update,
      env_string env ''METRICS_DB_PATH'' MetricsDBPath_update,
      env_string env ''MODEL_PRICING'' ModelPricing_update]"

text \<open>The CLI mode's larger default for the container's memory and CPU.\<close>

definition env_cli_resources :: "(string \<Rightarrow> string) \<Rightarrow> config \<Rightarrow> config" where
  "env_cli_resources env c =
     (if UpstreamProvider c = ''opencode-cli'' \<and> env ''RESOURCE_MEMORY_LIMIT'' = []
      then c\<lparr> ResourceMemoryLimit := ''2G'', ResourceCPULimit := ''1.0'' \<rparr> else c)"

definition applyEnvOverrides :: "(string \<Rightarrow> string) \<Rightarrow> config \<Rightarrow> config" where
  "applyEnvOverrides env =
     run_all [env_upstream env, env_websearch env, env_pool env, env_pow env, env_vpn env,
       env_limits env, env_cli_resources env, env_runtime env]"

section \<open>Validation\<close>

definition known_provider :: "string \<Rightarrow> bool" where
  "known_provider p \<longleftrightarrow> p = ''zen'' \<or> p = ''opencode'' \<or> p = ''opencode-cli''"

definition known_level :: "string \<Rightarrow> bool" where
  "known_level l \<longleftrightarrow> l = ''debug'' \<or> l = ''info'' \<or> l = ''warn'' \<or> l = ''error''"

definition known_format :: "string \<Rightarrow> bool" where
  "known_format f \<longleftrightarrow> f = ''json'' \<or> f = ''console''"

definition Validate :: "config \<Rightarrow> string + config" where
  "Validate c =
     (if UpstreamBaseURL c = [] then Inl ''UPSTREAM_BASE_URL is required''
      else if ProxyPoolSize c < 1 then Inl ''PROXY_POOL_SIZE must be at least 1''
      else if ProxyPoolSize c > 20 then Inl ''PROXY_POOL_SIZE cannot exceed 20''
      else if ProxyBasePort c < 1024 \<or> ProxyBasePort c > 65535
        then Inl ''PROXY_BASE_PORT must be between 1024 and 65535''
      else if MaxRetries c < 0 then Inl ''MAX_RETRIES cannot be negative''
      else if MaxRetries c > 10 then Inl ''MAX_RETRIES cannot exceed 10''
      else if MaxConcurrent c < 1 then Inl ''MAX_CONCURRENT must be at least 1''
      else if MaxConcurrent c > 10000 then Inl ''MAX_CONCURRENT cannot exceed 10000''
      else if RequestTimeout c < 1 * Second then Inl ''REQUEST_TIMEOUT must be at least 1s''
      else if HealthCheckPeriod c < 5 * Second then Inl ''HEALTH_CHECK_PERIOD must be at least 5s''
      else if CooldownDuration c < 1 * Minute then Inl ''RATE_LIMIT_COOLDOWN must be at least 1m''
      else if IPBanDuration c < 1 * Minute then Inl ''IP_BAN_DURATION must be at least 1m''
      else if RateLimitFreshIPWait c < 10 * Second
        then Inl ''RATE_LIMIT_FRESH_IP_WAIT must be at least 10s''
      else if RetryBaseDelay c > RetryMaxDelay c
        then Inl ''RETRY_BASE_DELAY must be less than RETRY_MAX_DELAY''
      else
        let provider = (if UpstreamProvider c = [] then ''zen'' else UpstreamProvider c);
            level = (if LogLevel c = [] then ''info'' else LogLevel c);
            fmt = (if LogFormat c = [] then ''json'' else LogFormat c)
        in if \<not> known_provider provider
             then Inl ''UPSTREAM_PROVIDER must be one of: zen, opencode, opencode-cli''
           else if \<not> known_level level
             then Inl ''LOG_LEVEL must be one of: debug, info, warn, error''
           else if \<not> known_format fmt then Inl ''LOG_FORMAT must be one of: json, console''
           else Inr (c\<lparr> UpstreamProvider := provider, LogLevel := level, LogFormat := fmt \<rparr>))"

text \<open>
  \<open>yaml\<close> is the outcome of reading and decoding the file \<open>CONFIG_FILE\<close> names over the defaults.
\<close>

definition Load :: "(string \<Rightarrow> string) \<Rightarrow> (string \<Rightarrow> config \<Rightarrow> string + config) \<Rightarrow> string + config" where
  "Load env yaml =
     (let path = env ''CONFIG_FILE'';
          loaded = (if path \<noteq> [] then yaml path DefaultConfig else Inr DefaultConfig)
      in case loaded of Inl e \<Rightarrow> Inl e | Inr c \<Rightarrow> Validate (applyEnvOverrides env c))"

section \<open>Account and proxy lists\<close>

record vpn_account =
  acct_username :: string
  acct_password :: string
  acct_cookies :: string

definition parse_account :: "string \<Rightarrow> vpn_account option" where
  "parse_account part =
     (let pair = trim_space part
      in case index_byte pair CHR '':'' of
           None \<Rightarrow> None
         | Some i \<Rightarrow> Some \<lparr> acct_username = trim_space (take i pair),
                            acct_password = trim_space (drop (i + 1) pair), acct_cookies = [] \<rparr>)"

definition ParseProtonVPNAccounts :: "config \<Rightarrow> vpn_account list" where
  "ParseProtonVPNAccounts c =
     (let accounts = (if ProtonVPNAccounts c \<noteq> [] then
            List.map_filter parse_account (split_on CHR '','' (ProtonVPNAccounts c)) else [])
      in if accounts \<noteq> [] then accounts
         else if ProtonVPNUsername c \<noteq> [] then
           [\<lparr> acct_username = ProtonVPNUsername c, acct_password = ProtonVPNPassword c,
              acct_cookies = [] \<rparr>]
         else [])"

definition ParseSOCKS5Addrs :: "config \<Rightarrow> string list" where
  "ParseSOCKS5Addrs c =
     (if ProxySOCKS5Addrs c = [] then [] else trimmed_parts CHR '','' (ProxySOCKS5Addrs c))"

section \<open>Properties\<close>

lemma DefaultConfig_valid: "Validate DefaultConfig = Inr DefaultConfig"
  by (simp add: Validate_def DefaultConfig_def known_provider_def known_level_def known_format_def go_simps)

lemma env_string_unset [simp]: "env n = [] \<Longrightarrow> env_string env n u c = c"
  by (simp add: env_string_def)

lemma env_int_unset [simp]: "env n = [] \<Longrightarrow> env_int env n u c = c"
  by (simp add: env_int_def)

lemma env_duration_unset [simp]: "env n = [] \<Longrightarrow> env_duration env n u c = c"
  by (simp add: env_duration_def)

lemma env_bool_unset [simp]: "env n = [] \<Longrightarrow> env_bool env n u c = c"
  by (simp add: env_bool_def)

lemma env_list_unset [simp]: "env n = [] \<Longrightarrow> env_list env sep n u c = c"
  by (simp add: env_list_def)

lemmas env_groups =
  env_upstream_def env_websearch_def env_pool_def env_pow_def env_vpn_def env_limits_def
  env_runtime_def

lemma env_string_other [simp]: "m \<noteq> n \<Longrightarrow> env_string (env(m := v)) n = env_string env n"
  by (simp add: env_string_def fun_eq_iff)

lemma env_int_other [simp]: "m \<noteq> n \<Longrightarrow> env_int (env(m := v)) n = env_int env n"
  by (simp add: env_int_def fun_eq_iff)

lemma env_duration_other [simp]: "m \<noteq> n \<Longrightarrow> env_duration (env(m := v)) n = env_duration env n"
  by (simp add: env_duration_def fun_eq_iff)

lemma env_bool_other [simp]: "m \<noteq> n \<Longrightarrow> env_bool (env(m := v)) n = env_bool env n"
  by (simp add: env_bool_def fun_eq_iff)

lemma env_cli_other [simp]:
  "m \<noteq> ''RESOURCE_MEMORY_LIMIT'' \<Longrightarrow> env_cli_resources (env(m := v)) = env_cli_resources env"
  by (simp add: env_cli_resources_def fun_eq_iff)

lemma env_list_other [simp]: "m \<noteq> n \<Longrightarrow> env_list (env(m := v)) sep n = env_list env sep n"
  by (simp add: env_list_def fun_eq_iff)

lemma applyEnvOverrides_unset:
  "UpstreamProvider c \<noteq> ''opencode-cli'' \<Longrightarrow> applyEnvOverrides (\<lambda>_. []) c = c"
  by (simp add: applyEnvOverrides_def run_all_def env_groups env_cli_resources_def)

text \<open>
  with an empty environment and no configuration file the gateway starts, and with exactly
  the documented defaults: they pass their own validation unchanged.
\<close>

theorem Load_defaults: "Load (\<lambda>_. []) yaml = Inr DefaultConfig"
proof -
  have "UpstreamProvider DefaultConfig = ''zen''" by (simp add: DefaultConfig_def)
  then show ?thesis by (simp add: Load_def applyEnvOverrides_unset DefaultConfig_valid)
qed

text \<open>
  whatever the file and the environment say, a configuration that \<open>Load\<close> returns has a
  pool of 1 to 20 proxies, at most 10 retries, at least one concurrent request, a ban of at
  least a minute, a base delay no longer than the maximal one, and a known upstream driver; the
  components below rely on these bounds.
\<close>

theorem Load_bounds:
  assumes "Load env yaml = Inr c"
  shows "1 \<le> ProxyPoolSize c \<and> ProxyPoolSize c \<le> 20 \<and> 0 \<le> MaxRetries c \<and> MaxRetries c \<le> 10
    \<and> 1 \<le> MaxConcurrent c \<and> MaxConcurrent c \<le> 10000 \<and> Minute \<le> IPBanDuration c
    \<and> Minute \<le> CooldownDuration c \<and> RetryBaseDelay c \<le> RetryMaxDelay c
    \<and> known_provider (UpstreamProvider c)"
proof -
  obtain d where "Validate d = Inr c"
    using assms by (auto simp: Load_def Let_def split: sum.splits)
  then show ?thesis by (simp add: Validate_def Let_def split: if_split_asm) (safe, simp_all add: not_less)
qed

theorem Load_bounds_witness:
  "ProxyPoolSize (DefaultConfig\<lparr> MaxRetries := 7 \<rparr>) \<le> 20
     \<and> Load (\<lambda>_. []) (\<lambda>_ c. Inr c) = Inr DefaultConfig"
proof -
  let ?env = "(\<lambda>_. [])(''CONFIG_FILE'' := ''gw.yaml'')"
  let ?c = "DefaultConfig\<lparr> MaxRetries := 7 \<rparr>"
  have "UpstreamProvider ?c \<noteq> ''opencode-cli''" by (simp add: DefaultConfig_def)
  then have "applyEnvOverrides ?env ?c = ?c"
    by (simp add: applyEnvOverrides_def run_all_def env_groups env_cli_resources_def)
  moreover have "Validate ?c = Inr ?c"
    by (simp add: Validate_def DefaultConfig_def known_provider_def known_level_def known_format_def go_simps)
  ultimately have "Load ?env (\<lambda>_ c. Inr (c\<lparr> MaxRetries := 7 \<rparr>)) = Inr ?c" by (simp add: Load_def)
  from Load_bounds [OF this]
  have "ProxyPoolSize ?c \<le> 20" by blast
  moreover have "UpstreamProvider DefaultConfig = ''zen''" by (simp add: DefaultConfig_def)
  ultimately show ?thesis by (simp add: Load_def applyEnvOverrides_unset DefaultConfig_valid)
qed

text \<open>
  five documented variables have no effect. Setting \<open>IP_BAN_DURATION\<close>,
  \<open>RATE_LIMIT_FRESH_IP_WAIT\<close>, \<open>RATE_LIMIT_RETRY_AFTER\<close>, \<open>MODEL_FILTER\<close> or
  \<open>PROTONVPN_VPN_API_BASE\<close> to any value leaves every configuration as it is: the fields carry
  an \<open>env\<close> tag, but the overrides never read them.
\<close>

theorem documented_env_ignored:
  "map (\<lambda>n. applyEnvOverrides (env(n := v)) c)
     [''IP_BAN_DURATION'', ''RATE_LIMIT_FRESH_IP_WAIT'', ''RATE_LIMIT_RETRY_AFTER'', ''MODEL_FILTER'',
      ''PROTONVPN_VPN_API_BASE'']
   = replicate 5 (applyEnvOverrides env c)"
  by (simp add: applyEnvOverrides_def env_groups numeral_eq_Suc)

definition account_text :: "vpn_account \<Rightarrow> string" where
  "account_text a = acct_username a @ '':'' @ acct_password a"

definition account_ok :: "vpn_account \<Rightarrow> bool" where
  "account_ok a \<longleftrightarrow>
     clean (acct_username a) \<and> clean (acct_password a) \<and> acct_cookies a = []
       \<and> CHR '','' \<notin> set (account_text a) \<and> CHR '':'' \<notin> set (acct_username a)"

lemma parse_account_text: "account_ok a \<Longrightarrow> parse_account (account_text a) = Some a"
proof -
  assume a: "account_ok a"
  then have "clean (account_text a)" by (simp add: account_ok_def account_text_def clean_def)
  then have t: "trim_space (account_text a) = account_text a" by (rule trim_space_clean)
  have "index_byte (account_text a) CHR '':'' = Some (length (acct_username a))"
    using a index_byte_append [of "CHR '':''" "acct_username a" "acct_password a"]
    by (simp add: account_ok_def account_text_def)
  then have "parse_account (account_text a) =
      Some \<lparr> acct_username = trim_space (acct_username a), acct_password = trim_space (acct_password a),
             acct_cookies = [] \<rparr>"
    by (simp only: parse_account_def t Let_def) (simp add: account_text_def)
  with a show ?thesis by (simp add: account_ok_def trim_space_clean)
qed

text \<open>
  the multi-account list round trips: writing accounts as \<open>user:password\<close> separated by
  commas and parsing the variable gives the same accounts in the same order; passwords may
  contain colons.
\<close>

theorem accounts_roundtrip:
  assumes "as \<noteq> []" "list_all account_ok as"
  shows "ParseProtonVPNAccounts (c\<lparr> ProtonVPNAccounts := join '','' (map account_text as) \<rparr>) = as"
proof -
  have free: "\<forall>w \<in> set (map account_text as). CHR '','' \<notin> set w"
    using assms by (auto simp: list_all_iff account_ok_def)
  then have "split_on CHR '','' (join '','' (map account_text as)) = map account_text as"
    using assms by (intro split_on_join) simp_all
  moreover have "List.map_filter parse_account (map account_text as) = as"
    using assms(2) by (induction as) (simp_all add: map_filter_simps parse_account_text)
  moreover have "join '','' (map account_text as) \<noteq> []"
    using assms by (cases as; cases "tl as") (auto simp: account_text_def)
  ultimately show ?thesis using assms by (simp add: ParseProtonVPNAccounts_def)
qed

theorem accounts_roundtrip_witness:
  "ParseProtonVPNAccounts (DefaultConfig\<lparr> ProtonVPNAccounts := ''ann:s3:cret,bob:pw'' \<rparr>)
     = [\<lparr> acct_username = ''ann'', acct_password = ''s3:cret'', acct_cookies = [] \<rparr>,
        \<lparr> acct_username = ''bob'', acct_password = ''pw'', acct_cookies = [] \<rparr>]"
proof -
  let ?as = "[\<lparr> acct_username = ''ann'', acct_password = ''s3:cret'', acct_cookies = [] \<rparr>,
        \<lparr> acct_username = ''bob'', acct_password = ''pw'', acct_cookies = [] \<rparr>]"
  have ok: "list_all account_ok ?as" by code_simp
  have "join '','' (map account_text ?as) = ''ann:s3:cret,bob:pw''" by code_simp
  with accounts_roundtrip [OF _ ok, of DefaultConfig] show ?thesis by simp
qed

end
