(* ===== verification/Pow_Store.thy ===== *)
theory Pow_Store
  imports Pow_Challenge
begin

text \<open>
  \<^verbatim>\<open>internal/pow/store.go\<close>: the SQLite tables of challenges, issued keys and farming penalties,
  each a finite map from its primary key to a row, and one function per store method. A
  statement is atomic. Whether a statement fails (I/O, a locked file) is the environment's
  choice, a \<open>bool\<close> argument; a failed statement changes nothing. Every method that reads the
  clock gets its own reading.
\<close>

section \<open>Rows and tables\<close>

record stored_challenge =
  sc_id :: string
  sc_bind :: string
  sc_plan :: string
  sc_algo :: string
  sc_difficulty :: int
  sc_salt :: string
  sc_issued_at :: int
  sc_expires_at :: int
  sc_used :: bool

record api_key =
  ak_hash :: string
  ak_prefix :: string
  ak_plan :: string
  ak_rpm :: int
  ak_created_at :: int
  ak_expires_at :: int

record key_row =
  kr_key :: api_key
  kr_disabled :: bool

record bonus_row =
  bn_bits :: int
  bn_updated_at :: int

record store =
  st_challenges :: "string \<Rightarrow> stored_challenge option"
  st_keys :: "string \<Rightarrow> key_row option"
  st_bonus :: "string \<Rightarrow> bonus_row option"

definition empty_store :: store where
  "empty_store = \<lparr> st_challenges = Map.empty, st_keys = Map.empty, st_bonus = Map.empty \<rparr>"

datatype db_error = Db_fault | Unique_violation | No_rows

definition ToChallenge :: "stored_challenge \<Rightarrow> challenge" where
  "ToChallenge sc = \<lparr> ch_version = Version, ch_id = sc_id sc, ch_resource = ResourceAPIKey,
     ch_algo = sc_algo sc, ch_difficulty = sc_difficulty sc, ch_salt = sc_salt sc,
     ch_bind = sc_bind sc, ch_issued_at = sc_issued_at sc, ch_expires_at = sc_expires_at sc,
     ch_plan = sc_plan sc \<rparr>"

section \<open>Challenges\<close>

definition InsertChallenge :: "bool \<Rightarrow> stored_challenge \<Rightarrow> store \<Rightarrow> (db_error + unit) \<times> store" where
  "InsertChallenge fault sc s =
     (if fault then (Inl Db_fault, s)
      else if st_challenges s (sc_id sc) \<noteq> None then (Inl Unique_violation, s)
      else (Inr (), s\<lparr> st_challenges := (st_challenges s)(sc_id sc \<mapsto> sc\<lparr> sc_used := False \<rparr>) \<rparr>))"

definition GetChallenge :: "bool \<Rightarrow> string \<Rightarrow> store \<Rightarrow> db_error + stored_challenge option" where
  "GetChallenge fault i s = (if fault then Inl Db_fault else Inr (st_challenges s i))"

definition ConsumeChallenge :: "bool \<Rightarrow> time \<Rightarrow> string \<Rightarrow> store \<Rightarrow> (db_error + bool) \<times> store" where
  "ConsumeChallenge fault now i s =
     (if fault then (Inl Db_fault, s)
      else case st_challenges s i of
        None \<Rightarrow> (Inr False, s)
      | Some sc \<Rightarrow>
          if \<not> sc_used sc \<and> sc_expires_at sc > unix now
          then (Inr True, s\<lparr> st_challenges := (st_challenges s)(i \<mapsto> sc\<lparr> sc_used := True \<rparr>) \<rparr>)
          else (Inr False, s))"

definition keep_rows :: "('r \<Rightarrow> bool) \<Rightarrow> ('k \<Rightarrow> 'r option) \<Rightarrow> 'k \<Rightarrow> 'r option" where
  "keep_rows p m k = (case m k of None \<Rightarrow> None | Some r \<Rightarrow> if p r then Some r else None)"

definition CleanupExpired :: "bool \<Rightarrow> bool \<Rightarrow> time \<Rightarrow> time \<Rightarrow> store \<Rightarrow> (db_error + unit) \<times> store" where
  "CleanupExpired fault1 fault2 now1 now2 s =
     (let cutoff = unix (now1 - 2 * Hour)
      in if fault1 then (Inl Db_fault, s)
         else let s = s\<lparr> st_challenges := keep_rows (\<lambda>r. \<not> sc_expires_at r < cutoff) (st_challenges s) \<rparr>
         in if fault2 then (Inl Db_fault, s)
         else (Inr (), s\<lparr> st_keys := keep_rows
                 (\<lambda>r. \<not> (ak_expires_at (kr_key r) < unix now2 \<or> kr_disabled r)) (st_keys s) \<rparr>))"

section \<open>Keys\<close>

definition InsertAPIKey :: "bool \<Rightarrow> api_key \<Rightarrow> store \<Rightarrow> (db_error + unit) \<times> store" where
  "InsertAPIKey fault k s =
     (if fault then (Inl Db_fault, s)
      else if st_keys s (ak_hash k) \<noteq> None then (Inl Unique_violation, s)
      else (Inr (), s\<lparr> st_keys := (st_keys s)(ak_hash k \<mapsto> \<lparr> kr_key = k, kr_disabled = False \<rparr>) \<rparr>))"

definition live_row :: "int \<Rightarrow> key_row \<Rightarrow> bool" where
  "live_row t r \<longleftrightarrow> \<not> kr_disabled r \<and> ak_expires_at (kr_key r) > t"

definition GetAPIKey :: "bool \<Rightarrow> time \<Rightarrow> string \<Rightarrow> store \<Rightarrow> db_error + api_key option" where
  "GetAPIKey fault now h s =
     (if fault then Inl Db_fault
      else Inr (map_option kr_key (keep_rows (live_row (unix now)) (st_keys s) h)))"

text \<open>The rows of \<open>ListAPIKeys\<close> come in no specified order: they are given by their hashes.\<close>

definition ListAPIKeys :: "bool \<Rightarrow> time \<Rightarrow> store \<Rightarrow> db_error + (string \<Rightarrow> api_key option)" where
  "ListAPIKeys fault now s =
     (if fault then Inl Db_fault
      else Inr (\<lambda>h. map_option kr_key (keep_rows (live_row (unix now)) (st_keys s) h)))"

section \<open>Farming penalties\<close>

definition BumpIPBonus :: "bool \<Rightarrow> bool \<Rightarrow> time \<Rightarrow> string \<Rightarrow> int \<Rightarrow> store \<Rightarrow> (db_error + int) \<times> store" where
  "BumpIPBonus fault1 fault2 now h mx s =
     (if fault1 then (Inl Db_fault, s)
      else
        let row = (case st_bonus s h of
                     None \<Rightarrow> \<lparr> bn_bits = 1, bn_updated_at = unix now \<rparr>
                   | Some r \<Rightarrow> \<lparr> bn_bits = min (bn_bits r + 1) mx, bn_updated_at = unix now \<rparr>);
            s = s\<lparr> st_bonus := (st_bonus s)(h \<mapsto> row) \<rparr>
        in if fault2 then (Inl Db_fault, s)
           else (case st_bonus s h of None \<Rightarrow> (Inl No_rows, s) | Some r \<Rightarrow> (Inr (bn_bits r), s)))"

definition IPBonus :: "bool \<Rightarrow> time \<Rightarrow> string \<Rightarrow> store \<Rightarrow> int" where
  "IPBonus fault now h s =
     (if fault then 0
      else case st_bonus s h of
        None \<Rightarrow> 0
      | Some r \<Rightarrow> if bn_updated_at r > unix (now - 24 * Hour) then bn_bits r else 0)"

section \<open>Frames\<close>

lemma InsertChallenge_frame [frame_simps]:
  "st_keys (snd (InsertChallenge f sc s)) = st_keys s"
  "st_bonus (snd (InsertChallenge f sc s)) = st_bonus s"
  by (simp_all add: InsertChallenge_def)

lemma ConsumeChallenge_frame [frame_simps]:
  "st_keys (snd (ConsumeChallenge f now i s)) = st_keys s"
  "st_bonus (snd (ConsumeChallenge f now i s)) = st_bonus s"
  by (simp_all add: ConsumeChallenge_def split: option.split)

lemma CleanupExpired_frame [frame_simps]:
  "st_bonus (snd (CleanupExpired f1 f2 t1 t2 s)) = st_bonus s"
  by (simp add: CleanupExpired_def Let_def)

lemma InsertAPIKey_frame [frame_simps]:
  "st_challenges (snd (InsertAPIKey f k s)) = st_challenges s"
  "st_bonus (snd (InsertAPIKey f k s)) = st_bonus s"
  by (simp_all add: InsertAPIKey_def)

lemma BumpIPBonus_frame [frame_simps]:
  "st_challenges (snd (BumpIPBonus f1 f2 now h mx s)) = st_challenges s"
  "st_keys (snd (BumpIPBonus f1 f2 now h mx s)) = st_keys s"
  by (simp_all add: BumpIPBonus_def Let_def)

section \<open>The contract of single use\<close>

text \<open>
  What a redemption relies on: some operations consume a token, some mint one, a success needs
  a live token and kills it, and nothing but minting the same token makes it live. Then a token
  that is not minted again is consumed at most once, whatever else happens in between.
\<close>

locale single_use =
  fixes exec :: "'op \<Rightarrow> 's \<Rightarrow> bool \<times> 's"
    and consumes :: "'op \<Rightarrow> 'id option" and mints :: "'op \<Rightarrow> 'id option"
    and live :: "'s \<Rightarrow> 'id \<Rightarrow> bool" and good :: "'s \<Rightarrow> bool"
  assumes success:
      "good s \<Longrightarrow> exec op s = (True, t) \<Longrightarrow> consumes op = Some i \<Longrightarrow> live s i \<and> \<not> live t i"
    and no_revival: "good s \<Longrightarrow> \<not> live s i \<Longrightarrow> mints op \<noteq> Some i \<Longrightarrow> \<not> live (snd (exec op s)) i"
    and good_step: "good s \<Longrightarrow> good (snd (exec op s))"
begin

fun successes :: "'id \<Rightarrow> 'op list \<Rightarrow> 's \<Rightarrow> nat" where
  "successes i [] s = 0"
| "successes i (op # ops) s =
     (if fst (exec op s) \<and> consumes op = Some i then 1 else 0) + successes i ops (snd (exec op s))"

lemma dead_no_success:
  "good s \<Longrightarrow> \<not> live s i \<Longrightarrow> \<forall>op \<in> set ops. mints op \<noteq> Some i \<Longrightarrow> successes i ops s = 0"
proof (induction ops arbitrary: s)
  case Nil
  then show ?case by simp
next
  case (Cons op ops)
  have "\<not> (fst (exec op s) \<and> consumes op = Some i)"
    using Cons.prems success [of s op "snd (exec op s)" i] by (cases "exec op s") auto
  moreover have "\<not> live (snd (exec op s)) i" using Cons.prems no_revival by simp
  ultimately show ?case using Cons.IH Cons.prems good_step by simp
qed

lemma at_most_once: "good s \<Longrightarrow> \<forall>op \<in> set ops. mints op \<noteq> Some i \<Longrightarrow> successes i ops s \<le> 1"
proof (induction ops arbitrary: s)
  case Nil
  then show ?case by simp
next
  case (Cons op ops)
  show ?case
  proof (cases "fst (exec op s) \<and> consumes op = Some i")
    case True
    then have "\<not> live (snd (exec op s)) i"
      using success [of s op "snd (exec op s)" i] Cons.prems by (cases "exec op s") auto
    then have "successes i ops (snd (exec op s)) = 0"
      using Cons.prems by (intro dead_no_success) (auto intro: good_step)
    then show ?thesis by simp
  next
    case False
    then have "successes i (op # ops) s = successes i ops (snd (exec op s))" by auto
    also have "\<dots> \<le> 1" by (rule Cons.IH) (use Cons.prems good_step in simp_all)
    finally show ?thesis .
  qed
qed

end

datatype store_op =
    Op_insert bool stored_challenge
  | Op_consume bool time string
  | Op_cleanup bool bool time time
  | Op_insert_key bool api_key
  | Op_bump bool bool time string int

fun store_exec :: "store_op \<Rightarrow> store \<Rightarrow> bool \<times> store" where
  "store_exec (Op_insert f sc) s = (False, snd (InsertChallenge f sc s))"
| "store_exec (Op_consume f now i) s =
     (fst (ConsumeChallenge f now i s) = Inr True, snd (ConsumeChallenge f now i s))"
| "store_exec (Op_cleanup f1 f2 t1 t2) s = (False, snd (CleanupExpired f1 f2 t1 t2 s))"
| "store_exec (Op_insert_key f k) s = (False, snd (InsertAPIKey f k s))"
| "store_exec (Op_bump f1 f2 now h mx) s = (False, snd (BumpIPBonus f1 f2 now h mx s))"

definition op_consumes :: "store_op \<Rightarrow> string option" where
  "op_consumes op = (case op of Op_consume _ _ i \<Rightarrow> Some i | _ \<Rightarrow> None)"

definition op_mints :: "store_op \<Rightarrow> string option" where
  "op_mints op = (case op of Op_insert _ sc \<Rightarrow> Some (sc_id sc) | _ \<Rightarrow> None)"

definition unspent :: "store \<Rightarrow> string \<Rightarrow> bool" where
  "unspent s i \<longleftrightarrow> (case st_challenges s i of None \<Rightarrow> False | Some sc \<Rightarrow> \<not> sc_used sc)"

lemma consume_success:
  "ConsumeChallenge f now i s = (Inr True, t) \<Longrightarrow> unspent s i \<and> \<not> unspent t i"
  by (auto simp: ConsumeChallenge_def unspent_def split: if_splits option.splits)

lemma consume_no_revival: "\<not> unspent s i \<Longrightarrow> \<not> unspent (snd (ConsumeChallenge f now j s)) i"
  by (auto simp: ConsumeChallenge_def unspent_def split: if_splits option.splits)

lemma insert_no_revival:
  "\<not> unspent s i \<Longrightarrow> sc_id sc \<noteq> i \<Longrightarrow> \<not> unspent (snd (InsertChallenge f sc s)) i"
  by (auto simp: InsertChallenge_def unspent_def)

lemma cleanup_no_revival: "\<not> unspent s i \<Longrightarrow> \<not> unspent (snd (CleanupExpired f1 f2 t1 t2 s)) i"
  by (auto simp: CleanupExpired_def unspent_def keep_rows_def Let_def split: option.splits)

lemma store_exec_success:
  "store_exec op s = (True, t) \<Longrightarrow> op_consumes op = Some i \<Longrightarrow> unspent s i \<and> \<not> unspent t i"
  by (cases op; cases "ConsumeChallenge f now i s")
    (auto simp: op_consumes_def prod_eq_iff intro!: consume_success)

lemma store_exec_no_revival:
  "\<not> unspent s i \<Longrightarrow> op_mints op \<noteq> Some i \<Longrightarrow> \<not> unspent (snd (store_exec op s)) i"
  by (cases op)
    (auto simp: op_mints_def consume_no_revival insert_no_revival cleanup_no_revival,
     simp_all add: unspent_def frame_simps)

text \<open>Each row is stored under its own primary key.\<close>

definition store_wf :: "store \<Rightarrow> bool" where
  "store_wf s \<longleftrightarrow>
     (\<forall>i sc. st_challenges s i = Some sc \<longrightarrow> sc_id sc = i)
       \<and> (\<forall>h r. st_keys s h = Some r \<longrightarrow> ak_hash (kr_key r) = h)"

lemma InsertChallenge_wf: "store_wf s \<Longrightarrow> store_wf (snd (InsertChallenge f sc s))"
  by (simp add: store_wf_def InsertChallenge_def)

lemma ConsumeChallenge_wf: "store_wf s \<Longrightarrow> store_wf (snd (ConsumeChallenge f now i s))"
  by (simp add: store_wf_def ConsumeChallenge_def split: option.split)

lemma CleanupExpired_wf: "store_wf s \<Longrightarrow> store_wf (snd (CleanupExpired f1 f2 t1 t2 s))"
  by (auto simp: store_wf_def CleanupExpired_def keep_rows_def Let_def split: option.splits if_splits)

lemma InsertAPIKey_wf: "store_wf s \<Longrightarrow> store_wf (snd (InsertAPIKey f k s))"
  by (simp add: store_wf_def InsertAPIKey_def)

lemma BumpIPBonus_wf: "store_wf s \<Longrightarrow> store_wf (snd (BumpIPBonus f1 f2 now h mx s))"
  by (simp add: store_wf_def frame_simps)

lemmas store_wf_intros =
  InsertChallenge_wf ConsumeChallenge_wf CleanupExpired_wf InsertAPIKey_wf BumpIPBonus_wf

lemma store_exec_wf: "store_wf s \<Longrightarrow> store_wf (snd (store_exec op s))"
  by (cases op) (simp_all add: store_wf_intros)

interpretation ps: single_use store_exec op_consumes op_mints unspent store_wf
  by unfold_locales (simp_all add: store_exec_success store_exec_no_revival store_exec_wf)

section \<open>Properties\<close>

fun consumptions :: "string \<Rightarrow> store_op list \<Rightarrow> store \<Rightarrow> nat" where
  "consumptions i [] s = 0"
| "consumptions i (op # ops) s =
     (if fst (store_exec op s) \<and> op_consumes op = Some i then 1 else 0)
       + consumptions i ops (snd (store_exec op s))"

lemma consumptions_successes: "consumptions i ops s = ps.successes i ops s"
  by (induction ops arbitrary: s) simp_all

text \<open>
  a challenge is redeemed at most once. In any sequence of store operations, failing
  statements, clean-ups and other clients' operations included, in which the challenge is not
  minted a second time under the same id, \<open>ConsumeChallenge\<close> reports success for it at most
  once.
\<close>

theorem challenge_single_use:
  assumes "store_wf s" "\<forall>op \<in> set ops. op_mints op \<noteq> Some i"
  shows "consumptions i ops s \<le> 1"
  unfolding consumptions_successes using assms by (rule ps.at_most_once)

definition sample_row :: stored_challenge where
  "sample_row = \<lparr> sc_id = ''id'', sc_bind = ''b'', sc_plan = ''basic'', sc_algo = AlgoSHA256,
     sc_difficulty = 3, sc_salt = ''s'', sc_issued_at = 0, sc_expires_at = 600, sc_used = False \<rparr>"

theorem challenge_single_use_witness:
  "consumptions ''id'' [Op_consume False (5 * Second) ''id'', Op_bump False False 0 ''b'' 8,
       Op_consume False (6 * Second) ''id''] (snd (InsertChallenge False sample_row empty_store)) = 1"
proof -
  let ?ops = "[Op_consume False (5 * Second) ''id'', Op_bump False False 0 ''b'' 8,
       Op_consume False (6 * Second) ''id'']"
  let ?s = "snd (InsertChallenge False sample_row empty_store)"
  have m: "\<forall>op \<in> set ?ops. op_mints op \<noteq> Some ''id''" by (simp add: op_mints_def)
  have "store_wf empty_store" by (simp add: store_wf_def empty_store_def)
  then have "store_wf ?s" by (rule InsertChallenge_wf)
  from challenge_single_use [OF this m]
  have "consumptions ''id'' ?ops ?s \<le> 1" .
  moreover have "1 \<le> consumptions ''id'' ?ops ?s"
    by (simp add: op_consumes_def InsertChallenge_def ConsumeChallenge_def empty_store_def sample_row_def
        unix_def Second_def)
  ultimately show ?thesis by (rule le_antisym)
qed

lemma unix_le_hours: "s \<le> t \<Longrightarrow> unix (s - 2 * Hour) \<le> unix t"
  by (rule unix_mono) (simp add: Hour_def Minute_def Second_def)

lemma Consume_after_cleanup:
  assumes "t1 \<le> t"
  shows "fst (ConsumeChallenge f t i (snd (CleanupExpired f1 f2 t1 t2 s))) = fst (ConsumeChallenge f t i s)"
  using unix_le_hours [OF assms]
  by (auto simp: ConsumeChallenge_def CleanupExpired_def keep_rows_def Let_def split: option.splits)

lemma GetAPIKey_after_cleanup:
  assumes "t2 \<le> t"
  shows "GetAPIKey f t h (snd (CleanupExpired f1 f2 t1 t2 s)) = GetAPIKey f t h s"
  using unix_mono [OF assms]
  by (auto simp: GetAPIKey_def CleanupExpired_def keep_rows_def live_row_def Let_def split: option.splits)

text \<open>
  housekeeping is invisible. A clean-up, complete or cut short by a failing statement,
  changes the answer of no later consumption and of no later key lookup: it deletes only rows
  that could not succeed any more.
\<close>

theorem cleanup_invisible:
  assumes "t1 \<le> t" "t2 \<le> t"
  shows "fst (ConsumeChallenge f t i (snd (CleanupExpired f1 f2 t1 t2 s))) = fst (ConsumeChallenge f t i s)
    \<and> GetAPIKey f t h (snd (CleanupExpired f1 f2 t1 t2 s)) = GetAPIKey f t h s"
  using assms by (simp add: Consume_after_cleanup GetAPIKey_after_cleanup)

theorem cleanup_invisible_witness:
  "fst (ConsumeChallenge False (9000 * Second) ''id''
      (snd (CleanupExpired False False (8000 * Second) (8000 * Second)
        (snd (InsertChallenge False sample_row empty_store))))) = Inr False"
proof -
  have "(8000 :: int) * Second \<le> 9000 * Second" by (simp add: Second_def)
  from cleanup_invisible [OF this this, of False "''id''" False False
      "snd (InsertChallenge False sample_row empty_store)"]
  show ?thesis
    by (simp add: InsertChallenge_def ConsumeChallenge_def empty_store_def sample_row_def
        unix_def Second_def)
qed

text \<open>
  an issued key is found exactly while it lives. After a successful insertion, a lookup
  whose statement works returns the key at every instant before its expiry and nothing from the
  expiry on, and the list that warms the cache at start-up holds the same keys as the lookups.
\<close>

theorem key_lifetime:
  assumes "InsertAPIKey f k s = (Inr (), s')"
  shows "GetAPIKey False t (ak_hash k) s' = Inr (if unix t < ak_expires_at k then Some k else None)
    \<and> (\<exists>m. ListAPIKeys False t s' = Inr m \<and> (\<forall>h. GetAPIKey False t h s' = Inr (m h)))"
  using assms
  by (auto simp: InsertAPIKey_def GetAPIKey_def ListAPIKeys_def keep_rows_def live_row_def
      split: if_splits)

definition sample_key :: api_key where
  "sample_key = \<lparr> ak_hash = ''h'', ak_prefix = ''sk-gw-'', ak_plan = ''pro'', ak_rpm = 500,
     ak_created_at = 0, ak_expires_at = 100 \<rparr>"

theorem key_lifetime_witness:
  "GetAPIKey False (99 * Second) ''h'' (snd (InsertAPIKey False sample_key empty_store)) = Inr (Some sample_key)
    \<and> GetAPIKey False (100 * Second) ''h'' (snd (InsertAPIKey False sample_key empty_store)) = Inr None"
proof -
  have "InsertAPIKey False sample_key empty_store
      = (Inr (), snd (InsertAPIKey False sample_key empty_store))"
    by (simp add: InsertAPIKey_def empty_store_def)
  from key_lifetime [OF this, of "99 * Second"] key_lifetime [OF this, of "100 * Second"]
  show ?thesis by (simp add: sample_key_def unix_def Second_def)
qed

definition bump_at :: "string \<Rightarrow> int \<Rightarrow> time \<Rightarrow> store \<Rightarrow> store" where
  "bump_at h mx t s = snd (BumpIPBonus False False t h mx s)"

lemma bump_at_row:
  "ts \<noteq> [] \<Longrightarrow> 1 \<le> mx \<Longrightarrow> st_bonus s h = None \<Longrightarrow>
     st_bonus (fold (bump_at h mx) ts s) h
       = Some \<lparr> bn_bits = min (int (length ts)) mx, bn_updated_at = unix (last ts) \<rparr>"
proof (induction ts rule: rev_induct)
  case Nil
  then show ?case by simp
next
  case (snoc t ts)
  then show ?case
    by (cases "ts = []") (auto simp: bump_at_def BumpIPBonus_def Let_def)
qed

text \<open>
  the farming penalty counts a client's redemptions, capped: after \<open>n\<close> of them it is
  \<open>min n cap\<close> bits, and it is forgotten as a whole once 24 hours pass without a redemption.
\<close>

theorem bonus_after_redemptions:
  assumes "ts \<noteq> []" "1 \<le> mx"
  shows "IPBonus False now h (fold (bump_at h mx) ts empty_store) =
     (if unix (last ts) > unix (now - 24 * Hour) then min (int (length ts)) mx else 0)"
  using bump_at_row [OF assms, of empty_store h] by (simp add: IPBonus_def empty_store_def)

theorem bonus_after_redemptions_witness:
  "IPBonus False (10 * Second) ''b'' (fold (bump_at ''b'' 2) [1 * Second, 2 * Second, 3 * Second] empty_store) = 2"
proof -
  have "[1 * Second, 2 * Second, 3 * Second] \<noteq> []" "(1 :: int) \<le> 2" by simp_all
  from bonus_after_redemptions [OF this, of "10 * Second" "''b''"]
  show ?thesis by (simp add: unix_def Hour_def Minute_def Second_def)
qed

end
