(* ===== verification/Pow_Difficulty.thy ===== *)
theory Pow_Difficulty
  imports Go_Std
begin

text \<open>
  \<^verbatim>\<open>internal/pow/difficulty.go\<close>: the adaptive base difficulty and the flood escalation. Every
  method runs under one mutex, so a method is one function on the state with one clock reading.
  The exponentially weighted average is computed in rounded \<open>float64\<close> arithmetic (without
  fused multiply-add).
\<close>

record difficulty =
  df_base :: int
  df_min :: int
  df_max :: int
  df_target_min :: rat
  df_target_max :: rat
  df_ewma :: rat
  df_ewma_count :: int
  df_escalation :: int
  df_escalate_until :: time

definition NewDifficulty :: "int \<Rightarrow> int \<Rightarrow> int \<Rightarrow> rat \<Rightarrow> rat \<Rightarrow> difficulty" where
  "NewDifficulty base0 min0 max0 targetMin targetMax =
     (let (mn, mx) = (if min0 > max0 then (max0, min0) else (min0, max0));
          b = (if base0 < mn then mn else base0);
          b = (if b > mx then mx else b)
      in \<lparr> df_base = b, df_min = mn, df_max = mx, df_target_min = targetMin,
           df_target_max = targetMax, df_ewma = 0, df_ewma_count = 0, df_escalation = 0,
           df_escalate_until = zero_time \<rparr>)"

definition Current :: "difficulty \<Rightarrow> int \<Rightarrow> int \<Rightarrow> int" where
  "Current d planBits ipBonus =
     (let total = wrap64 (df_base d + planBits + df_escalation d + ipBonus);
          total = (if total < df_min d then df_min d else total)
      in if total > df_max d then df_max d else total)"

definition Base :: "difficulty \<Rightarrow> int" where
  "Base d = df_base d"

text \<open>The constants \<open>alpha = 0.2\<close> and \<open>1 - alpha\<close>, each rounded once by the compiler.\<close>

definition alpha :: rat where "alpha = rnd (1 / 5)"
definition one_minus_alpha :: rat where "one_minus_alpha = rnd (4 / 5)"

definition ewma_next :: "rat \<Rightarrow> rat \<Rightarrow> rat" where
  "ewma_next secs old = rnd (rnd (alpha * secs) + rnd (one_minus_alpha * old))"

definition RecordSolve :: "duration \<Rightarrow> difficulty \<Rightarrow> difficulty" where
  "RecordSolve elapsed d =
     (let secs = seconds elapsed
      in if secs < 0 \<or> secs > 86400 then d
         else
           let d = (if df_ewma_count d = 0 then d\<lparr> df_ewma := secs \<rparr>
                    else d\<lparr> df_ewma := ewma_next secs (df_ewma d) \<rparr>);
               d = d\<lparr> df_ewma_count := df_ewma_count d + 1 \<rparr>
           in if df_ewma_count d < 5 then d
              else if df_ewma d < df_target_min d \<and> df_base d < df_max d then
                d\<lparr> df_base := df_base d + 1, df_ewma_count := 0 \<rparr>
              else if df_ewma d > df_target_max d \<and> df_base d > df_min d then
                d\<lparr> df_base := df_base d - 1, df_ewma_count := 0 \<rparr>
              else d)"

definition timeUntilEscalation :: "time \<Rightarrow> difficulty \<Rightarrow> duration" where
  "timeUntilEscalation now d = time_sub (df_escalate_until d) now"

definition Escalate :: "time \<Rightarrow> int \<Rightarrow> duration \<Rightarrow> difficulty \<Rightarrow> difficulty" where
  "Escalate now bits dur d =
     (if bits \<le> 0 then d
      else
        let d = (if df_escalation d < bits \<or> now > df_escalate_until d
                 then d\<lparr> df_escalation := bits \<rparr> else d)
        in if dur > timeUntilEscalation now d \<or> now > df_escalate_until d
           then d\<lparr> df_escalate_until := now + dur \<rparr> else d)"

definition Escalated :: "time \<Rightarrow> difficulty \<Rightarrow> int \<times> difficulty" where
  "Escalated now d =
     (let d = (if now \<ge> df_escalate_until d then d\<lparr> df_escalation := 0 \<rparr> else d)
      in (df_escalation d, d))"

text \<open>The state-changing methods as a datatype of operations.\<close>

datatype diff_op = Op_RecordSolve duration | Op_Escalate time int duration | Op_Escalated time

fun diff_exec :: "diff_op \<Rightarrow> difficulty \<Rightarrow> difficulty" where
  "diff_exec (Op_RecordSolve e) d = RecordSolve e d"
| "diff_exec (Op_Escalate now bits dur) d = Escalate now bits dur d"
| "diff_exec (Op_Escalated now) d = snd (Escalated now d)"

section \<open>The invariant\<close>

definition diff_inv :: "difficulty \<Rightarrow> bool" where
  "diff_inv d \<longleftrightarrow>
     df_min d \<le> df_base d \<and> df_base d \<le> df_max d \<and> 0 \<le> df_ewma d \<and> df_ewma d \<le> 86400
       \<and> 0 \<le> df_ewma_count d \<and> 0 \<le> df_escalation d"

lemma alpha_nonneg: "0 \<le> alpha" "0 \<le> one_minus_alpha"
  by (simp_all add: alpha_def one_minus_alpha_def rnd_nonneg)

lemma alpha_day: "rnd (alpha * 86400) = 17280"
  by code_simp

lemma one_minus_alpha_day: "rnd (one_minus_alpha * 86400) = 69120"
  by code_simp

text \<open>
  The two rounded weights sum to more than 1, yet an average of plausible durations never
  leaves their range, because every rounding is monotone.
\<close>

lemma ewma_next_range:
  assumes "0 \<le> s" "s \<le> 86400" "0 \<le> e" "e \<le> 86400"
  shows "0 \<le> ewma_next s e \<and> ewma_next s e \<le> 86400"
proof -
  have "rnd (alpha * s) \<le> rnd (alpha * 86400)" "rnd (one_minus_alpha * e) \<le> rnd (one_minus_alpha * 86400)"
    using assms alpha_nonneg by (auto intro!: rnd_mono mult_left_mono)
  then have "rnd (alpha * s) + rnd (one_minus_alpha * e) \<le> 86400"
    unfolding alpha_day one_minus_alpha_day by linarith
  then have "ewma_next s e \<le> rnd 86400" unfolding ewma_next_def by (rule rnd_mono)
  moreover have "0 \<le> ewma_next s e"
    using assms alpha_nonneg by (simp add: ewma_next_def rnd_nonneg)
  ultimately show ?thesis by simp
qed

lemma NewDifficulty_inv: "diff_inv (NewDifficulty base0 mn mx tmin tmax)"
  by (auto simp: diff_inv_def NewDifficulty_def Let_def)

lemma NewDifficulty_bounds [simp]:
  "df_min (NewDifficulty base0 mn mx tmin tmax) = min mn mx"
  "df_max (NewDifficulty base0 mn mx tmin tmax) = max mn mx"
  by (auto simp: NewDifficulty_def Let_def)

lemma RecordSolve_inv: "diff_inv d \<Longrightarrow> diff_inv (RecordSolve e d)"
  using ewma_next_range [of "seconds e" "df_ewma d"]
  by (auto simp: diff_inv_def RecordSolve_def Let_def)

lemma Escalate_inv: "diff_inv d \<Longrightarrow> diff_inv (Escalate now bits dur d)"
  by (auto simp: diff_inv_def Escalate_def Let_def)

lemma Escalated_inv: "diff_inv d \<Longrightarrow> diff_inv (snd (Escalated now d))"
  by (auto simp: diff_inv_def Escalated_def Let_def)

lemma diff_exec_inv: "diff_inv d \<Longrightarrow> diff_inv (diff_exec op d)"
  by (cases op) (simp_all add: RecordSolve_inv Escalate_inv Escalated_inv)

interpretation df: invariant_ops diff_exec diff_inv
  by unfold_locales (rule diff_exec_inv)

lemma RecordSolve_frame [frame_simps]:
  "df_min (RecordSolve e d) = df_min d"
  "df_max (RecordSolve e d) = df_max d"
  "df_target_min (RecordSolve e d) = df_target_min d"
  "df_target_max (RecordSolve e d) = df_target_max d"
  "df_escalation (RecordSolve e d) = df_escalation d"
  "df_escalate_until (RecordSolve e d) = df_escalate_until d"
  by (simp_all add: RecordSolve_def Let_def)

lemma Escalate_frame [frame_simps]:
  "df_min (Escalate now bits dur d) = df_min d"
  "df_max (Escalate now bits dur d) = df_max d"
  "df_base (Escalate now bits dur d) = df_base d"
  "df_ewma_count (Escalate now bits dur d) = df_ewma_count d"
  by (simp_all add: Escalate_def Let_def)

lemma Escalated_frame [frame_simps]:
  "df_min (snd (Escalated now d)) = df_min d"
  "df_max (snd (Escalated now d)) = df_max d"
  "df_base (snd (Escalated now d)) = df_base d"
  "df_ewma_count (snd (Escalated now d)) = df_ewma_count d"
  by (simp_all add: Escalated_def Let_def)

lemma diff_exec_bounds [frame_simps]:
  "df_min (diff_exec op d) = df_min d"
  "df_max (diff_exec op d) = df_max d"
  by (cases op; simp add: frame_simps)+

lemma diff_run_bounds [frame_simps]:
  "df_min (fold diff_exec ops d) = df_min d"
  "df_max (fold diff_exec ops d) = df_max d"
  by (induction ops arbitrary: d) (simp_all add: frame_simps)

lemma Current_bounds:
  "diff_inv d \<Longrightarrow> df_min d \<le> Current d p b \<and> Current d p b \<le> df_max d"
  by (auto simp: Current_def Let_def diff_inv_def)

section \<open>Properties\<close>

text \<open>
  C14: whatever the configuration and whatever solves and floods the controller has seen, the
  difficulty of a challenge lies between the two configured bounds (taken in either order):
  neither an attacker's floods nor the plan and farming bits push it past the maximum, and no
  run of slow solves below the minimum.
\<close>

theorem difficulty_always_bounded:
  "min mn mx \<le> Current (fold diff_exec ops (NewDifficulty base0 mn mx tmin tmax)) p b
    \<and> Current (fold diff_exec ops (NewDifficulty base0 mn mx tmin tmax)) p b \<le> max mn mx"
proof -
  have "diff_inv (fold diff_exec ops (NewDifficulty base0 mn mx tmin tmax))"
    by (intro df.run_inv NewDifficulty_inv)
  from Current_bounds [OF this, of p b] show ?thesis by (simp only: frame_simps NewDifficulty_bounds)
qed

text \<open>
  the average solve time the controller acts on stays a plausible duration, between 0 and
  24 hours, although the two rounded weights of the moving average sum to more than one.
\<close>

theorem ewma_always_plausible:
  "0 \<le> df_ewma (fold diff_exec ops (NewDifficulty base0 mn mx tmin tmax))
    \<and> df_ewma (fold diff_exec ops (NewDifficulty base0 mn mx tmin tmax)) \<le> 86400"
  using df.run_inv [OF NewDifficulty_inv, of ops base0 mn mx tmin tmax] by (simp add: diff_inv_def)

text \<open>
  within the machine's range a dearer plan or a larger farming penalty is never cheaper to
  solve: the difficulty is monotone in the plan bits and in the penalty.
\<close>

theorem Current_mono:
  assumes "p \<le> p'" "b \<le> b'"
    and "in_int64 (df_base d + p + df_escalation d + b)"
    and "in_int64 (df_base d + p' + df_escalation d + b')"
  shows "Current d p b \<le> Current d p' b'"
  using assms by (simp add: Current_def Let_def)

theorem Current_mono_witness:
  "Current (NewDifficulty 20 16 26 30 90) 0 0 \<le> Current (NewDifficulty 20 16 26 30 90) 2 1
    \<and> Current (NewDifficulty 20 16 26 30 90) 2 1 = 23"
proof -
  have r: "in_int64 (df_base (NewDifficulty 20 16 26 30 90) + 0
        + df_escalation (NewDifficulty 20 16 26 30 90) + 0)"
    "in_int64 (df_base (NewDifficulty 20 16 26 30 90) + 2
        + df_escalation (NewDifficulty 20 16 26 30 90) + 1)" by code_simp+
  have "Current (NewDifficulty 20 16 26 30 90) 2 1 = 23" by code_simp
  with Current_mono [OF _ _ r] show ?thesis by simp
qed

lemma RecordSolve_potential:
  "0 \<le> df_ewma_count d \<Longrightarrow>
     5 * \<bar>df_base (RecordSolve e d) - m\<bar> + min 4 (df_ewma_count (RecordSolve e d))
       \<le> 5 * \<bar>df_base d - m\<bar> + min 4 (df_ewma_count d) + 1
     \<and> 0 \<le> df_ewma_count (RecordSolve e d)"
  by (auto simp: RecordSolve_def Let_def; arith)

lemma diff_exec_potential:
  "0 \<le> df_ewma_count d \<Longrightarrow>
     5 * \<bar>df_base (diff_exec op d) - m\<bar> + min 4 (df_ewma_count (diff_exec op d))
       \<le> 5 * \<bar>df_base d - m\<bar> + min 4 (df_ewma_count d) + 1
     \<and> 0 \<le> df_ewma_count (diff_exec op d)"
  by (cases op) (use RecordSolve_potential in \<open>simp_all add: frame_simps\<close>)

lemma diff_run_potential:
  "0 \<le> df_ewma_count d \<Longrightarrow>
     5 * \<bar>df_base (fold diff_exec ops d) - m\<bar> + min 4 (df_ewma_count (fold diff_exec ops d))
       \<le> 5 * \<bar>df_base d - m\<bar> + min 4 (df_ewma_count d) + int (length ops)
     \<and> 0 \<le> df_ewma_count (fold diff_exec ops d)"
proof (induction ops arbitrary: d)
  case Nil
  then show ?case by simp
next
  case (Cons op ops)
  from diff_exec_potential [OF Cons.prems, of op m] Cons.IH [of "diff_exec op d"]
  show ?case by auto
qed

text \<open>
  the base adapts slowly: it moves by at most one bit for every five recorded operations,
  so after \<open>n\<close> redemptions it is within \<open>n div 5\<close> bits of where it started.
\<close>

theorem base_throttled:
  "\<bar>Base (fold diff_exec ops (NewDifficulty base0 mn mx tmin tmax))
     - Base (NewDifficulty base0 mn mx tmin tmax)\<bar> \<le> int (length ops div 5)"
proof -
  let ?d = "NewDifficulty base0 mn mx tmin tmax"
  have c: "df_ewma_count ?d = 0" by (simp add: NewDifficulty_def Let_def split: prod.split)
  from diff_run_potential [of ?d ops "df_base ?d"]
  have "5 * \<bar>df_base (fold diff_exec ops ?d) - df_base ?d\<bar> \<le> int (length ops)"
    by (simp add: c) arith
  moreover have "5 * x \<le> n \<longrightarrow> x \<le> n div 5" for x n :: int by presburger
  ultimately show ?thesis by (simp add: Base_def zdiv_int)
qed

definition production_op :: "int \<Rightarrow> diff_op \<Rightarrow> bool" where
  "production_op bits op = (case op of Op_RecordSolve _ \<Rightarrow> True | Op_Escalate _ b _ \<Rightarrow> b = bits | Op_Escalated _ \<Rightarrow> False)"

lemma production_escalation:
  "0 < bits \<Longrightarrow> df_escalation d = bits \<Longrightarrow> list_all (production_op bits) ops \<Longrightarrow>
     df_escalation (fold diff_exec ops d) = bits"
proof (induction ops arbitrary: d)
  case Nil
  then show ?case by simp
next
  case (Cons op ops)
  then have "df_escalation (diff_exec op d) = bits"
    by (cases op) (simp_all add: production_op_def frame_simps Escalate_def Let_def)
  with Cons show ?case by simp
qed

text \<open>
  an escalation never decays by itself. Once a flood has raised the difficulty by
  \<open>bits\<close>, every later challenge, however long after the end of the window, is priced with these
  bits, for any sequence of the two methods the handlers call (\<open>RecordSolve\<close> and \<open>Escalate\<close>
  with the same bits): \<open>Current\<close> never looks at the expiry. Only a call of \<open>Escalated\<close> after
  the window, which the handlers never make, takes the bits away.
\<close>

theorem escalation_sticks:
  assumes "0 < bits" "df_escalation d \<le> bits" "list_all (production_op bits) ops"
    and "d' = fold diff_exec ops (Escalate now bits dur d)"
  shows "Current d' p b = min (df_max d) (max (df_min d) (wrap64 (df_base d' + p + bits + b)))
    \<and> (df_escalate_until d' \<le> t \<longrightarrow> df_escalation (snd (Escalated t d')) = 0)"
proof -
  have "df_escalation (Escalate now bits dur d) = bits"
    using assms by (simp add: Escalate_def Let_def)
  then have "df_escalation d' = bits" using production_escalation assms by simp
  then show ?thesis using assms by (auto simp: Current_def Escalated_def Let_def frame_simps)
qed

theorem escalation_sticks_witness:
  "Current (fold diff_exec [Op_RecordSolve Minute, Op_RecordSolve Minute]
      (Escalate 0 2 (15 * Minute) (NewDifficulty 20 16 26 30 90))) 0 0 = 22"
proof -
  have "df_escalation (NewDifficulty 20 16 26 30 90) \<le> 2"
    "list_all (production_op 2) [Op_RecordSolve Minute, Op_RecordSolve Minute]" by code_simp+
  from escalation_sticks [OF _ this refl, of 0 "15 * Minute" 0 0]
  have "Current (fold diff_exec [Op_RecordSolve Minute, Op_RecordSolve Minute]
      (Escalate 0 2 (15 * Minute) (NewDifficulty 20 16 26 30 90))) 0 0
    = min 26 (max 16 (wrap64 (df_base (fold diff_exec [Op_RecordSolve Minute, Op_RecordSolve Minute]
      (Escalate 0 2 (15 * Minute) (NewDifficulty 20 16 26 30 90))) + 0 + 2 + 0)))" by simp
  moreover have "df_base (fold diff_exec [Op_RecordSolve Minute, Op_RecordSolve Minute]
      (Escalate 0 2 (15 * Minute) (NewDifficulty 20 16 26 30 90))) = 20" by code_simp
  ultimately show ?thesis by simp
qed

end
