(* ===== verification/Pow_Service.thy ===== *)
theory Pow_Service
  imports Config Pow_Store Pow_Difficulty
begin

text \<open>
  \<^verbatim>\<open>internal/handler/pow.go\<close>: the PoW-gated key issuance. The service's state is one record;
  a handler is one function from an environment (clock readings, random bytes, failing
  statements), a request and the state to a response and the next state. The calendar day of an
  instant (\<open>now.Format\<close> in the host's time zone) and the JSON decoding of the body are inputs.
\<close>

section \<open>Limiters\<close>

record token_bucket =
  tb_tokens :: rat
  tb_last :: time
  tb_rps :: rat
  tb_cap :: rat

text \<open>\<open>time.Duration(x * float64(time.Second))\<close> for seconds \<open>x\<close>.\<close>

definition duration_of_seconds :: "rat \<Rightarrow> duration" where
  "duration_of_seconds x = trunc (rnd (x * 1000000000))"

definition refill :: "time \<Rightarrow> token_bucket \<Rightarrow> rat" where
  "refill now b =
     (let elapsed = seconds (time_sub now (tb_last b));
          tokens = rnd (tb_tokens b + rnd (elapsed * tb_rps b))
      in if tokens > tb_cap b then tb_cap b else tokens)"

definition bucket_allow :: "time \<Rightarrow> token_bucket \<Rightarrow> (bool \<times> duration) \<times> token_bucket" where
  "bucket_allow now b =
     (let tokens = refill now b
      in if tokens \<ge> 1 then ((True, 0), b\<lparr> tb_tokens := rnd (tokens - 1), tb_last := now \<rparr>)
         else let deficit = rnd (1 - tokens)
              in ((False, duration_of_seconds (rnd (deficit / tb_rps b))),
                  b\<lparr> tb_tokens := tokens, tb_last := now \<rparr>))"

record daily_count =
  dc_day :: string
  dc_n :: int
  dc_limit :: int

definition daily_allow :: "string \<Rightarrow> daily_count \<Rightarrow> bool \<times> daily_count" where
  "daily_allow today d =
     (let d = (if dc_day d \<noteq> today then d\<lparr> dc_day := today, dc_n := 0 \<rparr> else d)
      in if dc_n d \<ge> dc_limit d then (False, d) else (True, d\<lparr> dc_n := dc_n d + 1 \<rparr>))"

record rpm_bucket =
  rb_tokens :: rat
  rb_last :: time
  rb_rpm :: rat

section \<open>The service\<close>

record pow_service =
  ps_cfg :: config
  ps_store :: store
  ps_diff :: difficulty
  ps_cache :: "string \<Rightarrow> api_key option"
  ps_ch_buckets :: "string \<Rightarrow> token_bucket option"
  ps_ch_daily :: "string \<Rightarrow> daily_count option"
  ps_rpm_buckets :: "string \<Rightarrow> rpm_bucket option"
  ps_burst_win :: "string \<Rightarrow> int list option"
  ps_cooldowns :: "string \<Rightarrow> time option"
  ps_esc_start :: time
  ps_esc_count :: int

definition newPoWService :: "config \<Rightarrow> store \<Rightarrow> bool \<Rightarrow> time \<Rightarrow> db_error + pow_service" where
  "newPoWService cfg st fault now =
     (case ListAPIKeys fault now st of
        Inl e \<Rightarrow> Inl e
      | Inr keys \<Rightarrow> Inr \<lparr> ps_cfg = cfg, ps_store = st,
          ps_diff = NewDifficulty (PowBaseDifficulty cfg) (PowMinDifficulty cfg)
                      (PowMaxDifficulty cfg) 30 90,
          ps_cache = keys, ps_ch_buckets = Map.empty, ps_ch_daily = Map.empty,
          ps_rpm_buckets = Map.empty, ps_burst_win = Map.empty, ps_cooldowns = Map.empty,
          ps_esc_start = zero_time, ps_esc_count = 0 \<rparr>)"

text \<open>One tick of \<open>maintenanceLoop\<close>.\<close>

definition maintenance_tick :: "bool \<Rightarrow> bool \<Rightarrow> time \<Rightarrow> time \<Rightarrow> pow_service \<Rightarrow> pow_service" where
  "maintenance_tick f1 f2 t1 t2 s =
     s\<lparr> ps_store := snd (CleanupExpired f1 f2 t1 t2 (ps_store s)) \<rparr>"

definition maintenance_interval :: "config \<Rightarrow> duration" where
  "maintenance_interval cfg = (if PowAdjustInterval cfg \<le> 0 then 30 * Second else PowAdjustInterval cfg)"

definition LookupKey :: "bool \<Rightarrow> time \<Rightarrow> string \<Rightarrow> pow_service \<Rightarrow> (string \<times> int) option \<times> pow_service" where
  "LookupKey fault now h s =
     (case ps_cache s h of
        Some k \<Rightarrow> (Some (ak_plan k, ak_rpm k), s)
      | None \<Rightarrow>
          (case GetAPIKey fault now h (ps_store s) of
             Inl _ \<Rightarrow> (None, s)
           | Inr None \<Rightarrow> (None, s)
           | Inr (Some k) \<Rightarrow>
               (Some (ak_plan k, ak_rpm k), s\<lparr> ps_cache := (ps_cache s)(h \<mapsto> k) \<rparr>)))"

definition cacheKey :: "api_key \<Rightarrow> pow_service \<Rightarrow> pow_service" where
  "cacheKey k s = s\<lparr> ps_cache := (ps_cache s)(ak_hash k \<mapsto> k) \<rparr>"

definition max1 :: "int \<Rightarrow> int" where
  "max1 v = (if v < 1 then 1 else v)"

definition minStr :: "int \<Rightarrow> int \<Rightarrow> int" where
  "minStr a b = (if a < b then a else b)"

definition planBits :: "config \<Rightarrow> string \<Rightarrow> int" where
  "planBits cfg plan =
     (if plan = ''plus'' then PowPlan2Difficulty cfg
      else if plan = ''pro'' then PowPlan3Difficulty cfg
      else PowPlan1Difficulty cfg)"

definition planRPM :: "config \<Rightarrow> string \<Rightarrow> int" where
  "planRPM cfg plan =
     (if plan = ''plus'' then max1 (PowPlan2RPM cfg)
      else if plan = ''pro'' then max1 (PowPlan3RPM cfg)
      else max1 (PowPlan1RPM cfg))"

section \<open>Requests and responses\<close>

record pow_request =
  rq_xff :: string
  rq_remote :: string
  rq_agent :: string
  rq_plan :: string
  rq_algo :: string

definition clientIP :: "pow_request \<Rightarrow> string" where
  "clientIP r =
     (if rq_xff r \<noteq> [] then
        (let xff = (case index_byte (rq_xff r) CHR '','' of
                      Some i \<Rightarrow> if i > 0 then take i (rq_xff r) else rq_xff r
                    | None \<Rightarrow> rq_xff r)
         in trim_space xff)
      else case split_host_port (rq_remote r) of
             None \<Rightarrow> rq_remote r
           | Some (host, _) \<Rightarrow> host)"

datatype redeem_body = Malformed | Redeem_body (rb_id: string) (rb_algo: string) (rb_counters: "string list")

datatype pow_response =
    Pow_err int string string "int option"
  | Challenge_out challenge
  | Key_out string api_key

text \<open>The message of \<open>Verify\<close>'s error.\<close>

fun verify_message :: "verify_error \<Rightarrow> string" where
  "verify_message No_solution = ''no solution provided''"
| "verify_message (Not_met d) = ''solution does not meet difficulty '' @ itoa d"

section \<open>Challenge issuance\<close>

record challenge_env =
  ce_now :: time
  ce_day :: string
  ce_now_esc :: time
  ce_now_bonus :: time
  ce_bonus_fault :: bool
  ce_insert_fault :: bool
  ce_salt :: "byte list option"
  ce_uuid :: string

text \<open>The first critical section: the flood window, and the escalation it may trigger.\<close>

definition flood_valve :: "time \<Rightarrow> time \<Rightarrow> pow_service \<Rightarrow> pow_service" where
  "flood_valve now now_esc s =
     (let s = (if time_sub now (ps_esc_start s) > Minute
               then s\<lparr> ps_esc_start := now, ps_esc_count := 0 \<rparr> else s);
          s = s\<lparr> ps_esc_count := ps_esc_count s + 1 \<rparr>;
          perMin = PowChallengePerMin (ps_cfg s);
          flood = (perMin > 0 \<and> ps_esc_count s > wrap64 (perMin * 10))
      in if flood then s\<lparr> ps_diff := Escalate now_esc 2 (15 * Minute) (ps_diff s) \<rparr> else s)"

definition new_bucket :: "config \<Rightarrow> time \<Rightarrow> token_bucket" where
  "new_bucket cfg now =
     (let perMin = rnd (of_int (max1 (PowChallengePerMin cfg)))
      in \<lparr> tb_tokens = perMin, tb_last = now, tb_rps = rnd (perMin / 60), tb_cap = perMin \<rparr>)"

text \<open>The second critical section: the client's bucket and daily counter, both charged.\<close>

definition challenge_quota :: "time \<Rightarrow> string \<Rightarrow> string \<Rightarrow> pow_service \<Rightarrow> (bool \<times> duration) \<times> pow_service" where
  "challenge_quota now today ip s =
     (let b = (case ps_ch_buckets s ip of Some b \<Rightarrow> b | None \<Rightarrow> new_bucket (ps_cfg s) now);
          ((ok1, retryAfter), b) = bucket_allow now b;
          d = (case ps_ch_daily s ip of
                 Some d \<Rightarrow> d
               | None \<Rightarrow> \<lparr> dc_day = [], dc_n = 0, dc_limit = max1 (PowChallengePerDay (ps_cfg s)) \<rparr>);
          (ok2, d) = daily_allow today d
      in ((ok1 \<and> ok2, retryAfter),
          s\<lparr> ps_ch_buckets := (ps_ch_buckets s)(ip \<mapsto> b), ps_ch_daily := (ps_ch_daily s)(ip \<mapsto> d) \<rparr>))"

text \<open>From the binding to the stored challenge, for a plan and an algorithm already validated.\<close>

definition mint_challenge ::
  "hashes \<Rightarrow> challenge_env \<Rightarrow> string \<Rightarrow> string \<Rightarrow> string \<Rightarrow> string \<Rightarrow> pow_service
     \<Rightarrow> pow_response \<times> pow_service" where
  "mint_challenge h e ip agent plan algo s =
     (let now = ce_now e;
          bind = BindingHash h ip agent;
          bonus = IPBonus (ce_bonus_fault e) (ce_now_bonus e) bind (ps_store s);
          difficulty = Current (ps_diff s) (planBits (ps_cfg s) plan) bonus
      in (case NewSalt (ce_salt e) of
            None \<Rightarrow> (Pow_err 500 ''Failed to mint challenge'' ''internal_error'' None, s)
          | Some salt \<Rightarrow>
              let sc = \<lparr> sc_id = ce_uuid e, sc_bind = bind, sc_plan = plan, sc_algo = algo,
                         sc_difficulty = difficulty, sc_salt = salt, sc_issued_at = unix now,
                         sc_expires_at = unix (now + PowChallengeTTL (ps_cfg s)), sc_used = False \<rparr>
              in (case InsertChallenge (ce_insert_fault e) sc (ps_store s) of
                    (Inl _, st) \<Rightarrow>
                      (Pow_err 500 ''Failed to mint challenge'' ''internal_error'' None,
                       s\<lparr> ps_store := st \<rparr>)
                  | (Inr _, st) \<Rightarrow> (Challenge_out (ToChallenge sc), s\<lparr> ps_store := st \<rparr>))))"

definition handleChallenge ::
  "hashes \<Rightarrow> challenge_env \<Rightarrow> pow_request \<Rightarrow> pow_service \<Rightarrow> pow_response \<times> pow_service" where
  "handleChallenge h e r s =
     (let ip = clientIP r;
          now = ce_now e;
          s = flood_valve now (ce_now_esc e) s;
          ((ok, retryAfter), s) = challenge_quota now (ce_day e) ip s
      in if \<not> ok then
           (Pow_err 429 ''Too many challenge requests; slow down.'' ''rate_limited''
              (Some (trunc (seconds retryAfter) + 1)), s)
         else
           let plan = to_lower (trim_space (rq_plan r));
               plan = (if plan = [] then ''basic'' else plan);
               algo = to_lower (trim_space (rq_algo r));
               algo = (if algo = [] then AlgoSHA256 else algo)
           in if \<not> ValidPlan plan then
                (Pow_err 400 ''Unknown plan; use basic, plus, or pro'' ''invalid_plan'' None, s)
              else if \<not> ValidAlgo algo then
                (Pow_err 400 ''Unsupported algorithm; use blake3 or sha256'' ''invalid_algo'' None, s)
              else mint_challenge h e ip (rq_agent r) plan algo s)"

section \<open>Redemption\<close>

record redeem_env =
  re_now :: time
  re_now_consume :: time
  re_now_bump :: time
  re_get_fault :: bool
  re_consume_fault :: bool
  re_bump_fault :: "bool \<times> bool"
  re_key_fault :: bool
  re_rand :: "byte list option"

text \<open>Everything checked before the challenge is consumed; \<open>Inl\<close> is the refusal.\<close>

definition redeem_checks ::
  "hashes \<Rightarrow> redeem_env \<Rightarrow> pow_request \<Rightarrow> redeem_body \<Rightarrow> pow_service \<Rightarrow> pow_response + stored_challenge" where
  "redeem_checks h e r body s =
     (case body of
        Malformed \<Rightarrow> Inl (Pow_err 400 ''Invalid JSON body'' ''invalid_json'' None)
      | Redeem_body cid ralgo counters \<Rightarrow>
          if cid = [] then Inl (Pow_err 400 ''challenge_id is required'' ''invalid_request'' None)
          else (case GetChallenge (re_get_fault e) cid (ps_store s) of
            Inl _ \<Rightarrow> Inl (Pow_err 500 ''Verification failed'' ''internal_error'' None)
          | Inr None \<Rightarrow> Inl (Pow_err 404 ''Unknown challenge'' ''unknown_challenge'' None)
          | Inr (Some sc) \<Rightarrow>
              if unix (re_now e) > sc_expires_at sc then
                Inl (Pow_err 410 ''Challenge expired'' ''challenge_expired'' None)
              else if sc_used sc then
                Inl (Pow_err 409 ''Challenge already used'' ''already_used'' None)
              else if time_sub (re_now e) (sc_issued_at sc * Second) < 500 * Millisecond then
                Inl (Pow_err 429 ''Solution arrived implausibly fast'' ''too_fast'' None)
              else if BindingHash h (clientIP r) (rq_agent r) \<noteq> sc_bind sc then
                Inl (Pow_err 403 ''Challenge binding mismatch'' ''binding_mismatch'' None)
              else if ralgo \<noteq> [] \<and> ralgo \<noteq> sc_algo sc then
                Inl (Pow_err 400 ''Algorithm does not match challenge'' ''invalid_algo'' None)
              else (case Verify h (ToChallenge sc) counters of
                  Inl err \<Rightarrow> Inl (Pow_err 400 (verify_message err) ''invalid_solution'' None)
                | Inr _ \<Rightarrow> Inr sc)))"

text \<open>What follows a successful consumption: the penalty, the adaptation, and the key.\<close>

definition issue_key ::
  "hashes \<Rightarrow> redeem_env \<Rightarrow> stored_challenge \<Rightarrow> pow_service \<Rightarrow> pow_response \<times> pow_service" where
  "issue_key h e sc s =
     (let now = re_now e;
          (_, st) = BumpIPBonus (fst (re_bump_fault e)) (snd (re_bump_fault e)) (re_now_bump e)
                      (sc_bind sc) 8 (ps_store s);
          s = s\<lparr> ps_store := st,
                 ps_diff := RecordSolve (time_sub now (sc_issued_at sc * Second)) (ps_diff s) \<rparr>;
          rpm = planRPM (ps_cfg s) (sc_plan sc)
      in (case re_rand e of
            None \<Rightarrow> (Pow_err 500 ''Failed to issue key'' ''internal_error'' None, s)
          | Some raw \<Rightarrow>
              let apiKey = ''sk-gw-'' @ b64_raw b64_url raw;
                  prefix = take (nat (minStr (int (length apiKey)) 16)) apiKey;
                  k = \<lparr> ak_hash = KeyHash h apiKey, ak_prefix = prefix, ak_plan = sc_plan sc,
                        ak_rpm = rpm, ak_created_at = unix now,
                        ak_expires_at = unix (now + PowKeyTTL (ps_cfg s)) \<rparr>
              in (case InsertAPIKey (re_key_fault e) k (ps_store s) of
                    (Inl _, st) \<Rightarrow>
                      (Pow_err 500 ''Failed to issue key'' ''internal_error'' None, s\<lparr> ps_store := st \<rparr>)
                  | (Inr _, st) \<Rightarrow> (Key_out apiKey k, cacheKey k (s\<lparr> ps_store := st \<rparr>)))))"

text \<open>
  A redemption from its look-up to its reply without other requests in between; \<open>Pow_Race\<close> has
  the same steps one by one, so that redemptions overlap.
\<close>

definition handleRedeem ::
  "hashes \<Rightarrow> redeem_env \<Rightarrow> pow_request \<Rightarrow> redeem_body \<Rightarrow> pow_service \<Rightarrow> pow_response \<times> pow_service" where
  "handleRedeem h e r body s =
     (case redeem_checks h e r body s of
        Inl resp \<Rightarrow> (resp, s)
      | Inr sc \<Rightarrow>
          (case ConsumeChallenge (re_consume_fault e) (re_now_consume e) (sc_id sc) (ps_store s) of
             (Inl _, st) \<Rightarrow>
               (Pow_err 500 ''Verification failed'' ''internal_error'' None, s\<lparr> ps_store := st \<rparr>)
           | (Inr False, st) \<Rightarrow>
               (Pow_err 409 ''Challenge already used'' ''already_used'' None, s\<lparr> ps_store := st \<rparr>)
           | (Inr True, st) \<Rightarrow> issue_key h e sc (s\<lparr> ps_store := st \<rparr>)))"

section \<open>Per-key limits\<close>

definition rpm_refill :: "time \<Rightarrow> rpm_bucket \<Rightarrow> rat" where
  "rpm_refill now rb =
     (let elapsed = seconds (time_sub now (rb_last rb));
          tokens = rnd (rb_tokens rb + rnd (elapsed * rnd (rb_rpm rb / 60)))
      in if tokens > rb_rpm rb then rb_rpm rb else tokens)"

definition rpm_allow :: "time \<Rightarrow> rpm_bucket \<Rightarrow> (duration \<times> string) \<times> rpm_bucket" where
  "rpm_allow now rb =
     (let tokens = rpm_refill now rb
      in if tokens < 1 then
           let deficit = rnd (1 - tokens)
           in ((duration_of_seconds (rnd (deficit / rb_rpm rb)), ''rate_limited''),
               rb\<lparr> rb_tokens := tokens, rb_last := now \<rparr>)
         else ((0, []), rb\<lparr> rb_tokens := rnd (tokens - 1), rb_last := now \<rparr>))"

text \<open>
  The burst window of a key after one more request: what it keeps, and whether it tripped.
\<close>

definition burst_window :: "config \<Rightarrow> time \<Rightarrow> int list \<Rightarrow> int list \<times> bool" where
  "burst_window cfg now ts =
     (let kept = filter (\<lambda>t. t > now - Second) ts @ [now]
      in if int (length kept) > PowBurstRPS cfg then ([], True) else (kept, False))"

definition check_rpm :: "time \<Rightarrow> string \<Rightarrow> int \<Rightarrow> pow_service \<Rightarrow> (duration \<times> string) \<times> pow_service" where
  "check_rpm now h rpm s =
     (let rb = (case ps_rpm_buckets s h of
                  Some rb \<Rightarrow> rb
                | None \<Rightarrow> \<lparr> rb_tokens = rnd (of_int rpm), rb_last = now, rb_rpm = rnd (of_int rpm) \<rparr>);
          (verdict, rb) = rpm_allow now rb
      in (verdict, s\<lparr> ps_rpm_buckets := (ps_rpm_buckets s)(h \<mapsto> rb) \<rparr>))"

definition check_burst :: "time \<Rightarrow> string \<Rightarrow> int \<Rightarrow> pow_service \<Rightarrow> (duration \<times> string) \<times> pow_service" where
  "check_burst now h rpm s =
     (let cfg = ps_cfg s
      in if PowBurstRPS cfg > 0 \<and> PowBurstCooldown cfg > 0 then
           let ts = (case ps_burst_win s h of Some ts \<Rightarrow> ts | None \<Rightarrow> []);
               (kept, tripped) = burst_window cfg now ts;
               s = s\<lparr> ps_burst_win := (ps_burst_win s)(h \<mapsto> kept) \<rparr>
           in if tripped then
                ((PowBurstCooldown cfg, ''key_cooldown''),
                 s\<lparr> ps_cooldowns := (ps_cooldowns s)(h \<mapsto> now + PowBurstCooldown cfg) \<rparr>)
              else check_rpm now h rpm s
         else check_rpm now h rpm s)"

text \<open>\<open>now_until\<close> is the later clock reading of \<open>time.Until\<close>.\<close>

definition checkKeyLimits ::
  "time \<Rightarrow> time \<Rightarrow> string \<Rightarrow> int \<Rightarrow> pow_service \<Rightarrow> (duration \<times> string) \<times> pow_service" where
  "checkKeyLimits now now_until h rpm s =
     (if rpm \<le> 0 then ((0, []), s)
      else case ps_cooldowns s h of
        Some until \<Rightarrow>
          if now < until then ((time_sub until now_until, ''key_cooldown''), s)
          else check_burst now h rpm (s\<lparr> ps_cooldowns := (ps_cooldowns s)(h := None) \<rparr>)
      | None \<Rightarrow> check_burst now h rpm s)"

end
