(* ===== verification/Pow_Limits.thy ===== *)
theory Pow_Limits
  imports Pow_Service
begin

text \<open>
  The limiters of \<^verbatim>\<open>internal/handler/pow.go\<close> under \<open>float64\<close> arithmetic: the token bucket of
  the challenge endpoint, the daily counter, the burst window and the per-key bucket.
\<close>

section \<open>The token buckets\<close>

definition bucket_ok :: "token_bucket \<Rightarrow> bool" where
  "bucket_ok b \<longleftrightarrow>
     0 \<le> tb_tokens b \<and> tb_tokens b \<le> tb_cap b \<and> is_float (tb_tokens b)
       \<and> (\<exists>n. tb_cap b = of_int n \<and> 1 \<le> n \<and> n < 2 ^ 53) \<and> 1 / 61 \<le> tb_rps b"

lemma refill_range:
  assumes ok: "bucket_ok b" and t: "tb_last b \<le> now"
  shows "0 \<le> refill now b \<and> refill now b \<le> tb_cap b \<and> is_float (refill now b)"
proof -
  have "0 \<le> rnd (seconds (time_sub now (tb_last b)) * tb_rps b)"
    using ok t by (intro rnd_nonneg mult_nonneg_nonneg)
      (auto simp: bucket_ok_def intro!: seconds_nonneg time_sub_nonneg)
  then have "0 \<le> rnd (tb_tokens b + rnd (seconds (time_sub now (tb_last b)) * tb_rps b))"
    using ok by (intro rnd_nonneg) (simp add: bucket_ok_def)
  moreover have "0 \<le> tb_cap b \<and> is_float (tb_cap b)"
    using ok by (auto simp: bucket_ok_def intro!: float_int)
  ultimately show ?thesis by (simp add: refill_def Let_def rnd_is_float)
qed

lemma bucket_allow_ok:
  assumes ok: "bucket_ok b" and t: "tb_last b \<le> now"
  shows "bucket_ok (snd (bucket_allow now b)) \<and> tb_last (snd (bucket_allow now b)) = now"
proof -
  note r = refill_range [OF assms]
  obtain n where n: "tb_cap b = of_int n" "1 \<le> n" "n < 2 ^ 53"
    using ok by (auto simp: bucket_ok_def)
  have "rnd (refill now b - 1) \<le> of_int n" using r n by (intro rnd_le_int) simp_all
  moreover have "0 \<le> rnd (refill now b - 1)" if "1 \<le> refill now b" using that by (simp add: rnd_nonneg)
  ultimately show ?thesis using ok r n
    by (auto simp: bucket_ok_def bucket_allow_def Let_def rnd_is_float)
qed

lemma new_bucket_ok:
  assumes "max1 (PowChallengePerMin cfg) < 2 ^ 53"
  shows "bucket_ok (new_bucket cfg now)"
proof -
  let ?n = "max1 (PowChallengePerMin cfg)"
  have n: "1 \<le> ?n" by (simp add: max1_def)
  have cap: "rnd (of_int ?n) = of_int ?n" using n assms by (intro rnd_of_int) simp
  have "rnd (1 / 60) \<le> rnd (of_int ?n / 60)" using n by (intro rnd_mono) (simp add: divide_right_mono)
  moreover have "1 / 61 \<le> rnd (1 / 60)" by code_simp
  ultimately have "1 / 61 \<le> rnd (of_int ?n / 60)" by linarith
  with n assms cap show ?thesis
    by (auto simp: bucket_ok_def new_bucket_def Let_def is_float_def cap)
qed

text \<open>The error of \<open>1 - t\<close> is below half a unit in the last place of 1.\<close>

lemma deficit_covers:
  assumes "0 \<le> t" "t < 1"
  shows "1 - pow2 (- 54) \<le> t + rnd (1 - t)"
proof (cases "t = 0")
  case True
  then show ?thesis by simp
next
  case False
  with assms have "\<bar>rnd (1 - t) - (1 - t)\<bar> \<le> pow2 (- 54)" by (intro rnd_error_unit) simp_all
  then show ?thesis by linarith
qed

text \<open>A whole number of seconds above what the refusal announces exceeds the exact waiting time.\<close>

lemma announced_wait:
  assumes "0 \<le> x" "x \<le> 1000000"
  shows "x < of_int (trunc (seconds (duration_of_seconds (rnd x))) + 1)"
    and "trunc (seconds (duration_of_seconds (rnd x))) + 1 \<le> 2000000"
proof -
  let ?m = "\<lfloor>x\<rfloor>" and ?r = "duration_of_seconds (rnd x)"
  have m: "0 \<le> ?m" "?m \<le> 1000000" using assms by (simp_all add: le_floor_iff floor_le_iff)
  have "of_int ?m \<le> rnd x" using m by (intro rnd_ge_int) simp_all
  then have "of_int (?m * 1000000000) \<le> rnd x * 1000000000" by simp
  moreover have "0 \<le> a \<Longrightarrow> a \<le> 1000000 \<Longrightarrow> \<bar>a * 1000000000\<bar> \<le> 2 ^ 53" for a :: int by simp
  then have "\<bar>?m * 1000000000\<bar> \<le> 2 ^ 53" using m by blast
  ultimately have "of_int (?m * 1000000000) \<le> rnd (rnd x * 1000000000)"
    by (rule rnd_ge_int)
  moreover have "0 \<le> rnd (rnd x * 1000000000)" using assms by (simp add: rnd_nonneg)
  ultimately have r: "?m * 1000000000 \<le> ?r"
    by (simp only: duration_of_seconds_def trunc_def le_floor_iff if_True)
  have sec: "of_int ?m \<le> seconds ?r" by (rule seconds_ge_whole) (use m r in simp_all)
  then have "?m \<le> trunc (seconds ?r)" using m by (intro trunc_ge)
  then have "of_int (?m + 1) \<le> (of_int (trunc (seconds ?r) + 1) :: rat)" by (simp only: of_int_le_iff)
  then show "x < of_int (trunc (seconds ?r) + 1)" by simp linarith
  have "rnd x \<le> 1000000" using assms rnd_le_int [of x 1000000] by simp
  then have "rnd (rnd x * 1000000000) \<le> 1000000000000000"
    using rnd_le_int [of "rnd x * 1000000000" 1000000000000000] by simp
  moreover have "0 \<le> rnd (rnd x * 1000000000)" using assms by (simp add: rnd_nonneg)
  ultimately have "0 \<le> ?r" "?r \<le> 1000000000000000"
    by (simp_all add: duration_of_seconds_def trunc_def floor_le_iff)
  have "seconds ?r \<le> of_int ?r / 1000000000 * (102011 / 100000)"
    by (rule seconds_le_percent [OF \<open>0 \<le> ?r\<close>])
  moreover have "of_int ?r \<le> (of_int 1000000000000000 :: rat)"
    using \<open>?r \<le> 1000000000000000\<close> by (simp only: of_int_le_iff)
  ultimately have "seconds ?r < 1999999" by simp
  moreover have "0 \<le> seconds ?r" using \<open>0 \<le> ?r\<close> by (rule seconds_nonneg)
  ultimately have "trunc (seconds ?r) < 1999999" by (intro trunc_less) simp_all
  then show "trunc (seconds ?r) + 1 \<le> 2000000" by simp
qed

lemma retry_succeeds:
  assumes ok: "bucket_ok b" and t: "tb_last b \<le> now"
    and rej: "bucket_allow now b = ((False, r), b')"
    and wait: "now + (trunc (seconds r) + 1) * Second \<le> now'"
  shows "fst (fst (bucket_allow now' b'))"
proof -
  let ?t = "refill now b" and ?rps = "tb_rps b"
  note range = refill_range [OF ok t]
  have rps: "1 / 61 \<le> ?rps" and cap1: "1 \<le> tb_cap b" using ok by (auto simp: bucket_ok_def)
  from rej have lt: "?t < 1" and b': "b' = b\<lparr> tb_tokens := ?t, tb_last := now \<rparr>"
    and r: "r = duration_of_seconds (rnd (rnd (1 - ?t) / ?rps))"
    by (auto simp: bucket_allow_def Let_def split: if_splits)
  let ?d = "rnd (1 - ?t)" and ?k = "trunc (seconds r) + 1"
  have d: "0 \<le> ?d" "?d \<le> 1"
    using range lt rnd_le_int [of "1 - ?t" 1] by (simp_all add: rnd_nonneg)
  have "?d / ?rps \<le> 1 / (1 / 61)" using d rps by (intro frac_le) simp_all
  then have x: "0 \<le> ?d / ?rps" "?d / ?rps \<le> 1000000" using d rps by simp_all
  note k = announced_wait [OF x]
  have k0: "0 \<le> ?k" using k(1) x(1) unfolding r by linarith
  have el: "?k * 1000000000 \<le> time_sub now' now"
    using wait k(2) k0 unfolding r by (simp add: time_sub_def Second_def)
  have "of_int ?k \<le> seconds (time_sub now' now)"
    by (rule seconds_ge_whole [OF k0 _ el]) (use k(2) in \<open>simp add: r\<close>)
  then have "of_int ?k * ?rps \<le> seconds (time_sub now' now) * ?rps"
    using rps by (intro mult_right_mono) simp_all
  moreover have "?d \<le> of_int ?k * ?rps"
    using k(1) rps unfolding r by (simp add: pos_divide_less_eq less_imp_le)
  ultimately have "?d \<le> rnd (seconds (time_sub now' now) * ?rps)"
    using rnd_mono [of ?d "seconds (time_sub now' now) * ?rps"] by simp
  then have "1 - pow2 (- 54) \<le> ?t + rnd (seconds (time_sub now' now) * ?rps)"
    using deficit_covers [of ?t] range lt by linarith
  from rnd_mono [OF this] have "1 \<le> rnd (?t + rnd (seconds (time_sub now' now) * ?rps))"
    by (simp only: rnd_near_one)
  then have "1 \<le> refill now' b'" using cap1 by (simp add: refill_def b' Let_def)
  then show ?thesis by (simp add: bucket_allow_def Let_def)
qed

text \<open>
  the announced waiting time is honest. When the challenge limiter refuses a client and the
  handler answers \<open>Retry-After: n\<close>, a client that comes back \<open>n\<close> seconds later or after is
  admitted by the same bucket, in spite of every rounding in the \<open>float64\<close> computation of the
  deficit, the truncation to nanoseconds and the conversion to whole seconds.
\<close>

theorem retry_after_honest:
  assumes "bucket_ok b" "tb_last b \<le> now" "bucket_allow now b = ((False, r), b')"
    and "now + (trunc (seconds r) + 1) * Second \<le> now'"
  shows "fst (fst (bucket_allow now' b'))"
  using assms by (rule retry_succeeds)

definition empty_bucket :: token_bucket where
  "empty_bucket = \<lparr> tb_tokens = 0, tb_last = 0, tb_rps = rnd (6 / 60), tb_cap = 6 \<rparr>"

theorem retry_after_honest_witness:
  "fst (fst (bucket_allow (1 * Second) empty_bucket)) = False
     \<and> fst (fst (bucket_allow (11 * Second) (snd (bucket_allow (1 * Second) empty_bucket))))"
proof -
  let ?o = "bucket_allow (1 * Second) empty_bucket"
  have ok: "bucket_ok empty_bucket"
  proof -
    have "1 / 61 \<le> rnd (6 / 60)" by code_simp
    moreover have "\<exists>n. (6 :: rat) = of_int n \<and> 1 \<le> n \<and> n < 2 ^ 53" by (rule exI [of _ 6]) simp
    ultimately show ?thesis by (simp add: bucket_ok_def empty_bucket_def is_float_def)
  qed
  have f: "fst (fst ?o) = False" by code_simp
  have w: "1 * Second + (trunc (seconds (snd (fst ?o))) + 1) * Second \<le> 11 * Second" by code_simp
  have l: "tb_last empty_bucket \<le> 1 * Second" by code_simp
  have e: "?o = ((False, snd (fst ?o)), snd ?o)" using f by (simp add: prod_eq_iff)
  from retry_after_honest [OF ok l e w] f show ?thesis by blast
qed

section \<open>Bursts\<close>

fun admitted :: "nat \<Rightarrow> time \<Rightarrow> token_bucket \<Rightarrow> nat" where
  "admitted 0 now b = 0"
| "admitted (Suc k) now b =
     (case bucket_allow now b of ((ok, _), b') \<Rightarrow> (if ok then 1 else 0) + admitted k now b')"

lemma seconds_0 [simp]: "seconds 0 = 0"
  by (simp add: seconds_def)

lemma refill_same_instant:
  "bucket_ok b \<Longrightarrow> tb_last b = now \<Longrightarrow> refill now b = tb_tokens b"
  by (auto simp: refill_def Let_def time_sub_def bucket_ok_def is_float_def)

lemma admitted_same_instant:
  "bucket_ok b \<Longrightarrow> tb_last b = now \<Longrightarrow> admitted k now b = min k (nat \<lfloor>tb_tokens b\<rfloor>)"
proof (induction k arbitrary: b)
  case 0
  then show ?case by simp
next
  case (Suc k)
  let ?t = "tb_tokens b" and ?b' = "snd (bucket_allow now b)"
  have r: "refill now b = ?t" using Suc.prems by (rule refill_same_instant)
  have ok': "bucket_ok ?b'" "tb_last ?b' = now" using bucket_allow_ok [of b now] Suc.prems by simp_all
  note IH = Suc.IH [OF ok']
  show ?case
  proof (cases "1 \<le> ?t")
    case True
    have "?t < 2 ^ 53" using Suc.prems(1) by (auto simp: bucket_ok_def)
    then have "rnd (?t - 1) = ?t - 1"
      using float_minus_one [of ?t] True Suc.prems(1) by (simp add: bucket_ok_def is_float_def)
    then have "tb_tokens ?b' = ?t - 1" "fst (fst (bucket_allow now b))"
      using True by (simp_all add: bucket_allow_def r Let_def)
    then have "admitted (Suc k) now b = 1 + min k (nat \<lfloor>?t - 1\<rfloor>)"
      using IH by (simp add: case_prod_beta)
    also have "\<dots> = min (Suc k) (nat \<lfloor>?t\<rfloor>)" using True by (simp add: nat_diff_distrib le_floor_iff) linarith
    finally show ?thesis .
  next
    case False
    then have "tb_tokens ?b' = ?t" "\<not> fst (fst (bucket_allow now b))"
      by (simp_all add: bucket_allow_def r Let_def)
    moreover have "nat \<lfloor>?t\<rfloor> = 0" using False by simp
    ultimately show ?thesis using IH by (simp add: case_prod_beta)
  qed
qed

text \<open>
  a new client's burst is exactly the configured rate: of \<open>k\<close> challenge requests at one
  instant the bucket admits \<open>min k (max1 PowChallengePerMin)\<close>, no more by rounding and no less.
\<close>

theorem burst_exact:
  assumes "max1 (PowChallengePerMin cfg) < 2 ^ 53"
  shows "admitted k now (new_bucket cfg now) = min k (nat (max1 (PowChallengePerMin cfg)))"
proof -
  have "rnd (of_int (max1 (PowChallengePerMin cfg))) = of_int (max1 (PowChallengePerMin cfg))"
    using assms by (intro rnd_of_int) (simp add: max1_def)
  moreover have "tb_last (new_bucket cfg now) = now" by (simp add: new_bucket_def Let_def)
  ultimately show ?thesis
    using admitted_same_instant [OF new_bucket_ok [OF assms, of now], of now k]
    by (simp add: new_bucket_def Let_def)
qed

theorem burst_exact_witness: "admitted 9 0 (new_bucket DefaultConfig 0) = 6"
proof -
  have c: "PowChallengePerMin DefaultConfig = 6" by (simp add: DefaultConfig_def)
  then have "max1 (PowChallengePerMin DefaultConfig) < 2 ^ 53" by (simp add: max1_def)
  from burst_exact [OF this, of 9 0] show ?thesis by (simp add: c max1_def)
qed

fun daily_admitted :: "nat \<Rightarrow> string \<Rightarrow> daily_count \<Rightarrow> nat" where
  "daily_admitted 0 today d = 0"
| "daily_admitted (Suc k) today d =
     (case daily_allow today d of (ok, d') \<Rightarrow> (if ok then 1 else 0) + daily_admitted k today d')"

lemma daily_admitted_same_day:
  "dc_day d = today \<Longrightarrow> 0 \<le> dc_n d \<Longrightarrow>
     daily_admitted k today d = min k (nat (dc_limit d - dc_n d))"
proof (induction k arbitrary: d)
  case 0
  then show ?case by simp
next
  case (Suc k)
  show ?case
  proof (cases "dc_n d \<ge> dc_limit d")
    case True
    with Suc show ?thesis by (simp add: daily_allow_def)
  next
    case False
    with Suc.prems Suc.IH [of "d\<lparr> dc_n := dc_n d + 1 \<rparr>"] show ?thesis
      by (simp add: daily_allow_def)
  qed
qed

text \<open>
  the daily cap is exact, and a new day starts afresh: of \<open>k\<close> requests of one client on a
  day its counter has not seen yet, exactly \<open>min k limit\<close> pass, whatever was counted before.
\<close>

theorem daily_cap_exact:
  assumes "dc_day d \<noteq> today"
  shows "daily_admitted k today d = min k (nat (dc_limit d))"
proof -
  have "daily_admitted k today d = daily_admitted k today (d\<lparr> dc_day := today, dc_n := 0 \<rparr>)"
    using assms by (cases k) (simp_all add: daily_allow_def)
  then show ?thesis by (simp add: daily_admitted_same_day)
qed

theorem daily_cap_exact_witness:
  "daily_admitted 5 ''2026-01-02'' \<lparr> dc_day = ''2026-01-01'', dc_n = 3, dc_limit = 3 \<rparr> = 3"
proof -
  have "dc_day \<lparr> dc_day = ''2026-01-01'', dc_n = 3, dc_limit = 3 \<rparr> \<noteq> ''2026-01-02''" by simp
  from daily_cap_exact [OF this, of 5] show ?thesis by simp
qed

section \<open>The per-key limits\<close>

text \<open>
  the waiting time announced for a plan's rate limit is about sixty times too short. The
  bucket refills \<open>rpm / 60\<close> tokens a second, but the deficit is divided by \<open>rpm\<close>: for every
  rate, a key with an empty bucket that waits fifty times as long as it was told is still
  refused.
\<close>

theorem rpm_retry_too_short:
  assumes rpm: "1 \<le> rpm" "rb_rpm rb = of_int rpm"
    and empty: "rb_tokens rb = 0" "rb_last rb = now"
    and rej: "rpm_allow now rb = ((r, code), rb')"
    and wait: "now \<le> now'" "now' \<le> now + 50 * r"
  shows "code = ''rate_limited'' \<and> snd (fst (rpm_allow now' rb')) = ''rate_limited''"
proof -
  have R: "1 \<le> (of_int rpm :: rat)" using rpm by simp
  have z: "rpm_refill now rb = 0"
    using rpm by (simp add: rpm_refill_def empty time_sub_def Let_def)
  with rej have code: "code = ''rate_limited''" and r: "r = duration_of_seconds (rnd (1 / of_int rpm))"
    and rb': "rb' = rb\<lparr> rb_tokens := 0, rb_last := now \<rparr>"
    by (auto simp: rpm_allow_def Let_def rpm)
  define q :: rat where "q = 1 / of_int rpm"
  have q: "0 \<le> q" using rpm by (simp add: q_def)
  let ?e = "time_sub now' now"
  have e0: "0 \<le> ?e" and e: "?e \<le> 50 * r" using wait by (simp_all add: time_sub_def)
  have "rnd q \<le> q * (101 / 100)" using q by (rule rnd_le_percent)
  moreover have p: "0 \<le> rnd q" using q by (rule rnd_nonneg)
  ultimately have "rnd (rnd q * 1000000000)
      \<le> q * (101 / 100) * 1000000000 * (101 / 100)"
    using rnd_le_percent [of "rnd q * 1000000000"] by simp
  moreover have "of_int r \<le> rnd (rnd q * 1000000000)"
    using p by (simp add: r duration_of_seconds_def trunc_def rnd_nonneg q_def)
  moreover have "of_int ?e \<le> (of_int (50 * r) :: rat)" using e by (simp only: of_int_le_iff)
  then have "of_int ?e \<le> (50 * of_int r :: rat)" by (simp only: of_int_mult of_int_numeral)
  ultimately have el: "of_int ?e / 1000000000 \<le> 50 * (10201 / 10000) * q"
    by linarith
  have "seconds ?e \<le> of_int ?e / 1000000000 * (102011 / 100000)" using e0 by (rule seconds_le_percent)
  also have "\<dots> \<le> 53 * q" using el q by linarith
  finally have s: "seconds ?e \<le> 53 / of_int rpm" by (simp add: q_def)
  have "rnd (of_int rpm / 60) \<le> of_int rpm / 60 * (101 / 100)"
    using rpm by (intro rnd_le_percent) simp
  then have "seconds ?e * rnd (of_int rpm / 60) \<le> 53 / of_int rpm * (of_int rpm / 60 * (101 / 100))"
    using s R seconds_nonneg [OF e0] by (intro mult_mono) (simp_all add: rnd_nonneg)
  also have "\<dots> \<le> 9 / 10" using R by simp
  finally have "rnd (rnd (seconds ?e * rnd (of_int rpm / 60))) \<le> rnd (9 / 10)" by (simp add: rnd_mono)
  moreover have "rnd (9 / 10) < 1" by code_simp
  ultimately have "rpm_refill now' rb' < 1" by (simp add: rpm_refill_def rb' rpm Let_def)
  then have "snd (fst (rpm_allow now' rb')) = ''rate_limited''" by (simp add: rpm_allow_def Let_def)
  with code show ?thesis ..
qed

definition drained :: rpm_bucket where
  "drained = \<lparr> rb_tokens = 0, rb_last = 0, rb_rpm = of_int 60 \<rparr>"

theorem rpm_retry_too_short_witness:
  "fst (fst (rpm_allow 0 drained)) = 16666666
     \<and> snd (fst (rpm_allow (50 * 16666666) (snd (rpm_allow 0 drained)))) = ''rate_limited''"
proof -
  have r: "fst (fst (rpm_allow 0 drained)) = 16666666" by code_simp
  then have e: "rpm_allow 0 drained = ((16666666, snd (fst (rpm_allow 0 drained))), snd (rpm_allow 0 drained))"
    by (simp add: prod_eq_iff)
  have "rb_rpm drained = of_int 60" "rb_tokens drained = 0" "rb_last drained = 0"
    by (simp_all add: drained_def)
  from rpm_retry_too_short [OF _ this e, of "50 * 16666666"] r show ?thesis by simp
qed

definition burst_entries :: "pow_service \<Rightarrow> string \<Rightarrow> int list" where
  "burst_entries s h = (case ps_burst_win s h of Some ts \<Rightarrow> ts | None \<Rightarrow> [])"

definition cooled :: "pow_service \<Rightarrow> string \<Rightarrow> time \<Rightarrow> bool" where
  "cooled s h t \<longleftrightarrow> (case ps_cooldowns s h of None \<Rightarrow> True | Some u \<Rightarrow> u \<le> t)"

definition burst_limited :: "config \<Rightarrow> bool" where
  "burst_limited cfg \<longleftrightarrow> 0 < PowBurstRPS cfg \<and> 0 < PowBurstCooldown cfg"

text \<open>The three outcomes of a check, as far as the burst window is concerned.\<close>

lemma check_rpm_frame [frame_simps]:
  "ps_cfg (snd (check_rpm now h rpm s)) = ps_cfg s"
  "ps_burst_win (snd (check_rpm now h rpm s)) = ps_burst_win s"
  "ps_cooldowns (snd (check_rpm now h rpm s)) = ps_cooldowns s"
  by (simp_all add: check_rpm_def Let_def split: prod.split)

lemma limits_refused:
  assumes "\<not> cooled s h now" "0 < rpm" "checkKeyLimits now nu h rpm s = ((r, code), s')"
  shows "code = ''key_cooldown'' \<and> s' = s"
  using assms by (auto simp: checkKeyLimits_def cooled_def split: option.splits)

lemma check_burst_eq:
  assumes "burst_limited (ps_cfg v)"
  shows "check_burst now h rpm v =
    (let kept = filter (\<lambda>t. t > now - Second) (burst_entries v h) @ [now]
     in if int (length kept) > PowBurstRPS (ps_cfg v) then
          ((PowBurstCooldown (ps_cfg v), ''key_cooldown''),
           v\<lparr> ps_burst_win := (ps_burst_win v)(h \<mapsto> []),
              ps_cooldowns := (ps_cooldowns v)(h \<mapsto> now + PowBurstCooldown (ps_cfg v)) \<rparr>)
        else check_rpm now h rpm (v\<lparr> ps_burst_win := (ps_burst_win v)(h \<mapsto> kept) \<rparr>))"
  using assms by (simp add: check_burst_def burst_limited_def burst_window_def Let_def burst_entries_def)

lemma limits_open:
  assumes "cooled s h now" "0 < rpm" "burst_limited (ps_cfg s)"
    and "checkKeyLimits now nu h rpm s = ((r, code), s')"
  shows "(code = ''key_cooldown'' \<and> burst_entries s' h = []
        \<and> ps_cooldowns s' h = Some (now + PowBurstCooldown (ps_cfg s)))
    \<or> (burst_entries s' h = filter (\<lambda>t. t > now - Second) (burst_entries s h) @ [now]
        \<and> int (length (burst_entries s' h)) \<le> PowBurstRPS (ps_cfg s) \<and> ps_cooldowns s' h = None)"
proof -
  let ?s = "s\<lparr> ps_cooldowns := (ps_cooldowns s)(h := None) \<rparr>"
  define v where "v = (if ps_cooldowns s h = None then s else ?s)"
  have eq: "checkKeyLimits now nu h rpm s = check_burst now h rpm v"
    using assms(1,2) by (auto simp: checkKeyLimits_def cooled_def v_def split: option.splits)
  have v: "ps_cfg v = ps_cfg s" "burst_entries v h = burst_entries s h" "ps_cooldowns v h = None"
    by (simp_all add: v_def burst_entries_def)
  let ?kept = "filter (\<lambda>t. t > now - Second) (burst_entries s h) @ [now]"
  show ?thesis
  proof (cases "int (length ?kept) > PowBurstRPS (ps_cfg s)")
    case True
    with check_burst_eq [of v now h rpm] assms(3,4) eq v show ?thesis
      by (auto simp: burst_entries_def)
  next
    case False
    with check_burst_eq [of v now h rpm] assms(3,4) eq v
    have "s' = snd (check_rpm now h rpm (v\<lparr> ps_burst_win := (ps_burst_win v)(h \<mapsto> ?kept) \<rparr>))"
      by (simp add: prod_eq_iff)
    then have "burst_entries s' h = ?kept" "ps_cooldowns s' h = None"
      using v by (simp_all add: burst_entries_def frame_simps)
    with False show ?thesis by simp
  qed
qed

lemma limits_cfg:
  "ps_cfg (snd (checkKeyLimits now nu h rpm s)) = ps_cfg s"
  by (simp add: checkKeyLimits_def check_burst_def Let_def frame_simps split: option.split prod.split)

text \<open>The instants at which requests of one key pass, for requests at given instants.\<close>

fun passed :: "string \<Rightarrow> int \<Rightarrow> time list \<Rightarrow> pow_service \<Rightarrow> time list" where
  "passed h rpm [] s = []"
| "passed h rpm (t # ts) s =
     (case checkKeyLimits t t h rpm s of
        ((_, code), s') \<Rightarrow> (if code = [] then [t] else []) @ passed h rpm ts s')"

definition in_second :: "time \<Rightarrow> time list \<Rightarrow> nat" where
  "in_second t ts = length (filter (\<lambda>b. t - Second < b \<and> b \<le> t) ts)"

definition burst_inv :: "config \<Rightarrow> string \<Rightarrow> time list \<Rightarrow> time \<Rightarrow> pow_service \<Rightarrow> bool" where
  "burst_inv cfg h as now s \<longleftrightarrow>
     ps_cfg s = cfg \<and> (\<forall>a \<in> set as. a \<le> now)
       \<and> (\<forall>t \<ge> now. cooled s h t \<longrightarrow>
            length (filter (\<lambda>b. t - Second < b) as) \<le> length (filter (\<lambda>b. t - Second < b) (burst_entries s h)))
       \<and> (\<forall>a \<in> set as. int (in_second a as) \<le> PowBurstRPS cfg)"

lemma filter_later:
  fixes now t :: int
  assumes "now \<le> t"
  shows "filter (\<lambda>b. now - Second < b \<and> t - Second < b) ws = filter (\<lambda>b. t - Second < b) ws"
  using assms by (induction ws) auto

lemma in_second_snoc:
  assumes "\<forall>a \<in> set as. a \<le> now"
  shows "in_second now (as @ [now]) = Suc (length (filter (\<lambda>b. now - Second < b) as))"
proof -
  have "filter (\<lambda>b. now - Second < b \<and> b \<le> now) as = filter (\<lambda>b. now - Second < b) as"
    using assms by (intro filter_cong) auto
  then show ?thesis by (simp add: in_second_def Second_def)
qed

lemma in_second_earlier: "a < now \<Longrightarrow> in_second a (as @ [now]) = in_second a as"
  by (simp add: in_second_def)

lemma burst_inv_step:
  assumes inv: "burst_inv cfg h as now0 s" and t: "now0 \<le> now" and rpm: "0 < rpm"
    and cfg: "burst_limited cfg" "Second \<le> PowBurstCooldown cfg"
    and step: "checkKeyLimits now now h rpm s = ((r, code), s')"
  shows "burst_inv cfg h (as @ (if code = [] then [now] else [])) now s'"
proof -
  have c: "ps_cfg s = cfg" and old: "\<forall>a \<in> set as. a \<le> now"
    and win: "\<And>t. now \<le> t \<Longrightarrow> cooled s h t \<Longrightarrow>
      length (filter (\<lambda>b. t - Second < b) as) \<le> length (filter (\<lambda>b. t - Second < b) (burst_entries s h))"
    and cnt: "\<forall>a \<in> set as. int (in_second a as) \<le> PowBurstRPS cfg"
    using inv t by (auto simp: burst_inv_def)
  have c': "ps_cfg s' = cfg" using limits_cfg [of now now h rpm s] step c by simp
  show ?thesis
  proof (cases "cooled s h now")
    case False
    with limits_refused [OF _ rpm step] have "code = ''key_cooldown''" "s' = s" by simp_all
    then show ?thesis using c' old win cnt by (simp add: burst_inv_def)
  next
    case True
    from limits_open [OF True rpm _ step] cfg c consider
        (trip) "code = ''key_cooldown''" "burst_entries s' h = []"
          "ps_cooldowns s' h = Some (now + PowBurstCooldown cfg)"
      | (kept) "burst_entries s' h = filter (\<lambda>t. t > now - Second) (burst_entries s h) @ [now]"
          "int (length (burst_entries s' h)) \<le> PowBurstRPS cfg" "ps_cooldowns s' h = None"
      by auto
    then show ?thesis
    proof cases
      case trip
      have "filter (\<lambda>b. t - Second < b) as = []" if "cooled s' h t" for t
        using that trip(3) cfg(2) old by (fastforce simp: cooled_def filter_empty_conv)
      with trip c' old cnt show ?thesis by (simp add: burst_inv_def)
    next
      case kept
      let ?as = "as @ (if code = [] then [now] else [])"
      have new: "length (filter (\<lambda>b. t - Second < b) ?as)
          \<le> length (filter (\<lambda>b. t - Second < b) (burst_entries s' h))" if "now \<le> t" for t
      proof -
        have "cooled s h t" using True that by (auto simp: cooled_def split: option.splits)
        from win [OF that this] show ?thesis using that
          by (simp add: kept(1) filter_later)
      qed
      have "int (in_second a ?as) \<le> PowBurstRPS cfg" if "a \<in> set ?as" for a
      proof (cases "code = [] \<and> a = now")
        case True
        have "in_second now ?as = length (filter (\<lambda>b. now - Second < b) ?as)"
          using True old by (simp add: in_second_snoc Second_def)
        also have "\<dots> \<le> length (filter (\<lambda>b. now - Second < b) (burst_entries s' h))"
          by (rule new) simp
        also have "\<dots> \<le> length (burst_entries s' h)" by (rule length_filter_le)
        finally show ?thesis using True kept(2) by simp
      next
        case False
        then have "a \<in> set as" "code = [] \<Longrightarrow> a < now"
          using that old by (auto split: if_splits simp: less_le)
        with cnt show ?thesis by (simp add: in_second_earlier)
      qed
      with c' old new show ?thesis by (auto simp: burst_inv_def)
    qed
  qed
qed

lemma burst_inv_run:
  "burst_inv cfg h as now0 s \<Longrightarrow> sorted (now0 # ts) \<Longrightarrow> 0 < rpm \<Longrightarrow> burst_limited cfg \<Longrightarrow>
     Second \<le> PowBurstCooldown cfg \<Longrightarrow>
     \<forall>a \<in> set (as @ passed h rpm ts s). int (in_second a (as @ passed h rpm ts s)) \<le> PowBurstRPS cfg"
proof (induction ts arbitrary: as now0 s)
  case Nil
  then show ?case by (simp add: burst_inv_def)
next
  case (Cons t ts)
  obtain r code s' where step: "checkKeyLimits t t h rpm s = ((r, code), s')"
    by (metis prod.collapse)
  have "burst_inv cfg h (as @ (if code = [] then [t] else [])) t s'"
    using Cons.prems by (intro burst_inv_step [OF Cons.prems(1) _ _ _ _ step]) simp_all
  from Cons.IH [OF this] Cons.prems show ?case by (simp add: step)
qed

text \<open>
  C16: the burst limit holds. With a punitive cooldown of at least a second, of all the requests
  of one key that pass its checks, at whatever (non-decreasing) instants they arrive, never more
  than \<open>PowBurstRPS\<close> fall into the second that ends with any one of them, whatever the plan's
  rate admits.
\<close>

theorem burst_limit_holds:
  assumes "sorted ts" "0 < rpm" "burst_limited (ps_cfg s)" "Second \<le> PowBurstCooldown (ps_cfg s)"
    and "ps_burst_win s h = None" "a \<in> set (passed h rpm ts s)"
  shows "int (in_second a (passed h rpm ts s)) \<le> PowBurstRPS (ps_cfg s)"
proof (cases ts)
  case Nil
  with assms show ?thesis by simp
next
  case (Cons t ts')
  have "burst_inv (ps_cfg s) h [] t s" by (simp add: burst_inv_def)
  from burst_inv_run [OF this, of ts rpm] assms Cons show ?thesis by simp
qed

definition fresh_service :: pow_service where
  "fresh_service = \<lparr> ps_cfg = DefaultConfig, ps_store = empty_store,
     ps_diff = NewDifficulty 24 20 40 30 90, ps_cache = Map.empty, ps_ch_buckets = Map.empty,
     ps_ch_daily = Map.empty, ps_rpm_buckets = Map.empty, ps_burst_win = Map.empty,
     ps_cooldowns = Map.empty, ps_esc_start = zero_time, ps_esc_count = 0 \<rparr>"

theorem burst_limit_holds_witness:
  "int (in_second 0 (passed ''h'' 100 [0, 1] fresh_service)) \<le> 5"
proof -
  have c: "PowBurstRPS (ps_cfg fresh_service) = 5" "PowBurstCooldown (ps_cfg fresh_service) = 5 * Minute"
    by (simp_all add: fresh_service_def DefaultConfig_def)
  have "fst (checkKeyLimits 0 0 ''h'' 100 fresh_service) = (0, [])"
    by (simp add: checkKeyLimits_def check_burst_def burst_window_def check_rpm_def rpm_allow_def
        rpm_refill_def fresh_service_def c [unfolded fresh_service_def] time_sub_def Let_def duration_defs)
  then have m: "0 \<in> set (passed ''h'' 100 [0, 1] fresh_service)"
    by (simp add: case_prod_beta)
  have w: "ps_burst_win fresh_service ''h'' = None" by (simp add: fresh_service_def)
  have l: "burst_limited (ps_cfg fresh_service)" "Second \<le> PowBurstCooldown (ps_cfg fresh_service)"
    by (simp_all add: burst_limited_def c duration_defs)
  have s: "sorted [0, 1 :: int]" "0 < (100 :: int)" by simp_all
  from burst_limit_holds [OF s l w m] show ?thesis by (simp only: c)
qed

end
