(* ===== verification/Pow_Redeem.thy ===== *)
theory Pow_Redeem
  imports Pow_Service
begin

text \<open>
  What the issuance flow of \<^verbatim>\<open>internal/handler/pow.go\<close> guarantees over arbitrary sequences of
  requests: when a key is issued, that a challenge buys at most one key, what a minted challenge
  looks like, and how long an issued key is accepted.
\<close>

section \<open>Events of the service\<close>

datatype pow_event =
    Ev_challenge challenge_env pow_request
  | Ev_redeem redeem_env pow_request redeem_body
  | Ev_limits time time string int
  | Ev_lookup bool time string
  | Ev_tick bool bool time time

definition is_key :: "pow_response \<Rightarrow> bool" where
  "is_key resp = (case resp of Key_out _ _ \<Rightarrow> True | _ \<Rightarrow> False)"

fun pow_exec :: "hashes \<Rightarrow> pow_event \<Rightarrow> pow_service \<Rightarrow> bool \<times> pow_service" where
  "pow_exec h (Ev_challenge e r) s = (False, snd (handleChallenge h e r s))"
| "pow_exec h (Ev_redeem e r body) s =
     (is_key (fst (handleRedeem h e r body s)), snd (handleRedeem h e r body s))"
| "pow_exec h (Ev_limits now nu k rpm) s = (False, snd (checkKeyLimits now nu k rpm s))"
| "pow_exec h (Ev_lookup f now k) s = (False, snd (LookupKey f now k s))"
| "pow_exec h (Ev_tick f1 f2 t1 t2) s = (False, maintenance_tick f1 f2 t1 t2 s)"

definition ev_consumes :: "pow_event \<Rightarrow> string option" where
  "ev_consumes ev = (case ev of Ev_redeem _ _ (Redeem_body cid _ _) \<Rightarrow> Some cid | _ \<Rightarrow> None)"

definition ev_mints :: "pow_event \<Rightarrow> string option" where
  "ev_mints ev = (case ev of Ev_challenge e _ \<Rightarrow> Some (ce_uuid e) | _ \<Rightarrow> None)"

section \<open>The handlers on the store\<close>

lemma flood_valve_frame [frame_simps]:
  "ps_store (flood_valve t1 t2 s) = ps_store s"
  "ps_cfg (flood_valve t1 t2 s) = ps_cfg s"
  "ps_cache (flood_valve t1 t2 s) = ps_cache s"
  "ps_ch_buckets (flood_valve t1 t2 s) = ps_ch_buckets s"
  "ps_ch_daily (flood_valve t1 t2 s) = ps_ch_daily s"
  by (simp_all add: flood_valve_def Let_def)

lemma challenge_quota_frame [frame_simps]:
  "ps_store (snd (challenge_quota t day ip s)) = ps_store s"
  "ps_cfg (snd (challenge_quota t day ip s)) = ps_cfg s"
  "ps_diff (snd (challenge_quota t day ip s)) = ps_diff s"
  "ps_cache (snd (challenge_quota t day ip s)) = ps_cache s"
  by (simp_all add: challenge_quota_def Let_def split: prod.split)

lemma checkKeyLimits_frame [frame_simps]:
  "ps_store (snd (checkKeyLimits t nu k rpm s)) = ps_store s"
  "ps_cache (snd (checkKeyLimits t nu k rpm s)) = ps_cache s"
  by (simp_all add: checkKeyLimits_def check_burst_def check_rpm_def Let_def split: option.split prod.split)

lemma LookupKey_frame [frame_simps]:
  "ps_store (snd (LookupKey f now k s)) = ps_store s"
  by (simp add: LookupKey_def split: option.split sum.split)

text \<open>A request for a challenge attempts at most one insertion, under its own id.\<close>

definition inserts_own :: "challenge_env \<Rightarrow> store \<Rightarrow> store \<Rightarrow> bool" where
  "inserts_own e st st' \<longleftrightarrow>
     st' = st \<or> (\<exists>sc. sc_id sc = ce_uuid e \<and> st' = snd (InsertChallenge (ce_insert_fault e) sc st))"

lemma mint_challenge_store:
  "inserts_own e (ps_store s) (ps_store (snd (mint_challenge h e ip ua plan algo s)))"
proof (cases "NewSalt (ce_salt e)")
  case None
  then show ?thesis by (simp add: mint_challenge_def inserts_own_def Let_def)
next
  case (Some salt)
  define sc where "sc = \<lparr> sc_id = ce_uuid e, sc_bind = BindingHash h ip ua, sc_plan = plan, sc_algo = algo,
     sc_difficulty = Current (ps_diff s) (planBits (ps_cfg s) plan)
       (IPBonus (ce_bonus_fault e) (ce_now_bonus e) (BindingHash h ip ua) (ps_store s)),
     sc_salt = salt, sc_issued_at = unix (ce_now e),
     sc_expires_at = unix (ce_now e + PowChallengeTTL (ps_cfg s)), sc_used = False \<rparr>"
  have "ps_store (snd (mint_challenge h e ip ua plan algo s))
      = snd (InsertChallenge (ce_insert_fault e) sc (ps_store s))"
    by (simp add: mint_challenge_def Some Let_def sc_def [symmetric] split: prod.split sum.split)
  moreover have "sc_id sc = ce_uuid e" by (simp add: sc_def)
  ultimately show ?thesis by (auto simp: inserts_own_def)
qed

lemma handleChallenge_store:
  "inserts_own e (ps_store s) (ps_store (snd (handleChallenge h e r s)))"
proof -
  let ?v = "flood_valve (ce_now e) (ce_now_esc e) s"
  obtain ok ra s2 where q: "challenge_quota (ce_now e) (ce_day e) (clientIP r) ?v = ((ok, ra), s2)"
    by (metis prod.collapse)
  then have s2: "ps_store s2 = ps_store s"
    using challenge_quota_frame(1) [of "ce_now e" "ce_day e" "clientIP r" ?v] by (simp add: frame_simps)
  show ?thesis
    using mint_challenge_store [of e s2 h "clientIP r" "rq_agent r"]
    by (simp add: handleChallenge_def q Let_def s2 inserts_own_def)
qed

section \<open>A challenge buys at most one key\<close>

definition service_wf :: "pow_service \<Rightarrow> bool" where
  "service_wf s \<longleftrightarrow> store_wf (ps_store s)"

definition ev_live :: "pow_service \<Rightarrow> string \<Rightarrow> bool" where
  "ev_live s i \<longleftrightarrow> unspent (ps_store s) i"

lemma redeem_checks_found:
  "redeem_checks h e r (Redeem_body cid a cs) s = Inr sc \<Longrightarrow>
     st_challenges (ps_store s) cid = Some sc \<and> \<not> sc_used sc"
  by (auto simp: redeem_checks_def GetChallenge_def split: if_splits option.splits sum.splits)

lemma redeem_checks_body: "redeem_checks h e r body s = Inr sc \<Longrightarrow> body \<noteq> Malformed"
  by (auto simp: redeem_checks_def)

lemma issue_key_store:
  "st_challenges (ps_store (snd (issue_key h e sc s))) = st_challenges (ps_store s)
    \<and> (store_wf (ps_store s) \<longrightarrow> store_wf (ps_store (snd (issue_key h e sc s))))"
proof -
  obtain v st where b: "BumpIPBonus (fst (re_bump_fault e)) (snd (re_bump_fault e)) (re_now_bump e)
      (sc_bind sc) 8 (ps_store s) = (v, st)" by fastforce
  have c: "st_challenges st = st_challenges (ps_store s)" "store_wf (ps_store s) \<Longrightarrow> store_wf st"
    using BumpIPBonus_frame(1) [of "fst (re_bump_fault e)" "snd (re_bump_fault e)" "re_now_bump e"
      "sc_bind sc" 8 "ps_store s"] BumpIPBonus_wf [of "ps_store s" "fst (re_bump_fault e)"
      "snd (re_bump_fault e)" "re_now_bump e" "sc_bind sc" 8]
    by (simp_all add: b)
  show ?thesis
  proof (cases "re_rand e")
    case None
    with c show ?thesis by (simp add: issue_key_def b Let_def)
  next
    case (Some raw)
    define k where "k = \<lparr> ak_hash = KeyHash h (''sk-gw-'' @ b64_raw b64_url raw),
      ak_prefix = take (nat (minStr (int (length (''sk-gw-'' @ b64_raw b64_url raw))) 16))
        (''sk-gw-'' @ b64_raw b64_url raw), ak_plan = sc_plan sc, ak_rpm = planRPM (ps_cfg s) (sc_plan sc),
      ak_created_at = unix (re_now e), ak_expires_at = unix (re_now e + PowKeyTTL (ps_cfg s)) \<rparr>"
    have "ps_store (snd (issue_key h e sc s)) = snd (InsertAPIKey (re_key_fault e) k st)"
      by (simp add: issue_key_def b Some Let_def k_def cacheKey_def split: prod.split sum.split)
    then show ?thesis using c InsertAPIKey_frame(1) [of "re_key_fault e" k st] InsertAPIKey_wf [of st]
      by simp
  qed
qed

lemma issue_key_unspent: "unspent (ps_store (snd (issue_key h e sc s))) i = unspent (ps_store s) i"
  by (simp add: unspent_def issue_key_store)

text \<open>What a redemption does to the store's challenges: nothing, or one consumption.\<close>

lemma handleRedeem_cases:
  "(\<exists>resp. redeem_checks h e r body s = Inl resp \<and> handleRedeem h e r body s = (resp, s))
   \<or> (\<exists>sc c st. redeem_checks h e r body s = Inr sc
        \<and> ConsumeChallenge (re_consume_fault e) (re_now_consume e) (sc_id sc) (ps_store s) = (c, st)
        \<and> (if c = Inr True then handleRedeem h e r body s = issue_key h e sc (s\<lparr> ps_store := st \<rparr>)
           else \<not> is_key (fst (handleRedeem h e r body s))
             \<and> snd (handleRedeem h e r body s) = s\<lparr> ps_store := st \<rparr>))"
proof (cases "redeem_checks h e r body s")
  case (Inl resp)
  then show ?thesis by (simp add: handleRedeem_def)
next
  case (Inr sc)
  obtain c st where c: "ConsumeChallenge (re_consume_fault e) (re_now_consume e) (sc_id sc) (ps_store s) = (c, st)"
    by fastforce
  show ?thesis
    by (cases c) (auto simp: handleRedeem_def Inr c is_key_def split: bool.split)
qed

lemma handleRedeem_success:
  assumes wf: "store_wf (ps_store s)"
    and key: "is_key (fst (handleRedeem h e r (Redeem_body cid a cs) s))"
  shows "unspent (ps_store s) cid
    \<and> \<not> unspent (ps_store (snd (handleRedeem h e r (Redeem_body cid a cs) s))) cid"
proof -
  from handleRedeem_cases [of h e r "Redeem_body cid a cs" s]
  obtain sc c st where sc: "redeem_checks h e r (Redeem_body cid a cs) s = Inr sc"
    and c: "ConsumeChallenge (re_consume_fault e) (re_now_consume e) (sc_id sc) (ps_store s) = (c, st)"
    and hr: "c = Inr True" "handleRedeem h e r (Redeem_body cid a cs) s = issue_key h e sc (s\<lparr> ps_store := st \<rparr>)"
    using key by (auto simp: redeem_checks_def is_key_def split: if_splits option.splits sum.splits)
  have "sc_id sc = cid" using redeem_checks_found [OF sc] wf by (simp add: store_wf_def)
  with consume_success [OF c [unfolded hr(1)]] hr show ?thesis by (simp add: issue_key_unspent)
qed

lemma handleRedeem_store:
  "store_wf (ps_store s) \<Longrightarrow> store_wf (ps_store (snd (handleRedeem h e r body s)))
     \<and> (\<not> unspent (ps_store s) i \<longrightarrow> \<not> unspent (ps_store (snd (handleRedeem h e r body s))) i)"
proof -
  assume wf: "store_wf (ps_store s)"
  from handleRedeem_cases [of h e r body s] show ?thesis
  proof (elim disjE exE conjE)
    fix resp
    assume "handleRedeem h e r body s = (resp, s)"
    with wf show ?thesis by simp
  next
    fix sc c st
    assume c: "ConsumeChallenge (re_consume_fault e) (re_now_consume e) (sc_id sc) (ps_store s) = (c, st)"
      and hr: "if c = Inr True then handleRedeem h e r body s = issue_key h e sc (s\<lparr> ps_store := st \<rparr>)
           else \<not> is_key (fst (handleRedeem h e r body s))
             \<and> snd (handleRedeem h e r body s) = s\<lparr> ps_store := st \<rparr>"
    have "store_wf st" "\<not> unspent (ps_store s) i \<Longrightarrow> \<not> unspent st i"
      using ConsumeChallenge_wf [OF wf, of "re_consume_fault e" "re_now_consume e" "sc_id sc"]
        consume_no_revival [of "ps_store s" i "re_consume_fault e" "re_now_consume e" "sc_id sc"]
      by (simp_all add: c)
    with hr show ?thesis
      using issue_key_store [of h e sc "s\<lparr> ps_store := st \<rparr>"] by (simp add: issue_key_unspent split: if_splits)
  qed
qed

lemma pow_exec_success:
  "service_wf s \<Longrightarrow> pow_exec h ev s = (True, t) \<Longrightarrow> ev_consumes ev = Some i \<Longrightarrow> ev_live s i \<and> \<not> ev_live t i"
  using handleRedeem_success
  by (cases ev) (auto simp: ev_consumes_def ev_live_def service_wf_def split: redeem_body.splits)

lemma inserts_own_no_revival:
  "inserts_own e st st' \<Longrightarrow> \<not> unspent st i \<Longrightarrow> ce_uuid e \<noteq> i \<Longrightarrow> \<not> unspent st' i"
  by (auto simp: inserts_own_def insert_no_revival)

lemma inserts_own_wf: "inserts_own e st st' \<Longrightarrow> store_wf st \<Longrightarrow> store_wf st'"
  by (auto simp: inserts_own_def InsertChallenge_wf)

lemma pow_exec_no_revival:
  "service_wf s \<Longrightarrow> \<not> ev_live s i \<Longrightarrow> ev_mints ev \<noteq> Some i \<Longrightarrow> \<not> ev_live (snd (pow_exec h ev s)) i"
  by (cases ev)
    (simp_all add: ev_mints_def ev_live_def service_wf_def frame_simps handleRedeem_store
      maintenance_tick_def cleanup_no_revival inserts_own_no_revival [OF handleChallenge_store])

lemma pow_exec_wf: "service_wf s \<Longrightarrow> service_wf (snd (pow_exec h ev s))"
  by (cases ev)
    (simp_all add: service_wf_def frame_simps handleRedeem_store maintenance_tick_def
      CleanupExpired_wf inserts_own_wf [OF handleChallenge_store])

interpretation pw: single_use "pow_exec h" ev_consumes ev_mints ev_live service_wf for h
  by unfold_locales (simp_all add: pow_exec_success pow_exec_no_revival pow_exec_wf)

fun keys_issued_for :: "hashes \<Rightarrow> string \<Rightarrow> pow_event list \<Rightarrow> pow_service \<Rightarrow> nat" where
  "keys_issued_for h i [] s = 0"
| "keys_issued_for h i (ev # evs) s =
     (if fst (pow_exec h ev s) \<and> ev_consumes ev = Some i then 1 else 0)
       + keys_issued_for h i evs (snd (pow_exec h ev s))"

lemma keys_issued_successes: "keys_issued_for h i evs s = pw.successes h i evs s"
  by (induction evs arbitrary: s) simp_all

text \<open>
  Redemptions that do not overlap are one instance of the contract; \<open>Pow_Race\<close> has those that do.
\<close>

lemma one_key_in_sequence:
  assumes "service_wf s" "\<forall>ev \<in> set evs. ev_mints ev \<noteq> Some i"
  shows "keys_issued_for h i evs s \<le> 1"
  unfolding keys_issued_successes using assms by (rule pw.at_most_once)

section \<open>A concrete run\<close>

definition demo_hashes :: hashes where
  "demo_hashes = \<lparr> sha256_sum = (\<lambda>_. replicate 32 0), blake3_sum = (\<lambda>_. replicate 32 0) \<rparr>"

definition demo_request :: pow_request where
  "demo_request = \<lparr> rq_xff = [], rq_remote = ''10.0.0.1:4711'', rq_agent = ''curl'', rq_plan = ''pro'',
     rq_algo = [] \<rparr>"

definition demo_row :: stored_challenge where
  "demo_row = \<lparr> sc_id = ''id'', sc_bind = replicate 22 CHR ''A'', sc_plan = ''pro'', sc_algo = AlgoSHA256,
     sc_difficulty = 24, sc_salt = ''s'', sc_issued_at = 0, sc_expires_at = 600, sc_used = False \<rparr>"

definition demo_service :: pow_service where
  "demo_service = \<lparr> ps_cfg = DefaultConfig,
     ps_store = \<lparr> st_challenges = [''id'' \<mapsto> demo_row], st_keys = Map.empty, st_bonus = Map.empty \<rparr>,
     ps_diff = NewDifficulty 24 20 40 30 90, ps_cache = Map.empty, ps_ch_buckets = Map.empty,
     ps_ch_daily = Map.empty, ps_rpm_buckets = Map.empty, ps_burst_win = Map.empty,
     ps_cooldowns = Map.empty, ps_esc_start = zero_time, ps_esc_count = 0 \<rparr>"

definition demo_env :: "time \<Rightarrow> redeem_env" where
  "demo_env t = \<lparr> re_now = t, re_now_consume = t, re_now_bump = t, re_get_fault = False,
     re_consume_fault = False, re_bump_fault = (False, False), re_key_fault = False,
     re_rand = Some (replicate 32 0) \<rparr>"

definition demo_body :: redeem_body where
  "demo_body = Redeem_body ''id'' [] [''0000000007'']"

lemma demo_binding: "BindingHash demo_hashes ip ua = replicate 22 CHR ''A''"
proof -
  have "b64_raw b64_std (replicate 16 0) = replicate 22 CHR ''A''" by code_simp
  then show ?thesis by (simp add: BindingHash_def demo_hashes_def)
qed

lemma demo_verify: "Verify demo_hashes (ToChallenge demo_row) [''0000000007''] = Inr 256"
proof -
  have "LeadingZeroBits (replicate 32 0) = 256" by code_simp
  then show ?thesis
    by (simp add: Verify_def Digest_def demo_hashes_def Satisfies_def ToChallenge_def demo_row_def Let_def)
qed

lemma demo_wf: "service_wf demo_service"
  by (simp add: service_wf_def store_wf_def demo_service_def demo_row_def)

lemma demo_checks:
  "1 \<le> t \<Longrightarrow> t \<le> 600 \<Longrightarrow>
     redeem_checks demo_hashes (demo_env (t * Second)) demo_request demo_body demo_service = Inr demo_row"
  by (simp add: redeem_checks_def demo_body_def demo_service_def GetChallenge_def demo_env_def
      unix_def Second_def Millisecond_def time_sub_def demo_binding demo_verify)
    (simp add: demo_row_def)

lemma demo_redeem:
  "\<exists>key k. fst (handleRedeem demo_hashes (demo_env (60 * Second)) demo_request demo_body demo_service)
     = Key_out key k"
proof -
  have c: "ConsumeChallenge False (60 * Second) ''id'' (ps_store demo_service)
      = (Inr True, (ps_store demo_service)\<lparr> st_challenges := [''id'' \<mapsto> demo_row\<lparr> sc_used := True \<rparr>] \<rparr>)"
    by (simp add: ConsumeChallenge_def demo_service_def demo_row_def unix_def Second_def)
  have i: "sc_id demo_row = ''id''" by (simp add: demo_row_def)
  have "redeem_checks demo_hashes (demo_env (60 * Second)) demo_request demo_body demo_service = Inr demo_row"
    by (rule demo_checks) simp_all
  then show ?thesis
    by (simp add: handleRedeem_def demo_env_def i c)
      (simp add: issue_key_def BumpIPBonus_def InsertAPIKey_def demo_service_def Let_def)
qed

section \<open>When a key is issued\<close>

lemma issue_key_out:
  assumes "issue_key h e sc s = (Key_out key k, s')"
  shows "ak_hash k = KeyHash h key \<and> ak_plan k = sc_plan sc \<and> ak_rpm k = planRPM (ps_cfg s) (sc_plan sc)
    \<and> ak_expires_at k = unix (re_now e + PowKeyTTL (ps_cfg s)) \<and> ps_cache s' (KeyHash h key) = Some k
    \<and> st_keys (ps_store s') (KeyHash h key) = Some \<lparr> kr_key = k, kr_disabled = False \<rparr>"
proof -
  obtain v st where b: "BumpIPBonus (fst (re_bump_fault e)) (snd (re_bump_fault e)) (re_now_bump e)
      (sc_bind sc) 8 (ps_store s) = (v, st)" by fastforce
  show ?thesis using assms
    by (auto simp: issue_key_def b cacheKey_def InsertAPIKey_def Let_def split: option.splits if_splits)
qed

lemma handleRedeem_key:
  assumes key: "handleRedeem h e r (Redeem_body cid a cs) s = (Key_out key k, s')"
  shows "\<exists>sc st. redeem_checks h e r (Redeem_body cid a cs) s = Inr sc
    \<and> ConsumeChallenge (re_consume_fault e) (re_now_consume e) (sc_id sc) (ps_store s) = (Inr True, st)
    \<and> issue_key h e sc (s\<lparr> ps_store := st \<rparr>) = (Key_out key k, s')"
proof -
  have n: "redeem_checks h e r (Redeem_body cid a cs) s \<noteq> Inl (Key_out key k)"
    by (auto simp: redeem_checks_def split: option.splits sum.splits)
  from handleRedeem_cases [of h e r "Redeem_body cid a cs" s] show ?thesis
    using key n by (auto simp: is_key_def split: if_splits)
qed

text \<open>
  C2: keys are never given away. A redemption answered with a key comes from the client the
  challenge was bound to, for a stored challenge that is unused and unexpired at both clock
  readings, at least half a second after its issuance, with a counter that \<open>Verify\<close> accepts; and
  the key it hands out is the one stored and cached, with the plan of the challenge and that
  plan's rate.
\<close>

theorem issuance_sound:
  assumes "store_wf (ps_store s)"
    and "handleRedeem h e r (Redeem_body cid a cs) s = (Key_out key k, s')"
  shows "\<exists>sc bits. st_challenges (ps_store s) cid = Some sc \<and> \<not> sc_used sc
    \<and> unix (re_now e) \<le> sc_expires_at sc \<and> unix (re_now_consume e) < sc_expires_at sc
    \<and> 500 * Millisecond \<le> time_sub (re_now e) (sc_issued_at sc * Second)
    \<and> BindingHash h (clientIP r) (rq_agent r) = sc_bind sc
    \<and> Verify h (ToChallenge sc) cs = Inr bits
    \<and> ak_plan k = sc_plan sc \<and> ak_rpm k = planRPM (ps_cfg s) (sc_plan sc)
    \<and> fst (LookupKey f t (KeyHash h key) s') = Some (ak_plan k, ak_rpm k)"
proof -
  obtain sc st where sc: "redeem_checks h e r (Redeem_body cid a cs) s = Inr sc"
    and c: "ConsumeChallenge (re_consume_fault e) (re_now_consume e) (sc_id sc) (ps_store s) = (Inr True, st)"
    and k: "issue_key h e sc (s\<lparr> ps_store := st \<rparr>) = (Key_out key k, s')"
    using handleRedeem_key [OF assms(2)] by blast
  have found: "st_challenges (ps_store s) cid = Some sc" "\<not> sc_used sc"
    using redeem_checks_found [OF sc] by simp_all
  moreover have "sc_id sc = cid" using found assms(1) by (simp add: store_wf_def)
  moreover from c found this have "unix (re_now_consume e) < sc_expires_at sc"
    by (auto simp: ConsumeChallenge_def split: if_splits)
  moreover from sc found have "unix (re_now e) \<le> sc_expires_at sc
      \<and> 500 * Millisecond \<le> time_sub (re_now e) (sc_issued_at sc * Second)
      \<and> BindingHash h (clientIP r) (rq_agent r) = sc_bind sc
      \<and> (\<exists>bits. Verify h (ToChallenge sc) cs = Inr bits)"
    by (auto simp: redeem_checks_def GetChallenge_def split: if_splits sum.splits)
  moreover note issue_key_out [OF k]
  ultimately show ?thesis by (auto simp: LookupKey_def)
qed

theorem issuance_sound_witness:
  "\<exists>sc bits. st_challenges (ps_store demo_service) ''id'' = Some sc
     \<and> Verify demo_hashes (ToChallenge sc) [''0000000007''] = Inr bits"
proof -
  obtain key k where "fst (handleRedeem demo_hashes (demo_env (60 * Second)) demo_request demo_body demo_service)
      = Key_out key k" using demo_redeem by blast
  then have "handleRedeem demo_hashes (demo_env (60 * Second)) demo_request
      (Redeem_body ''id'' [] [''0000000007'']) demo_service = (Key_out key k,
        snd (handleRedeem demo_hashes (demo_env (60 * Second)) demo_request
      (Redeem_body ''id'' [] [''0000000007'']) demo_service))"
    by (simp add: demo_body_def prod_eq_iff)
  from issuance_sound [OF demo_wf [unfolded service_wf_def] this] show ?thesis by blast
qed

section \<open>How long a key is accepted\<close>

definition run_events :: "hashes \<Rightarrow> pow_event list \<Rightarrow> pow_service \<Rightarrow> pow_service" where
  "run_events h evs s = fold (\<lambda>ev s. snd (pow_exec h ev s)) evs s"

lemma issue_key_cache:
  "ps_cache s k \<noteq> None \<Longrightarrow> ps_cache (snd (issue_key h e sc s)) k \<noteq> None"
  by (auto simp: issue_key_def cacheKey_def Let_def split: option.split prod.split sum.split)

lemma handleRedeem_cache:
  "ps_cache s k \<noteq> None \<Longrightarrow> ps_cache (snd (handleRedeem h e r body s)) k \<noteq> None"
  using handleRedeem_cases [of h e r body s] issue_key_cache
  by (fastforce split: if_splits)

lemma mint_challenge_cache: "ps_cache (snd (mint_challenge h e ip ua plan algo s)) = ps_cache s"
  by (simp add: mint_challenge_def Let_def split: option.split prod.split sum.split)

lemma handleChallenge_cache: "ps_cache (snd (handleChallenge h e r s)) = ps_cache s"
proof -
  let ?v = "flood_valve (ce_now e) (ce_now_esc e) s"
  obtain ok ra s2 where q: "challenge_quota (ce_now e) (ce_day e) (clientIP r) ?v = ((ok, ra), s2)"
    by (metis prod.collapse)
  then have "ps_cache s2 = ps_cache s"
    using challenge_quota_frame(4) [of "ce_now e" "ce_day e" "clientIP r" ?v] by (simp add: frame_simps)
  then show ?thesis by (simp add: handleChallenge_def q Let_def mint_challenge_cache)
qed

lemma LookupKey_cache: "ps_cache s k \<noteq> None \<Longrightarrow> ps_cache (snd (LookupKey f t h s)) k \<noteq> None"
  by (auto simp: LookupKey_def split: option.split sum.split)

lemma pow_exec_cache: "ps_cache s k \<noteq> None \<Longrightarrow> ps_cache (snd (pow_exec h ev s)) k \<noteq> None"
  by (cases ev)
    (simp_all add: handleChallenge_cache handleRedeem_cache LookupKey_cache frame_simps maintenance_tick_def)

lemma run_events_cache: "ps_cache s k \<noteq> None \<Longrightarrow> ps_cache (run_events h evs s) k \<noteq> None"
proof (induction evs arbitrary: s)
  case Nil
  then show ?case by (simp add: run_events_def)
next
  case (Cons ev evs)
  from Cons.IH [OF pow_exec_cache [OF Cons.prems, of h ev]] show ?case by (simp add: run_events_def)
qed

text \<open>
  an issued key outlives its expiry. Once a redemption has issued a key, the gateway accepts
  it at every later instant, whatever happens in between (clean-ups that delete its row
  included), until the process restarts: \<open>LookupKey\<close> answers from the cache, which no event
  prunes and whose entries are not checked against \<open>ExpiresAt\<close>. The store itself stops knowing
  the key at its expiry.
\<close>

theorem issued_key_never_expires:
  assumes "handleRedeem h e r (Redeem_body cid a cs) s = (Key_out key k, s')"
  shows "fst (LookupKey f t (KeyHash h key) (run_events h evs s')) \<noteq> None
    \<and> (ak_expires_at k \<le> unix t \<longrightarrow> GetAPIKey False t (KeyHash h key) (ps_store s') = Inr None)"
proof -
  obtain sc st where k: "issue_key h e sc (s\<lparr> ps_store := st \<rparr>) = (Key_out key k, s')"
    using handleRedeem_key [OF assms] by blast
  then have "ps_cache s' (KeyHash h key) \<noteq> None" using issue_key_out by blast
  then have "ps_cache (run_events h evs s') (KeyHash h key) \<noteq> None" by (rule run_events_cache)
  then show ?thesis
    using issue_key_out [OF k]
    by (auto simp: LookupKey_def GetAPIKey_def keep_rows_def live_row_def)
qed

theorem issued_key_never_expires_witness:
  "\<exists>key. fst (LookupKey False (1000 * 24 * Hour) (KeyHash demo_hashes key)
     (run_events demo_hashes [Ev_tick False False (900 * 24 * Hour) (900 * 24 * Hour)]
       (snd (handleRedeem demo_hashes (demo_env (60 * Second)) demo_request demo_body demo_service)))) \<noteq> None"
proof -
  let ?r = "handleRedeem demo_hashes (demo_env (60 * Second)) demo_request demo_body demo_service"
  obtain key k where "fst ?r = Key_out key k" using demo_redeem by blast
  then have "handleRedeem demo_hashes (demo_env (60 * Second)) demo_request
      (Redeem_body ''id'' [] [''0000000007'']) demo_service = (Key_out key k, snd ?r)"
    by (simp add: demo_body_def prod_eq_iff)
  from issued_key_never_expires [OF this] show ?thesis by blast
qed

section \<open>The last second of a challenge\<close>

text \<open>
  in the very second a challenge expires a correct solution is answered "already used". The
  handler still accepts the challenge there (it refuses only later seconds as expired), but the
  consuming statement requires the expiry to lie strictly ahead, so no row is changed and the
  client reads 409 \<open>already_used\<close> for a challenge nobody used.
\<close>

theorem expiry_second_misreported:
  assumes "redeem_checks h e r body s = Inr sc" "body = Redeem_body cid a cs"
    and "unix (re_now e) = sc_expires_at sc" "re_now e \<le> re_now_consume e" "\<not> re_consume_fault e"
    and "store_wf (ps_store s)"
  shows "\<not> sc_used sc
    \<and> handleRedeem h e r body s = (Pow_err 409 ''Challenge already used'' ''already_used'' None, s)"
proof -
  have f: "st_challenges (ps_store s) cid = Some sc" "\<not> sc_used sc"
    using redeem_checks_found assms(1,2) by blast+
  then have "sc_id sc = cid" using assms(6) by (simp add: store_wf_def)
  moreover have "\<not> sc_expires_at sc > unix (re_now_consume e)"
    using unix_mono [OF assms(4)] assms(3) by simp
  ultimately show ?thesis
    using f assms by (simp add: handleRedeem_def ConsumeChallenge_def)
qed

theorem expiry_second_misreported_witness:
  "fst (handleRedeem demo_hashes (demo_env (600 * Second)) demo_request demo_body demo_service)
     = Pow_err 409 ''Challenge already used'' ''already_used'' None"
proof -
  have c: "redeem_checks demo_hashes (demo_env (600 * Second)) demo_request demo_body demo_service = Inr demo_row"
    by (rule demo_checks) simp_all
  have "unix (re_now (demo_env (600 * Second))) = sc_expires_at demo_row"
    by (simp add: demo_env_def demo_row_def unix_def Second_def)
  from expiry_second_misreported [OF c demo_body_def this _ _ demo_wf [unfolded service_wf_def]]
  show ?thesis by (simp add: demo_env_def)
qed

section \<open>Minted challenges\<close>

lemma b64_std_no_bar: "i < 64 \<Longrightarrow> b64_std i \<noteq> CHR ''|''"
proof -
  let ?a = "''ABCDEFGHIJKLMNOPQRSTUVWXYZabcdefghijklmnopqrstuvwxyz0123456789+/''"
  assume "i < 64"
  then have "b64_std i \<in> set ?a" unfolding b64_std_def by (intro nth_mem) simp
  moreover have "CHR ''|'' \<notin> set ?a" by code_simp
  ultimately show ?thesis by metis
qed

lemma sextets:
  fixes a b :: byte
  shows "unat a div 4 < 64" "unat a mod 4 * 16 + unat b div 16 < 64"
    "unat a mod 16 * 4 + unat b div 64 < 64" "unat a mod 4 * 16 < 64" "unat a mod 16 * 4 < 64"
    "unat a mod 64 < 64"
proof -
  have "unat a < 256" "unat b < 256"
    using unsigned_less [of a, where ?'a = nat] unsigned_less [of b, where ?'a = nat] by simp_all
  then show "unat a div 4 < 64" "unat a mod 4 * 16 + unat b div 16 < 64"
    "unat a mod 16 * 4 + unat b div 64 < 64" "unat a mod 4 * 16 < 64" "unat a mod 16 * 4 < 64"
    "unat a mod 64 < 64" by linarith+
qed

lemma b64_raw_no_bar: "CHR ''|'' \<notin> set (b64_raw b64_std bs)"
  by (induction b64_std bs rule: b64_raw.induct)
    (simp_all add: sextets [THEN b64_std_no_bar, THEN not_sym])

lemma mint_challenge_out:
  assumes "mint_challenge h e ip ua plan algo s = (Challenge_out c, s')"
  shows "\<exists>sc. st_challenges (ps_store s') (ch_id c) = Some sc \<and> \<not> sc_used sc \<and> ToChallenge sc = c
    \<and> ch_plan c = plan \<and> ch_algo c = algo \<and> ch_bind c = BindingHash h ip ua
    \<and> ch_expires_at c = unix (ce_now e + PowChallengeTTL (ps_cfg s))
    \<and> (\<exists>b. ch_difficulty c = Current (ps_diff s) (planBits (ps_cfg s) plan) b)
    \<and> CHR ''|'' \<notin> set (ch_salt c) \<and> CHR ''|'' \<notin> set (ch_bind c)"
proof -
  obtain bs where salt: "ce_salt e = Some bs"
    using assms by (auto simp: mint_challenge_def NewSalt_def Let_def split: option.splits)
  show ?thesis
    using assms
    by (auto simp: mint_challenge_def NewSalt_def salt Let_def InsertChallenge_def ToChallenge_def
        b64_raw_no_bar BindingHash_def split: if_splits)
qed

lemma flood_valve_diff:
  "diff_inv (ps_diff s) \<Longrightarrow> diff_inv (ps_diff (flood_valve t1 t2 s))
     \<and> df_min (ps_diff (flood_valve t1 t2 s)) = df_min (ps_diff s)
     \<and> df_max (ps_diff (flood_valve t1 t2 s)) = df_max (ps_diff s)"
  by (simp add: flood_valve_def Let_def Escalate_inv frame_simps)

lemma handleChallenge_minted:
  assumes "handleChallenge h e r s = (Challenge_out c, s')"
  shows "\<exists>s2 plan algo. mint_challenge h e (clientIP r) (rq_agent r) plan algo s2 = (Challenge_out c, s')
    \<and> ValidPlan plan \<and> ValidAlgo algo \<and> ps_cfg s2 = ps_cfg s
    \<and> ps_diff s2 = ps_diff (flood_valve (ce_now e) (ce_now_esc e) s)"
proof -
  let ?v = "flood_valve (ce_now e) (ce_now_esc e) s"
  obtain ok ra s2 where q: "challenge_quota (ce_now e) (ce_day e) (clientIP r) ?v = ((ok, ra), s2)"
    by (metis prod.collapse)
  then have "ps_cfg s2 = ps_cfg s" "ps_diff s2 = ps_diff ?v"
    using challenge_quota_frame(2,3) [of "ce_now e" "ce_day e" "clientIP r" ?v] by (simp_all add: frame_simps)
  then show ?thesis using assms
    by (auto simp: handleChallenge_def q Let_def split: if_splits)
qed

text \<open>
  C28: what the gateway hands out is what it remembers. A minted challenge is stored, unused,
  under its id; its plan and algorithm are known ones, its difficulty lies within the
  controller's bounds, it is bound to the requesting client, expires the configured time after
  its issuance, and its salt, binding and algorithm are free of the preimage's separator, so
  that different challenges have different preimages.
\<close>

theorem minted_challenge_stored:
  assumes "diff_inv (ps_diff s)" "handleChallenge h e r s = (Challenge_out c, s')"
  shows "(\<exists>sc. st_challenges (ps_store s') (ch_id c) = Some sc \<and> \<not> sc_used sc \<and> ToChallenge sc = c)
    \<and> ValidPlan (ch_plan c) \<and> ValidAlgo (ch_algo c) \<and> ch_bind c = BindingHash h (clientIP r) (rq_agent r)
    \<and> df_min (ps_diff s) \<le> ch_difficulty c \<and> ch_difficulty c \<le> df_max (ps_diff s)
    \<and> ch_expires_at c = unix (ce_now e + PowChallengeTTL (ps_cfg s))
    \<and> CHR ''|'' \<notin> set (ch_salt c) \<union> set (ch_bind c) \<union> set (ch_algo c)"
proof -
  obtain s2 plan algo where m: "mint_challenge h e (clientIP r) (rq_agent r) plan algo s2 = (Challenge_out c, s')"
    and v: "ValidPlan plan" "ValidAlgo algo" "ps_cfg s2 = ps_cfg s"
    and d: "ps_diff s2 = ps_diff (flood_valve (ce_now e) (ce_now_esc e) s)"
    using handleChallenge_minted [OF assms(2)] by blast
  have inv: "diff_inv (ps_diff s2)" "df_min (ps_diff s2) = df_min (ps_diff s)"
    "df_max (ps_diff s2) = df_max (ps_diff s)"
    using flood_valve_diff [OF assms(1)] by (simp_all add: d)
  from mint_challenge_out [OF m] obtain b where
    "ch_difficulty c = Current (ps_diff s2) (planBits (ps_cfg s2) plan) b" by blast
  with Current_bounds [OF inv(1)] inv have "df_min (ps_diff s) \<le> ch_difficulty c"
    "ch_difficulty c \<le> df_max (ps_diff s)" by simp_all
  moreover have "CHR ''|'' \<notin> set algo"
    using v by (auto simp: ValidAlgo_def AlgoBLAKE3_def AlgoSHA256_def)
  ultimately show ?thesis using mint_challenge_out [OF m] v by auto
qed

definition demo_challenge_env :: challenge_env where
  "demo_challenge_env = \<lparr> ce_now = 0, ce_day = ''2026-01-01'', ce_now_esc = 0, ce_now_bonus = 0,
     ce_bonus_fault = False, ce_insert_fault = False, ce_salt = Some (replicate 32 0), ce_uuid = ''u1'' \<rparr>"

lemma demo_challenge:
  "\<exists>c. fst (handleChallenge demo_hashes demo_challenge_env demo_request demo_service) = Challenge_out c"
proof -
  have ip: "clientIP demo_request = ''10.0.0.1''"
    by (simp add: clientIP_def demo_request_def split_host_port_v4)
  have p: "to_lower (trim_space (rq_plan demo_request)) = ''pro''"
    "to_lower (trim_space (rq_algo demo_request)) = []" by code_simp+
  have c: "PowChallengePerMin DefaultConfig = 6" "PowChallengePerDay DefaultConfig = 60"
    by (simp_all add: DefaultConfig_def)
  define v where "v = flood_valve 0 0 demo_service"
  have v: "ps_cfg v = DefaultConfig" "ps_ch_buckets v = Map.empty" "ps_ch_daily v = Map.empty"
    by (simp_all add: v_def frame_simps) (simp_all add: demo_service_def)
  have b: "fst (bucket_allow 0 (new_bucket DefaultConfig 0)) = (True, 0)"
    by (simp add: new_bucket_def c max1_def bucket_allow_def refill_def Let_def time_sub_def seconds_def)
  obtain nb where nb: "bucket_allow 0 (new_bucket DefaultConfig 0) = ((True, 0), nb)"
    using b by (cases "bucket_allow 0 (new_bucket DefaultConfig 0)") simp
  have q: "fst (fst (challenge_quota 0 ''2026-01-01'' ''10.0.0.1'' v))"
    by (simp add: challenge_quota_def v nb daily_allow_def Let_def c max1_def)
  obtain ra s2 where q': "challenge_quota 0 ''2026-01-01'' ''10.0.0.1'' v
      = ((True, ra), s2)" using q by (metis prod.collapse)
  have st: "ps_store s2 = ps_store demo_service"
    using challenge_quota_frame(1) [of 0 "''2026-01-01''" "''10.0.0.1''" v]
    by (simp add: q') (simp add: v_def frame_simps)
  have e: "ce_now demo_challenge_env = 0" "ce_day demo_challenge_env = ''2026-01-01''"
    "ce_now_esc demo_challenge_env = 0" "ce_salt demo_challenge_env = Some (replicate 32 0)"
    "ce_uuid demo_challenge_env = ''u1''" "ce_insert_fault demo_challenge_env = False"
    by (simp_all add: demo_challenge_env_def)
  have n: "st_challenges (ps_store demo_service) ''u1'' = None" by (simp add: demo_service_def)
  have "\<exists>c. fst (mint_challenge demo_hashes demo_challenge_env ''10.0.0.1'' (rq_agent demo_request)
      ''pro'' AlgoSHA256 s2) = Challenge_out c"
    by (simp add: mint_challenge_def e NewSalt_def InsertChallenge_def Let_def st n)
  then show ?thesis
    by (simp add: handleChallenge_def ip p ValidPlan_def ValidAlgo_def e q' [unfolded v_def] Let_def)
qed

theorem minted_challenge_stored_witness:
  "\<exists>c. fst (handleChallenge demo_hashes demo_challenge_env demo_request demo_service) = Challenge_out c
     \<and> 20 \<le> ch_difficulty c \<and> ch_difficulty c \<le> 40"
proof -
  obtain c where c: "fst (handleChallenge demo_hashes demo_challenge_env demo_request demo_service)
      = Challenge_out c" using demo_challenge by blast
  then have e: "handleChallenge demo_hashes demo_challenge_env demo_request demo_service
      = (Challenge_out c, snd (handleChallenge demo_hashes demo_challenge_env demo_request demo_service))"
    by (simp add: prod_eq_iff)
  have d: "ps_diff demo_service = NewDifficulty 24 20 40 30 90" by (simp add: demo_service_def)
  then have "diff_inv (ps_diff demo_service)" by (simp add: NewDifficulty_inv)
  from minted_challenge_stored [OF this e] c show ?thesis by (auto simp: d)
qed

end
