(* ===== verification/Pow_Race.thy ===== *)
theory Pow_Race
  imports Pow_Redeem
begin

text \<open>
  Redemptions that overlap. \<open>handleRedeem\<close> of \<^verbatim>\<open>internal/handler/pow.go\<close> holds no lock between
  its look-up, its consuming UPDATE, the penalty and the insertion of the key, and the server
  runs every request on a goroutine of its own. Here a redemption is cut at its statements
  on the store, the redemptions in flight are part of the state, and any of them may take its next
  step at any time, between steps of the other requests and of the house-keeping.
\<close>

section \<open>A redemption in steps\<close>

text \<open>
  Where a redemption stands: its look-up and checks have passed (\<open>Checked\<close>, with the row it
  read, which may be stale by now), its UPDATE has changed a row (\<open>Consumed\<close>), the client's penalty and
  the controller are updated (\<open>Penalised\<close>), or the client has its reply.
\<close>

datatype redemption =
    Checked redeem_env stored_challenge
  | Consumed redeem_env stored_challenge
  | Penalised redeem_env stored_challenge
  | Answered string pow_response

definition body_id :: "redeem_body \<Rightarrow> string" where
  "body_id body = (case body of Malformed \<Rightarrow> [] | Redeem_body cid _ _ \<Rightarrow> cid)"

text \<open>\<^verbatim>\<open>BumpIPBonus\<close> and \<^verbatim>\<open>RecordSolve\<close>.\<close>

definition penalise :: "redeem_env \<Rightarrow> stored_challenge \<Rightarrow> pow_service \<Rightarrow> pow_service" where
  "penalise e sc s =
     (let (_, st) = BumpIPBonus (fst (re_bump_fault e)) (snd (re_bump_fault e)) (re_now_bump e)
                      (sc_bind sc) 8 (ps_store s)
      in s\<lparr> ps_store := st,
            ps_diff := RecordSolve (time_sub (re_now e) (sc_issued_at sc * Second)) (ps_diff s) \<rparr>)"

text \<open>From the key's random bytes to the reply.\<close>

definition hand_out_key ::
  "hashes \<Rightarrow> redeem_env \<Rightarrow> stored_challenge \<Rightarrow> pow_service \<Rightarrow> pow_response \<times> pow_service" where
  "hand_out_key h e sc s =
     (case re_rand e of
        None \<Rightarrow> (Pow_err 500 ''Failed to issue key'' ''internal_error'' None, s)
      | Some raw \<Rightarrow>
          let apiKey = ''sk-gw-'' @ b64_raw b64_url raw;
              prefix = take (nat (minStr (int (length apiKey)) 16)) apiKey;
              k = \<lparr> ak_hash = KeyHash h apiKey, ak_prefix = prefix, ak_plan = sc_plan sc,
                    ak_rpm = planRPM (ps_cfg s) (sc_plan sc), ak_created_at = unix (re_now e),
                    ak_expires_at = unix (re_now e + PowKeyTTL (ps_cfg s)) \<rparr>
          in (case InsertAPIKey (re_key_fault e) k (ps_store s) of
                (Inl _, st) \<Rightarrow>
                  (Pow_err 500 ''Failed to issue key'' ''internal_error'' None, s\<lparr> ps_store := st \<rparr>)
              | (Inr _, st) \<Rightarrow> (Key_out apiKey k, cacheKey k (s\<lparr> ps_store := st \<rparr>))))"

definition begin_redeem ::
  "hashes \<Rightarrow> redeem_env \<Rightarrow> pow_request \<Rightarrow> redeem_body \<Rightarrow> pow_service \<Rightarrow> redemption" where
  "begin_redeem h e r body s =
     (case redeem_checks h e r body s of
        Inl resp \<Rightarrow> Answered (body_id body) resp
      | Inr sc \<Rightarrow> Checked e sc)"

definition consume_step ::
  "redeem_env \<Rightarrow> stored_challenge \<Rightarrow> pow_service \<Rightarrow> redemption \<times> pow_service" where
  "consume_step e sc s =
     (case ConsumeChallenge (re_consume_fault e) (re_now_consume e) (sc_id sc) (ps_store s) of
        (Inl _, st) \<Rightarrow>
          (Answered (sc_id sc) (Pow_err 500 ''Verification failed'' ''internal_error'' None), s\<lparr> ps_store := st \<rparr>)
      | (Inr False, st) \<Rightarrow>
          (Answered (sc_id sc) (Pow_err 409 ''Challenge already used'' ''already_used'' None), s\<lparr> ps_store := st \<rparr>)
      | (Inr True, st) \<Rightarrow> (Consumed e sc, s\<lparr> ps_store := st \<rparr>))"

fun redeem_step :: "hashes \<Rightarrow> redemption \<Rightarrow> pow_service \<Rightarrow> redemption \<times> pow_service" where
  "redeem_step h (Checked e sc) s = consume_step e sc s"
| "redeem_step h (Consumed e sc) s = (Penalised e sc, penalise e sc s)"
| "redeem_step h (Penalised e sc) s =
     (let (resp, s') = hand_out_key h e sc s in (Answered (sc_id sc) resp, s'))"
| "redeem_step h (Answered i resp) s = (Answered i resp, s)"

lemma issue_key_in_steps: "issue_key h e sc s = hand_out_key h e sc (penalise e sc s)"
  by (cases "re_rand e") (simp_all add: issue_key_def hand_out_key_def penalise_def Let_def split: prod.split)

text \<open>A redemption that nothing interrupts is \<open>handleRedeem\<close>.\<close>

lemma handleRedeem_in_steps:
  "(let p = begin_redeem h e r body s; (p, s) = redeem_step h p s; (p, s) = redeem_step h p s
    in redeem_step h p s)
   = (let (resp, s') = handleRedeem h e r body s
      in (Answered (case redeem_checks h e r body s of Inl _ \<Rightarrow> body_id body | Inr sc \<Rightarrow> sc_id sc) resp, s'))"
proof (cases "redeem_checks h e r body s")
  case (Inl resp)
  then show ?thesis by (simp add: begin_redeem_def handleRedeem_def)
next
  case (Inr sc)
  obtain c st where c: "ConsumeChallenge (re_consume_fault e) (re_now_consume e) (sc_id sc) (ps_store s) = (c, st)"
    by fastforce
  show ?thesis
    by (cases c)
      (auto simp: begin_redeem_def handleRedeem_def consume_step_def Inr c issue_key_in_steps split: bool.split)
qed

section \<open>The service under concurrent requests\<close>

text \<open>
  The state is the service and the redemptions begun so far, in order of their look-ups. The
  other requests and the maintenance tick are single steps: of their statements at most one
  changes a challenge's row.
\<close>

datatype race_event =
    Begin redeem_env pow_request redeem_body
  | Advance nat
  | Meanwhile pow_event

definition ev_answer :: "hashes \<Rightarrow> pow_event \<Rightarrow> pow_service \<Rightarrow> redemption list" where
  "ev_answer h ev s = (case ev of
     Ev_redeem e r body \<Rightarrow> [Answered (body_id body) (fst (handleRedeem h e r body s))] | _ \<Rightarrow> [])"

type_synonym race = "pow_service \<times> redemption list"

fun race_exec :: "hashes \<Rightarrow> race_event \<Rightarrow> race \<Rightarrow> race" where
  "race_exec h (Begin e r body) (s, rs) = (s, rs @ [begin_redeem h e r body s])"
| "race_exec h (Advance n) (s, rs) =
     (if n < length rs then let (p, s') = redeem_step h (rs ! n) s in (s', rs[n := p]) else (s, rs))"
| "race_exec h (Meanwhile ev) (s, rs) = (snd (pow_exec h ev s), rs @ ev_answer h ev s)"

definition race_run :: "hashes \<Rightarrow> race_event list \<Rightarrow> race \<Rightarrow> race" where
  "race_run h evs st = fold (race_exec h) evs st"

definition race_mints :: "race_event \<Rightarrow> string option" where
  "race_mints ev = (case ev of Meanwhile ev \<Rightarrow> ev_mints ev | _ \<Rightarrow> None)"

text \<open>Keys the clients hold for a challenge.\<close>

definition bought :: "string \<Rightarrow> redemption \<Rightarrow> bool" where
  "bought i p = (case p of Answered j resp \<Rightarrow> j = i \<and> is_key resp | _ \<Rightarrow> False)"

definition keys_bought :: "string \<Rightarrow> redemption list \<Rightarrow> nat" where
  "keys_bought i rs = length (filter (bought i) rs)"

section \<open>One key per challenge\<close>

text \<open>Redemptions that have won the challenge: they hold its key or may still get it.\<close>

definition won :: "string \<Rightarrow> redemption \<Rightarrow> bool" where
  "won i p = (case p of Checked _ _ \<Rightarrow> False | Consumed _ sc \<Rightarrow> sc_id sc = i
     | Penalised _ sc \<Rightarrow> sc_id sc = i | Answered j resp \<Rightarrow> j = i \<and> is_key resp)"

definition claims :: "string \<Rightarrow> race \<Rightarrow> nat" where
  "claims i st = length (filter (won i) (snd st)) + (if unspent (ps_store (fst st)) i then 1 else 0)"

lemma keys_bought_claims: "keys_bought i rs \<le> claims i (s, rs)"
proof -
  have "bought i p \<Longrightarrow> won i p" for p by (cases p) (simp_all add: bought_def won_def)
  then have "length (filter (bought i) rs) \<le> length (filter (won i) rs)"
    by (induction rs) auto
  then show ?thesis by (simp add: keys_bought_def claims_def)
qed

lemma won_update:
  "n < length rs \<Longrightarrow> length (filter f (rs[n := p])) + (if f (rs ! n) then 1 else 0)
     = length (filter f rs) + (if f p then 1 else 0)"
proof (induction rs arbitrary: n)
  case (Cons r rs)
  show ?case
  proof (cases n)
    case (Suc m)
    with Cons.IH [of m] Cons.prems show ?thesis by simp
  qed simp
qed simp

lemma redeem_checks_refused: "redeem_checks h e r body s = Inl resp \<Longrightarrow> \<not> is_key resp"
  by (auto simp: redeem_checks_def is_key_def split: redeem_body.splits if_splits sum.splits option.splits)

lemma penalise_store:
  "unspent (ps_store (penalise e sc s)) i = unspent (ps_store s) i"
  "store_wf (ps_store s) \<Longrightarrow> store_wf (ps_store (penalise e sc s))"
  using BumpIPBonus_frame(1) [of "fst (re_bump_fault e)" "snd (re_bump_fault e)" "re_now_bump e" "sc_bind sc" 8 "ps_store s"]
    BumpIPBonus_wf [of "ps_store s" "fst (re_bump_fault e)" "snd (re_bump_fault e)" "re_now_bump e" "sc_bind sc" 8]
  by (simp_all add: penalise_def unspent_def case_prod_beta)

lemma hand_out_key_store:
  "unspent (ps_store (snd (hand_out_key h e sc s))) i = unspent (ps_store s) i"
  "store_wf (ps_store s) \<Longrightarrow> store_wf (ps_store (snd (hand_out_key h e sc s)))"
  using InsertAPIKey_frame(1) InsertAPIKey_wf [of "ps_store s"]
  by (auto simp: hand_out_key_def cacheKey_def unspent_def Let_def case_prod_beta split: option.split sum.split)

lemma consume_step_wf: "store_wf (ps_store s) \<Longrightarrow> store_wf (ps_store (snd (consume_step e sc s)))"
  using ConsumeChallenge_wf [of "ps_store s" "re_consume_fault e" "re_now_consume e" "sc_id sc"]
  by (auto simp: consume_step_def split: prod.split sum.split bool.split)

lemma redeem_step_wf: "store_wf (ps_store s) \<Longrightarrow> store_wf (ps_store (snd (redeem_step h p s)))"
  by (cases p) (simp_all add: consume_step_wf penalise_store hand_out_key_store case_prod_beta)

text \<open>A step that wins the challenge finds it unspent and leaves it spent.\<close>

lemma consume_step_claims:
  "(if won i (fst (consume_step e sc s)) then 1 else 0)
     + (if unspent (ps_store (snd (consume_step e sc s))) i then 1 else 0)
   \<le> (if unspent (ps_store s) i then 1 else (0::nat))"
proof -
  obtain c st where c: "ConsumeChallenge (re_consume_fault e) (re_now_consume e) (sc_id sc) (ps_store s) = (c, st)"
    by fastforce
  have n: "\<not> unspent (ps_store s) i \<Longrightarrow> \<not> unspent st i"
    using consume_no_revival [of "ps_store s" i] by (metis c snd_conv)
  show ?thesis
  proof (cases "c = Inr True")
    case True
    then have "unspent (ps_store s) (sc_id sc) \<and> \<not> unspent st (sc_id sc)"
      using consume_success c by blast
    then show ?thesis using n by (auto simp: consume_step_def c True won_def)
  next
    case False
    then show ?thesis using n
      by (cases c) (auto simp: consume_step_def c won_def is_key_def split: bool.split)
  qed
qed

lemma redeem_step_claims:
  "(if won i (fst (redeem_step h p s)) then 1 else 0)
     + (if unspent (ps_store (snd (redeem_step h p s))) i then 1 else 0)
   \<le> (if won i p then 1 else 0) + (if unspent (ps_store s) i then 1 else (0::nat))"
proof (cases p)
  case (Checked e sc)
  then show ?thesis using consume_step_claims [of i e sc s] by (simp add: won_def [of i "Checked e sc"])
next
  case (Consumed e sc)
  then show ?thesis by (simp add: won_def penalise_store)
next
  case (Penalised e sc)
  then show ?thesis
    using hand_out_key_store(1) [of h e sc s i] by (auto simp: won_def split: prod.split)
next
  case (Answered j resp)
  then show ?thesis by simp
qed

lemma begin_not_won: "\<not> won i (begin_redeem h e r body s)"
  by (auto simp: begin_redeem_def won_def redeem_checks_refused split: sum.split)

lemma ev_answer_claims:
  assumes "service_wf s" "ev_mints ev \<noteq> Some i"
  shows "length (filter (won i) (ev_answer h ev s)) + (if unspent (ps_store (snd (pow_exec h ev s))) i then 1 else 0)
    \<le> (if unspent (ps_store s) i then 1 else 0)"
proof (cases "\<exists>p \<in> set (ev_answer h ev s). won i p")
  case True
  then obtain e r cid a cs where ev: "ev = Ev_redeem e r (Redeem_body cid a cs)" "cid = i"
    and k: "is_key (fst (handleRedeem h e r (Redeem_body cid a cs) s))"
    by (cases ev) (auto simp: ev_answer_def won_def body_id_def handleRedeem_def redeem_checks_def is_key_def
        split: redeem_body.splits)
  with handleRedeem_success [OF assms(1) [unfolded service_wf_def] k] show ?thesis
    by (simp add: ev_answer_def)
next
  case False
  then have "filter (won i) (ev_answer h ev s) = []" by (simp add: filter_empty_conv)
  then show ?thesis
    using pow_exec_no_revival [OF assms(1), of i ev h] assms(2) by (simp add: ev_live_def)
qed

lemma race_exec_wf: "service_wf (fst st) \<Longrightarrow> service_wf (fst (race_exec h ev st))"
proof -
  assume wf: "service_wf (fst st)"
  obtain s rs where st: "st = (s, rs)" by fastforce
  have "service_wf (snd (redeem_step h p s))" for p
    using wf redeem_step_wf [of s h p] by (simp add: st service_wf_def)
  then show ?thesis
    using wf pow_exec_wf [of s h] by (cases ev) (simp_all add: st case_prod_beta)
qed

lemma race_exec_claims:
  assumes "service_wf (fst st)" "race_mints ev \<noteq> Some i"
  shows "claims i (race_exec h ev st) \<le> claims i st"
proof (cases ev)
  case (Begin e r body)
  then show ?thesis by (cases st) (simp add: claims_def begin_not_won)
next
  case (Advance n)
  obtain s rs where st: "st = (s, rs)" by fastforce
  show ?thesis
  proof (cases "n < length rs")
    case True
    obtain p s' where p: "redeem_step h (rs ! n) s = (p, s')" by fastforce
    show ?thesis
      using redeem_step_claims [of i h "rs ! n" s] won_update [OF True, of "won i" p]
      by (simp add: Advance st True p claims_def)
  qed (simp add: Advance st)
next
  case (Meanwhile ev')
  then show ?thesis
    using ev_answer_claims [of "fst st" ev' i h] assms by (cases st) (simp add: claims_def race_mints_def)
qed

lemma race_run_claims:
  "service_wf (fst st) \<Longrightarrow> \<forall>ev \<in> set evs. race_mints ev \<noteq> Some i \<Longrightarrow> claims i (race_run h evs st) \<le> claims i st"
proof (induction evs arbitrary: st)
  case Nil
  then show ?case by (simp add: race_run_def)
next
  case (Cons ev evs)
  have "claims i (race_run h evs (race_exec h ev st)) \<le> claims i (race_exec h ev st)"
    using Cons.prems by (intro Cons.IH) (auto intro: race_exec_wf)
  also have "\<dots> \<le> claims i st" using Cons.prems by (intro race_exec_claims) simp_all
  finally show ?case by (simp add: race_run_def)
qed

text \<open>
  C1: one solved challenge buys one key. Redemptions run concurrently: any number of them may
  have looked the challenge up, found it unused and verified their solutions before the first of
  them consumes it, and their further steps interleave in any order with each other, with challenge
  requests, key checks and house-keeping, with any statement failing. As long as the challenge's id is not
  minted again, at most one of them is answered with an API key. It is the UPDATE's own
  condition on an unused row that decides; the earlier check of the row read does not.
\<close>

theorem one_key_per_challenge:
  assumes "service_wf s" "\<forall>ev \<in> set evs. race_mints ev \<noteq> Some i"
  shows "keys_bought i (snd (race_run h evs (s, []))) \<le> 1"
proof -
  have "keys_bought i (snd (race_run h evs (s, []))) \<le> claims i (race_run h evs (s, []))"
    using keys_bought_claims [of i "snd (race_run h evs (s, []))" "fst (race_run h evs (s, []))"] by simp
  also have "\<dots> \<le> claims i (s, [])" using assms by (intro race_run_claims) simp_all
  also have "\<dots> \<le> 1" by (simp add: claims_def)
  finally show ?thesis .
qed

text \<open>
  Two redemptions of one challenge, by the same client: both pass every check before either
  consumes it. The second to consume is refused, the first gets the key.
\<close>

definition demo_race :: "race_event list" where
  "demo_race = [Begin (demo_env (60 * Second)) demo_request demo_body,
     Begin (demo_env (61 * Second)) demo_request demo_body, Advance 1, Advance 0, Advance 1, Advance 1]"

lemma demo_race_run:
  "\<exists>key k. snd (race_run demo_hashes demo_race (demo_service, []))
     = [Answered ''id'' (Pow_err 409 ''Challenge already used'' ''already_used'' None), Answered ''id'' (Key_out key k)]"
proof -
  have c: "redeem_checks demo_hashes (demo_env (60 * Second)) demo_request demo_body demo_service = Inr demo_row"
    "redeem_checks demo_hashes (demo_env (61 * Second)) demo_request demo_body demo_service = Inr demo_row"
    by (rule demo_checks; simp)+
  define s1 where "s1 = demo_service\<lparr> ps_store := (ps_store demo_service)\<lparr> st_challenges := [''id'' \<mapsto> demo_row\<lparr> sc_used := True \<rparr>] \<rparr> \<rparr>"
  have w: "consume_step (demo_env (61 * Second)) demo_row demo_service = (Consumed (demo_env (61 * Second)) demo_row, s1)"
    by (simp add: consume_step_def ConsumeChallenge_def demo_env_def demo_service_def demo_row_def s1_def unix_def Second_def)
  have l: "consume_step (demo_env (60 * Second)) demo_row s1
      = (Answered ''id'' (Pow_err 409 ''Challenge already used'' ''already_used'' None), s1)"
    by (simp add: consume_step_def ConsumeChallenge_def demo_env_def demo_service_def demo_row_def s1_def)
  have n: "st_keys (ps_store (penalise e sc s)) = st_keys (ps_store s)" for e sc s
    by (simp add: penalise_def BumpIPBonus_frame split: prod.split) (metis BumpIPBonus_frame(2) snd_conv)
  have "\<exists>key k s'. hand_out_key demo_hashes (demo_env (61 * Second)) demo_row (penalise (demo_env (61 * Second)) demo_row s1)
      = (Key_out key k, s')"
    by (simp add: hand_out_key_def demo_env_def InsertAPIKey_def n Let_def) (simp add: s1_def demo_service_def)
  then show ?thesis
    by (auto simp: demo_race_def race_run_def begin_redeem_def c w l) (simp add: demo_row_def)
qed

theorem one_key_per_challenge_witness:
  "keys_bought ''id'' (snd (race_run demo_hashes demo_race (demo_service, []))) = 1"
proof -
  have "\<forall>ev \<in> set demo_race. race_mints ev \<noteq> Some ''id''" by (simp add: demo_race_def race_mints_def)
  from one_key_per_challenge [OF demo_wf this, of demo_hashes]
  have "keys_bought ''id'' (snd (race_run demo_hashes demo_race (demo_service, []))) \<le> 1" .
  moreover obtain key k where "snd (race_run demo_hashes demo_race (demo_service, []))
      = [Answered ''id'' (Pow_err 409 ''Challenge already used'' ''already_used'' None), Answered ''id'' (Key_out key k)]"
    using demo_race_run by blast
  ultimately show ?thesis by (simp add: keys_bought_def bought_def is_key_def)
qed

end
