(* ===== verification/Proxy_Types.thy ===== *)
theory Proxy_Types
  imports Config
begin

text \<open>
  \<^verbatim>\<open>internal/proxy/types.go\<close>: proxies, their states and the counters of a pool. The manager
  pointer a proxy carries is an abstract reference; the \<open>Manager\<close> interface itself is the locale
  \<open>manager\<close> of the theory of managers.
\<close>

datatype proxy_state = StateIdle | StateActive | StateCooldown | StateUnhealthy

text \<open>Which manager created a proxy: the pool's own or the \<open>n\<close>-th external one.\<close>

datatype mgr_ref = Pool_manager | External_manager nat

record proxy =
  px_id :: string
  px_container :: string
  px_addr :: string
  px_port :: int
  px_state :: proxy_state
  px_last_used :: time
  px_last_check :: time
  px_requests :: int
  px_errors :: int
  px_created :: time
  px_ip :: string
  px_region :: string
  px_server :: string
  px_server_ip :: string
  px_manager :: "mgr_ref option"

record proxy_snapshot =
  sn_id :: string
  sn_addr :: string
  sn_port :: int
  sn_state :: proxy_state
  sn_last_used :: time
  sn_last_check :: time
  sn_requests :: int
  sn_errors :: int
  sn_created :: time
  sn_ip :: string
  sn_region :: string
  sn_server :: string
  sn_server_ip :: string

definition Snapshot :: "proxy \<Rightarrow> proxy_snapshot" where
  "Snapshot p = \<lparr> sn_id = px_id p, sn_addr = px_addr p, sn_port = px_port p, sn_state = px_state p,
     sn_last_used = px_last_used p, sn_last_check = px_last_check p, sn_requests = px_requests p,
     sn_errors = px_errors p, sn_created = px_created p, sn_ip = px_ip p, sn_region = px_region p,
     sn_server = px_server p, sn_server_ip = px_server_ip p \<rparr>"

definition IsHealthy :: "proxy \<Rightarrow> bool" where
  "IsHealthy p \<longleftrightarrow> px_state p = StateIdle \<or> px_state p = StateActive"

definition IsAvailable :: "proxy \<Rightarrow> bool" where
  "IsAvailable p \<longleftrightarrow> px_state p = StateIdle"

record pool_stats =
  ps_total :: int
  ps_idle :: int
  ps_active :: int
  ps_cooldown :: int
  ps_unhealthy :: int
  ps_total_requests :: int
  ps_total_errors :: int

text \<open>\<open>ExecIn\<close> needs the manager \<open>SetManager\<close> wired; \<open>exec\<close> is what that manager does.\<close>

definition SetManager :: "mgr_ref \<Rightarrow> proxy \<Rightarrow> proxy" where
  "SetManager m p = p\<lparr> px_manager := Some m \<rparr>"

definition ExecIn ::
  "(mgr_ref \<Rightarrow> string \<Rightarrow> string list \<Rightarrow> string list \<Rightarrow> string + string)
     \<Rightarrow> proxy \<Rightarrow> string list \<Rightarrow> string list \<Rightarrow> string + string" where
  "ExecIn exec p env args =
     (case px_manager p of
        None \<Rightarrow> Inl (''proxy '' @ px_id p @ '' has no manager'')
      | Some m \<Rightarrow> exec m (px_container p) env args)"

lemma ExecIn_SetManager: "ExecIn exec (SetManager m p) env args = exec m (px_container p) env args"
  by (simp add: ExecIn_def SetManager_def)

end
