(* ===== verification/Proxy_Pool.thy ===== *)
theory Proxy_Pool
  imports Proxy_Types "HOL-Library.Multiset"
begin

text \<open>
  \<^verbatim>\<open>internal/proxy/pool.go\<close>: the proxy pool. The Go map from ids to proxies is a list of proxies
  with distinct ids whose order is the order in which a \<open>range\<close> visits it; where the code's
  result depends on that order, it is whatever order the list has, and where it does not, that
  is proved. Each function is one critical section of the pool's mutex with its clock reading,
  or the code's composition of such sections; what the container managers answer is an argument.
  The one-slot channel \<open>available\<close> is a flag. The round-robin counter \<open>pm_rr\<close> is a natural number, Go's
  an \<open>int\<close>: the model is the code's until 2^63 proxies have been handed out.
\<close>

section \<open>State\<close>

record pool =
  pm_cfg :: config
  pm_has_mgr :: bool
  pm_pool :: "proxy list"
  pm_sticky :: "string \<Rightarrow> string option"
  pm_ip_bans :: "string \<Rightarrow> time option"
  pm_region_bans :: "string \<Rightarrow> time option"
  pm_spawning :: int
  pm_rr :: nat
  pm_available :: bool
  pm_closed :: bool
  pm_total_requests :: int
  pm_total_errors :: int

definition NewPoolManagerWithManager :: "bool \<Rightarrow> config \<Rightarrow> pool" where
  "NewPoolManagerWithManager has_mgr cfg =
     \<lparr> pm_cfg = cfg, pm_has_mgr = has_mgr, pm_pool = [], pm_sticky = Map.empty,
       pm_ip_bans = Map.empty, pm_region_bans = Map.empty, pm_spawning = 0, pm_rr = 0,
       pm_available = False, pm_closed = False, pm_total_requests = 0, pm_total_errors = 0 \<rparr>"

text \<open>The map operations on the list: lookup, deletion, insertion or replacement, update in place.\<close>

definition pool_find :: "string \<Rightarrow> proxy list \<Rightarrow> proxy option" where
  "pool_find i ps = find (\<lambda>p. px_id p = i) ps"

definition pool_delete :: "string \<Rightarrow> proxy list \<Rightarrow> proxy list" where
  "pool_delete i ps = filter (\<lambda>p. px_id p \<noteq> i) ps"

definition pool_insert :: "proxy \<Rightarrow> proxy list \<Rightarrow> proxy list" where
  "pool_insert p ps = pool_delete (px_id p) ps @ [p]"

definition pool_update :: "string \<Rightarrow> (proxy \<Rightarrow> proxy) \<Rightarrow> proxy list \<Rightarrow> proxy list" where
  "pool_update i f ps = map (\<lambda>p. if px_id p = i then f p else p) ps"

definition signal :: "pool \<Rightarrow> pool" where
  "signal s = s\<lparr> pm_available := True \<rparr>"

section \<open>Bans\<close>

text \<open>\<open>ipBannedLocked\<close> also deletes the entry it finds expired.\<close>

definition ipBannedLocked :: "string \<Rightarrow> time \<Rightarrow> (string \<Rightarrow> time option) \<Rightarrow> bool \<times> (string \<Rightarrow> time option)" where
  "ipBannedLocked ip now bans =
     (if ip = [] then (False, bans)
      else case bans ip of
        None \<Rightarrow> (False, bans)
      | Some until \<Rightarrow> if now < until then (True, bans) else (False, bans(ip := None)))"

definition ipBanned :: "string \<Rightarrow> time \<Rightarrow> pool \<Rightarrow> bool \<times> pool" where
  "ipBanned ip now s =
     (let (b, bans) = ipBannedLocked ip now (pm_ip_bans s) in (b, s\<lparr> pm_ip_bans := bans \<rparr>))"

definition banIPLocked :: "string \<Rightarrow> time \<Rightarrow> (string \<Rightarrow> time option) \<Rightarrow> string \<Rightarrow> time option" where
  "banIPLocked ip until bans =
     (if ip = [] then bans
      else if until > (case bans ip of None \<Rightarrow> zero_time | Some u \<Rightarrow> u) then bans(ip \<mapsto> until)
      else bans)"

definition drop_expired :: "time \<Rightarrow> (string \<Rightarrow> time option) \<Rightarrow> string \<Rightarrow> time option" where
  "drop_expired now bans k =
     (case bans k of None \<Rightarrow> None | Some until \<Rightarrow> if now < until then Some until else None)"

definition bannedRegions :: "time \<Rightarrow> pool \<Rightarrow> (string \<Rightarrow> bool) \<times> pool" where
  "bannedRegions now s =
     (let kept = drop_expired now (pm_region_bans s)
      in (\<lambda>r. kept r \<noteq> None, s\<lparr> pm_region_bans := kept \<rparr>))"

definition usedServersAvoid :: "pool \<Rightarrow> string \<Rightarrow> bool" where
  "usedServersAvoid s name \<longleftrightarrow> name \<noteq> [] \<and> list_ex (\<lambda>p. px_server p = name) (pm_pool s)"

section \<open>Acquiring and releasing\<close>

text \<open>The visit of the candidates: short-circuit on the state, then the ban with its clean-up.\<close>

fun candidates :: "time \<Rightarrow> proxy list \<Rightarrow> (string \<Rightarrow> time option) \<Rightarrow> proxy list \<times> (string \<Rightarrow> time option)" where
  "candidates now [] bans = ([], bans)"
| "candidates now (p # ps) bans =
     (if IsAvailable p then
        (let (b, bans) = ipBannedLocked (px_ip p) now bans;
             (cs, bans) = candidates now ps bans
         in (if b then cs else p # cs, bans))
      else candidates now ps bans)"

definition sort_candidates :: "proxy list \<Rightarrow> proxy list" where
  "sort_candidates ps = sort_key (\<lambda>p. (px_created p, px_id p)) ps"

definition sticky_lookup :: "time \<Rightarrow> string \<Rightarrow> pool \<Rightarrow> proxy option \<times> pool" where
  "sticky_lookup now conv s =
     (if conv \<noteq> [] \<and> StickySessionTTL (pm_cfg s) > 0 then
        (case pm_sticky s conv of
           None \<Rightarrow> (None, s)
         | Some i \<Rightarrow>
             (case pool_find i (pm_pool s) of
                None \<Rightarrow> (None, s)
              | Some p \<Rightarrow>
                  if IsHealthy p then
                    (let (b, s) = ipBanned (px_ip p) now s in (if b then None else Some p, s))
                  else (None, s)))
      else (None, s))"

text \<open>One turn of \<open>GetProxy\<close>'s loop under the lock; \<open>now_used\<close> is the second clock reading.\<close>

definition try_acquire :: "time \<Rightarrow> time \<Rightarrow> string \<Rightarrow> pool \<Rightarrow> proxy option \<times> pool" where
  "try_acquire now now_used conv s =
     (let (cs, bans) = candidates now (pm_pool s) (pm_ip_bans s);
          s = s\<lparr> pm_ip_bans := bans \<rparr>
      in if cs = [] then (None, s)
         else
           let p = sort_candidates cs ! (pm_rr s mod length cs);
               lease = (\<lambda>p. p\<lparr> px_state := StateActive, px_last_used := now_used,
                                px_requests := px_requests p + 1 \<rparr>);
               s = s\<lparr> pm_rr := pm_rr s + 1, pm_pool := pool_update (px_id p) lease (pm_pool s),
                      pm_total_requests := pm_total_requests s + 1,
                      pm_sticky := (if conv \<noteq> [] then (pm_sticky s)(conv \<mapsto> px_id p) else pm_sticky s) \<rparr>
           in (Some (lease p), s))"

text \<open>
  The blocking loop: each waiting turn ends with a signal, the caller's context, or the pool's
  closing; \<open>between\<close> is what the other goroutines do to the pool meanwhile. The list gives the
  turns; when it ends the caller is still waiting.
\<close>

datatype wake = Signalled | Ctx_done | Done_closed
datatype get_result = Got proxy | Ctx_error | Pool_closed | Still_waiting

fun acquire_loop :: "(time \<times> wake \<times> (pool \<Rightarrow> pool)) list \<Rightarrow> string \<Rightarrow> pool \<Rightarrow> get_result \<times> pool" where
  "acquire_loop [] conv s = (Still_waiting, s)"
| "acquire_loop ((now, w, between) # turns) conv s =
     (case try_acquire now now conv s of
        (Some p, s) \<Rightarrow> (Got p, s)
      | (None, s) \<Rightarrow>
          (case w of
             Signalled \<Rightarrow> acquire_loop turns conv ((between s)\<lparr> pm_available := False \<rparr>)
           | Ctx_done \<Rightarrow> (Ctx_error, between s)
           | Done_closed \<Rightarrow> (Pool_closed, between s)))"

definition GetProxy ::
  "time \<Rightarrow> (time \<times> wake \<times> (pool \<Rightarrow> pool)) list \<Rightarrow> string \<Rightarrow> pool \<Rightarrow> get_result \<times> pool" where
  "GetProxy now turns conv s =
     (case sticky_lookup now conv s of
        (Some p, s) \<Rightarrow> (Got p, s)
      | (None, s) \<Rightarrow> acquire_loop turns conv s)"

definition ReleaseProxy :: "string \<Rightarrow> pool \<Rightarrow> pool" where
  "ReleaseProxy i s =
     signal (s\<lparr> pm_pool := pool_update i
       (\<lambda>p. if px_state p = StateActive then p\<lparr> px_state := StateIdle \<rparr> else p) (pm_pool s) \<rparr>)"

section \<open>Capacity\<close>

fun usable_count :: "time \<Rightarrow> proxy list \<Rightarrow> (string \<Rightarrow> time option) \<Rightarrow> int \<times> (string \<Rightarrow> time option)" where
  "usable_count now [] bans = (0, bans)"
| "usable_count now (p # ps) bans =
     (if IsHealthy p then
        (let (b, bans) = ipBannedLocked (px_ip p) now bans;
             (n, bans) = usable_count now ps bans
         in (if b then n else n + 1, bans))
      else usable_count now ps bans)"

text \<open>The locked part of \<open>ensurePoolCapacity\<close>: how many containers to spawn, already counted.\<close>

definition plan_spawn :: "time \<Rightarrow> pool \<Rightarrow> int \<times> pool" where
  "plan_spawn now s =
     (let (usable, bans) = usable_count now (pm_pool s) (pm_ip_bans s);
          s = s\<lparr> pm_ip_bans := bans \<rparr>;
          deficit = ProxyPoolSize (pm_cfg s) - usable;
          toSpawn = deficit - pm_spawning s;
          toSpawn = (if toSpawn < 0 then 0 else toSpawn)
      in (toSpawn, if toSpawn > 0 then s\<lparr> pm_spawning := pm_spawning s + toSpawn \<rparr> else s))"

definition spawnDone :: "pool \<Rightarrow> pool" where
  "spawnDone s = (if pm_spawning s > 0 then s\<lparr> pm_spawning := pm_spawning s - 1 \<rparr> else s)"

text \<open>\<open>RemoveProxy\<close>: the container to remove, when the pool knew the proxy.\<close>

definition RemoveProxy :: "string \<Rightarrow> pool \<Rightarrow> string option \<times> pool" where
  "RemoveProxy i s =
     (case pool_find i (pm_pool s) of
        None \<Rightarrow> (None, s)
      | Some p \<Rightarrow> (Some (px_container p), s\<lparr> pm_pool := pool_delete i (pm_pool s) \<rparr>))"

definition is_dead :: "proxy \<Rightarrow> bool" where
  "is_dead p \<longleftrightarrow> px_state p = StateCooldown \<or> px_state p = StateUnhealthy"

definition prune_list :: "pool \<Rightarrow> string list" where
  "prune_list s =
     (let toRemove = map px_id (filter is_dead (pm_pool s));
          excess = int (length (pm_pool s)) - ProxyPoolSize (pm_cfg s)
      in if excess > 0 \<and> int (length toRemove) > excess then take (nat excess) toRemove else toRemove)"

definition remove_all :: "string list \<Rightarrow> pool \<Rightarrow> pool" where
  "remove_all is s = fold (\<lambda>i s. snd (RemoveProxy i s)) is s"

definition pruneDeadProxies :: "pool \<Rightarrow> pool" where
  "pruneDeadProxies s =
     (if prune_list s = [] \<or> \<not> pm_has_mgr s then s else remove_all (prune_list s) s)"

text \<open>\<open>ensurePoolCapacity\<close> up to the goroutines it starts; their number is the first component.\<close>

definition ensurePoolCapacity :: "time \<Rightarrow> pool \<Rightarrow> nat \<times> pool" where
  "ensurePoolCapacity now s =
     (let (toSpawn, s) = plan_spawn now s
      in if toSpawn \<le> 0 \<or> \<not> pm_has_mgr s then (0, pruneDeadProxies s) else (nat toSpawn, s))"

section \<open>Creating proxies\<close>

text \<open>\<open>duplicateIPLocked\<close>: another live proxy with the same known egress address.\<close>

definition duplicateIPLocked :: "proxy \<Rightarrow> proxy list \<Rightarrow> bool" where
  "duplicateIPLocked p ps \<longleftrightarrow>
     px_ip p \<noteq> [] \<and>
       list_ex (\<lambda>pr. \<not> (px_id pr = px_id p \<or> px_ip pr = []) \<and> px_ip pr = px_ip p
         \<and> (px_state pr = StateIdle \<or> px_state pr = StateActive)) ps"

text \<open>
  What the container manager and the clock answer while a proxy is created: the outcome of the
  \<open>k\<close>-th \<open>CreateEx\<close> (given the regions and servers to avoid), the clock at its \<open>bannedRegions\<close>,
  and whether the context ends during the back-off before an attempt. \<open>Remove\<close> of a rotated
  container is only logged when it fails.
\<close>

record create_env =
  cr_create :: "nat \<Rightarrow> (string \<Rightarrow> bool) \<Rightarrow> (string \<Rightarrow> bool) \<Rightarrow> string + proxy"
  cr_now :: "nat \<Rightarrow> time"
  cr_cancel :: "nat \<Rightarrow> bool"

definition create_call :: "create_env \<Rightarrow> nat \<Rightarrow> pool \<Rightarrow> (string + proxy) \<times> pool" where
  "create_call e k s =
     (let (banned, s) = bannedRegions (cr_now e k) s
      in (cr_create e k banned (usedServersAvoid s), s))"

text \<open>
  The critical section of a turn of \<open>rotateUntilUniqueIP\<close>: the proxy goes in, and comes out
  again when another live proxy has its address.
\<close>

definition insert_turn :: "proxy \<Rightarrow> pool \<Rightarrow> bool \<times> pool" where
  "insert_turn p s =
     (let ps = pool_insert p (pm_pool s)
      in if \<not> duplicateIPLocked p ps then (True, s\<lparr> pm_pool := ps \<rparr>)
         else (False, s\<lparr> pm_pool := pool_delete (px_id p) ps \<rparr>))"

definition keep_duplicate :: "proxy \<Rightarrow> pool \<Rightarrow> pool" where
  "keep_duplicate p s = s\<lparr> pm_pool := pool_insert p (pm_pool s) \<rparr>"

text \<open>\<open>left\<close> counts the rotations still allowed, \<open>attempts - 1 - i\<close> in the code's loop.\<close>

fun rotate_loop :: "create_env \<Rightarrow> nat \<Rightarrow> proxy \<Rightarrow> nat \<Rightarrow> pool \<Rightarrow> (string + proxy) \<times> nat \<times> pool" where
  "rotate_loop e left p k s =
     (case insert_turn p s of
        (True, s) \<Rightarrow> (Inr p, k, s)
      | (False, s) \<Rightarrow>
          (case left of
             0 \<Rightarrow> (Inr p, k, keep_duplicate p s)
           | Suc left \<Rightarrow>
               (case create_call e k s of
                  (Inl err, s) \<Rightarrow> (Inl err, Suc k, s)
                | (Inr np, s) \<Rightarrow> rotate_loop e left np (Suc k) s)))"

declare rotate_loop.simps [simp del]

definition rotateUntilUniqueIP ::
  "create_env \<Rightarrow> proxy \<Rightarrow> nat \<Rightarrow> pool \<Rightarrow> (string + proxy) \<times> nat \<times> pool" where
  "rotateUntilUniqueIP e p k s =
     (let attempts = ProxyIPRotateAttempts (pm_cfg s);
          attempts = (if attempts < 1 then 1 else attempts)
      in rotate_loop e (nat (attempts - 1)) p k s)"

text \<open>One attempt: a container, rotated until its address is unique.\<close>

definition create_once :: "create_env \<Rightarrow> nat \<Rightarrow> pool \<Rightarrow> (string + proxy) \<times> nat \<times> pool" where
  "create_once e k s =
     (case create_call e k s of
        (Inl err, s) \<Rightarrow> (Inl err, Suc k, s)
      | (Inr p, s) \<Rightarrow> rotateUntilUniqueIP e p (Suc k) s)"

text \<open>The success of an attempt: the manager is wired and a waiter is woken.\<close>

definition admit :: "proxy \<Rightarrow> pool \<Rightarrow> proxy \<times> pool" where
  "admit p s =
     (let p' = (if pm_has_mgr s then SetManager Pool_manager p else p)
      in (p', signal (s\<lparr> pm_pool := pool_update (px_id p) (\<lambda>_. p') (pm_pool s) \<rparr>)))"

text \<open>\<open>createProxy\<close>'s attempts: \<open>left\<close> remain, the next one is number \<open>a\<close>.\<close>

fun create_attempts :: "create_env \<Rightarrow> nat \<Rightarrow> nat \<Rightarrow> string \<Rightarrow> nat \<Rightarrow> pool \<Rightarrow> (string + proxy) \<times> pool" where
  "create_attempts e 0 a lastErr k s =
     (Inl (''proxy creation failed after 3 attempts: '' @ lastErr), s)"
| "create_attempts e (Suc left) a lastErr k s =
     (if a > 1 \<and> cr_cancel e a then (Inl ''context canceled'', s)
      else case create_once e k s of
        (Inl err, k, s) \<Rightarrow> create_attempts e left (a + 1) err k s
      | (Inr p, _, s) \<Rightarrow> (let (p, s) = admit p s in (Inr p, s)))"

declare create_attempts.simps [simp del]

definition createProxy :: "create_env \<Rightarrow> pool \<Rightarrow> (string + proxy) \<times> pool" where
  "createProxy e s = create_attempts e 3 1 [] 0 s"

definition AddVPNContainer :: "create_env \<Rightarrow> pool \<Rightarrow> (string + proxy) \<times> pool" where
  "AddVPNContainer e s = createProxy e s"

text \<open>\<open>Start\<close>: one creation per slot; the goroutines' order is the order of the environments.\<close>

definition Start :: "create_env list \<Rightarrow> pool \<Rightarrow> pool" where
  "Start es s = fold (\<lambda>e s. snd (createProxy e s)) (take (nat (ProxyPoolSize (pm_cfg s))) es) s"

text \<open>One goroutine of \<open>ensurePoolCapacity\<close>, from its creation to its deferred \<open>spawnDone\<close>.\<close>

definition spawn_task :: "create_env \<Rightarrow> pool \<Rightarrow> pool" where
  "spawn_task e s = spawnDone (pruneDeadProxies (snd (createProxy e s)))"

section \<open>Marking proxies\<close>

definition ban_duration :: "config \<Rightarrow> string \<Rightarrow> duration" where
  "ban_duration cfg retryAfter =
     (let banFor = IPBanDuration cfg
      in if retryAfter \<noteq> [] then
           (case atoi retryAfter of
              None \<Rightarrow> banFor
            | Some secs \<Rightarrow>
                if secs > 0 then (let d = wrap64 (secs * Second) in if d > banFor then d else banFor)
                else banFor)
         else banFor)"

text \<open>The locked part of \<open>MarkRateLimited\<close>, for the proxy the caller holds.\<close>

definition mark_limited :: "time \<Rightarrow> proxy \<Rightarrow> string \<Rightarrow> pool \<Rightarrow> pool" where
  "mark_limited now p retryAfter s =
     (let banFor = ban_duration (pm_cfg s) retryAfter;
          s = s\<lparr> pm_ip_bans := banIPLocked (px_ip p) (now + banFor) (pm_ip_bans s) \<rparr>;
          s = (if px_region p \<noteq> []
               then s\<lparr> pm_region_bans := (pm_region_bans s)(px_region p \<mapsto> now + banFor) \<rparr> else s);
          s = (if pool_find (px_id p) (pm_pool s) \<noteq> None then
                 s\<lparr> pm_pool := pool_update (px_id p)
                      (\<lambda>pr. pr\<lparr> px_state := StateCooldown, px_last_used := now,
                               px_errors := px_errors pr + 1 \<rparr>) (pm_pool s),
                    pm_total_errors := pm_total_errors s + 1 \<rparr>
               else s)
      in signal s)"

definition MarkRateLimited :: "time \<Rightarrow> time \<Rightarrow> proxy \<Rightarrow> string \<Rightarrow> pool \<Rightarrow> nat \<times> pool" where
  "MarkRateLimited now now2 p retryAfter s = ensurePoolCapacity now2 (mark_limited now p retryAfter s)"

definition MarkUnhealthy :: "time \<Rightarrow> proxy option \<Rightarrow> pool \<Rightarrow> nat \<times> pool" where
  "MarkUnhealthy now po s =
     (case po of
        None \<Rightarrow> (0, s)
      | Some p \<Rightarrow>
          if pool_find (px_id p) (pm_pool s) \<noteq> None then
            ensurePoolCapacity now
              (s\<lparr> pm_pool := pool_update (px_id p)
                   (\<lambda>pr. pr\<lparr> px_state := StateUnhealthy, px_errors := px_errors pr + 1 \<rparr>) (pm_pool s),
                 pm_total_errors := pm_total_errors s + 1 \<rparr>)
          else (0, s))"

section \<open>External proxies, resizing, rotation\<close>

text \<open>
  \<open>created\<close> is what a new external manager for the address makes of it, \<open>health\<close> its check:
  the address it found, or why it failed.
\<close>

definition AddExternalProxy ::
  "nat \<Rightarrow> string + proxy \<Rightarrow> string + (bool \<times> string) \<Rightarrow> string \<Rightarrow> pool \<Rightarrow> (string + proxy) \<times> pool" where
  "AddExternalProxy m created health addr s =
     (case created of
        Inl err \<Rightarrow> (Inl (''failed to create external proxy: '' @ err), s)
      | Inr p \<Rightarrow>
          (case health of
             Inl err \<Rightarrow> (Inl (''health check failed for '' @ addr @ '': '' @ err), s)
           | Inr (ok, ip) \<Rightarrow>
               if \<not> ok then (Inl (''health check failed for '' @ addr @ '': proxy is unreachable''), s)
               else
                 let p = SetManager (External_manager m) (p\<lparr> px_ip := ip \<rparr>)
                 in (Inr p, signal (s\<lparr> pm_pool := pool_insert p (pm_pool s) \<rparr>))))"

definition RemoveExternalProxy :: "string \<Rightarrow> pool \<Rightarrow> string option \<times> pool" where
  "RemoveExternalProxy i s = RemoveProxy i s"

definition SetPoolSize :: "time \<Rightarrow> int \<Rightarrow> pool \<Rightarrow> nat \<times> pool" where
  "SetPoolSize now n s = ensurePoolCapacity now (s\<lparr> pm_cfg := (pm_cfg s)\<lparr> ProxyPoolSize := n \<rparr> \<rparr>)"

text \<open>\<open>RefreshPool\<close>: each address with the outcomes of its creation and its health check.\<close>

fun refresh_external ::
  "(string \<times> nat \<times> (string + proxy) \<times> (string + (bool \<times> string))) list \<Rightarrow> pool \<Rightarrow> string list \<times> pool" where
  "refresh_external [] s = ([], s)"
| "refresh_external ((addr, m, created, health) # rest) s =
     (if addr = [] then refresh_external rest s
      else case AddExternalProxy m created health addr s of
        (Inl err, s) \<Rightarrow> (let (failed, s) = refresh_external rest s in ((addr @ '': '' @ err) # failed, s))
      | (Inr _, s) \<Rightarrow> refresh_external rest s)"

definition RefreshPool ::
  "time \<Rightarrow> (string \<times> nat \<times> (string + proxy) \<times> (string + (bool \<times> string))) list \<Rightarrow> pool
     \<Rightarrow> string list \<times> nat \<times> pool" where
  "RefreshPool now addrs s =
     (let (failed, s) = refresh_external addrs s; (n, s) = ensurePoolCapacity now s in (failed, n, s))"

text \<open>The first idle proxy the iteration meets is dropped; its container, when it has one, is removed.\<close>

definition make_room :: "pool \<Rightarrow> string option \<times> pool" where
  "make_room s =
     (if int (length (pm_pool s)) \<ge> ProxyPoolSize (pm_cfg s) then
        (case find (\<lambda>p. px_state p = StateIdle) (pm_pool s) of
           None \<Rightarrow> (None, s)
         | Some p \<Rightarrow> (if px_container p \<noteq> [] then Some (px_container p) else None,
                      s\<lparr> pm_pool := pool_delete (px_id p) (pm_pool s) \<rparr>))
      else (None, s))"

fun newest :: "proxy option \<Rightarrow> proxy list \<Rightarrow> proxy option" where
  "newest acc [] = acc"
| "newest acc (p # ps) =
     newest (case acc of None \<Rightarrow> Some p | Some q \<Rightarrow> if px_created p > px_created q then Some p else acc) ps"

definition ForceRotate :: "create_env \<Rightarrow> pool \<Rightarrow> (string + proxy) \<times> pool" where
  "ForceRotate e s =
     (if \<not> pm_has_mgr s then (Inl ''no VPN manager available'', s)
      else case createProxy e (snd (make_room s)) of
        (Inl err, s) \<Rightarrow> (Inl (''failed to create new proxy: '' @ err), s)
      | (Inr _, s) \<Rightarrow>
          (case newest None (pm_pool s) of
             None \<Rightarrow> (Inl ''proxy created but not found in pool'', s)
           | Some p \<Rightarrow> (Inr p, s)))"

section \<open>Statistics\<close>

definition count_state :: "proxy_state \<Rightarrow> proxy list \<Rightarrow> int" where
  "count_state st ps = int (length (filter (\<lambda>p. px_state p = st) ps))"

definition Stats :: "pool \<Rightarrow> pool_stats" where
  "Stats s = \<lparr> ps_total = int (length (pm_pool s)), ps_idle = count_state StateIdle (pm_pool s),
     ps_active = count_state StateActive (pm_pool s), ps_cooldown = count_state StateCooldown (pm_pool s),
     ps_unhealthy = count_state StateUnhealthy (pm_pool s), ps_total_requests = pm_total_requests s,
     ps_total_errors = pm_total_errors s \<rparr>"

definition List_proxies :: "pool \<Rightarrow> proxy list" where
  "List_proxies s = pm_pool s"

section \<open>Health checks\<close>

text \<open>The locked part for one proxy of the snapshot, with the outcome of its check.\<close>

definition health_update :: "time \<Rightarrow> string \<Rightarrow> bool \<Rightarrow> pool \<Rightarrow> bool \<times> pool" where
  "health_update now i healthy s =
     (case pool_find i (pm_pool s) of
        None \<Rightarrow> (False, s)
      | Some pr \<Rightarrow>
          let st = (if \<not> healthy \<and> px_state pr \<noteq> StateCooldown then StateUnhealthy
                    else if healthy \<and> px_state pr = StateUnhealthy then StateIdle
                    else px_state pr);
              recovered = (healthy \<and> px_state pr = StateUnhealthy);
              pr' = pr\<lparr> px_last_check := now, px_state := st \<rparr>;
              s = s\<lparr> pm_pool := pool_update i (\<lambda>_. pr') (pm_pool s) \<rparr>;
              s = (if recovered then signal s else s)
          in if healthy \<and> st = StateIdle \<and> duplicateIPLocked pr' (pm_pool s)
             then (True, s\<lparr> pm_pool := pool_update i (\<lambda>p. p\<lparr> px_state := StateUnhealthy \<rparr>) (pm_pool s) \<rparr>)
             else (False, s))"

text \<open>
  The checks of a snapshot in order. Each comes with its clock, its outcome and the address it
  found (a check records the egress address on the proxy itself before the lock is taken). The
  critical sections of one round run here without other operations in between. \<open>Pool_Machine\<close> has each of
  them as an operation of its own too (\<open>P_visit\<close>, \<open>P_ensure\<close>), and those of the creation loop (\<open>P_regions\<close>,
  \<open>P_turn\<close>, \<open>P_keep\<close>, \<open>P_admit\<close>), so its runs have them in any order among the others.
\<close>

fun check_each :: "(string \<times> time \<times> bool \<times> string option) list \<Rightarrow> bool \<Rightarrow> pool \<Rightarrow> bool \<times> pool" where
  "check_each [] drift s = (drift, s)"
| "check_each ((i, now, healthy, found) # rest) drift s =
     (let s = (case found of
                 None \<Rightarrow> s
               | Some ip \<Rightarrow> s\<lparr> pm_pool := pool_update i (\<lambda>p. p\<lparr> px_ip := ip \<rparr>) (pm_pool s) \<rparr>);
          (d, s) = health_update now i healthy s
      in check_each rest (drift \<or> d) s)"

definition checkAllProxies ::
  "time \<Rightarrow> (string \<Rightarrow> time \<times> bool \<times> string option) \<Rightarrow> pool \<Rightarrow> nat \<times> pool" where
  "checkAllProxies now check s =
     (let (drift, s) = check_each (map (\<lambda>p. (px_id p, check (px_id p))) (pm_pool s)) False s
      in if drift then ensurePoolCapacity now s else (0, s))"

section \<open>Cooldown\<close>

text \<open>
  The visit of the pool: which proxies are dropped, what becomes of the others, the bans after
  the look-ups, and whether a waiter is woken. \<open>over\<close> says that the pool exceeds its size.
\<close>

fun restore_visit ::
  "time \<Rightarrow> duration \<Rightarrow> bool \<Rightarrow> proxy list \<Rightarrow> (string \<Rightarrow> time option)
     \<Rightarrow> string list \<times> proxy list \<times> (string \<Rightarrow> time option) \<times> bool" where
  "restore_visit now cd over [] bans = ([], [], bans, False)"
| "restore_visit now cd over (p # ps) bans =
     (if px_state p \<noteq> StateCooldown \<or> time_sub now (px_last_used p) < cd then
        (case restore_visit now cd over ps bans of (rm, qs, bans, w) \<Rightarrow> (rm, p # qs, bans, w))
      else if over then
        (case restore_visit now cd over ps bans of (rm, qs, bans, w) \<Rightarrow> (px_id p # rm, p # qs, bans, w))
      else
        let (b, bans) = ipBannedLocked (px_ip p) now bans
        in (case restore_visit now cd over ps bans of
              (rm, qs, bans, w) \<Rightarrow> (rm, p\<lparr> px_state := StateIdle, px_errors := 0 \<rparr> # qs, bans, \<not> b \<or> w)))"

definition restoreCooldownProxies :: "time \<Rightarrow> pool \<Rightarrow> pool" where
  "restoreCooldownProxies now s =
     (let s = s\<lparr> pm_ip_bans := drop_expired now (pm_ip_bans s),
                 pm_region_bans := drop_expired now (pm_region_bans s) \<rparr>;
          over = int (length (pm_pool s)) > ProxyPoolSize (pm_cfg s);
          (rm, qs, bans, w) = restore_visit now (CooldownDuration (pm_cfg s)) over (pm_pool s) (pm_ip_bans s);
          s = s\<lparr> pm_pool := qs, pm_ip_bans := bans \<rparr>;
          s = (if w then signal s else s)
      in remove_all rm s)"

text \<open>One tick of \<open>cooldownLoop\<close>.\<close>

definition cooldown_tick :: "time \<Rightarrow> time \<Rightarrow> pool \<Rightarrow> nat \<times> pool" where
  "cooldown_tick now now2 s = ensurePoolCapacity now2 (restoreCooldownProxies now s)"

text \<open>\<open>Close\<close>: the containers whose removal is attempted.\<close>

definition Close :: "pool \<Rightarrow> string list \<times> pool" where
  "Close s = (map px_container (pm_pool s), s\<lparr> pm_closed := True \<rparr>)"

end
