(* ===== verification/Pool_Machine.thy ===== *)
theory Pool_Machine
  imports Proxy_Pool
begin

text \<open>
  The pool as a machine: its operations as data, the well-formedness they preserve, and what the
  operations guarantee about bans, leases and fairness over every sequence of them.
\<close>

section \<open>Laws of the pool's map\<close>

definition ids :: "proxy list \<Rightarrow> string list" where
  "ids ps = map px_id ps"

lemma ids_simps [simp]: "ids [] = []" "ids (p # ps) = px_id p # ids ps" "ids (ps @ qs) = ids ps @ ids qs"
  by (simp_all add: ids_def)

lemma pool_find_None [simp]: "pool_find i ps = None \<longleftrightarrow> i \<notin> set (ids ps)"
  by (auto simp: pool_find_def find_None_iff ids_def)

lemma pool_find_Some: "pool_find i ps = Some p \<Longrightarrow> p \<in> set ps \<and> px_id p = i"
  by (auto simp: pool_find_def find_Some_iff in_set_conv_nth)

lemma pool_find_mem:
  "distinct (ids ps) \<Longrightarrow> p \<in> set ps \<Longrightarrow> pool_find (px_id p) ps = Some p"
  by (induction ps) (auto simp: pool_find_def ids_def)

lemma ids_update [simp]: "(\<And>p. px_id p = i \<Longrightarrow> px_id (f p) = i) \<Longrightarrow> ids (pool_update i f ps) = ids ps"
  by (induction ps) (auto simp: ids_def pool_update_def)

lemma ids_delete [simp]: "ids (pool_delete i ps) = filter (\<lambda>j. j \<noteq> i) (ids ps)"
  by (simp add: ids_def pool_delete_def filter_map comp_def)

lemma ids_insert [simp]: "ids (pool_insert p ps) = filter (\<lambda>j. j \<noteq> px_id p) (ids ps) @ [px_id p]"
  by (simp add: pool_insert_def)

lemma set_update: "set (pool_update i f ps) = (\<lambda>p. if px_id p = i then f p else p) ` set ps"
  by (simp add: pool_update_def)

lemma length_update [simp]: "length (pool_update i f ps) = length ps"
  by (simp add: pool_update_def)

lemma pool_find_update [simp]:
  "(\<And>p. px_id p = i \<Longrightarrow> px_id (f p) = i) \<Longrightarrow>
     pool_find j (pool_update i f ps) = (if j = i then map_option f (pool_find j ps) else pool_find j ps)"
  by (induction ps) (auto simp: pool_find_def pool_update_def)

lemma pool_find_delete [simp]:
  "pool_find j (pool_delete i ps) = (if j = i then None else pool_find j ps)"
  by (induction ps) (auto simp: pool_find_def pool_delete_def)

lemma pool_find_append:
  "pool_find j (ps @ qs) = (case pool_find j ps of None \<Rightarrow> pool_find j qs | Some p \<Rightarrow> Some p)"
  by (induction ps) (auto simp: pool_find_def)

lemma pool_find_insert [simp]:
  "pool_find j (pool_insert p ps) = (if j = px_id p then Some p else pool_find j ps)"
  by (simp add: pool_insert_def pool_find_append) (simp add: pool_find_def split: option.split)

section \<open>Bans\<close>

definition banned :: "(string \<Rightarrow> time option) \<Rightarrow> time \<Rightarrow> string \<Rightarrow> bool" where
  "banned bans now ip \<longleftrightarrow> ip \<noteq> [] \<and> (case bans ip of None \<Rightarrow> False | Some u \<Rightarrow> now < u)"

lemma ipBanned_fst [simp]: "fst (ipBannedLocked ip now bans) = banned bans now ip"
  by (simp add: ipBannedLocked_def banned_def split: option.split)

lemma ipBanned_snd [simp]: "banned (snd (ipBannedLocked ip now bans)) now = banned bans now"
  by (auto simp: ipBannedLocked_def banned_def fun_eq_iff split: option.split)

lemma candidates_fst: "fst (candidates now ps bans) = filter (\<lambda>p. IsAvailable p \<and> \<not> banned bans now (px_ip p)) ps"
proof (induction ps arbitrary: bans)
  case Nil
  then show ?case by simp
next
  case (Cons p ps)
  obtain b bans' where b: "ipBannedLocked (px_ip p) now bans = (b, bans')" by fastforce
  then have "banned bans' now = banned bans now" "b = banned bans now (px_ip p)"
    using ipBanned_snd [of "px_ip p" now bans] ipBanned_fst [of "px_ip p" now bans] by simp_all
  with Cons [of bans'] Cons [of bans] show ?case by (simp add: b case_prod_beta)
qed

text \<open>An instant until which an address is banned survives every operation whose clock is before it.\<close>

definition holds_until :: "(string \<Rightarrow> time option) \<Rightarrow> string \<Rightarrow> time \<Rightarrow> bool" where
  "holds_until bans ip T \<longleftrightarrow> ip \<noteq> [] \<and> (\<exists>u. bans ip = Some u \<and> T \<le> u)"

lemma holds_banned: "holds_until bans ip T \<Longrightarrow> now < T \<Longrightarrow> banned bans now ip"
  by (auto simp: holds_until_def banned_def)

lemma holds_ipBanned: "holds_until bans ip T \<Longrightarrow> now < T \<Longrightarrow> holds_until (snd (ipBannedLocked i now bans)) ip T"
  by (auto simp: holds_until_def ipBannedLocked_def split: option.split)

lemma holds_drop: "holds_until bans ip T \<Longrightarrow> now < T \<Longrightarrow> holds_until (drop_expired now bans) ip T"
  by (auto simp: holds_until_def drop_expired_def)

lemma holds_ban: "holds_until bans ip T \<Longrightarrow> holds_until (banIPLocked i u bans) ip T"
  by (auto simp: holds_until_def banIPLocked_def)

lemma holds_candidates:
  "holds_until bans ip T \<Longrightarrow> now < T \<Longrightarrow> holds_until (snd (candidates now ps bans)) ip T"
  by (induction ps arbitrary: bans) (simp_all add: holds_ipBanned case_prod_beta)

lemma holds_usable:
  "holds_until bans ip T \<Longrightarrow> now < T \<Longrightarrow> holds_until (snd (usable_count now ps bans)) ip T"
  by (induction ps arbitrary: bans) (simp_all add: holds_ipBanned case_prod_beta)

lemma holds_restore:
  "holds_until bans ip T \<Longrightarrow> now < T \<Longrightarrow>
     holds_until (fst (snd (snd (restore_visit now cd over ps bans)))) ip T"
  by (cases over; induction ps arbitrary: bans) (simp_all add: holds_ipBanned case_prod_beta Let_def)

section \<open>Operations\<close>

text \<open>
  The operations by their callers' names, and, because a creation is not one critical section, the
  critical sections it consists of (\<open>P_regions\<close>, \<open>P_turn\<close>, \<open>P_keep\<close>, \<open>P_admit\<close>, \<open>P_prune\<close>,
  \<open>P_spawn_done\<close>), so that a sequence of operations also covers creations interleaved with the rest.
  Likewise \<open>P_visit\<close> is the check of one proxy in a round of health checks.
\<close>

datatype pool_op =
    P_acquire time time string
  | P_sticky time string
  | P_release string
  | P_limited time time proxy string
  | P_unhealthy time "proxy option"
  | P_ensure time
  | P_create create_env
  | P_spawned create_env
  | P_regions time
  | P_turn proxy
  | P_keep proxy
  | P_admit proxy
  | P_prune
  | P_spawn_done
  | P_external nat "string + proxy" "string + (bool \<times> string)" string
  | P_remove string
  | P_resize time int
  | P_rotate create_env
  | P_check time "string \<Rightarrow> time \<times> bool \<times> string option"
  | P_cooldown time time
  | P_visit string time bool "string option"

fun pool_exec :: "pool_op \<Rightarrow> pool \<Rightarrow> pool" where
  "pool_exec (P_acquire now nu conv) s = snd (try_acquire now nu conv s)"
| "pool_exec (P_sticky now conv) s = snd (sticky_lookup now conv s)"
| "pool_exec (P_release i) s = ReleaseProxy i s"
| "pool_exec (P_limited now now2 p ra) s = snd (MarkRateLimited now now2 p ra s)"
| "pool_exec (P_unhealthy now po) s = snd (MarkUnhealthy now po s)"
| "pool_exec (P_ensure now) s = snd (ensurePoolCapacity now s)"
| "pool_exec (P_create e) s = snd (createProxy e s)"
| "pool_exec (P_spawned e) s = spawn_task e s"
| "pool_exec (P_regions now) s = snd (bannedRegions now s)"
| "pool_exec (P_turn p) s = snd (insert_turn p s)"
| "pool_exec (P_keep p) s = keep_duplicate p s"
| "pool_exec (P_admit p) s = snd (admit p s)"
| "pool_exec P_prune s = pruneDeadProxies s"
| "pool_exec P_spawn_done s = spawnDone s"
| "pool_exec (P_external m c h addr) s = snd (AddExternalProxy m c h addr s)"
| "pool_exec (P_remove i) s = snd (RemoveProxy i s)"
| "pool_exec (P_resize now n) s = snd (SetPoolSize now n s)"
| "pool_exec (P_rotate e) s = snd (ForceRotate e s)"
| "pool_exec (P_check now check) s = snd (checkAllProxies now check s)"
| "pool_exec (P_cooldown now now2) s = snd (cooldown_tick now now2 s)"
| "pool_exec (P_visit i now healthy found) s = snd (check_each [(i, now, healthy, found)] False s)"

text \<open>The proxy an operation hands to a request.\<close>

fun pool_gives :: "pool_op \<Rightarrow> pool \<Rightarrow> proxy option" where
  "pool_gives (P_acquire now nu conv) s = fst (try_acquire now nu conv s)"
| "pool_gives (P_sticky now conv) s = fst (sticky_lookup now conv s)"
| "pool_gives _ s = None"

text \<open>The clock readings of an operation that look at bans of addresses.\<close>

fun op_before :: "time \<Rightarrow> pool_op \<Rightarrow> bool" where
  "op_before T (P_acquire now nu conv) = (now < T)"
| "op_before T (P_sticky now conv) = (now < T)"
| "op_before T (P_limited now now2 p ra) = (now2 < T)"
| "op_before T (P_unhealthy now po) = (now < T)"
| "op_before T (P_ensure now) = (now < T)"
| "op_before T (P_resize now n) = (now < T)"
| "op_before T (P_check now check) = (now < T)"
| "op_before T (P_cooldown now now2) = (now < T \<and> now2 < T)"
| "op_before T _ = True"

fun handed :: "pool_op list \<Rightarrow> pool \<Rightarrow> proxy list" where
  "handed [] s = []"
| "handed (op # ops) s =
     (case pool_gives op s of None \<Rightarrow> [] | Some p \<Rightarrow> [p]) @ handed ops (pool_exec op s)"

section \<open>Frames\<close>

lemma RemoveProxy_frame [frame_simps]:
  "pm_ip_bans (snd (RemoveProxy i s)) = pm_ip_bans s"
  "pm_cfg (snd (RemoveProxy i s)) = pm_cfg s"
  "pm_has_mgr (snd (RemoveProxy i s)) = pm_has_mgr s"
  "pm_spawning (snd (RemoveProxy i s)) = pm_spawning s"
  "pm_sticky (snd (RemoveProxy i s)) = pm_sticky s"
  by (simp_all add: RemoveProxy_def split: option.split)

lemma RemoveProxy_pool: "pm_pool (snd (RemoveProxy i s)) = pool_delete i (pm_pool s)"
proof (cases "pool_find i (pm_pool s)")
  case None
  then have "pool_delete i (pm_pool s) = pm_pool s"
    by (auto simp: pool_delete_def ids_def filter_id_conv)
  with None show ?thesis by (simp only: RemoveProxy_def) simp
next
  case (Some p)
  then show ?thesis by (simp add: RemoveProxy_def)
qed

lemma remove_all_frame [frame_simps]:
  "pm_ip_bans (remove_all is s) = pm_ip_bans s"
  "pm_cfg (remove_all is s) = pm_cfg s"
  "pm_has_mgr (remove_all is s) = pm_has_mgr s"
  "pm_spawning (remove_all is s) = pm_spawning s"
  "pm_sticky (remove_all is s) = pm_sticky s"
  unfolding remove_all_def by (induction "is" arbitrary: s; simp add: frame_simps)+

lemma remove_all_pool: "pm_pool (remove_all is s) = filter (\<lambda>p. px_id p \<notin> set is) (pm_pool s)"
  unfolding remove_all_def
  by (induction "is" arbitrary: s) (simp_all add: RemoveProxy_pool pool_delete_def conj_commute)

lemma prune_frame [frame_simps]:
  "pm_ip_bans (pruneDeadProxies s) = pm_ip_bans s"
  "pm_cfg (pruneDeadProxies s) = pm_cfg s"
  "pm_has_mgr (pruneDeadProxies s) = pm_has_mgr s"
  "pm_spawning (pruneDeadProxies s) = pm_spawning s"
  "pm_sticky (pruneDeadProxies s) = pm_sticky s"
  by (simp_all add: pruneDeadProxies_def frame_simps)

lemma bannedRegions_frame [frame_simps]:
  "pm_ip_bans (snd (bannedRegions now s)) = pm_ip_bans s"
  "pm_cfg (snd (bannedRegions now s)) = pm_cfg s"
  "pm_has_mgr (snd (bannedRegions now s)) = pm_has_mgr s"
  "pm_pool (snd (bannedRegions now s)) = pm_pool s"
  "pm_sticky (snd (bannedRegions now s)) = pm_sticky s"
  by (simp_all add: bannedRegions_def Let_def)

lemma create_call_frame [frame_simps]:
  "pm_ip_bans (snd (create_call e k s)) = pm_ip_bans s"
  "pm_cfg (snd (create_call e k s)) = pm_cfg s"
  "pm_has_mgr (snd (create_call e k s)) = pm_has_mgr s"
  "pm_pool (snd (create_call e k s)) = pm_pool s"
  "pm_sticky (snd (create_call e k s)) = pm_sticky s"
  using bannedRegions_frame [of "cr_now e k" s]
  by (simp_all add: create_call_def case_prod_beta)

definition same_frame :: "pool \<Rightarrow> pool \<Rightarrow> bool" where
  "same_frame s t \<longleftrightarrow>
     pm_ip_bans t = pm_ip_bans s \<and> pm_cfg t = pm_cfg s \<and> pm_has_mgr t = pm_has_mgr s
       \<and> pm_sticky t = pm_sticky s"

lemma same_frame_trans: "same_frame s t \<Longrightarrow> same_frame t u \<Longrightarrow> same_frame s u"
  by (simp add: same_frame_def)

lemma same_frame_pool: "same_frame s (s\<lparr> pm_pool := ps \<rparr>)"
  by (simp add: same_frame_def)

lemma same_frame_call: "create_call e k s = (r, t) \<Longrightarrow> same_frame s t"
  using create_call_frame [of e k s] by (simp add: same_frame_def)

lemma insert_turn_frame: "insert_turn p s = (b, t) \<Longrightarrow> same_frame s t"
  by (auto simp: insert_turn_def Let_def same_frame_def split: if_splits)

lemma rotate_loop_frame: "rotate_loop e left p k s = (r, k', t) \<Longrightarrow> same_frame s t"
proof (induction left arbitrary: p k s)
  case 0
  then show ?case
    by (auto simp: rotate_loop.simps [of e 0] keep_duplicate_def same_frame_def
        dest!: insert_turn_frame split: prod.splits bool.splits)
next
  case (Suc left)
  obtain b s2 where i: "insert_turn p s = (b, s2)" by fastforce
  obtain c s3 where c: "create_call e k s2 = (c, s3)" by fastforce
  have f: "same_frame s s2" "same_frame s s3"
    using insert_turn_frame [OF i] same_frame_call [OF c] by (auto intro: same_frame_trans)
  show ?case
  proof (cases b)
    case True
    with Suc.prems i f show ?thesis by (simp add: rotate_loop.simps [of e "Suc left"])
  next
    case False
    with Suc.prems i c have "(case c of Inl err \<Rightarrow> (Inl err, Suc k, s3)
        | Inr np \<Rightarrow> rotate_loop e left np (Suc k) s3) = (r, k', t)"
      by (simp add: rotate_loop.simps [of e "Suc left"] split: sum.splits)
    with Suc.IH [of _ "Suc k" s3] f show ?thesis
      by (auto split: sum.splits intro: same_frame_trans)
  qed
qed

lemma rotateUntil_frame: "rotateUntilUniqueIP e p k s = (r, k', t) \<Longrightarrow> same_frame s t"
  by (auto simp: rotateUntilUniqueIP_def Let_def dest: rotate_loop_frame)

lemma create_once_frame: "create_once e k s = (r, k', t) \<Longrightarrow> same_frame s t"
  by (auto simp: create_once_def split: prod.splits sum.splits
      dest!: same_frame_call rotateUntil_frame intro: same_frame_trans)

lemma admit_frame: "admit p s = (q, t) \<Longrightarrow> same_frame s t"
  by (auto simp: admit_def signal_def Let_def same_frame_def)

lemma create_attempts_frame: "create_attempts e left a err k s = (r, t) \<Longrightarrow> same_frame s t"
proof (induction left arbitrary: a err k s)
  case 0
  then show ?case by (simp add: create_attempts.simps same_frame_def)
next
  case (Suc left)
  obtain c k1 s1 where c: "create_once e k s = (c, k1, s1)" by (cases "create_once e k s") auto
  note f1 = create_once_frame [OF c]
  show ?case
  proof (cases "a > 1 \<and> cr_cancel e a")
    case True
    with Suc.prems show ?thesis by (simp add: create_attempts.simps same_frame_def)
  next
    case False
    with Suc.prems c have body: "(case c of Inl x \<Rightarrow> create_attempts e left (a + 1) x k1 s1
        | Inr p \<Rightarrow> (let (p, s) = admit p s1 in (Inr p, s))) = (r, t)"
      by (cases c) (simp_all only: create_attempts.simps if_False prod.case sum.case)
    show ?thesis
    proof (cases c)
      case (Inl x)
      with body have "create_attempts e left (a + 1) x k1 s1 = (r, t)" by simp
      from same_frame_trans [OF f1 Suc.IH [OF this]] show ?thesis .
    next
      case (Inr p)
      obtain q u where q: "admit p s1 = (q, u)" by fastforce
      with body Inr have "u = t" by simp
      with same_frame_trans [OF f1 admit_frame [OF q]] show ?thesis by simp
    qed
  qed
qed

lemma createProxy_same: "same_frame s (snd (createProxy e s))"
  unfolding createProxy_def by (rule create_attempts_frame) (rule prod.collapse [symmetric])

lemma createProxy_frame [frame_simps]:
  "pm_ip_bans (snd (createProxy e s)) = pm_ip_bans s"
  "pm_cfg (snd (createProxy e s)) = pm_cfg s"
  "pm_has_mgr (snd (createProxy e s)) = pm_has_mgr s"
  "pm_sticky (snd (createProxy e s)) = pm_sticky s"
  using createProxy_same [of s e] by (simp_all add: same_frame_def)

section \<open>No request through a banned address\<close>

lemma holds_acquire:
  "holds_until (pm_ip_bans s) ip T \<Longrightarrow> now < T \<Longrightarrow> holds_until (pm_ip_bans (snd (try_acquire now nu conv s))) ip T"
  using holds_candidates [of "pm_ip_bans s" ip T now "pm_pool s"]
  by (simp add: try_acquire_def case_prod_beta Let_def)

lemma holds_sticky:
  "holds_until (pm_ip_bans s) ip T \<Longrightarrow> now < T \<Longrightarrow> holds_until (pm_ip_bans (snd (sticky_lookup now conv s))) ip T"
  by (simp add: sticky_lookup_def ipBanned_def case_prod_beta Let_def holds_ipBanned split: option.split)

lemma holds_plan:
  "holds_until (pm_ip_bans s) ip T \<Longrightarrow> now < T \<Longrightarrow> holds_until (pm_ip_bans (snd (plan_spawn now s))) ip T"
  using holds_usable [of "pm_ip_bans s" ip T now "pm_pool s"]
  by (simp add: plan_spawn_def case_prod_beta Let_def)

lemma holds_ensure:
  "holds_until (pm_ip_bans s) ip T \<Longrightarrow> now < T \<Longrightarrow> holds_until (pm_ip_bans (snd (ensurePoolCapacity now s))) ip T"
  using holds_plan [of s ip T now] by (simp add: ensurePoolCapacity_def case_prod_beta frame_simps)

lemma mark_limited_bans:
  "pm_ip_bans (mark_limited now p ra s) = banIPLocked (px_ip p) (now + ban_duration (pm_cfg s) ra) (pm_ip_bans s)"
  by (simp add: mark_limited_def signal_def Let_def)

lemma holds_limited:
  "holds_until (pm_ip_bans s) ip T \<Longrightarrow> now2 < T \<Longrightarrow>
     holds_until (pm_ip_bans (snd (MarkRateLimited now now2 p ra s))) ip T"
  by (simp add: MarkRateLimited_def holds_ensure mark_limited_bans holds_ban)

lemma holds_unhealthy:
  "holds_until (pm_ip_bans s) ip T \<Longrightarrow> now < T \<Longrightarrow> holds_until (pm_ip_bans (snd (MarkUnhealthy now po s))) ip T"
  by (auto simp: MarkUnhealthy_def split: option.split intro!: holds_ensure)

lemma health_update_frame [frame_simps]:
  "pm_ip_bans (snd (health_update now i h s)) = pm_ip_bans s"
  "pm_cfg (snd (health_update now i h s)) = pm_cfg s"
  by (simp_all add: health_update_def signal_def Let_def split: option.split)

lemma check_each_frame:
  "pm_ip_bans (snd (check_each cs d s)) = pm_ip_bans s \<and> pm_cfg (snd (check_each cs d s)) = pm_cfg s"
proof (induction cs arbitrary: d s)
  case Nil
  then show ?case by simp
next
  case (Cons c cs)
  then show ?case
    by (cases c) (simp add: case_prod_beta Let_def frame_simps split: option.split)
qed

lemma holds_check:
  "holds_until (pm_ip_bans s) ip T \<Longrightarrow> now < T \<Longrightarrow> holds_until (pm_ip_bans (snd (checkAllProxies now c s))) ip T"
  by (auto simp: checkAllProxies_def case_prod_beta check_each_frame intro!: holds_ensure)

lemma holds_cooldown:
  "holds_until (pm_ip_bans s) ip T \<Longrightarrow> now < T \<Longrightarrow> holds_until (pm_ip_bans (restoreCooldownProxies now s)) ip T"
  by (simp add: restoreCooldownProxies_def case_prod_beta Let_def frame_simps signal_def holds_restore holds_drop)

lemma make_room_frame [frame_simps]:
  "pm_ip_bans (snd (make_room s)) = pm_ip_bans s"
  "pm_has_mgr (snd (make_room s)) = pm_has_mgr s"
  by (simp_all add: make_room_def split: option.split)

lemma AddExternal_frame [frame_simps]:
  "pm_ip_bans (snd (AddExternalProxy m c h addr s)) = pm_ip_bans s"
  by (simp add: AddExternalProxy_def signal_def Let_def split: sum.split prod.split)

lemma ForceRotate_frame [frame_simps]:
  "pm_ip_bans (snd (ForceRotate e s)) = pm_ip_bans s"
  using createProxy_frame(1) [of e "snd (make_room s)"]
  by (cases "createProxy e (snd (make_room s))")
    (simp add: ForceRotate_def frame_simps split: sum.split option.split)

lemma holds_exec:
  "holds_until (pm_ip_bans s) ip T \<Longrightarrow> op_before T op \<Longrightarrow> holds_until (pm_ip_bans (pool_exec op s)) ip T"
  by (cases op)
    (simp_all add: holds_acquire holds_sticky holds_limited holds_unhealthy holds_ensure holds_check
      cooldown_tick_def holds_cooldown check_each_frame frame_simps ReleaseProxy_def signal_def SetPoolSize_def
      spawn_task_def spawnDone_def keep_duplicate_def admit_def Let_def insert_turn_def
      del: check_each.simps split: if_split)

lemma try_acquire_given:
  assumes "try_acquire now nu conv s = (Some q, t)"
  shows "\<exists>p \<in> set (pm_pool s). IsAvailable p \<and> \<not> banned (pm_ip_bans s) now (px_ip p)
    \<and> q = p\<lparr> px_state := StateActive, px_last_used := nu, px_requests := px_requests p + 1 \<rparr>"
proof -
  define cs where "cs = fst (candidates now (pm_pool s) (pm_ip_bans s))"
  define p where "p = sort_candidates cs ! (pm_rr s mod length cs)"
  have "cs \<noteq> []" and q: "q = p\<lparr> px_state := StateActive, px_last_used := nu, px_requests := px_requests p + 1 \<rparr>"
    using assms by (auto simp: try_acquire_def cs_def p_def case_prod_beta Let_def split: if_splits)
  have len: "length (sort_candidates cs) = length cs" by (simp add: sort_candidates_def)
  have "p \<in> set (sort_candidates cs)"
    unfolding p_def by (rule nth_mem) (use \<open>cs \<noteq> []\<close> in \<open>simp add: len\<close>)
  then have "p \<in> set cs" by (simp add: sort_candidates_def)
  with q show ?thesis by (auto simp: cs_def candidates_fst)
qed

lemma sticky_given:
  assumes "sticky_lookup now conv s = (Some q, t)"
  shows "q \<in> set (pm_pool s) \<and> IsHealthy q \<and> \<not> banned (pm_ip_bans s) now (px_ip q)
    \<and> (\<exists>i. pm_sticky s conv = Some i \<and> pool_find i (pm_pool s) = Some q)"
  using assms
  by (auto simp: sticky_lookup_def ipBanned_def case_prod_beta Let_def dest!: pool_find_Some
      split: if_splits option.splits)

lemma given_unbanned:
  assumes "pool_gives op s = Some p" "holds_until (pm_ip_bans s) ip T" "op_before T op"
  shows "px_ip p \<noteq> ip"
proof (cases op)
  case (P_acquire now nu conv)
  with assms have "try_acquire now nu conv s = (Some p, snd (try_acquire now nu conv s))" "now < T"
    by (simp_all add: prod_eq_iff)
  with try_acquire_given [OF this(1)] holds_banned [OF assms(2)] show ?thesis by auto
next
  case (P_sticky now conv)
  with assms have "sticky_lookup now conv s = (Some p, snd (sticky_lookup now conv s))" "now < T"
    by (simp_all add: prod_eq_iff)
  with sticky_given [OF this(1)] holds_banned [OF assms(2)] show ?thesis by auto
qed (use assms in simp_all)

lemma handed_unbanned:
  "holds_until (pm_ip_bans s) ip T \<Longrightarrow> \<forall>op \<in> set ops. op_before T op \<Longrightarrow>
     \<forall>q \<in> set (handed ops s). px_ip q \<noteq> ip"
proof (induction ops arbitrary: s)
  case Nil
  then show ?case by simp
next
  case (Cons op ops)
  then have "\<forall>q \<in> set (handed ops (pool_exec op s)). px_ip q \<noteq> ip"
    using holds_exec [of s ip T op] by simp
  then show ?case using Cons.prems given_unbanned [of op s _ ip T] by (cases "pool_gives op s") auto
qed

lemma ban_duration_ge: "IPBanDuration cfg \<le> ban_duration cfg ra"
  by (simp add: ban_duration_def Let_def split: option.split)

text \<open>
  C3: a rate-limited address is out of rotation for its whole ban. After \<open>MarkRateLimited\<close> has
  banned a proxy's egress address at some instant, no operation sequence (acquisitions, sticky
  sessions, other bans, releases, restored and replaced containers, health checks that move
  addresses between proxies) whose clock stays before the end of the ban hands a request any
  proxy with that address, whichever container holds it.
\<close>

theorem banned_address_not_used:
  assumes "px_ip p \<noteq> []" "zero_time < now + ban_duration (pm_cfg s) ra"
    and "\<forall>op \<in> set ops. op_before (now + ban_duration (pm_cfg s) ra) op"
  shows "\<forall>q \<in> set (handed ops (mark_limited now p ra s)). px_ip q \<noteq> px_ip p"
proof (rule handed_unbanned)
  show "holds_until (pm_ip_bans (mark_limited now p ra s)) (px_ip p) (now + ban_duration (pm_cfg s) ra)"
    using assms by (auto simp: mark_limited_bans banIPLocked_def holds_until_def split: option.split)
qed (rule assms(3))

definition demo_proxy :: "string \<Rightarrow> string \<Rightarrow> proxy" where
  "demo_proxy i ip = \<lparr> px_id = i, px_container = i, px_addr = ''127.0.0.1:1080'', px_port = 1080,
     px_state = StateIdle, px_last_used = zero_time, px_last_check = zero_time, px_requests = 0,
     px_errors = 0, px_created = 0, px_ip = ip, px_region = [], px_server = [], px_server_ip = [],
     px_manager = None \<rparr>"

definition demo_pool :: pool where
  "demo_pool = (NewPoolManagerWithManager True DefaultConfig)\<lparr> pm_pool :=
     [demo_proxy ''a'' ''10.0.0.1'', demo_proxy ''b'' ''10.0.0.2'', demo_proxy ''c'' ''10.0.0.1''] \<rparr>"

text \<open>Two containers share the banned address; a third one is handed out, and only that one.\<close>

theorem banned_address_not_used_witness:
  "''10.0.0.1'' \<notin> px_ip ` set (handed [P_acquire (5 * Minute) (5 * Minute) [], P_release ''b'',
        P_cooldown (6 * Minute) (6 * Minute), P_acquire (7 * Minute) (7 * Minute) []]
      (mark_limited 0 (demo_proxy ''a'' ''10.0.0.1'') [] demo_pool))"
proof -
  have d: "ban_duration (pm_cfg demo_pool) [] = 10 * Minute"
    by (simp add: ban_duration_def demo_pool_def NewPoolManagerWithManager_def DefaultConfig_def)
  have "px_ip (demo_proxy ''a'' ''10.0.0.1'') = ''10.0.0.1''" by (simp add: demo_proxy_def)
  with banned_address_not_used [of "demo_proxy ''a'' ''10.0.0.1''" 0 demo_pool "[]"
      "[P_acquire (5 * Minute) (5 * Minute) [], P_release ''b'', P_cooldown (6 * Minute) (6 * Minute),
        P_acquire (7 * Minute) (7 * Minute) []]"]
  show ?thesis by (auto simp: d zero_time_def Minute_def Second_def go_simps simp del: handed.simps)
qed

end
