(* ===== verification/Pool_Laws.thy ===== *)
theory Pool_Laws
  imports Pool_Machine
begin

text \<open>
  What the pool promises beyond the bans: its well-formedness over every sequence of operations,
  a selection that does not depend on the order of the map, round-robin fairness, the exact
  number of spawned replacements, leases, the rotation of duplicate addresses, and housekeeping.
\<close>

section \<open>Well-formedness\<close>

definition pool_wf :: "pool \<Rightarrow> bool" where
  "pool_wf s \<longleftrightarrow> distinct (ids (pm_pool s)) \<and> 0 \<le> pm_spawning s"

lemma wf_pool_eq: "pm_pool t = pm_pool s \<Longrightarrow> pm_spawning t = pm_spawning s \<Longrightarrow> pool_wf t = pool_wf s"
  by (simp add: pool_wf_def)

lemma wf_remove: "pool_wf s \<Longrightarrow> pool_wf (snd (RemoveProxy i s))"
  by (simp add: pool_wf_def RemoveProxy_pool frame_simps)

lemma wf_remove_all: "pool_wf s \<Longrightarrow> pool_wf (remove_all is s)"
  unfolding remove_all_def by (induction "is" arbitrary: s) (simp_all add: wf_remove)

lemma wf_prune: "pool_wf s \<Longrightarrow> pool_wf (pruneDeadProxies s)"
  by (simp add: pruneDeadProxies_def wf_remove_all)

lemma wf_plan: "pool_wf s \<Longrightarrow> pool_wf (snd (plan_spawn now s))"
  by (auto simp: pool_wf_def plan_spawn_def case_prod_beta Let_def)

lemma wf_ensure: "pool_wf s \<Longrightarrow> pool_wf (snd (ensurePoolCapacity now s))"
  using wf_plan [of s now] by (simp add: ensurePoolCapacity_def case_prod_beta wf_prune)

lemma wf_acquire: "pool_wf s \<Longrightarrow> pool_wf (snd (try_acquire now nu conv s))"
  by (simp add: pool_wf_def try_acquire_def case_prod_beta Let_def)

lemma wf_sticky: "pool_wf s \<Longrightarrow> pool_wf (snd (sticky_lookup now conv s))"
  by (simp add: pool_wf_def sticky_lookup_def ipBanned_def case_prod_beta Let_def split: option.split)

lemma wf_insert: "pool_wf s \<Longrightarrow> pool_wf (s\<lparr> pm_pool := pool_insert p (pm_pool s) \<rparr>)"
  by (simp add: pool_wf_def)

lemma wf_turn: "pool_wf s \<Longrightarrow> pool_wf (snd (insert_turn p s))"
  by (simp add: insert_turn_def Let_def pool_wf_def)

lemma spawning_call [frame_simps]: "pm_spawning (snd (create_call e k s)) = pm_spawning s"
  by (simp add: create_call_def bannedRegions_def Let_def)

lemma wf_call: "create_call e k s = (r, t) \<Longrightarrow> pool_wf s \<Longrightarrow> pool_wf t"
  using create_call_frame(4) [of e k s] spawning_call [of e k s] by (simp add: pool_wf_def)

lemma wf_rotate_loop: "rotate_loop e left p k s = (r, k', t) \<Longrightarrow> pool_wf s \<Longrightarrow> pool_wf t"
proof (induction left arbitrary: p k s)
  case 0
  then show ?case using wf_turn [OF 0(2), of p]
    by (auto simp: rotate_loop.simps [of e 0] keep_duplicate_def wf_insert split: prod.splits bool.splits)
next
  case (Suc left)
  obtain b s2 where i: "insert_turn p s = (b, s2)" by fastforce
  obtain c s3 where c: "create_call e k s2 = (c, s3)" by fastforce
  have w: "pool_wf s2" "pool_wf s3"
    using wf_turn [OF Suc.prems(2), of p] wf_call [OF c] i by simp_all
  show ?case
  proof (cases b)
    case True
    with Suc.prems i w show ?thesis by (simp add: rotate_loop.simps [of e "Suc left"])
  next
    case False
    with Suc.prems i c have "(case c of Inl err \<Rightarrow> (Inl err, Suc k, s3)
        | Inr np \<Rightarrow> rotate_loop e left np (Suc k) s3) = (r, k', t)"
      by (simp add: rotate_loop.simps [of e "Suc left"] split: sum.splits)
    with Suc.IH [of _ "Suc k" s3] w show ?thesis by (auto split: sum.splits)
  qed
qed

lemma wf_create_once: "create_once e k s = (r, k', t) \<Longrightarrow> pool_wf s \<Longrightarrow> pool_wf t"
  by (auto simp: create_once_def rotateUntilUniqueIP_def Let_def split: prod.splits sum.splits
      dest: wf_call wf_rotate_loop)

lemma wf_admit: "pool_wf s \<Longrightarrow> pool_wf (snd (admit p s))"
  by (auto simp: admit_def signal_def Let_def pool_wf_def SetManager_def)

lemma wf_create_attempts: "create_attempts e left a err k s = (r, t) \<Longrightarrow> pool_wf s \<Longrightarrow> pool_wf t"
proof (induction left arbitrary: a err k s)
  case 0
  then show ?case by (simp add: create_attempts.simps)
next
  case (Suc left)
  obtain c k1 s1 where c: "create_once e k s = (c, k1, s1)" by (cases "create_once e k s") auto
  have w: "pool_wf s1" by (rule wf_create_once [OF c Suc.prems(2)])
  show ?case
  proof (cases "a > 1 \<and> cr_cancel e a")
    case True
    with Suc.prems show ?thesis by (simp add: create_attempts.simps)
  next
    case False
    with Suc.prems c have body: "(case c of Inl x \<Rightarrow> create_attempts e left (a + 1) x k1 s1
        | Inr p \<Rightarrow> (let (p, s) = admit p s1 in (Inr p, s))) = (r, t)"
      by (cases c) (simp_all only: create_attempts.simps if_False prod.case sum.case)
    show ?thesis
    proof (cases c)
      case (Inl x)
      with body Suc.IH [OF _ w] show ?thesis by simp
    next
      case (Inr p)
      with body have "t = snd (admit p s1)" by (simp add: case_prod_beta)
      with wf_admit [OF w] show ?thesis by simp
    qed
  qed
qed

lemma wf_create: "pool_wf s \<Longrightarrow> pool_wf (snd (createProxy e s))"
  unfolding createProxy_def by (rule wf_create_attempts [OF prod.collapse [symmetric]])

lemma wf_mark_limited: "pool_wf s \<Longrightarrow> pool_wf (mark_limited now p ra s)"
  by (simp add: mark_limited_def Let_def pool_wf_def signal_def)

lemma wf_external: "pool_wf s \<Longrightarrow> pool_wf (snd (AddExternalProxy m c h addr s))"
  by (simp add: AddExternalProxy_def pool_wf_def signal_def Let_def split: sum.split prod.split)

lemma wf_room: "pool_wf s \<Longrightarrow> pool_wf (snd (make_room s))"
  by (simp add: make_room_def pool_wf_def split: option.split)

lemma wf_force: "pool_wf s \<Longrightarrow> pool_wf (snd (ForceRotate e s))"
  using wf_create [OF wf_room, of s e]
  by (cases "createProxy e (snd (make_room s))") (simp add: ForceRotate_def split: sum.split option.split)

lemma wf_health: "pool_wf s \<Longrightarrow> pool_wf (snd (health_update now i h s))"
  by (auto simp: health_update_def pool_wf_def signal_def Let_def dest!: pool_find_Some split: option.split)

lemma wf_check_each: "pool_wf s \<Longrightarrow> pool_wf (snd (check_each cs d s))"
proof (induction cs d s rule: check_each.induct)
  case (1 drift s)
  then show ?case by simp
next
  case (2 i now healthy found rest drift s)
  define s1 where "s1 = (case found of None \<Rightarrow> s
      | Some ip \<Rightarrow> s\<lparr> pm_pool := pool_update i (\<lambda>p. p\<lparr> px_ip := ip \<rparr>) (pm_pool s) \<rparr>)"
  obtain d s2 where h: "health_update now i healthy s1 = (d, s2)" by fastforce
  have "pool_wf s1" using 2(2) by (simp add: s1_def pool_wf_def split: option.split)
  then have "pool_wf s2" using wf_health [of s1 now i healthy] h by simp
  then show ?case using 2(1) [OF s1_def h [symmetric] refl] h by (simp add: s1_def [symmetric] Let_def)
qed

lemma ids_restore:
  "ids (fst (snd (restore_visit now cd over ps bans))) = ids ps"
  by (induction ps arbitrary: bans) (auto simp: case_prod_beta Let_def)

lemma wf_restore: "pool_wf s \<Longrightarrow> pool_wf (restoreCooldownProxies now s)"
  by (simp add: restoreCooldownProxies_def case_prod_beta Let_def)
    (intro impI conjI wf_remove_all; simp add: pool_wf_def ids_restore signal_def)

lemma wf_exec: "pool_wf s \<Longrightarrow> pool_wf (pool_exec op s)"
proof (cases op)
  case (P_limited now now2 p ra)
  moreover assume "pool_wf s"
  ultimately show ?thesis by (simp add: MarkRateLimited_def wf_ensure wf_mark_limited)
next
  case (P_unhealthy now po)
  moreover assume "pool_wf s"
  ultimately show ?thesis
    by (auto simp: MarkUnhealthy_def pool_wf_def split: option.split intro!: wf_ensure [unfolded pool_wf_def])
next
  case (P_check now c)
  moreover assume "pool_wf s"
  ultimately show ?thesis by (auto simp: checkAllProxies_def case_prod_beta wf_check_each intro!: wf_ensure)
next
  case (P_cooldown now now2)
  moreover assume "pool_wf s"
  ultimately show ?thesis by (simp add: cooldown_tick_def wf_ensure wf_restore)
next
  case (P_visit i now healthy found)
  moreover assume "pool_wf s"
  ultimately show ?thesis by (simp only: pool_exec.simps wf_check_each)
next
  case (P_spawned e)
  moreover assume "pool_wf s"
  ultimately show ?thesis
    using wf_prune [OF wf_create, of s e] by (auto simp: spawn_task_def spawnDone_def pool_wf_def)
next
  case (P_admit p)
  moreover assume "pool_wf s"
  ultimately show ?thesis by (simp add: wf_admit)
next
  case (P_resize now n)
  moreover assume "pool_wf s"
  ultimately have "pool_wf (s\<lparr> pm_cfg := (pm_cfg s)\<lparr> ProxyPoolSize := n \<rparr> \<rparr>)" by (simp add: pool_wf_def)
  from wf_ensure [OF this, of now] P_resize show ?thesis by (simp add: SetPoolSize_def)
qed (simp_all add: wf_acquire wf_sticky wf_ensure wf_create wf_turn wf_prune wf_external wf_remove
    wf_force, simp_all add: pool_wf_def ReleaseProxy_def signal_def bannedRegions_def keep_duplicate_def
    spawnDone_def Let_def)

interpretation pl: invariant_ops pool_exec pool_wf
  by unfold_locales (rule wf_exec)

lemma count_states:
  "count_state StateIdle ps + count_state StateActive ps + count_state StateCooldown ps
     + count_state StateUnhealthy ps = int (length ps)"
proof (induction ps)
  case Nil
  then show ?case by (simp add: count_state_def)
next
  case (Cons p ps)
  then show ?case by (cases "px_state p") (simp_all add: count_state_def)
qed

text \<open>
  The pool stays a map with a sound account of itself. After any sequence of operations and of
  interleaved critical sections of creations, no two proxies share an id, the count of spawns in
  flight is not negative, and the statistics are a partition: idle, active, cooldown and
  unhealthy proxies add up to the total.
\<close>

theorem pool_always_wellformed:
  "let s = fold pool_exec ops (NewPoolManagerWithManager has_mgr cfg)
   in distinct (ids (pm_pool s)) \<and> 0 \<le> pm_spawning s
     \<and> ps_idle (Stats s) + ps_active (Stats s) + ps_cooldown (Stats s) + ps_unhealthy (Stats s)
         = ps_total (Stats s)"
proof -
  have "pool_wf (NewPoolManagerWithManager has_mgr cfg)"
    by (simp add: pool_wf_def NewPoolManagerWithManager_def)
  from pl.run_inv [OF this, of ops] show ?thesis
    by (simp add: Let_def pool_wf_def Stats_def count_states)
qed

section \<open>Selection\<close>

lemma sort_candidates_perm:
  assumes "mset ps = mset qs" "distinct (ids ps)"
  shows "sort_candidates ps = sort_candidates qs"
  unfolding sort_candidates_def
proof (rule sort_key_inj_key_eq)
  show "mset ps = mset (sort_key (\<lambda>p. (px_created p, px_id p)) qs)" using assms(1) by simp
  show "inj_on (\<lambda>p. (px_created p, px_id p)) (set ps)"
    using assms(2) by (auto simp: ids_def distinct_map inj_on_def)
  show "sorted (map (\<lambda>p. (px_created p, px_id p)) (sort_key (\<lambda>p. (px_created p, px_id p)) qs))" by simp
qed

lemma distinct_filter_ids: "distinct (ids ps) \<Longrightarrow> distinct (ids (filter P ps))"
  by (simp add: ids_def distinct_map_filter)

lemma mset_update_eq: "mset ps = mset qs \<Longrightarrow> mset (pool_update i f ps) = mset (pool_update i f qs)"
  by (simp add: pool_update_def)

text \<open>
  The choice of a proxy does not depend on Go's random map order. Two pools that hold the same
  proxies in different orders, with the same bans and round-robin counter, hand out the same
  proxy, and are again equal up to order afterwards.
\<close>

theorem selection_order_independent:
  assumes "mset (pm_pool s) = mset ps" "distinct (ids (pm_pool s))"
  shows "fst (try_acquire now nu conv s) = fst (try_acquire now nu conv (s\<lparr> pm_pool := ps \<rparr>))
    \<and> mset (pm_pool (snd (try_acquire now nu conv s)))
      = mset (pm_pool (snd (try_acquire now nu conv (s\<lparr> pm_pool := ps \<rparr>))))"
proof -
  let ?P = "\<lambda>p. IsAvailable p \<and> \<not> banned (pm_ip_bans s) now (px_ip p)"
  define cs ds where "cs = filter ?P (pm_pool s)" and "ds = filter ?P ps"
  have m: "mset cs = mset ds" using assms(1) by (simp add: cs_def ds_def)
  have so: "sort_candidates cs = sort_candidates ds"
    using sort_candidates_perm [OF m] distinct_filter_ids [OF assms(2)] by (simp add: cs_def)
  have l: "length cs = length ds" using m by (metis size_mset)
  have c: "fst (candidates now (pm_pool s) (pm_ip_bans s)) = cs" "fst (candidates now ps (pm_ip_bans s)) = ds"
    by (simp_all add: candidates_fst cs_def ds_def)
  show ?thesis
  proof (cases "ds = []")
    case True
    with l have "cs = []" by simp
    with True c assms(1) show ?thesis by (simp add: try_acquire_def case_prod_beta)
  next
    case False
    with l have "cs \<noteq> []" by auto
    with False c show ?thesis
      by (simp add: try_acquire_def case_prod_beta Let_def so l mset_update_eq [OF assms(1)])
  qed
qed

section \<open>Fairness\<close>

text \<open>Requests served one after the other: each acquires a proxy and releases it.\<close>

fun serve :: "(time \<times> time) list \<Rightarrow> pool \<Rightarrow> string list" where
  "serve [] s = []"
| "serve ((now, nu) # turns) s =
     (case try_acquire now nu [] s of
        (None, s) \<Rightarrow> serve turns s
      | (Some p, s) \<Rightarrow> px_id p # serve turns (ReleaseProxy (px_id p) s))"

text \<open>What the selection looks at.\<close>

definition face :: "proxy \<Rightarrow> time \<times> string \<times> proxy_state \<times> string" where
  "face p = (px_created p, px_id p, px_state p, px_ip p)"

definition order_of :: "proxy list \<Rightarrow> string list" where
  "order_of ps = ids (sort_candidates (filter IsAvailable ps))"

lemma face_insort:
  "map face (insort_key (\<lambda>p. (px_created p, px_id p)) p ps)
     = insort_key (\<lambda>v. (fst v, fst (snd v))) (face p) (map face ps)"
  by (induction ps) (simp_all add: face_def)

lemma face_sort:
  "map face (sort_candidates ps) = sort_key (\<lambda>v. (fst v, fst (snd v))) (map face ps)"
  unfolding sort_candidates_def by (induction ps) (simp_all add: face_insort)

lemma order_of_face:
  assumes "map face ps = map face qs"
  shows "order_of ps = order_of qs"
proof -
  have "map face (filter IsAvailable ps) = map face (filter IsAvailable qs)"
    using assms by (induction ps qs rule: list_induct2') (auto simp: face_def IsAvailable_def)
  then have "map face (sort_candidates (filter IsAvailable ps)) = map face (sort_candidates (filter IsAvailable qs))"
    by (simp add: face_sort)
  then have "map (fst \<circ> snd) (map face (sort_candidates (filter IsAvailable ps)))
      = map (fst \<circ> snd) (map face (sort_candidates (filter IsAvailable qs)))" by simp
  then show ?thesis by (simp add: order_of_def ids_def face_def comp_def)
qed

lemma banned_candidates: "banned (snd (candidates now ps bans)) t ip \<Longrightarrow> banned bans t ip"
proof (induction ps arbitrary: bans)
  case Nil
  then show ?case by simp
next
  case (Cons p ps)
  have "banned (snd (ipBannedLocked i now bs)) t ip \<Longrightarrow> banned bs t ip" for i bs
    by (auto simp: ipBannedLocked_def banned_def split: option.splits if_splits)
  note step = this
  show ?case
  proof (cases "IsAvailable p")
    case True
    with Cons.prems have "banned (snd (candidates now ps (snd (ipBannedLocked (px_ip p) now bans)))) t ip"
      by (simp add: case_prod_beta Let_def)
    from step [OF Cons.IH [OF this]] show ?thesis .
  next
    case False
    with Cons.prems have "banned (snd (candidates now ps bans)) t ip" by simp
    from Cons.IH [OF this] show ?thesis .
  qed
qed

lemma no_ban_candidates:
  assumes "\<forall>p \<in> set (pm_pool s). \<not> banned (pm_ip_bans s) now (px_ip p)"
  shows "fst (candidates now (pm_pool s) (pm_ip_bans s)) = filter IsAvailable (pm_pool s)"
  using assms by (auto simp: candidates_fst intro: filter_cong)

text \<open>One request on a pool without banned proxies, and what the next one finds.\<close>

lemma serve_step:
  assumes nb: "\<forall>p \<in> set (pm_pool s). \<not> banned (pm_ip_bans s) now (px_ip p)"
    and d: "distinct (ids (pm_pool s))" and ne: "order_of (pm_pool s) \<noteq> []"
  obtains q t u where "try_acquire now nu [] s = (Some q, t)" "ReleaseProxy (px_id q) t = u"
    "px_id q = order_of (pm_pool s) ! (pm_rr s mod length (order_of (pm_pool s)))"
    "map face (pm_pool u) = map face (pm_pool s)" "pm_rr u = pm_rr s + 1"
    "\<And>t ip. banned (pm_ip_bans u) t ip \<Longrightarrow> banned (pm_ip_bans s) t ip"
proof -
  define cs where "cs = filter IsAvailable (pm_pool s)"
  define k where "k = pm_rr s mod length cs"
  define p where "p = sort_candidates cs ! k"
  have len: "length (sort_candidates cs) = length cs" by (simp add: sort_candidates_def)
  then have o: "order_of (pm_pool s) = ids (sort_candidates cs)" "length (order_of (pm_pool s)) = length cs"
    by (simp_all add: order_of_def cs_def ids_def)
  with ne have "cs \<noteq> []" by auto
  then have k: "k < length cs" by (simp add: k_def)
  then have "p \<in> set (sort_candidates cs)" using nth_mem len by (simp add: p_def)
  then have p: "p \<in> set (pm_pool s)" "px_state p = StateIdle"
    by (auto simp: sort_candidates_def cs_def IsAvailable_def)
  have uniq: "q = p" if "q \<in> set (pm_pool s)" "px_id q = px_id p" for q
    using d p(1) that by (auto simp: ids_def distinct_map inj_on_def)
  obtain t where t: "try_acquire now nu [] s =
      (Some (p\<lparr> px_state := StateActive, px_last_used := nu, px_requests := px_requests p + 1 \<rparr>), t)"
    and tp: "pm_pool t = pool_update (px_id p) (\<lambda>p. p\<lparr> px_state := StateActive, px_last_used := nu,
        px_requests := px_requests p + 1 \<rparr>) (pm_pool s)"
    and tr: "pm_rr t = pm_rr s + 1" and tb: "pm_ip_bans t = snd (candidates now (pm_pool s) (pm_ip_bans s))"
    using \<open>cs \<noteq> []\<close> no_ban_candidates [OF nb]
    by (simp add: try_acquire_def case_prod_beta Let_def cs_def p_def k_def)
  show ?thesis
  proof (rule that [OF t refl])
    show "px_id (p\<lparr> px_state := StateActive, px_last_used := nu, px_requests := px_requests p + 1 \<rparr>)
        = order_of (pm_pool s) ! (pm_rr s mod length (order_of (pm_pool s)))"
      using k len by (simp add: o p_def k_def [symmetric] ids_def)
    have "map face (pm_pool (ReleaseProxy (px_id p) t)) = map face (pm_pool s)"
      by (auto simp: ReleaseProxy_def signal_def tp pool_update_def face_def p(2) dest: uniq)
    then show "map face (pm_pool (ReleaseProxy (px_id (p\<lparr> px_state := StateActive, px_last_used := nu,
        px_requests := px_requests p + 1 \<rparr>)) t)) = map face (pm_pool s)" by simp
    show "banned (pm_ip_bans s) t' ip" if "banned (pm_ip_bans (ReleaseProxy (px_id (p\<lparr> px_state := StateActive,
        px_last_used := nu, px_requests := px_requests p + 1 \<rparr>)) t)) t' ip" for t' ip
      using that banned_candidates [of now "pm_pool s" "pm_ip_bans s" t' ip]
      by (simp add: ReleaseProxy_def signal_def tb)
  qed (simp add: ReleaseProxy_def signal_def tr)
qed

lemma ids_face: "map face ps = map face qs \<Longrightarrow> ids ps = ids qs"
  by (drule arg_cong [of _ _ "map (fst \<circ> snd)"]) (simp add: ids_def face_def comp_def)

lemma ips_face: "map face ps = map face qs \<Longrightarrow> px_ip ` set ps = px_ip ` set qs"
  by (drule arg_cong [of _ _ "map (snd \<circ> snd \<circ> snd)"], drule arg_cong [of _ _ set])
    (simp add: face_def comp_def)

lemma serve_rotates:
  assumes "\<forall>(now, nu) \<in> set turns. \<forall>p \<in> set (pm_pool s). \<not> banned (pm_ip_bans s) now (px_ip p)"
    and "distinct (ids (pm_pool s))" "order_of (pm_pool s) \<noteq> []"
  shows "serve turns s = map (\<lambda>j. order_of (pm_pool s) ! ((pm_rr s + j) mod length (order_of (pm_pool s))))
    [0..<length turns]"
  using assms
proof (induction turns arbitrary: s)
  case Nil
  then show ?case by simp
next
  case (Cons turn turns)
  obtain now nu where turn: "turn = (now, nu)" by fastforce
  with Cons.prems have nb: "\<forall>p \<in> set (pm_pool s). \<not> banned (pm_ip_bans s) now (px_ip p)" by simp
  obtain q t u where st: "try_acquire now nu [] s = (Some q, t)" "ReleaseProxy (px_id q) t = u"
    "px_id q = order_of (pm_pool s) ! (pm_rr s mod length (order_of (pm_pool s)))"
    "map face (pm_pool u) = map face (pm_pool s)" "pm_rr u = pm_rr s + 1"
    "\<And>t ip. banned (pm_ip_bans u) t ip \<Longrightarrow> banned (pm_ip_bans s) t ip"
    by (rule serve_step [OF nb Cons.prems(2,3), of nu]) (rule that)
  have ou: "order_of (pm_pool u) = order_of (pm_pool s)" by (rule order_of_face [OF st(4)])
  have "\<not> banned (pm_ip_bans u) now' (px_ip p)" if "(now', nu') \<in> set turns" "p \<in> set (pm_pool u)" for now' nu' p
  proof -
    have "px_ip p \<in> px_ip ` set (pm_pool s)" using that(2) by (simp add: ips_face [OF st(4), symmetric])
    then obtain r where r: "r \<in> set (pm_pool s)" "px_ip r = px_ip p" by auto
    moreover have "\<forall>p \<in> set (pm_pool s). \<not> banned (pm_ip_bans s) now' (px_ip p)"
      using bspec [OF Cons.prems(1), of "(now', nu')"] that(1) by simp
    ultimately have "\<not> banned (pm_ip_bans s) now' (px_ip r)" by blast
    with st(6) [of now' "px_ip p"] r(2) show ?thesis by auto
  qed
  then have "\<forall>(now, nu) \<in> set turns. \<forall>p \<in> set (pm_pool u). \<not> banned (pm_ip_bans u) now (px_ip p)"
    by blast
  with Cons.IH [of u] Cons.prems(2,3) ids_face [OF st(4)]
  have "serve turns u = map (\<lambda>j. order_of (pm_pool s) ! ((pm_rr s + Suc j) mod length (order_of (pm_pool s))))
      [0..<length turns]" by (simp add: ou st(5))
  moreover have "serve (turn # turns) s = px_id q # serve turns u" using st(1,2) by (simp add: turn)
  moreover have "map f [0..<length (turn # turns)] = f 0 # map (\<lambda>j. f (Suc j)) [0..<length turns]"
    for f :: "nat \<Rightarrow> string"
    by (simp only: list.size(4) add_0_right One_nat_def add_Suc_right map_upt_Suc)
  ultimately show ?case by (simp only: st(3) add_0_right)
qed

lemma one_round:
  assumes "xs \<noteq> []"
  shows "mset (map (\<lambda>j. xs ! ((r + j) mod length xs)) [0..<length xs]) = mset xs"
proof -
  have "map (\<lambda>j. xs ! ((r + j) mod length xs)) [0..<length xs] = rotate r xs"
    using assms by (intro nth_equalityI) (simp_all add: nth_rotate)
  moreover have "mset (rotate r xs) = mset xs"
    by (simp add: rotate_drop_take) (metis append_take_drop_id mset_append union_commute)
  ultimately show ?thesis by simp
qed

lemma rounds:
  assumes "xs \<noteq> []"
  shows "mset (map (\<lambda>j. xs ! ((r + j) mod length xs)) [0..<k * length xs]) = repeat_mset k (mset xs)"
proof (induction k)
  case 0
  then show ?case by simp
next
  case (Suc k)
  have "[0..<Suc k * length xs] = [0..<k * length xs] @ map (\<lambda>j. j + k * length xs) [0..<length xs]"
    using upt_add_eq_append [of 0 "k * length xs" "length xs"] by (simp add: map_add_upt add.commute)
  then show ?case using Suc one_round [OF assms, of r]
    by (simp only: map_append mset_append map_map comp_def add.assoc [symmetric] mod_mult_self1)
      (simp add: add.commute)
qed

lemma order_of_ids: "mset (order_of ps) = mset (ids (filter IsAvailable ps))"
  by (simp add: order_of_def ids_def sort_candidates_def)

text \<open>
  C15: Requests are spread evenly. While no address of the pool is banned, \<open>k * n\<close> requests that each
  return their proxy before the next one starts use every one of the \<open>n\<close> idle proxies exactly \<open>k\<close>
  times, wherever the round-robin counter stands and however the map is iterated.
\<close>

theorem round_robin_fair:
  assumes "\<forall>(now, nu) \<in> set turns. \<forall>p \<in> set (pm_pool s). \<not> banned (pm_ip_bans s) now (px_ip p)"
    and "distinct (ids (pm_pool s))"
    and "length turns = k * length (filter IsAvailable (pm_pool s))"
    and "p \<in> set (pm_pool s)" "IsAvailable p"
  shows "count_list (serve turns s) (px_id p) = k"
proof -
  let ?o = "order_of (pm_pool s)"
  have m: "mset ?o = mset (ids (filter IsAvailable (pm_pool s)))" by (rule order_of_ids)
  then have l: "length ?o = length (filter IsAvailable (pm_pool s))"
    by (metis size_mset ids_def length_map)
  have "set ?o = set (ids (filter IsAvailable (pm_pool s)))" by (rule mset_eq_setD [OF m])
  then have "px_id p \<in> set ?o" using assms(4,5) by (auto simp: ids_def)
  then have ne: "?o \<noteq> []" by auto
  have "distinct ?o" using m distinct_filter_ids [OF assms(2)] by (metis mset_eq_imp_distinct_iff)
  then have one: "count (mset ?o) (px_id p) = 1"
    using \<open>px_id p \<in> set ?o\<close> by (simp add: distinct_count_atmost_1)
  have "mset (serve turns s) = repeat_mset k (mset ?o)"
    using serve_rotates [OF assms(1,2) ne] rounds [OF ne, of "pm_rr s" k] assms(3) by (simp add: l)
  then show ?thesis using one by (metis count_mset count_repeat_mset mult.right_neutral)
qed

theorem round_robin_fair_witness:
  "count_list (serve [(1, 1), (2, 2), (3, 3), (4, 4), (5, 5), (6, 6)] demo_pool) ''b'' = 2"
proof -
  have b: "pm_ip_bans demo_pool = Map.empty"
    by (simp add: demo_pool_def NewPoolManagerWithManager_def)
  have p: "pm_pool demo_pool = [demo_proxy ''a'' ''10.0.0.1'', demo_proxy ''b'' ''10.0.0.2'', demo_proxy ''c'' ''10.0.0.1'']"
    by (simp add: demo_pool_def)
  have "px_id (demo_proxy ''b'' ''10.0.0.2'') = ''b''" by (simp add: demo_proxy_def)
  with round_robin_fair [of "[(1, 1), (2, 2), (3, 3), (4, 4), (5, 5), (6, 6)]" demo_pool 2 "demo_proxy ''b'' ''10.0.0.2''"]
  show ?thesis by (simp add: b p banned_def demo_proxy_def IsAvailable_def ids_def del: serve.simps)
qed

theorem selection_order_independent_witness:
  "fst (try_acquire 1 2 [] demo_pool) = fst (try_acquire 1 2 [] (demo_pool\<lparr> pm_pool := rev (pm_pool demo_pool) \<rparr>))"
proof -
  have "distinct (ids (pm_pool demo_pool))" by (simp add: demo_pool_def demo_proxy_def ids_def)
  with selection_order_independent [of demo_pool "rev (pm_pool demo_pool)" 1 2 "[]"] show ?thesis by simp
qed

end
