(* ===== verification/Pool_Lease.thy ===== *)
theory Pool_Lease
  imports Pool_Laws
begin

text \<open>
  Leases, spawning, the rotation of duplicate addresses, and what the housekeeping of the pool
  really keeps: exact results where the code has them, and the places where a proxy comes back
  into rotation, or leaves it, against the code's own comments.
\<close>

section \<open>Spawning\<close>

definition usable :: "time \<Rightarrow> pool \<Rightarrow> int" where
  "usable now s = fst (usable_count now (pm_pool s) (pm_ip_bans s))"

lemma usable_count_fst:
  "fst (usable_count now ps bans) =
     int (length (filter (\<lambda>p. IsHealthy p \<and> \<not> banned bans now (px_ip p)) ps))"
proof (induction ps arbitrary: bans)
  case Nil
  then show ?case by simp
next
  case (Cons p ps)
  have "banned (snd (ipBannedLocked (px_ip p) now bans)) now = banned bans now" by simp
  with Cons [of bans] Cons [of "snd (ipBannedLocked (px_ip p) now bans)"] show ?case
    by (simp add: case_prod_beta Let_def)
qed

lemma usable_count_bans: "banned (snd (usable_count now ps bans)) now = banned bans now"
  by (induction ps arbitrary: bans) (simp_all add: case_prod_beta Let_def)

lemma usable_again:
  "usable now (snd (plan_spawn now s)) = usable now s"
  by (simp add: usable_def plan_spawn_def case_prod_beta Let_def usable_count_fst usable_count_bans)

text \<open>
  C12: Replacements are counted exactly and never twice. \<open>ensurePoolCapacity\<close> starts as many creations
  as bring the usable proxies and the spawns in flight up to the configured size and none beyond
  it; a second call before anything else happens starts none.
\<close>

theorem spawn_exact:
  assumes "pm_has_mgr s" "ensurePoolCapacity now s = (n, t)"
  shows "int n = max 0 (ProxyPoolSize (pm_cfg s) - usable now s - pm_spawning s)
    \<and> usable now s + pm_spawning t = max (ProxyPoolSize (pm_cfg s)) (usable now s + pm_spawning s)
    \<and> (0 < n \<longrightarrow> fst (ensurePoolCapacity now t) = 0)"
proof -
  define k where "k = fst (plan_spawn now s)"
  define u where "u = snd (plan_spawn now s)"
  have k: "k = max 0 (ProxyPoolSize (pm_cfg s) - usable now s - pm_spawning s)"
    by (simp add: k_def plan_spawn_def usable_def case_prod_beta Let_def)
  have u: "pm_spawning u = pm_spawning s + k" "pm_cfg u = pm_cfg s" "pm_has_mgr u = pm_has_mgr s"
    by (auto simp: u_def k_def plan_spawn_def case_prod_beta Let_def)
  have uu: "usable now u = usable now s" by (simp add: u_def usable_again)
  have e: "ensurePoolCapacity now s = (if k \<le> 0 then (0, pruneDeadProxies u) else (nat k, u))"
    using assms(1) u(3) by (simp add: ensurePoolCapacity_def case_prod_beta k_def u_def)
  have k2: "fst (plan_spawn now u) = max 0 (ProxyPoolSize (pm_cfg s) - usable now s - (pm_spawning s + k))"
    by (simp add: plan_spawn_def case_prod_beta Let_def usable_def [symmetric] uu u)
  show ?thesis
  proof (cases "k \<le> 0")
    case True
    then have "n = 0" "t = pruneDeadProxies u" using e assms(2) by simp_all
    with True k u show ?thesis by (simp add: frame_simps)
  next
    case False
    then have nt: "n = nat k" "t = u" using e assms(2) by simp_all
    have "fst (plan_spawn now u) \<le> 0" using k2 k False by simp
    then have "fst (ensurePoolCapacity now u) = 0" by (simp add: ensurePoolCapacity_def case_prod_beta)
    with nt False k u show ?thesis by simp
  qed
qed

definition demo_usable :: pool where
  "demo_usable = demo_pool\<lparr> pm_cfg := (pm_cfg demo_pool)\<lparr> ProxyPoolSize := 5 \<rparr>, pm_spawning := 1 \<rparr>"

theorem spawn_exact_witness:
  "fst (ensurePoolCapacity 7 demo_usable) = 1
    \<and> fst (ensurePoolCapacity 7 (snd (ensurePoolCapacity 7 demo_usable))) = 0"
proof -
  have m: "pm_has_mgr demo_usable" and c: "ProxyPoolSize (pm_cfg demo_usable) = 5" "pm_spawning demo_usable = 1"
    by (simp_all add: demo_usable_def demo_pool_def NewPoolManagerWithManager_def)
  have u: "usable 7 demo_usable = 3"
    by (simp add: usable_def usable_count_fst demo_usable_def demo_pool_def NewPoolManagerWithManager_def
        demo_proxy_def IsHealthy_def banned_def del: usable_count.simps)
  from spawn_exact [OF m prod.collapse [symmetric], of 7] show ?thesis by (simp add: c u)
qed

section \<open>Unique egress addresses\<close>

lemma dup_insert:
  "duplicateIPLocked p (pool_insert p ps) = duplicateIPLocked p ps"
  by (auto simp: duplicateIPLocked_def pool_insert_def pool_delete_def list_ex_iff)

lemma rotate_loop_result:
  "rotate_loop e left p k s = (Inr q, k', t) \<Longrightarrow>
     q \<in> set (pm_pool t) \<and> k \<le> k' \<and> k' \<le> k + left
       \<and> (\<not> duplicateIPLocked q (pm_pool t) \<or> k' = k + left)"
proof (induction left arbitrary: p k s)
  case 0
  then show ?case
    by (auto simp: rotate_loop.simps [of e 0] insert_turn_def keep_duplicate_def Let_def pool_insert_def
        split: if_splits)
next
  case (Suc left)
  obtain b s2 where i: "insert_turn p s = (b, s2)" by fastforce
  obtain c s3 where c: "create_call e k s2 = (c, s3)" by fastforce
  show ?case
  proof (cases b)
    case True
    then have "\<not> duplicateIPLocked p (pm_pool s2)" "p \<in> set (pm_pool s2)"
      using i by (auto simp: insert_turn_def Let_def pool_insert_def split: if_splits)
    moreover have "q = p" "k' = k" "t = s2" using Suc.prems i True by (simp_all add: rotate_loop.simps [of e "Suc left"])
    ultimately show ?thesis by simp
  next
    case False
    with Suc.prems i c have "(case c of Inl err \<Rightarrow> (Inl err, Suc k, s3)
        | Inr np \<Rightarrow> rotate_loop e left np (Suc k) s3) = (Inr q, k', t)"
      by (simp add: rotate_loop.simps [of e "Suc left"] split: sum.splits)
    then obtain np where "rotate_loop e left np (Suc k) s3 = (Inr q, k', t)" by (auto split: sum.splits)
    from Suc.IH [OF this] show ?thesis by auto
  qed
qed

text \<open>
  C18: Duplicate egress addresses are rotated away within the configured budget. When
  \<open>rotateUntilUniqueIP\<close> succeeds the proxy it returns is in the pool, at most
  \<open>max 1 ProxyIPRotateAttempts - 1\<close> further containers were created, and the address is shared
  with no other live proxy unless that whole budget was spent.
\<close>

theorem rotation_unique_or_exhausted:
  assumes "rotateUntilUniqueIP e p k s = (Inr q, k', t)"
  shows "q \<in> set (pm_pool t) \<and> int k' \<le> int k + max 1 (ProxyIPRotateAttempts (pm_cfg s)) - 1
    \<and> (\<not> duplicateIPLocked q (pm_pool t)
         \<or> int k' = int k + max 1 (ProxyIPRotateAttempts (pm_cfg s)) - 1)"
proof -
  define left where "left = nat (max 1 (ProxyIPRotateAttempts (pm_cfg s)) - 1)"
  have "rotate_loop e left p k s = (Inr q, k', t)"
    using assms by (simp add: rotateUntilUniqueIP_def Let_def left_def max_def split: if_splits)
  from rotate_loop_result [OF this] show ?thesis by (auto simp: left_def)
qed

section \<open>Leases\<close>

text \<open>
  While a proxy is leased, a row with its id is never idle. Operations may drop that row, and
  they may create proxies of other ids; a row of the id that was not there before they do not make.
\<close>

definition not_idle :: "string \<Rightarrow> proxy list \<Rightarrow> bool" where
  "not_idle i ps \<longleftrightarrow> (\<forall>p \<in> set ps. px_id p = i \<longrightarrow> \<not> IsAvailable p)"

definition all_active :: "string \<Rightarrow> proxy list \<Rightarrow> bool" where
  "all_active i ps \<longleftrightarrow> (\<forall>p \<in> set ps. px_id p = i \<longrightarrow> px_state p = StateActive)"

definition no_new :: "string \<Rightarrow> pool \<Rightarrow> pool \<Rightarrow> bool" where
  "no_new i s t \<longleftrightarrow> (\<forall>p \<in> set (pm_pool t). px_id p = i \<longrightarrow> p \<in> set (pm_pool s))"

definition creates_other :: "string \<Rightarrow> create_env \<Rightarrow> bool" where
  "creates_other i e \<longleftrightarrow> (\<forall>k regions servers. case cr_create e k regions servers of Inl _ \<Rightarrow> True | Inr p \<Rightarrow> px_id p \<noteq> i)"

text \<open>Operations under which a row of the id is left as it is, whatever the rest of the pool does.\<close>

fun spares :: "string \<Rightarrow> pool_op \<Rightarrow> bool" where
  "spares i (P_sticky now conv) = True"
| "spares i (P_ensure now) = True"
| "spares i (P_create e) = creates_other i e"
| "spares i (P_spawned e) = creates_other i e"
| "spares i (P_regions now) = True"
| "spares i (P_turn p) = (px_id p \<noteq> i)"
| "spares i (P_keep p) = (px_id p \<noteq> i)"
| "spares i (P_admit p) = (px_id p \<noteq> i)"
| "spares i P_prune = True"
| "spares i P_spawn_done = True"
| "spares i (P_external m created h addr) = (case created of Inl _ \<Rightarrow> True | Inr p \<Rightarrow> px_id p \<noteq> i)"
| "spares i (P_remove j) = True"
| "spares i (P_resize now n) = True"
| "spares i (P_rotate e) = creates_other i e"
| "spares i _ = False"

lemma no_new_refl: "no_new i s s"
  by (simp add: no_new_def)

lemma no_new_trans: "no_new i s t \<Longrightarrow> no_new i t u \<Longrightarrow> no_new i s u"
  by (auto simp: no_new_def)

lemma no_new_subset: "set (pm_pool t) \<subseteq> set (pm_pool s) \<Longrightarrow> no_new i s t"
  by (auto simp: no_new_def)

lemma prune_pool_subset: "set (pm_pool (pruneDeadProxies s)) \<subseteq> set (pm_pool s)"
  by (auto simp: pruneDeadProxies_def remove_all_pool)

lemma ensure_pool_subset: "set (pm_pool (snd (ensurePoolCapacity now s))) \<subseteq> set (pm_pool s)"
proof -
  have "pm_pool (snd (plan_spawn now s)) = pm_pool s"
    by (simp add: plan_spawn_def case_prod_beta Let_def)
  then show ?thesis using prune_pool_subset [of "snd (plan_spawn now s)"]
    by (auto simp: ensurePoolCapacity_def case_prod_beta split: if_splits)
qed

lemma sticky_pool: "pm_pool (snd (sticky_lookup now conv s)) = pm_pool s"
  by (simp add: sticky_lookup_def ipBanned_def case_prod_beta Let_def split: option.split)

lemma no_new_turn: "insert_turn p s = (b, t) \<Longrightarrow> px_id p \<noteq> i \<Longrightarrow> no_new i s t"
  by (auto simp: insert_turn_def no_new_def Let_def pool_insert_def pool_delete_def split: if_splits)

lemma no_new_keep: "px_id p \<noteq> i \<Longrightarrow> no_new i s (keep_duplicate p s)"
  by (auto simp: keep_duplicate_def no_new_def pool_insert_def pool_delete_def)

lemma no_new_call: "create_call e k s = (r, t) \<Longrightarrow> no_new i s t"
  using create_call_frame(4) [of e k s] by (simp add: no_new_def)

lemma create_call_other: "creates_other i e \<Longrightarrow> create_call e k s = (Inr p, t) \<Longrightarrow> px_id p \<noteq> i"
  by (auto simp: create_call_def case_prod_beta creates_other_def split: sum.splits)

lemma no_new_admit: "admit p s = (q, t) \<Longrightarrow> px_id p \<noteq> i \<Longrightarrow> no_new i s t"
  by (auto simp: admit_def signal_def Let_def no_new_def set_update SetManager_def split: if_splits)

lemma rotate_loop_no_new:
  "creates_other i e \<Longrightarrow> px_id p \<noteq> i \<Longrightarrow> rotate_loop e left p k s = (r, k', t) \<Longrightarrow>
     no_new i s t \<and> (\<forall>q. r = Inr q \<longrightarrow> px_id q \<noteq> i)"
proof (induction left arbitrary: p k s)
  case 0
  obtain b s2 where i: "insert_turn p s = (b, s2)" by fastforce
  note f = no_new_turn [OF i 0(2)] no_new_keep [OF 0(2), of s2]
  show ?case
    using 0 i f no_new_trans [OF f] by (cases b) (auto simp: rotate_loop.simps [of e 0])
next
  case (Suc left)
  obtain b s2 where i: "insert_turn p s = (b, s2)" by fastforce
  obtain c s3 where c: "create_call e k s2 = (c, s3)" by fastforce
  have f: "no_new i s s2" "no_new i s s3"
    using no_new_turn [OF i Suc.prems(2)] no_new_call [OF c] by (auto intro: no_new_trans)
  show ?case
  proof (cases b)
    case True
    with Suc.prems i f show ?thesis by (auto simp: rotate_loop.simps [of e "Suc left"])
  next
    case False
    with Suc.prems i c have l: "(case c of Inl err \<Rightarrow> (Inl err, Suc k, s3)
        | Inr np \<Rightarrow> rotate_loop e left np (Suc k) s3) = (r, k', t)"
      by (simp add: rotate_loop.simps [of e "Suc left"] split: sum.splits)
    show ?thesis
    proof (cases c)
      case (Inl x)
      with l f show ?thesis by auto
    next
      case (Inr np)
      with l have "rotate_loop e left np (Suc k) s3 = (r, k', t)" by simp
      from Suc.IH [OF Suc.prems(1) create_call_other [OF Suc.prems(1) c [unfolded Inr]] this] f
      show ?thesis by (auto intro: no_new_trans)
    qed
  qed
qed

lemma create_once_no_new:
  assumes "creates_other i e" "create_once e k s = (r, k', t)"
  shows "no_new i s t \<and> (\<forall>q. r = Inr q \<longrightarrow> px_id q \<noteq> i)"
proof -
  obtain c s2 where c: "create_call e k s = (c, s2)" by fastforce
  show ?thesis
  proof (cases c)
    case (Inl x)
    with assms c no_new_call [OF c] show ?thesis by (auto simp: create_once_def)
  next
    case (Inr p)
    with assms c have "rotateUntilUniqueIP e p (Suc k) s2 = (r, k', t)" by (simp add: create_once_def)
    then obtain left where "rotate_loop e left p (Suc k) s2 = (r, k', t)"
      by (simp add: rotateUntilUniqueIP_def Let_def)
    from rotate_loop_no_new [OF assms(1) create_call_other [OF assms(1) c [unfolded Inr]] this] no_new_call [OF c]
    show ?thesis by (auto intro: no_new_trans)
  qed
qed

lemma create_attempts_no_new:
  "creates_other i e \<Longrightarrow> create_attempts e left a err k s = (r, t) \<Longrightarrow> no_new i s t"
proof (induction left arbitrary: a err k s)
  case 0
  then show ?case by (simp add: create_attempts.simps no_new_refl)
next
  case (Suc left)
  obtain c k1 s1 where c: "create_once e k s = (c, k1, s1)" by (cases "create_once e k s") auto
  note f = create_once_no_new [OF Suc.prems(1) c]
  show ?case
  proof (cases "a > 1 \<and> cr_cancel e a")
    case True
    with Suc.prems show ?thesis by (simp add: create_attempts.simps no_new_refl)
  next
    case False
    with Suc.prems c have body: "(case c of Inl x \<Rightarrow> create_attempts e left (a + 1) x k1 s1
        | Inr p \<Rightarrow> (let (p, s) = admit p s1 in (Inr p, s))) = (r, t)"
      by (cases c) (simp_all only: create_attempts.simps if_False prod.case sum.case)
    show ?thesis
    proof (cases c)
      case (Inl x)
      with body Suc.prems(1) have "no_new i s1 t" by (auto intro: Suc.IH)
      with f show ?thesis by (blast intro: no_new_trans)
    next
      case (Inr p)
      obtain q u where q: "admit p s1 = (q, u)" by fastforce
      with body Inr have "u = t" by simp
      with no_new_admit [OF q] f Inr show ?thesis by (blast intro: no_new_trans)
    qed
  qed
qed

lemma createProxy_no_new: "creates_other i e \<Longrightarrow> no_new i s (snd (createProxy e s))"
  unfolding createProxy_def by (erule create_attempts_no_new) (rule prod.collapse [symmetric])

lemma ForceRotate_no_new: "creates_other i e \<Longrightarrow> no_new i s (snd (ForceRotate e s))"
proof -
  assume c: "creates_other i e"
  have "no_new i s (snd (make_room s))"
    by (rule no_new_subset) (auto simp: make_room_def pool_delete_def split: option.split)
  then have "no_new i s (snd (createProxy e (snd (make_room s))))"
    using createProxy_no_new [OF c] by (blast intro: no_new_trans)
  then show ?thesis
    by (cases "createProxy e (snd (make_room s))")
      (auto simp: ForceRotate_def no_new_refl split: sum.split option.split)
qed

lemma external_no_new:
  "(case created of Inl _ \<Rightarrow> True | Inr p \<Rightarrow> px_id p \<noteq> i) \<Longrightarrow> no_new i s (snd (AddExternalProxy m created h addr s))"
  by (auto simp: AddExternalProxy_def no_new_def signal_def SetManager_def Let_def pool_insert_def pool_delete_def
      split: sum.splits)

lemma spares_no_new: "spares i op \<Longrightarrow> no_new i s (pool_exec op s)"
proof (cases op)
  case (P_ensure now)
  then show ?thesis by (simp add: no_new_subset ensure_pool_subset)
next
  case (P_resize now n)
  then show ?thesis
    using ensure_pool_subset [of now "s\<lparr> pm_cfg := (pm_cfg s)\<lparr> ProxyPoolSize := n \<rparr> \<rparr>"]
    by (simp add: no_new_subset SetPoolSize_def)
next
  case P_prune
  then show ?thesis by (simp add: no_new_subset prune_pool_subset)
next
  case (P_remove j)
  then show ?thesis by (simp add: no_new_subset RemoveProxy_pool pool_delete_def)
next
  case (P_spawned e)
  assume "spares i op"
  with P_spawned have "no_new i s (snd (createProxy e s))" by (simp add: createProxy_no_new)
  then show ?thesis using prune_pool_subset [of "snd (createProxy e s)"]
    by (auto simp: P_spawned spawn_task_def spawnDone_def no_new_def)
qed (simp_all add: createProxy_no_new ForceRotate_no_new external_no_new no_new_keep
    no_new_turn [OF prod.collapse [symmetric]] no_new_admit [OF prod.collapse [symmetric]]
    no_new_subset sticky_pool frame_simps spawnDone_def)

text \<open>
  The operations during which a leased proxy stays leased. Either it may be reported (as
  limited or unhealthy) by a request that shares it, and then neither a health check nor the end of a cooldown
  may intervene, which would make it idle again; or it is not reported, and its health checks find
  it alive: then every operation of the pool may intervene.
\<close>

fun keeps_lease :: "string \<Rightarrow> pool_op \<Rightarrow> bool" where
  "keeps_lease i (P_acquire now nu conv) = True"
| "keeps_lease i (P_release j) = (j \<noteq> i)"
| "keeps_lease i (P_limited now now2 p ra) = True"
| "keeps_lease i (P_unhealthy now po) = True"
| "keeps_lease i (P_check now check) = False"
| "keeps_lease i (P_cooldown now now2) = False"
| "keeps_lease i (P_visit j now healthy found) = False"
| "keeps_lease i op = spares i op"

fun keeps_active :: "string \<Rightarrow> pool_op \<Rightarrow> bool" where
  "keeps_active i (P_acquire now nu conv) = True"
| "keeps_active i (P_release j) = (j \<noteq> i)"
| "keeps_active i (P_limited now now2 p ra) = (px_id p \<noteq> i)"
| "keeps_active i (P_unhealthy now po) = (case po of None \<Rightarrow> True | Some p \<Rightarrow> px_id p \<noteq> i)"
| "keeps_active i (P_check now check) = fst (snd (check i))"
| "keeps_active i (P_cooldown now now2) = True"
| "keeps_active i (P_visit j now healthy found) = (j \<noteq> i \<or> healthy)"
| "keeps_active i op = spares i op"

lemma not_idle_no_new: "no_new i s t \<Longrightarrow> not_idle i (pm_pool s) \<Longrightarrow> not_idle i (pm_pool t)"
  by (auto simp: no_new_def not_idle_def)

lemma all_active_no_new: "no_new i s t \<Longrightarrow> all_active i (pm_pool s) \<Longrightarrow> all_active i (pm_pool t)"
  by (auto simp: no_new_def all_active_def)

lemma all_active_not_idle: "all_active i ps \<Longrightarrow> not_idle i ps"
  by (auto simp: all_active_def not_idle_def IsAvailable_def)

lemma not_idle_update:
  "(\<And>p. px_id (f p) = px_id p) \<Longrightarrow> (\<And>p. IsAvailable (f p) \<Longrightarrow> IsAvailable p) \<Longrightarrow>
     not_idle i ps \<Longrightarrow> not_idle i (pool_update j f ps)"
  by (fastforce simp: not_idle_def set_update)

lemma all_active_update:
  "(\<And>p. px_id (f p) = px_id p) \<Longrightarrow> (\<And>p. px_id p = j \<Longrightarrow> px_id p = i \<Longrightarrow> px_state p = StateActive \<Longrightarrow> px_state (f p) = StateActive) \<Longrightarrow>
     all_active i ps \<Longrightarrow> all_active i (pool_update j f ps)"
  by (fastforce simp: all_active_def set_update)

lemma no_new_ensure: "no_new i s (snd (ensurePoolCapacity now s))"
  by (rule no_new_subset [OF ensure_pool_subset])

lemma not_idle_exec:
  assumes "keeps_lease i op" "not_idle i (pm_pool s)"
  shows "not_idle i (pm_pool (pool_exec op s))"
proof (cases op)
  case (P_acquire now nu conv)
  then show ?thesis using assms(2)
    by (auto simp: try_acquire_def case_prod_beta Let_def IsAvailable_def intro!: not_idle_update)
next
  case (P_release j)
  with assms have "j \<noteq> i" by simp
  with assms(2) P_release show ?thesis by (auto simp: ReleaseProxy_def signal_def not_idle_def set_update)
next
  case (P_limited now now2 p ra)
  have "not_idle i (pm_pool (mark_limited now p ra s))"
    using assms(2) by (auto simp: mark_limited_def Let_def signal_def IsAvailable_def intro!: not_idle_update)
  with not_idle_no_new [OF no_new_ensure] show ?thesis by (simp add: P_limited MarkRateLimited_def)
next
  case (P_unhealthy now po)
  then show ?thesis using assms(2)
    by (auto simp: MarkUnhealthy_def IsAvailable_def split: option.split
        intro!: not_idle_no_new [OF no_new_ensure] not_idle_update)
qed (use assms not_idle_no_new [OF spares_no_new, of i op s] in auto)

lemma health_update_active:
  assumes "all_active i (pm_pool s)" "j = i \<longrightarrow> healthy"
  shows "all_active i (pm_pool (snd (health_update now j healthy s)))"
proof (cases "pool_find j (pm_pool s)")
  case None
  then show ?thesis using assms by (simp only: health_update_def option.case snd_conv)
next
  case (Some pr)
  then have pr: "pr \<in> set (pm_pool s)" "px_id pr = j" using pool_find_Some by auto
  show ?thesis
  proof (cases "j = i")
    case True
    with assms pr have "px_state pr = StateActive" "healthy" by (auto simp: all_active_def)
    with assms(1) pr show ?thesis
      by (simp add: health_update_def Some Let_def) (auto simp: all_active_def set_update)
  next
    case False
    with assms(1) pr show ?thesis
      by (auto simp: health_update_def Some Let_def signal_def all_active_def set_update)
  qed
qed

lemma check_each_active:
  "all_active i (pm_pool s) \<Longrightarrow> \<forall>(j, now, healthy, found) \<in> set cs. j = i \<longrightarrow> healthy \<Longrightarrow>
     all_active i (pm_pool (snd (check_each cs d s)))"
proof (induction cs arbitrary: d s)
  case Nil
  then show ?case by simp
next
  case (Cons c cs)
  obtain j now healthy found where c: "c = (j, now, healthy, found)" by (cases c)
  define s1 where "s1 = (case found of None \<Rightarrow> s
      | Some ip \<Rightarrow> s\<lparr> pm_pool := pool_update j (\<lambda>p. p\<lparr> px_ip := ip \<rparr>) (pm_pool s) \<rparr>)"
  have "all_active i (pm_pool s1)"
    using Cons.prems(1) by (auto simp: s1_def intro!: all_active_update split: option.split)
  then have "all_active i (pm_pool (snd (health_update now j healthy s1)))"
    using Cons.prems(2) by (intro health_update_active) (auto simp: c)
  with Cons show ?case by (simp add: c s1_def [symmetric] case_prod_beta Let_def)
qed

lemma restore_visit_active:
  "all_active i ps \<Longrightarrow> all_active i (fst (snd (restore_visit now cd over ps bans)))"
proof (induction ps arbitrary: bans)
  case Nil
  then show ?case by simp
next
  case (Cons p ps)
  then have ih: "all_active i (fst (snd (restore_visit now cd over ps b)))" for b
    by (auto simp: all_active_def)
  from Cons.prems have "px_id p = i \<longrightarrow> px_state p = StateActive" by (simp add: all_active_def)
  with ih show ?case by (auto simp: all_active_def case_prod_beta Let_def)
qed

lemma cooldown_active: "all_active i (pm_pool s) \<Longrightarrow> all_active i (pm_pool (restoreCooldownProxies now s))"
proof -
  assume a: "all_active i (pm_pool s)"
  have "all_active i (fst (snd (restore_visit now cd over (pm_pool s) bans)))" for cd over bans
    using restore_visit_active [OF a] .
  then show ?thesis
    by (auto simp: restoreCooldownProxies_def case_prod_beta Let_def remove_all_pool signal_def all_active_def)
qed

lemma all_active_exec:
  assumes "keeps_active i op" "all_active i (pm_pool s)"
  shows "all_active i (pm_pool (pool_exec op s))"
proof (cases op)
  case (P_acquire now nu conv)
  then show ?thesis using assms(2)
    by (auto simp: try_acquire_def case_prod_beta Let_def intro!: all_active_update)
next
  case (P_release j)
  with assms have "j \<noteq> i" by simp
  with assms(2) P_release show ?thesis by (auto simp: ReleaseProxy_def signal_def all_active_def set_update)
next
  case (P_limited now now2 p ra)
  have "all_active i (pm_pool (mark_limited now p ra s))"
    using assms P_limited by (auto simp: mark_limited_def Let_def signal_def intro!: all_active_update)
  with all_active_no_new [OF no_new_ensure] show ?thesis by (simp add: P_limited MarkRateLimited_def)
next
  case (P_unhealthy now po)
  then show ?thesis using assms
    by (auto simp: MarkUnhealthy_def split: option.split
        intro!: all_active_no_new [OF no_new_ensure] all_active_update)
next
  case (P_check now check)
  have "all_active i (pm_pool (snd (check_each (map (\<lambda>p. (px_id p, check (px_id p))) (pm_pool s)) False s)))"
    using assms P_check by (intro check_each_active) (auto simp: case_prod_beta)
  with all_active_no_new [OF no_new_ensure] show ?thesis
    by (auto simp: P_check checkAllProxies_def case_prod_beta)
next
  case (P_cooldown now now2)
  with cooldown_active [OF assms(2)] all_active_no_new [OF no_new_ensure] show ?thesis
    by (auto simp: cooldown_tick_def)
next
  case (P_visit j now healthy found)
  with assms show ?thesis unfolding P_visit pool_exec.simps by (intro check_each_active) auto
qed (use assms all_active_no_new [OF spares_no_new, of i op s] in auto)

lemma acquire_leases:
  assumes "try_acquire now nu conv s = (Some q, t)"
  shows "all_active (px_id q) (pm_pool t)"
  using assms
  by (auto simp: try_acquire_def case_prod_beta Let_def all_active_def set_update split: if_splits)

text \<open>
  Every hand-out of a run, whichever way it came about: by the round robin, or by the look-up of a
  conversation's own proxy, which asks only that the proxy be healthy and leaves its state alone.
\<close>

fun handouts :: "pool_op list \<Rightarrow> pool \<Rightarrow> (pool_op \<times> proxy) list" where
  "handouts [] s = []"
| "handouts (op # ops) s =
     (case pool_gives op s of None \<Rightarrow> [] | Some p \<Rightarrow> [(op, p)]) @ handouts ops (pool_exec op s)"

definition sticky_to :: "string \<Rightarrow> pool \<Rightarrow> pool_op \<Rightarrow> bool" where
  "sticky_to i s op = (case op of P_sticky now conv \<Rightarrow> conv \<noteq> [] \<and> pm_sticky s conv = Some i | _ \<Rightarrow> False)"

lemma gives_leased:
  assumes "pool_gives op s = Some q" "not_idle (px_id q) (pm_pool s)"
  shows "sticky_to (px_id q) s op"
proof (cases op)
  case (P_acquire now nu conv)
  with assms(1) have "try_acquire now nu conv s = (Some q, snd (try_acquire now nu conv s))"
    by (simp add: prod_eq_iff)
  from try_acquire_given [OF this] assms(2) show ?thesis by (auto simp: not_idle_def)
next
  case (P_sticky now conv)
  with assms(1) have q: "sticky_lookup now conv s = (Some q, snd (sticky_lookup now conv s))"
    by (simp add: prod_eq_iff)
  from sticky_given [OF this] obtain i where "pm_sticky s conv = Some i" "px_id q = i"
    by (auto dest: pool_find_Some)
  moreover have "conv \<noteq> []" using q by (auto simp: sticky_lookup_def split: if_splits)
  ultimately show ?thesis by (simp add: P_sticky sticky_to_def)
qed (use assms in simp_all)

lemma sticky_frames:
  "pm_sticky (snd (ensurePoolCapacity now s)) = pm_sticky s"
  "pm_sticky (snd (sticky_lookup now conv s)) = pm_sticky s"
  "pm_sticky (snd (health_update now j h s)) = pm_sticky s"
  "pm_sticky (snd (make_room s)) = pm_sticky s"
  "pm_sticky (snd (AddExternalProxy m c hl addr s)) = pm_sticky s"
  "pm_sticky (snd (insert_turn p s)) = pm_sticky s"
  "pm_sticky (snd (admit p s)) = pm_sticky s"
  "pm_sticky (mark_limited now p ra s) = pm_sticky s"
  "pm_sticky (ReleaseProxy j s) = pm_sticky s"
  "pm_sticky (restoreCooldownProxies now s) = pm_sticky s"
  by (simp_all add: ensurePoolCapacity_def plan_spawn_def sticky_lookup_def ipBanned_def health_update_def
      make_room_def AddExternalProxy_def insert_turn_def admit_def mark_limited_def ReleaseProxy_def
      restoreCooldownProxies_def case_prod_beta Let_def signal_def frame_simps split: option.split sum.split)

lemma check_each_sticky: "pm_sticky (snd (check_each cs d s)) = pm_sticky s"
proof (induction cs arbitrary: d s)
  case Nil
  then show ?case by simp
next
  case (Cons c cs)
  then show ?case by (cases c) (simp add: case_prod_beta Let_def sticky_frames split: option.split)
qed

lemma ForceRotate_sticky: "pm_sticky (snd (ForceRotate e s)) = pm_sticky s"
  using createProxy_frame(4) [of e "snd (make_room s)"]
  by (cases "createProxy e (snd (make_room s))")
    (simp add: ForceRotate_def sticky_frames split: sum.split option.split)

text \<open>No conversation becomes bound to a proxy that is not idle.\<close>

lemma sticky_exec:
  assumes "not_idle i (pm_pool s)" "pm_sticky (pool_exec op s) conv = Some i"
  shows "pm_sticky s conv = Some i"
proof (cases op)
  case (P_acquire now nu c)
  show ?thesis
  proof (cases "fst (try_acquire now nu c s)")
    case None
    with assms(2) P_acquire show ?thesis by (auto simp: try_acquire_def case_prod_beta Let_def split: if_splits)
  next
    case (Some q)
    then have q: "try_acquire now nu c s = (Some q, snd (try_acquire now nu c s))" by (simp add: prod_eq_iff)
    have "px_id q \<noteq> i" using try_acquire_given [OF q] assms(1) by (auto simp: not_idle_def)
    moreover have "pm_sticky (snd (try_acquire now nu c s)) = (if c \<noteq> [] then (pm_sticky s)(c \<mapsto> px_id q) else pm_sticky s)"
      using Some by (auto simp: try_acquire_def case_prod_beta Let_def split: if_splits)
    ultimately show ?thesis using assms(2) P_acquire by (auto split: if_splits)
  qed
qed (use assms(2) in \<open>simp_all add: sticky_frames check_each_sticky ForceRotate_sticky frame_simps
    MarkRateLimited_def MarkUnhealthy_def spawn_task_def spawnDone_def keep_duplicate_def SetPoolSize_def
    checkAllProxies_def cooldown_tick_def case_prod_beta del: check_each.simps split: if_splits option.splits\<close>)

lemma handouts_leased:
  assumes "\<And>op s. op \<in> set ops \<Longrightarrow> I (pm_pool s) \<Longrightarrow> I (pm_pool (pool_exec op s))"
    and "\<And>ps. I ps \<Longrightarrow> not_idle i ps"
  shows "I (pm_pool s) \<Longrightarrow> (op, q) \<in> set (handouts ops s) \<Longrightarrow> px_id q = i \<Longrightarrow> sticky_to i s op"
  using assms(1)
proof (induction ops arbitrary: s)
  case Nil
  then show ?case by simp
next
  case (Cons o' ops)
  have ni: "not_idle i (pm_pool s)" using assms(2) Cons.prems(1) .
  from Cons.prems(2) consider "op = o'" "pool_gives o' s = Some q" | "(op, q) \<in> set (handouts ops (pool_exec o' s))"
    by (auto split: option.splits)
  then show ?case
  proof cases
    case 1
    with gives_leased [of o' s q] ni Cons.prems(3) show ?thesis by simp
  next
    case 2
    have "I (pm_pool (pool_exec o' s))" using Cons.prems(1,4) by simp
    from Cons.IH [OF this 2 Cons.prems(3)] Cons.prems(4) have "sticky_to i (pool_exec o' s) op" by simp
    then show ?thesis using sticky_exec [OF ni] by (auto simp: sticky_to_def split: pool_op.splits)
  qed
qed

text \<open>
  C4: A lease is exclusive among acquisitions. From the moment \<open>GetProxy\<close>'s round robin leases a
  proxy to a request until that id is released, every hand-out of the proxy is the sticky look-up of
  a conversation that was bound to it when the lease began; no acquisition hands it out, and no
  other conversation becomes bound to it. Sticky look-ups do share a leased proxy: they return it
  without a lease of their own. In between any operations of the pool may happen, with creations,
  rotations, external proxies, health checks and the end of cooldowns, as long as new proxies have ids of their own,
  nobody reports the leased proxy, and its own checks find it alive; or, with reports on the leased proxy too,
  as long as no health check and no end of a cooldown intervenes (these make a reported proxy idle again).
\<close>

theorem lease_exclusive:
  assumes "try_acquire now nu conv s = (Some p, t)"
    and "(\<forall>op \<in> set ops. keeps_lease (px_id p) op) \<or> (\<forall>op \<in> set ops. keeps_active (px_id p) op)"
    and "(op, q) \<in> set (handouts ops t)" "px_id q = px_id p"
  shows "\<exists>now' conv'. op = P_sticky now' conv' \<and> conv' \<noteq> [] \<and> pm_sticky t conv' = Some (px_id p)"
proof -
  have a: "all_active (px_id p) (pm_pool t)" by (rule acquire_leases [OF assms(1)])
  from assms(2) have "sticky_to (px_id p) t op"
  proof
    assume "\<forall>op \<in> set ops. keeps_lease (px_id p) op"
    then show ?thesis
      using handouts_leased [of ops "not_idle (px_id p)" "px_id p" t op q] not_idle_exec a all_active_not_idle assms(3,4)
      by blast
  next
    assume "\<forall>op \<in> set ops. keeps_active (px_id p) op"
    then show ?thesis
      using handouts_leased [of ops "all_active (px_id p)" "px_id p" t op q] all_active_exec a all_active_not_idle assms(3,4)
      by blast
  qed
  then show ?thesis by (auto simp: sticky_to_def split: pool_op.splits)
qed

lemma handouts_ops: "(op, q) \<in> set (handouts ops s) \<Longrightarrow> op \<in> set ops"
  by (induction ops arbitrary: s) (auto split: option.splits)

definition demo_lease_ops :: "pool_op list" where
  "demo_lease_ops = [P_acquire 2 2 [], P_sticky 3 ''c'', P_check 4 (\<lambda>_. (4, True, None)), P_visit ''a'' 4 True None, P_release ''b'',
     P_external 1 (Inr (demo_proxy ''ext-1'' [])) (Inr (True, ''10.0.0.9'')) ''h:1'', P_cooldown 5 5, P_acquire 6 6 []]"

text \<open>Only the conversation the lease was made for may share it.\<close>

theorem lease_exclusive_witness:
  "''a'' \<notin> px_id ` snd ` {h \<in> set (handouts demo_lease_ops (snd (try_acquire 1 1 ''c'' demo_pool))). fst h \<noteq> P_sticky 3 ''c''}"
proof -
  have s: "sort_candidates (pm_pool demo_pool) = pm_pool demo_pool" "filter (\<lambda>p. IsAvailable p \<and> \<not> banned Map.empty 1 (px_ip p)) (pm_pool demo_pool)
      = pm_pool demo_pool"
    by (simp_all add: demo_pool_def demo_proxy_def IsAvailable_def banned_def sort_candidates_def)
  have b: "pm_ip_bans demo_pool = Map.empty" "pm_rr demo_pool = 0" "pm_sticky demo_pool = Map.empty"
    by (simp_all add: demo_pool_def NewPoolManagerWithManager_def)
  have h: "pm_pool demo_pool ! 0 = demo_proxy ''a'' ''10.0.0.1''" "pm_pool demo_pool \<noteq> []"
    by (simp_all add: demo_pool_def)
  obtain p t where p: "try_acquire 1 1 ''c'' demo_pool = (Some p, t)" "px_id p = ''a''" "pm_sticky t = [''c'' \<mapsto> ''a'']"
    using h(2) by (simp add: try_acquire_def case_prod_beta Let_def candidates_fst b s) (simp add: h demo_proxy_def)
  have k: "\<forall>op \<in> set demo_lease_ops. keeps_active ''a'' op"
    by (simp add: demo_lease_ops_def) (simp add: demo_proxy_def)
  have "op = P_sticky 3 ''c''" if "(op, q) \<in> set (handouts demo_lease_ops t)" "px_id q = ''a''" for op q
    using lease_exclusive [OF p(1), of demo_lease_ops op q] p(2,3) k that handouts_ops [OF that(1)]
    by (auto simp: demo_lease_ops_def split: if_splits)
  then show ?thesis using p(1) by auto
qed

text \<open>
  Health checks end a lease behind the holder's back. A proxy a request still holds, found dead
  by one check and alive by the next, is idle again and open to the next acquisition although it
  was never released.
\<close>

theorem health_flip_ends_lease:
  assumes "pool_find i (pm_pool s) = Some p" "px_state p = StateActive"
    "distinct (ids (pm_pool s))" "\<not> duplicateIPLocked p (pm_pool s)"
  shows "\<exists>q. pool_find i (pm_pool (snd (check_each [(i, t1, False, None), (i, t2, True, None)] False s))) = Some q
    \<and> IsAvailable q \<and> px_requests q = px_requests p"
proof -
  define s1 where "s1 = snd (health_update t1 i False s)"
  have i: "px_id p = i" using pool_find_Some [OF assms(1)] by simp
  have f1: "pm_pool s1 = pool_update i (\<lambda>_. p\<lparr> px_last_check := t1, px_state := StateUnhealthy \<rparr>) (pm_pool s)"
    using assms(1,2) by (simp add: s1_def health_update_def Let_def)
  define q where "q = p\<lparr> px_last_check := t2, px_state := StateIdle \<rparr>"
  have f: "pool_find i (pm_pool s1) = Some (p\<lparr> px_last_check := t1, px_state := StateUnhealthy \<rparr>)"
    using i assms(1) by (simp add: f1)
  have "\<not> duplicateIPLocked q (pool_update i (\<lambda>_. q) (pm_pool s1))"
    using assms(4) i by (auto simp: duplicateIPLocked_def q_def f1 list_ex_iff set_update)
  then have "pm_pool (snd (health_update t2 i True s1)) = pool_update i (\<lambda>_. q) (pm_pool s1)"
    using f by (simp add: health_update_def Let_def q_def signal_def)
  then have "pool_find i (pm_pool (snd (health_update t2 i True s1))) = Some q"
    using f i by (simp add: q_def)
  moreover have "snd (check_each [(i, t1, False, None), (i, t2, True, None)] False s)
      = snd (health_update t2 i True s1)"
    by (simp add: case_prod_beta s1_def Let_def)
  ultimately show ?thesis by (auto simp: q_def IsAvailable_def)
qed

section \<open>Housekeeping\<close>

text \<open>
  \<open>pruneDeadProxies\<close> has an exact outcome, and does shrink the pool below its configured size.
  With more dead proxies than the excess over the size it stops exactly at the size; in every
  other case (no excess at all included) every dead proxy goes, replacement or not.
\<close>

theorem prune_exact:
  assumes "pm_has_mgr s" "distinct (ids (pm_pool s))"
  shows "int (length (pm_pool (pruneDeadProxies s))) =
    (let total = int (length (pm_pool s)); dead = int (length (filter is_dead (pm_pool s)));
         size = ProxyPoolSize (pm_cfg s)
     in if 0 < total - size \<and> total - size < dead then size else total - dead)"
proof -
  define rm where "rm = prune_list s"
  have len: "length (filter (\<lambda>p. px_id p \<notin> set xs) ps) = length ps - length xs"
    if "distinct (ids ps)" "distinct xs" "set xs \<subseteq> set (ids ps)" for xs ps
  proof -
    have "length (filter (\<lambda>p. px_id p \<notin> set xs) ps) = card (set (ids ps) - set xs)"
      using that(1)
      by (induction ps) (auto simp: insert_Diff_if card_insert_if)
    also have "\<dots> = length ps - length xs"
      using that by (simp add: card_Diff_subset distinct_card) (simp add: ids_def)
    finally show ?thesis .
  qed
  have d: "distinct (map px_id (filter is_dead (pm_pool s)))"
    using assms(2) by (simp add: ids_def distinct_map_filter)
  have sub: "set (map px_id (filter is_dead (pm_pool s))) \<subseteq> set (ids (pm_pool s))"
    by (auto simp: ids_def)
  have "distinct rm" using d by (simp add: rm_def prune_list_def Let_def)
  moreover have "set rm \<subseteq> set (map px_id (filter is_dead (pm_pool s)))"
    unfolding rm_def prune_list_def Let_def by (split if_split) (blast dest: in_set_takeD)
  ultimately have rm: "distinct rm" "set rm \<subseteq> set (ids (pm_pool s))" using sub by blast+
  have "pm_pool (pruneDeadProxies s) = filter (\<lambda>p. px_id p \<notin> set rm) (pm_pool s)"
    using assms(1) by (auto simp: pruneDeadProxies_def rm_def remove_all_pool)
  with len [OF assms(2) rm] have "length (pm_pool (pruneDeadProxies s)) = length (pm_pool s) - length rm"
    by simp
  moreover have "length rm \<le> length (pm_pool s)"
    using card_mono [OF _ rm(2)] card_length [of "ids (pm_pool s)"] rm(1)
    by (simp add: distinct_card) (simp add: ids_def)
  moreover have "int (length rm) = (let total = int (length (pm_pool s));
      dead = int (length (filter is_dead (pm_pool s))); size = ProxyPoolSize (pm_cfg s)
      in if 0 < total - size \<and> total - size < dead then total - size else dead)"
    by (auto simp: rm_def prune_list_def Let_def min_def)
  ultimately show ?thesis by (simp add: Let_def split: if_splits)
qed

text \<open>Five configured, one of three proxies dead and its replacement in flight: two remain.\<close>

theorem prune_exact_witness:
  "length (pm_pool (pruneDeadProxies (mark_limited 0 (demo_proxy ''a'' ''10.0.0.1'') [] demo_usable))) = 2"
proof -
  define s where "s = mark_limited 0 (demo_proxy ''a'' ''10.0.0.1'') [] demo_usable"
  have p: "pm_pool s = [(demo_proxy ''a'' ''10.0.0.1'')\<lparr> px_state := StateCooldown, px_last_used := 0,
      px_errors := 1 \<rparr>, demo_proxy ''b'' ''10.0.0.2'', demo_proxy ''c'' ''10.0.0.1'']"
    by (simp add: s_def mark_limited_def Let_def signal_def demo_usable_def demo_pool_def demo_proxy_def
        pool_update_def ids_def)
  have c: "pm_has_mgr s" "ProxyPoolSize (pm_cfg s) = 5"
    by (simp_all add: s_def mark_limited_def Let_def signal_def demo_usable_def demo_pool_def
        NewPoolManagerWithManager_def)
  have d: "distinct (ids (pm_pool s))" "length (pm_pool s) = 3" "length (filter is_dead (pm_pool s)) = 1"
    by (simp_all add: p ids_def demo_proxy_def is_dead_def)
  from prune_exact [OF c(1) d(1)] show ?thesis by (simp add: c(2) d s_def [symmetric])
qed

text \<open>
  A region's ban can be cut short. An address keeps the later of two ban ends, but a region takes
  the end of the last report: a second rate limit in the region whose ban ends earlier re-admits
  the region while an address in it is still banned.
\<close>

theorem region_ban_overwritten:
  assumes "px_region p = r" "px_region q = r" "r \<noteq> []" "px_ip p \<noteq> []" "px_ip q = px_ip p"
    and "t1 + ban_duration (pm_cfg s) ra1 \<ge> t2 + ban_duration (pm_cfg s) ra2"
    and "zero_time < t1 + ban_duration (pm_cfg s) ra1"
  shows "pm_region_bans (mark_limited t2 q ra2 (mark_limited t1 p ra1 s)) r = Some (t2 + ban_duration (pm_cfg s) ra2)
    \<and> holds_until (pm_ip_bans (mark_limited t2 q ra2 (mark_limited t1 p ra1 s))) (px_ip p)
        (t1 + ban_duration (pm_cfg s) ra1)"
proof -
  have c: "pm_cfg (mark_limited t1 p ra1 s) = pm_cfg s" by (simp add: mark_limited_def Let_def signal_def)
  have r: "pm_region_bans (mark_limited t a ra u) r = Some (t + ban_duration (pm_cfg u) ra)"
    if "px_region a = r" for t a ra u
    using that assms(3) by (simp add: mark_limited_def Let_def signal_def)
  have "holds_until (pm_ip_bans (mark_limited t1 p ra1 s)) (px_ip p) (t1 + ban_duration (pm_cfg s) ra1)"
    using assms(4,7) by (auto simp: mark_limited_bans banIPLocked_def holds_until_def split: option.split)
  then show ?thesis using r [OF assms(2)] by (simp add: c mark_limited_bans holds_ban)
qed

definition in_region :: "proxy \<Rightarrow> proxy" where
  "in_region p = p\<lparr> px_region := ''NL'' \<rparr>"

theorem region_ban_overwritten_witness:
  "let p = in_region (demo_proxy ''a'' ''10.0.0.1'');
       s = mark_limited (1 * Second) p [] (mark_limited 0 p ''900'' demo_pool)
   in pm_region_bans s ''NL'' = Some (601 * Second)
    \<and> holds_until (pm_ip_bans s) ''10.0.0.1'' (900 * Second)"
proof -
  have "itoa 900 = ''900''" by code_simp
  then have a: "atoi ''900'' = Some 900" using atoi_itoa [of 900] by simp
  have b: "IPBanDuration (pm_cfg demo_pool) = 600 * Second"
    by (simp add: demo_pool_def NewPoolManagerWithManager_def DefaultConfig_def Minute_def)
  have w: "wrap64 (900 * Second) = 900 * Second" by (simp add: wrap64_def Second_def)
  have d: "ban_duration (pm_cfg demo_pool) [] = 600 * Second"
      "ban_duration (pm_cfg demo_pool) ''900'' = 900 * Second"
    unfolding ban_duration_def b a by (simp_all add: w) (simp add: Second_def)
  have p: "px_region (in_region (demo_proxy ''a'' ''10.0.0.1'')) = ''NL''"
      "px_ip (in_region (demo_proxy ''a'' ''10.0.0.1'')) = ''10.0.0.1''"
    by (simp_all add: in_region_def demo_proxy_def)
  have h: "1 * Second + ban_duration (pm_cfg demo_pool) [] \<le> 0 + ban_duration (pm_cfg demo_pool) ''900''"
      "zero_time < 0 + ban_duration (pm_cfg demo_pool) ''900''"
    by (simp_all add: d zero_time_def Second_def)
  have e: "1 * Second + 600 * Second = 601 * Second" by simp
  from region_ban_overwritten [OF p(1) p(1) _ _ refl h] show ?thesis
    unfolding Let_def by (simp only: d p e) simp
qed

text \<open>
  The sticky session's lifetime is never consulted. As long as the pinned proxy is healthy and its
  address not banned, a conversation gets it back at every later instant, however long its
  configured time to live has passed, and without the proxy being leased to it.
\<close>

theorem sticky_never_expires:
  assumes "pm_sticky s conv = Some i" "pool_find i (pm_pool s) = Some p" "IsHealthy p" "conv \<noteq> []"
    and "0 < StickySessionTTL (pm_cfg s)" "\<not> banned (pm_ip_bans s) now (px_ip p)"
  shows "fst (sticky_lookup now conv s) = Some p
    \<and> pm_pool (snd (sticky_lookup now conv s)) = pm_pool s
    \<and> pm_sticky (snd (sticky_lookup now conv s)) = pm_sticky s"
  using assms by (simp add: sticky_lookup_def ipBanned_def case_prod_beta Let_def)

theorem sticky_never_expires_witness:
  "fst (sticky_lookup (1000000 * Hour) ''chat'' (demo_pool\<lparr> pm_sticky := [''chat'' \<mapsto> ''b''] \<rparr>))
     = Some (demo_proxy ''b'' ''10.0.0.2'')"
proof -
  let ?s = "demo_pool\<lparr> pm_sticky := [''chat'' \<mapsto> ''b''] \<rparr>"
  have "0 < StickySessionTTL (pm_cfg ?s)" "pm_ip_bans ?s = Map.empty" "pm_sticky ?s ''chat'' = Some ''b''"
    by (simp_all add: demo_pool_def NewPoolManagerWithManager_def DefaultConfig_def Minute_def Hour_def Second_def)
  moreover have "pool_find ''b'' (pm_pool ?s) = Some (demo_proxy ''b'' ''10.0.0.2'')"
    "IsHealthy (demo_proxy ''b'' ''10.0.0.2'')"
    by (simp_all add: demo_pool_def demo_proxy_def pool_find_def IsHealthy_def)
  ultimately show ?thesis
    using sticky_never_expires [of ?s "''chat''" "''b''" "demo_proxy ''b'' ''10.0.0.2''" "1000000 * Hour"]
    by (simp add: banned_def)
qed

definition demo_rotation :: "create_env" where
  "demo_rotation = \<lparr> cr_create = (\<lambda>k _ _. Inr (demo_proxy (''n'' @ itoa (int k)) ''10.0.0.9'')),
     cr_now = (\<lambda>k. 0), cr_cancel = (\<lambda>a. False) \<rparr>"

text \<open>A new container with the address of a live one is replaced once, by one that is unique.\<close>

theorem rotation_unique_or_exhausted_witness:
  "\<exists>q k t. rotateUntilUniqueIP demo_rotation (demo_proxy ''d'' ''10.0.0.2'') 1 demo_pool = (Inr q, k, t)
     \<and> \<not> duplicateIPLocked q (pm_pool t)"
proof -
  have at: "ProxyIPRotateAttempts (pm_cfg demo_pool) = 3"
    by (simp add: demo_pool_def NewPoolManagerWithManager_def DefaultConfig_def)
  define s2 where "s2 = snd (insert_turn (demo_proxy ''d'' ''10.0.0.2'') demo_pool)"
  define s3 where "s3 = snd (create_call demo_rotation 1 s2)"
  have i: "insert_turn (demo_proxy ''d'' ''10.0.0.2'') demo_pool = (False, s2)"
    by (simp add: s2_def insert_turn_def Let_def duplicateIPLocked_def demo_pool_def demo_proxy_def
        pool_insert_def pool_delete_def)
  have p2: "pm_pool s2 = pm_pool demo_pool"
    by (simp add: s2_def insert_turn_def Let_def duplicateIPLocked_def demo_pool_def demo_proxy_def
        pool_insert_def pool_delete_def)
  have n: "itoa 1 = ''1''" by code_simp
  have c: "create_call demo_rotation (Suc 0) s2 = (Inr (demo_proxy ''n1'' ''10.0.0.9''), s3)"
    by (simp add: s3_def create_call_def case_prod_beta demo_rotation_def n)
  have p3: "pm_pool s3 = pm_pool demo_pool" by (simp add: s3_def frame_simps p2)
  obtain t where j: "insert_turn (demo_proxy ''n1'' ''10.0.0.9'') s3 = (True, t)"
    by (simp add: insert_turn_def Let_def duplicateIPLocked_def p3 demo_pool_def demo_proxy_def
        pool_insert_def pool_delete_def)
  have "rotate_loop demo_rotation (Suc 0) (demo_proxy ''n1'' ''10.0.0.9'') 2 s3
      = (Inr (demo_proxy ''n1'' ''10.0.0.9''), 2, t)"
    by (simp add: rotate_loop.simps [of demo_rotation "Suc 0"] j)
  then have "rotate_loop demo_rotation (Suc (Suc 0)) (demo_proxy ''d'' ''10.0.0.2'') (Suc 0) demo_pool
      = (Inr (demo_proxy ''n1'' ''10.0.0.9''), 2, t)"
    by (simp add: rotate_loop.simps [of demo_rotation "Suc (Suc 0)"] i c numeral_2_eq_2)
  then have r: "rotateUntilUniqueIP demo_rotation (demo_proxy ''d'' ''10.0.0.2'') 1 demo_pool
      = (Inr (demo_proxy ''n1'' ''10.0.0.9''), 2, t)"
    by (simp add: rotateUntilUniqueIP_def at numeral_2_eq_2)
  from rotation_unique_or_exhausted [OF r] r show ?thesis by (auto simp: at)
qed

theorem health_flip_ends_lease_witness:
  "\<exists>q. pool_find ''b'' (pm_pool (snd (check_each [(''b'', 5, False, None), (''b'', 6, True, None)] False
      (demo_pool\<lparr> pm_pool := [(demo_proxy ''b'' ''10.0.0.2'')\<lparr> px_state := StateActive \<rparr>] \<rparr>)))) = Some q
    \<and> IsAvailable q"
proof -
  let ?p = "(demo_proxy ''b'' ''10.0.0.2'')\<lparr> px_state := StateActive \<rparr>"
  let ?s = "demo_pool\<lparr> pm_pool := [?p] \<rparr>"
  have "pool_find ''b'' (pm_pool ?s) = Some ?p" "px_state ?p = StateActive" "distinct (ids (pm_pool ?s))"
      "\<not> duplicateIPLocked ?p (pm_pool ?s)"
    by (simp_all add: pool_find_def demo_proxy_def duplicateIPLocked_def)
  from health_flip_ends_lease [OF this, of 5 6] show ?thesis by blast
qed

end
