(* ===== verification/Gateway_Http.thy ===== *)
theory Gateway_Http
  imports Pow_Service
begin

text \<open>
  \<^verbatim>\<open>internal/handler/handler.go\<close>, the parts every request passes: the error envelope, the routes
  of the multiplexer, the middleware stack (logging, request id, CORS, gateway keys), and the
  choice of the upstream credential. Request headers are a look-up function (the code reads them
  with \<open>Header.Get\<close>), \<open>[]\<close> when absent; random choices and clock readings are inputs.
\<close>

section \<open>Requests and error envelopes\<close>

record http_request =
  hr_method :: string
  hr_path :: string
  hr_header :: "string \<Rightarrow> string"

record openai_error =
  oe_status :: int
  oe_message :: string
  oe_type :: string
  oe_param :: "string option"
  oe_code :: "string option"

definition openaiErrorType :: "int \<Rightarrow> string" where
  "openaiErrorType status =
     (if status = 400 \<or> status = 413 \<or> status = 415 \<or> status = 422 then ''invalid_request_error''
      else if status = 401 then ''authentication_error''
      else if status = 403 then ''permission_error''
      else if status = 404 then ''invalid_request_error''
      else if status = 405 then ''method_not_allowed_error''
      else if status = 429 then ''rate_limit_error''
      else if status = 503 then ''service_unavailable_error''
      else ''server_error'')"

definition writeOpenAIError :: "int \<Rightarrow> string \<Rightarrow> string \<Rightarrow> string \<Rightarrow> openai_error" where
  "writeOpenAIError status message param code =
     \<lparr> oe_status = status, oe_message = message, oe_type = openaiErrorType status,
       oe_param = (if param \<noteq> [] then Some param else None),
       oe_code = (if code \<noteq> [] then Some code else None) \<rparr>"

definition writeError :: "int \<Rightarrow> string \<Rightarrow> openai_error" where
  "writeError status message = writeOpenAIError status message [] []"

definition writeErrorParam :: "int \<Rightarrow> string \<Rightarrow> string \<Rightarrow> openai_error" where
  "writeErrorParam status message param = writeOpenAIError status message param []"

text \<open>\<open>powErr\<close>, the same envelope without a parameter.\<close>

definition powErr :: "int \<Rightarrow> string \<Rightarrow> string \<Rightarrow> openai_error" where
  "powErr status message code =
     \<lparr> oe_status = status, oe_message = message, oe_type = openaiErrorType status,
       oe_param = None, oe_code = (if code \<noteq> [] then Some code else None) \<rparr>"

text \<open>\<open>strconv.Quote\<close> on ASCII text (\<open>%q\<close>); other bytes are kept as they are.\<close>

definition hex_digit :: "nat \<Rightarrow> char" where
  "hex_digit n = char_of (if n < 10 then 48 + n else 87 + n)"

definition quote_char :: "char \<Rightarrow> string" where
  "quote_char c =
     (let n = (of_char c :: nat)
      in if c = CHR 0x22 \<or> c = CHR 0x5C then [CHR 0x5C, c]
         else if n = 7 then [CHR 0x5C, CHR ''a'']
         else if n = 8 then [CHR 0x5C, CHR ''b'']
         else if n = 9 then [CHR 0x5C, CHR ''t'']
         else if n = 10 then [CHR 0x5C, CHR ''n'']
         else if n = 11 then [CHR 0x5C, CHR ''v'']
         else if n = 12 then [CHR 0x5C, CHR ''f'']
         else if n = 13 then [CHR 0x5C, CHR ''r'']
         else if n < 32 \<or> n = 127 then [CHR 0x5C, CHR ''x'', hex_digit (n div 16), hex_digit (n mod 16)]
         else [c])"

definition go_quote :: "string \<Rightarrow> string" where
  "go_quote s = [CHR 0x22] @ concat (map quote_char s) @ [CHR 0x22]"

section \<open>Handler state\<close>

record handler =
  hd_cfg :: config
  hd_driver :: string
  hd_env_keys :: "string list"
  hd_pow :: "pow_service option"

text \<open>
  \<open>newHandler\<close>: \<open>pow\<close> is the outcome of \<open>newPoWService\<close>, which is only logged when it fails.
\<close>

definition newHandler :: "config \<Rightarrow> db_error + pow_service \<Rightarrow> handler" where
  "newHandler cfg pow =
     \<lparr> hd_cfg = cfg,
       hd_driver = (if UpstreamProvider cfg = ''opencode'' then ''opencode''
                    else if UpstreamProvider cfg = ''opencode-cli'' then ''opencode-cli'' else ''zen''),
       hd_env_keys = GatewayAPIKeys cfg,
       hd_pow = (if PowEnabled cfg then (case pow of Inl _ \<Rightarrow> None | Inr svc \<Rightarrow> Some svc) else None) \<rparr>"

section \<open>Routes\<close>

datatype endpoint =
    Pow_challenge | Pow_redeem | Models | Model_retrieve string | Chat_completions | Health | Stats_ep
  | Api_metrics | Prometheus_ep | Manage_api string string | V1_fallback | Spa | Web_ui

text \<open>
  \<open>path.Clean\<close> on a rooted path, and \<open>ServeMux\<close>'s \<open>cleanPath\<close>, which keeps a trailing slash.
\<close>

fun clean_segments :: "string list \<Rightarrow> string list \<Rightarrow> string list" where
  "clean_segments acc [] = rev acc"
| "clean_segments acc (seg # segs) =
     (if seg = [] \<or> seg = ''.'' then clean_segments acc segs
      else if seg = ''..'' then clean_segments (tl acc) segs
      else clean_segments (seg # acc) segs)"

definition cleanPath :: "string \<Rightarrow> string" where
  "cleanPath p =
     (if p = [] then ''/''
      else let p = (if hd p \<noteq> CHR ''/'' then CHR ''/'' # p else p);
               segs = clean_segments [] (split_on CHR ''/'' p);
               np = CHR ''/'' # join ''/'' segs
           in if last p = CHR ''/'' \<and> np \<noteq> ''/'' then np @ ''/'' else np)"

text \<open>The text after \<open>prefix\<close> when it is one non-empty path segment, the code's \<open>{id}\<close>.\<close>

definition path_id :: "string \<Rightarrow> string \<Rightarrow> string option" where
  "path_id pre p =
     (if has_prefix p pre then
        (let i = drop (length pre) p in if i \<noteq> [] \<and> CHR ''/'' \<notin> set i then Some i else None)
      else None)"

definition method_is :: "string \<Rightarrow> string \<Rightarrow> bool" where
  "method_is m want \<longleftrightarrow> m = want \<or> (want = ''GET'' \<and> m = ''HEAD'')"

text \<open>The registered management patterns: method and path, with \<open>{id}\<close> for the last segment.\<close>

definition manage_match :: "string \<Rightarrow> string \<Rightarrow> endpoint option" where
  "manage_match m p =
     (let exact = (\<lambda>w s. method_is m w \<and> p = ''/api/manage/'' @ s);
          withid = (\<lambda>w s. method_is m w \<and> path_id (''/api/manage/'' @ s) p \<noteq> None)
      in if exact ''GET'' ''accounts'' \<or> exact ''POST'' ''accounts'' \<or> exact ''GET'' ''proxies''
            \<or> exact ''POST'' ''proxies'' \<or> exact ''GET'' ''settings'' \<or> exact ''PUT'' ''settings''
            \<or> exact ''GET'' ''pool'' \<or> exact ''POST'' ''pool/refresh'' \<or> exact ''POST'' ''pool/rotate''
            \<or> withid ''PUT'' ''accounts/'' \<or> withid ''DELETE'' ''accounts/'' \<or> withid ''DELETE'' ''proxies/''
         then Some (Manage_api m p) else None)"

text \<open>
  The most specific registered pattern for a clean path. The subtree patterns \<open>/v1/\<close>, \<open>/manage/\<close>
  and \<open>/\<close> take what the others leave.
\<close>

definition mux_match :: "bool \<Rightarrow> bool \<Rightarrow> string \<Rightarrow> string \<Rightarrow> endpoint" where
  "mux_match has_pow has_store m p =
     (if has_pow \<and> method_is m ''GET'' \<and> p = ''/api/pow/challenge'' then Pow_challenge
      else if has_pow \<and> method_is m ''POST'' \<and> p = ''/api/pow/redeem'' then Pow_redeem
      else if method_is m ''GET'' \<and> p = ''/v1/models'' then Models
      else if method_is m ''POST'' \<and> p = ''/v1/chat/completions'' then Chat_completions
      else if method_is m ''GET'' \<and> p = ''/health'' then Health
      else if method_is m ''GET'' \<and> p = ''/stats'' then Stats_ep
      else if method_is m ''GET'' \<and> p = ''/api/metrics'' then Api_metrics
      else if method_is m ''GET'' \<and> p = ''/metrics'' then Prometheus_ep
      else (case (if method_is m ''GET'' then path_id ''/v1/models/'' p else None) of
              Some i \<Rightarrow> Model_retrieve i
            | None \<Rightarrow>
                (case (if has_store then manage_match m p else None) of
                   Some e \<Rightarrow> e
                 | None \<Rightarrow>
                     if has_prefix p ''/v1/'' then V1_fallback
                     else if p = ''/manage'' \<or> has_prefix p ''/manage/'' then Spa
                     else Web_ui)))"

datatype routed = Redirect_to string | To endpoint

text \<open>
  \<open>ServeMux\<close> answers an unclean path with a redirect to the clean one, and a path that only
  becomes a registered subtree by a trailing slash (here \<open>/v1\<close>) with a redirect to it. Paths are those
  without escapes: Go matches the escaped path segment by segment, so an escaped slash, as in
  \<open>/v1/models/a%2Fb\<close>, does not separate segments there. The middleware asks the decoded
  path, so what Go routes to a pattern under \<open>/v1/\<close> is such a path for it as well.
\<close>

definition mux :: "bool \<Rightarrow> bool \<Rightarrow> string \<Rightarrow> string \<Rightarrow> routed" where
  "mux has_pow has_store m p =
     (if m \<noteq> ''CONNECT'' \<and> cleanPath p \<noteq> p then Redirect_to (cleanPath p)
      else if m \<noteq> ''CONNECT'' \<and> p = ''/v1'' then Redirect_to ''/v1/''
      else To (mux_match has_pow has_store m p))"

definition handleV1Fallback :: "http_request \<Rightarrow> openai_error" where
  "handleV1Fallback r =
     (let path = hr_path r;
          known = (path = ''/v1/models'' \<or> has_prefix path ''/v1/models/'' \<or> path = ''/v1/chat/completions'')
      in if known then
           writeOpenAIError 405 (''Method '' @ hr_method r @ '' not allowed for '' @ path) [] ''method_not_allowed''
         else writeOpenAIError 404 (''Invalid URL ('' @ hr_method r @ '' '' @ path @ '')'') [] ''unknown_url'')"

section \<open>Traffic grouping\<close>

definition isDynamicSegment :: "string \<Rightarrow> bool" where
  "isDynamicSegment seg \<longleftrightarrow>
     length seg \<ge> 20
     \<or> (list_all is_digit seg \<and> seg \<noteq> [])
     \<or> (list_ex is_digit seg
          \<and> list_ex (\<lambda>c. (CHR ''a'' \<le> c \<and> c \<le> CHR ''f'') \<or> (CHR ''A'' \<le> c \<and> c \<le> CHR ''F'')) seg
          \<and> length seg > 6)"

definition route_step :: "string \<Rightarrow> string \<Rightarrow> string" where
  "route_step b seg =
     (let b = b @ ''/''
      in if seg = [] then (if length b = 1 then ''/'' else b)
         else if isDynamicSegment seg then b @ ''{id}'' else b @ seg)"

definition ui_suffixes :: "string list" where
  "ui_suffixes = [''.js'', ''.css'', ''.html'', ''.ico'', ''.png'', ''.svg'', ''.map'', ''.woff2'']"

definition fixed_routes :: "string list" where
  "fixed_routes = [''/v1/chat/completions'', ''/v1/models'', ''/api/pow/challenge'', ''/api/pow/redeem'',
     ''/stats'', ''/'', ''/health'']"

definition normalizeRoute :: "string \<Rightarrow> string \<Rightarrow> string" where
  "normalizeRoute m path =
     (if path \<in> set fixed_routes then path
      else if has_prefix path ''/v1/models/'' then ''/v1/models/{id}''
      else if list_ex (has_suffix path) ui_suffixes then ''/ui/{file}''
      else let out = foldl route_step [] (split_on CHR ''/'' (trim_char CHR ''/'' path))
           in if out = [] \<or> out = ''/'' then
                (if length path > 64 then take 64 path @ [CHR 0xE2, CHR 0x80, CHR 0xA6] else path)
              else out)"

definition UntrackedPaths :: "string list" where
  "UntrackedPaths = [''/metrics'', ''/health'', ''/api/metrics'']"

text \<open>What \<open>loggingMiddleware\<close> records for a request: the grouping key, when it records at all.\<close>

definition tracked_route :: "bool \<Rightarrow> http_request \<Rightarrow> string option" where
  "tracked_route has_metrics r =
     (if has_metrics \<and> hr_path r \<notin> set UntrackedPaths \<and> hr_method r \<noteq> ''OPTIONS''
      then Some (normalizeRoute (hr_method r) (hr_path r)) else None)"

section \<open>Gateway keys\<close>

record key_identity =
  ki_env :: bool
  ki_hash :: string
  ki_plan :: string
  ki_rpm :: int

text \<open>What the key service meets while a key is looked up: a failing query, its clock.\<close>

record key_env =
  ke_fault :: bool
  ke_now :: time
  ke_now_limit :: time
  ke_now_until :: time

definition lookupKey :: "hashes \<Rightarrow> key_env \<Rightarrow> string \<Rightarrow> handler \<Rightarrow> key_identity option \<times> handler" where
  "lookupKey hs e bearer h =
     (if bearer = [] then (None, h)
      else if bearer \<in> set (hd_env_keys h) then
        (Some \<lparr> ki_env = True, ki_hash = [], ki_plan = [], ki_rpm = 0 \<rparr>, h)
      else (case hd_pow h of
              None \<Rightarrow> (None, h)
            | Some s \<Rightarrow>
                (let kh = KeyHash hs bearer
                 in (case LookupKey (ke_fault e) (ke_now e) kh s of
                       (None, s) \<Rightarrow> (None, h\<lparr> hd_pow := Some s \<rparr>)
                     | (Some (plan, rpm), s) \<Rightarrow>
                         (Some \<lparr> ki_env = False, ki_hash = kh, ki_plan = plan, ki_rpm = rpm \<rparr>,
                          h\<lparr> hd_pow := Some s \<rparr>)))))"

definition authRequired :: "handler \<Rightarrow> bool" where
  "authRequired h \<longleftrightarrow> hd_env_keys h \<noteq> [] \<or> hd_pow h \<noteq> None"

text \<open>A refusal with the headers it sets.\<close>

record refusal =
  rf_error :: openai_error
  rf_retry_after :: "string option"
  rf_limit :: "string option"

definition limit_refusal :: "key_identity \<Rightarrow> duration \<Rightarrow> string \<Rightarrow> refusal" where
  "limit_refusal ki retryAfter code =
     (let secs = itoa (trunc (seconds retryAfter) + 1)
      in \<lparr> rf_error = powErr 429 (''Plan '' @ go_quote (ki_plan ki) @ '' limit reached ('' @ code
             @ ''); retry after '' @ secs @ '' second(s)'') code,
           rf_retry_after = Some secs, rf_limit = Some (itoa (ki_rpm ki)) \<rparr>)"

definition bad_key :: refusal where
  "bad_key = \<lparr> rf_error = writeOpenAIError 401
       ''Incorrect API key provided. Get a free key by solving a challenge at /getkey.'' [] ''invalid_api_key'',
     rf_retry_after = None, rf_limit = None \<rparr>"

definition gatewayAuth :: "hashes \<Rightarrow> key_env \<Rightarrow> http_request \<Rightarrow> handler \<Rightarrow> refusal option \<times> handler" where
  "gatewayAuth hs e r h =
     (if \<not> has_prefix (hr_path r) ''/v1/'' then (None, h)
      else
        let requireAuth = authRequired h;
            bearer = trim_prefix (hr_header r ''Authorization'') ''Bearer '';
            (ki, h) = lookupKey hs e bearer h
        in case ki of
             Some ki \<Rightarrow>
               if ki_env ki then (None, h)
               else (case hd_pow h of
                       None \<Rightarrow> (None, h)
                     | Some s \<Rightarrow>
                         (let ((retryAfter, code), s) =
                                checkKeyLimits (ke_now_limit e) (ke_now_until e) (ki_hash ki) (ki_rpm ki) s;
                              h = h\<lparr> hd_pow := Some s \<rparr>
                          in if retryAfter > 0 then (Some (limit_refusal ki retryAfter code), h) else (None, h)))
           | None \<Rightarrow> if bearer = [] \<and> \<not> requireAuth then (None, h) else (Some bad_key, h))"

section \<open>The middleware stack\<close>

record cors_headers =
  co_origin :: string
  co_methods :: string
  co_headers :: string

definition cors :: "config \<Rightarrow> cors_headers" where
  "cors cfg = \<lparr> co_origin = (if CORSOrigin cfg = [] then ''*'' else CORSOrigin cfg),
     co_methods = ''GET, POST, OPTIONS'', co_headers = ''Content-Type, Authorization'' \<rparr>"

definition request_id :: "string \<Rightarrow> http_request \<Rightarrow> string" where
  "request_id fresh r = (if hr_header r ''X-Request-ID'' = [] then fresh else hr_header r ''X-Request-ID'')"

datatype answer = Preflight | Refused refusal | Redirected string | Dispatched endpoint

text \<open>What wraps the multiplexer, outermost first: the request id, CORS, the gateway's keys.\<close>

definition serve_request ::
  "hashes \<Rightarrow> key_env \<Rightarrow> bool \<Rightarrow> http_request \<Rightarrow> handler \<Rightarrow> answer \<times> handler" where
  "serve_request hs e has_store r h =
     (if hr_method r = ''OPTIONS'' then (Preflight, h)
      else (case gatewayAuth hs e r h of
              (Some ref, h) \<Rightarrow> (Refused ref, h)
            | (None, h) \<Rightarrow>
                (case mux (hd_pow h \<noteq> None) has_store (hr_method r) (hr_path r) of
                   Redirect_to p \<Rightarrow> (Redirected p, h)
                 | To ep \<Rightarrow> (Dispatched ep, h))))"

section \<open>The upstream credential\<close>

record auth =
  au_header :: string
  au_value :: string

definition authForEntry :: "string \<Rightarrow> auth" where
  "authForEntry entry =
     (case index_byte entry CHR '':'' of
        Some i \<Rightarrow>
          if i > 0 then \<lparr> au_header = take i entry, au_value = drop (i + 1) entry \<rparr>
          else if has_prefix entry ''public'' then \<lparr> au_header = ''x-api-key'', au_value = entry \<rparr>
          else \<lparr> au_header = ''Authorization'', au_value = ''Bearer '' @ entry \<rparr>
      | None \<Rightarrow>
          if has_prefix entry ''public'' then \<lparr> au_header = ''x-api-key'', au_value = entry \<rparr>
          else \<lparr> au_header = ''Authorization'', au_value = ''Bearer '' @ entry \<rparr>)"

definition isGatewayKey :: "hashes \<Rightarrow> key_env \<Rightarrow> string \<Rightarrow> handler \<Rightarrow> bool \<times> handler" where
  "isGatewayKey hs e k h =
     (if k = [] then (False, h)
      else if k \<in> set (hd_env_keys h) then (True, h)
      else (case hd_pow h of
              None \<Rightarrow> (False, h)
            | Some s \<Rightarrow>
                (case LookupKey (ke_fault e) (ke_now e) (KeyHash hs k) s of
                   (r, s) \<Rightarrow> (r \<noteq> None, h\<lparr> hd_pow := Some s \<rparr>))))"

text \<open>\<open>pick\<close> is the outcome of \<open>rand.IntN\<close>.\<close>

definition fallback_auth :: "nat \<Rightarrow> config \<Rightarrow> auth" where
  "fallback_auth pick cfg =
     (if UpstreamAPIKeys cfg \<noteq> [] then authForEntry (UpstreamAPIKeys cfg ! (pick mod length (UpstreamAPIKeys cfg)))
      else if UpstreamAPIKey cfg \<noteq> [] then
        \<lparr> au_header = ''Authorization'', au_value = ''Bearer '' @ UpstreamAPIKey cfg \<rparr>
      else \<lparr> au_header = ''x-api-key'', au_value = ''public'' \<rparr>)"

definition resolveAuth :: "hashes \<Rightarrow> key_env \<Rightarrow> key_env \<Rightarrow> nat \<Rightarrow> http_request \<Rightarrow> handler \<Rightarrow> auth \<times> handler" where
  "resolveAuth hs e1 e2 pick r h =
     (let xKey = trim_space (hr_header r ''x-api-key'');
          (g1, h) = (if xKey \<noteq> [] then isGatewayKey hs e1 xKey h else (True, h))
      in if xKey \<noteq> [] \<and> \<not> g1 then (\<lparr> au_header = ''x-api-key'', au_value = xKey \<rparr>, h)
         else
           let bearer = trim_space (trim_prefix (hr_header r ''Authorization'') ''Bearer '');
               (g2, h) = (if bearer \<noteq> [] then isGatewayKey hs e2 bearer h else (True, h))
           in if bearer \<noteq> [] \<and> \<not> g2 then
                (\<lparr> au_header = ''Authorization'', au_value = ''Bearer '' @ bearer \<rparr>, h)
              else (fallback_auth pick (hd_cfg h), h))"

definition isPublicTier :: "auth \<Rightarrow> bool" where
  "isPublicTier a \<longleftrightarrow>
     au_header a = ''x-api-key'' \<and> (trim_space (au_value a) = ''public'' \<or> has_prefix (au_value a) ''public'')"

definition retryAfterHeader :: "string option \<Rightarrow> string \<Rightarrow> string" where
  "retryAfterHeader rl fallback = (case rl of Some ra \<Rightarrow> if ra \<noteq> [] then ra else fallback | None \<Rightarrow> fallback)"

end
