(* ===== verification/Gateway_Laws.thy ===== *)
theory Gateway_Laws
  imports Gateway_Http Pow_Limits
begin

text \<open>
  What the middleware stack guarantees: which requests reach an upstream endpoint, whose
  credentials go upstream, and how traffic is grouped.
\<close>

section \<open>The gate\<close>

definition upstream_endpoint :: "endpoint \<Rightarrow> bool" where
  "upstream_endpoint ep \<longleftrightarrow> ep = Models \<or> ep = Chat_completions \<or> (\<exists>i. ep = Model_retrieve i)"

lemma path_id_prefix: "path_id pre p = Some i \<Longrightarrow> has_prefix p pre"
  by (auto simp: path_id_def Let_def split: if_splits)

lemma has_prefix_trans: "has_prefix p q \<Longrightarrow> has_prefix q r \<Longrightarrow> has_prefix p r"
  unfolding has_prefix_def
  by (metis append_take_drop_id length_append length_take linorder_not_less min.absorb2 min_def
      take_all take_take nat_le_iff_add)

lemma upstream_endpoint_simps [simp]:
  "upstream_endpoint Models" "upstream_endpoint Chat_completions" "upstream_endpoint (Model_retrieve i)"
  "\<not> upstream_endpoint Pow_challenge" "\<not> upstream_endpoint Pow_redeem" "\<not> upstream_endpoint Health"
  "\<not> upstream_endpoint Stats_ep" "\<not> upstream_endpoint Api_metrics" "\<not> upstream_endpoint Prometheus_ep"
  "\<not> upstream_endpoint (Manage_api m p)" "\<not> upstream_endpoint V1_fallback" "\<not> upstream_endpoint Spa"
  "\<not> upstream_endpoint Web_ui"
  by (simp_all add: upstream_endpoint_def)

lemma manage_match_Some: "manage_match m p = Some e \<Longrightarrow> e = Manage_api m p"
  unfolding manage_match_def Let_def by (simp split: if_split_asm)

lemma mux_upstream_path:
  assumes "upstream_endpoint (mux_match has_pow st m p)"
  shows "has_prefix p ''/v1/''"
proof (rule ccontr)
  assume n: "\<not> has_prefix p ''/v1/''"
  have pre: "has_prefix ''/v1/models'' ''/v1/''" "has_prefix ''/v1/chat/completions'' ''/v1/''"
      "has_prefix ''/v1/models/'' ''/v1/''"
    by (simp_all add: has_prefix_def)
  define a b where "a \<longleftrightarrow> p = ''/v1/models''" and "b \<longleftrightarrow> p = ''/v1/chat/completions''"
  have "\<not> a" "\<not> b" using n pre by (auto simp: a_def b_def)
  moreover have "path_id ''/v1/models/'' p = None"
    using n pre(3) has_prefix_trans path_id_prefix by (cases "path_id ''/v1/models/'' p") blast+
  moreover have "\<not> upstream_endpoint e" if "manage_match m p = Some e" for e
    using manage_match_Some [OF that] by simp
  ultimately show False
    using assms n unfolding mux_match_def a_def [symmetric] b_def [symmetric]
    by (simp split: if_split_asm option.split_asm)
qed

definition bearer_of :: "http_request \<Rightarrow> string" where
  "bearer_of r = trim_prefix (hr_header r ''Authorization'') ''Bearer ''"

text \<open>The request's key is good: a configured key, or an issued one within its limits.\<close>

definition key_admitted :: "hashes \<Rightarrow> key_env \<Rightarrow> http_request \<Rightarrow> handler \<Rightarrow> bool" where
  "key_admitted hs e r h \<longleftrightarrow>
     bearer_of r \<noteq> []
     \<and> (bearer_of r \<in> set (hd_env_keys h)
        \<or> (\<exists>s plan rpm s'. hd_pow h = Some s
              \<and> LookupKey (ke_fault e) (ke_now e) (KeyHash hs (bearer_of r)) s = (Some (plan, rpm), s')
              \<and> fst (fst (checkKeyLimits (ke_now_limit e) (ke_now_until e)
                     (KeyHash hs (bearer_of r)) rpm s')) \<le> 0))"

lemma gatewayAuth_admits:
  assumes "fst (gatewayAuth hs e r h) = None" "has_prefix (hr_path r) ''/v1/''"
  shows "key_admitted hs e r h \<or> (\<not> authRequired h \<and> bearer_of r = [])"
proof (cases "bearer_of r = []")
  case True
  with assms show ?thesis
    by (auto simp: gatewayAuth_def lookupKey_def Let_def bearer_of_def split: if_splits)
next
  case b: False
  show ?thesis
  proof (cases "bearer_of r \<in> set (hd_env_keys h)")
    case True
    with b show ?thesis by (simp add: key_admitted_def)
  next
    case False
    then obtain s where s: "hd_pow h = Some s"
      using assms b by (cases "hd_pow h") (auto simp: gatewayAuth_def lookupKey_def Let_def bearer_of_def)
    obtain k s' where k: "LookupKey (ke_fault e) (ke_now e) (KeyHash hs (bearer_of r)) s = (k, s')" by fastforce
    have "k \<noteq> None"
      using assms b False s k
      by (auto simp: gatewayAuth_def lookupKey_def Let_def bearer_of_def split: option.splits)
    then obtain plan rpm where p: "k = Some (plan, rpm)" by auto
    obtain ra code s2 where c: "checkKeyLimits (ke_now_limit e) (ke_now_until e)
        (KeyHash hs (bearer_of r)) rpm s' = ((ra, code), s2)" by (metis surj_pair)
    have "ra \<le> 0"
      using assms b False s k p c
      by (auto simp: gatewayAuth_def lookupKey_def Let_def bearer_of_def split: if_splits)
    with b s k p c show ?thesis by (simp add: key_admitted_def)
  qed
qed

text \<open>
  C6: No spelling of a path or method gets around the gate. A request the stack dispatches to an
  endpoint that talks to the upstream (models, one model, chat completions) carries a configured
  key or an issued key within its limits, or the gateway has no keys at all and the request none;
  unclean paths such as \<open>//v1/models\<close>, which the key check does not look at, are only redirected.
\<close>

theorem gate_no_bypass:
  assumes "serve_request hs e st r h = (Dispatched ep, h')" "upstream_endpoint ep"
  shows "key_admitted hs e r h \<or> (\<not> authRequired h \<and> bearer_of r = [])"
proof -
  obtain ref h1 where g: "gatewayAuth hs e r h = (ref, h1)" by fastforce
  with assms(1) have "ref = None"
    by (auto simp: serve_request_def split: if_splits option.splits)
  with assms(1) g have "mux (hd_pow h1 \<noteq> None) st (hr_method r) (hr_path r) = To ep"
    by (auto simp: serve_request_def split: if_splits routed.splits)
  then have "mux_match (hd_pow h1 \<noteq> None) st (hr_method r) (hr_path r) = ep"
    by (auto simp: mux_def split: if_splits)
  with assms(2) have "has_prefix (hr_path r) ''/v1/''" using mux_upstream_path by metis
  with gatewayAuth_admits [of hs e r h] g \<open>ref = None\<close> show ?thesis by simp
qed

text \<open>
  An open gateway turns callers' own credentials away. With no gateway keys and no key service a
  request to \<open>/v1/\<close> without an \<open>Authorization\<close> header passes, but one that brings any bearer
  token, such as the provider key that \<open>resolveAuth\<close> would forward, is refused as a bad key.
\<close>

theorem open_mode_refuses_credentials:
  assumes "\<not> authRequired h" "has_prefix (hr_path r) ''/v1/''"
  shows "fst (gatewayAuth hs e r h) = (if bearer_of r = [] then None else Some bad_key)"
  using assms by (simp add: gatewayAuth_def lookupKey_def authRequired_def bearer_of_def Let_def)

lemma cleanPath_manage: "cleanPath ''/api/manage/accounts'' = ''/api/manage/accounts''"
  by code_simp

text \<open>
  The management interface is outside the gate: creating an upstream account, like every other
  management call, is dispatched whatever keys the gateway has and whatever the caller presents.
\<close>

theorem manage_api_unguarded:
  assumes "hr_method r = ''POST''" "hr_path r = ''/api/manage/accounts''"
  shows "serve_request hs e True r h = (Dispatched (Manage_api ''POST'' ''/api/manage/accounts''), h)"
proof -
  have "\<not> has_prefix ''/api/manage/accounts'' ''/v1/''" "path_id ''/v1/models/'' ''/api/manage/accounts'' = None"
    by (simp_all add: has_prefix_def path_id_def)
  with assms show ?thesis
    by (simp add: serve_request_def gatewayAuth_def mux_def mux_match_def manage_match_def method_is_def
        cleanPath_manage Let_def)
qed

section \<open>The upstream credential\<close>

definition resolved :: "http_request \<Rightarrow> auth \<Rightarrow> bool" where
  "resolved r a \<longleftrightarrow>
     a = \<lparr> au_header = ''x-api-key'', au_value = trim_space (hr_header r ''x-api-key'') \<rparr>
     \<or> a = \<lparr> au_header = ''Authorization'',
            au_value = ''Bearer '' @ trim_space (trim_prefix (hr_header r ''Authorization'') ''Bearer '') \<rparr>"

lemma isGatewayKey_frame:
  "hd_env_keys (snd (isGatewayKey hs e k h)) = hd_env_keys h \<and> hd_cfg (snd (isGatewayKey hs e k h)) = hd_cfg h"
  by (simp add: isGatewayKey_def case_prod_beta split: option.split)

text \<open>
  The gateway's own keys, said of the state alone: the configured ones, and those issued for work that are in
  the cache, or in the table, enabled and not expired, when the look-up does not fail.
\<close>

definition issued_key :: "hashes \<Rightarrow> key_env \<Rightarrow> handler \<Rightarrow> string \<Rightarrow> bool" where
  "issued_key hs e h k \<longleftrightarrow>
     (case hd_pow h of
        None \<Rightarrow> False
      | Some s \<Rightarrow> ps_cache s (KeyHash hs k) \<noteq> None
          \<or> \<not> ke_fault e \<and> (case st_keys (ps_store s) (KeyHash hs k) of
               None \<Rightarrow> False | Some row \<Rightarrow> \<not> kr_disabled row \<and> unix (ke_now e) < ak_expires_at (kr_key row)))"

definition gateway_key :: "hashes \<Rightarrow> key_env \<Rightarrow> handler \<Rightarrow> string \<Rightarrow> bool" where
  "gateway_key hs e h k \<longleftrightarrow> k \<in> set (hd_env_keys h) \<or> issued_key hs e h k"

lemma LookupKey_found:
  "fst (LookupKey f now i s) \<noteq> None \<longleftrightarrow> ps_cache s i \<noteq> None
     \<or> \<not> f \<and> (case st_keys (ps_store s) i of None \<Rightarrow> False | Some row \<Rightarrow> \<not> kr_disabled row \<and> unix now < ak_expires_at (kr_key row))"
  by (auto simp: LookupKey_def GetAPIKey_def keep_rows_def live_row_def split: option.split)

lemma LookupKey_cache_exact:
  "ps_cache (snd (LookupKey f now i s)) j \<noteq> None \<longleftrightarrow> ps_cache s j \<noteq> None \<or> j = i \<and> fst (LookupKey f now i s) \<noteq> None"
  by (auto simp: LookupKey_def split: option.split sum.split)

lemma LookupKey_store: "ps_store (snd (LookupKey f now i s)) = ps_store s"
  by (simp add: LookupKey_def split: option.split sum.split)

lemma isGatewayKey_iff: "k \<noteq> [] \<Longrightarrow> fst (isGatewayKey hs e k h) \<longleftrightarrow> gateway_key hs e h k"
  using LookupKey_found [of "ke_fault e" "ke_now e" "KeyHash hs k"]
  by (auto simp: isGatewayKey_def gateway_key_def issued_key_def case_prod_beta split: option.split)

text \<open>A look-up that finds an issued key puts it into the cache, and changes nothing else that is asked.\<close>

lemma gateway_key_after:
  assumes "k \<noteq> []"
  shows "gateway_key hs e2 (snd (isGatewayKey hs e1 k h)) j \<longleftrightarrow> gateway_key hs e2 h j
    \<or> k \<notin> set (hd_env_keys h) \<and> issued_key hs e1 h k \<and> KeyHash hs j = KeyHash hs k"
proof (cases "k \<in> set (hd_env_keys h)")
  case True
  then show ?thesis using assms by (simp add: isGatewayKey_def)
next
  case False
  show ?thesis
  proof (cases "hd_pow h")
    case None
    with False assms show ?thesis by (simp add: isGatewayKey_def issued_key_def)
  next
    case (Some s)
    have t: "snd (isGatewayKey hs e1 k h) = h\<lparr> hd_pow := Some (snd (LookupKey (ke_fault e1) (ke_now e1) (KeyHash hs k) s)) \<rparr>"
      using False assms by (simp add: isGatewayKey_def Some case_prod_beta)
    have i: "issued_key hs e1 h k \<longleftrightarrow> fst (LookupKey (ke_fault e1) (ke_now e1) (KeyHash hs k) s) \<noteq> None"
      by (simp only: issued_key_def Some option.case LookupKey_found)
    show ?thesis
      unfolding i t gateway_key_def
      using False LookupKey_cache_exact [of "ke_fault e1" "ke_now e1" "KeyHash hs k" s "KeyHash hs j"]
      by (auto simp: issued_key_def Some LookupKey_store)
  qed
qed

text \<open>
  C32: The gateway's own keys stay with the gateway. The credential sent upstream is settled by both
  headers together: the token of \<^verbatim>\<open>x-api-key\<close> if there is one and it is not the gateway's, as it came up to surrounding blanks; else the
  bearer token if there is one and it is not the gateway's; else the configured credential. The gateway's
  are the configured keys and the keys issued for work, cached or valid in the table. A key whose row has expired and
  is not cached, or whose look-up fails just then, counts as the client's. (A key found in the first header is cached, hence
  known in the second.)
\<close>

theorem gateway_key_not_forwarded:
  "let x = trim_space (hr_header r ''x-api-key'');
       b = trim_space (trim_prefix (hr_header r ''Authorization'') ''Bearer '');
       again = (x \<noteq> [] \<and> x \<notin> set (hd_env_keys h) \<and> issued_key hs e1 h x \<and> KeyHash hs b = KeyHash hs x)
   in fst (resolveAuth hs e1 e2 pick r h) =
        (if x \<noteq> [] \<and> \<not> gateway_key hs e1 h x then \<lparr> au_header = ''x-api-key'', au_value = x \<rparr>
         else if b \<noteq> [] \<and> \<not> gateway_key hs e2 h b \<and> \<not> again
         then \<lparr> au_header = ''Authorization'', au_value = ''Bearer '' @ b \<rparr>
         else fallback_auth pick (hd_cfg h))"
proof -
  define x b where "x = trim_space (hr_header r ''x-api-key'')"
    and "b = trim_space (trim_prefix (hr_header r ''Authorization'') ''Bearer '')"
  note defs = x_def [symmetric] b_def [symmetric]
  define h1 where "h1 = (if x \<noteq> [] then snd (isGatewayKey hs e1 x h) else h)"
  have c: "hd_cfg h1 = hd_cfg h" "hd_cfg (snd (isGatewayKey hs e2 b h1)) = hd_cfg h"
    using isGatewayKey_frame by (simp_all add: h1_def)
  have k1: "x \<noteq> [] \<Longrightarrow> fst (isGatewayKey hs e1 x h) = gateway_key hs e1 h x" by (rule isGatewayKey_iff)
  have k2: "b \<noteq> [] \<Longrightarrow> fst (isGatewayKey hs e2 b h1) \<longleftrightarrow> gateway_key hs e2 h b
      \<or> x \<noteq> [] \<and> x \<notin> set (hd_env_keys h) \<and> issued_key hs e1 h x \<and> KeyHash hs b = KeyHash hs x"
    using isGatewayKey_iff [of b hs e2 h1] gateway_key_after [of x hs e2 e1 h b] by (auto simp: h1_def)
  have "fst (resolveAuth hs e1 e2 pick r h) =
      (if x \<noteq> [] \<and> \<not> fst (isGatewayKey hs e1 x h) then \<lparr> au_header = ''x-api-key'', au_value = x \<rparr>
       else if b \<noteq> [] \<and> \<not> fst (isGatewayKey hs e2 b h1) then \<lparr> au_header = ''Authorization'', au_value = ''Bearer '' @ b \<rparr>
       else fallback_auth pick (hd_cfg h))"
    using c by (auto simp: resolveAuth_def defs Let_def case_prod_beta h1_def)
  with k1 k2 show ?thesis unfolding defs Let_def by (auto split: if_splits)
qed

section \<open>Traffic grouping\<close>

lemma trim_char_edges:
  assumes "trim_char c s \<noteq> []"
  shows "hd (trim_char c s) \<noteq> c \<and> last (trim_char c s) \<noteq> c"
proof -
  let ?d = "dropWhile (\<lambda>x. x = c) s"
  have t: "trim_char c s = rev (dropWhile (\<lambda>x. x = c) (rev ?d))" by (simp add: trim_char_def trim_right_char_def)
  have "last (trim_char c s) \<noteq> c"
    unfolding t using assms hd_dropWhile [of "\<lambda>x. x = c" "rev ?d"] by (simp add: t last_rev del: dropWhile_eq_Nil_conv)
  moreover have "hd (trim_char c s) \<noteq> c"
  proof -
    from assms have ne: "?d \<noteq> []" unfolding t by (metis dropWhile.simps(1) rev.simps(1))
    have "?d = trim_char c s @ rev (takeWhile (\<lambda>x. x = c) (rev ?d))"
      unfolding t by (metis rev_append rev_rev_ident takeWhile_dropWhile_id)
    then have "hd ?d = hd (trim_char c s)" using assms by (metis hd_append2)
    moreover have "hd ?d \<noteq> c" by (rule hd_dropWhile [OF ne])
    ultimately show ?thesis by simp
  qed
  ultimately show ?thesis by simp
qed

definition group_segment :: "string \<Rightarrow> string" where
  "group_segment seg = (if isDynamicSegment seg then ''{id}'' else seg)"

lemma not_dynamic_Nil: "\<not> isDynamicSegment []"
  by (simp add: isDynamicSegment_def)

lemma route_fold:
  "b \<noteq> [] \<Longrightarrow> foldl route_step b segs = b @ concat (map (\<lambda>s. ''/'' @ group_segment s) segs)"
  by (induction segs arbitrary: b) (auto simp: route_step_def Let_def group_segment_def not_dynamic_Nil)

lemma concat_slash: "segs \<noteq> [] \<Longrightarrow> concat (map (\<lambda>s. ''/'' @ s) segs) = CHR ''/'' # join ''/'' segs"
  by (induction segs rule: induct_list012) simp_all

lemma route_fold_path:
  assumes "trim_char CHR ''/'' path \<noteq> []"
  shows "foldl route_step [] (split_on CHR ''/'' (trim_char CHR ''/'' path))
    = CHR ''/'' # join ''/'' (map group_segment (split_on CHR ''/'' (trim_char CHR ''/'' path)))"
proof -
  define p where "p = trim_char CHR ''/'' path"
  obtain c cs where p: "p = c # cs" "c \<noteq> CHR ''/''"
    using assms trim_char_edges [OF assms] by (cases p) (auto simp: p_def)
  then obtain w ws where sp: "split_on CHR ''/'' p = (c # w) # ws"
    by (cases "split_on CHR ''/'' cs") auto
  have first: "route_step [] (c # w) = ''/'' @ group_segment (c # w)"
    by (simp add: route_step_def group_segment_def)
  have "foldl route_step [] (split_on CHR ''/'' p) = foldl route_step (''/'' @ group_segment (c # w)) ws"
    by (simp add: sp first)
  also have "\<dots> = concat (map (\<lambda>s. ''/'' @ s) (map group_segment (split_on CHR ''/'' p)))"
    by (subst route_fold) (simp_all add: sp comp_def)
  also have "\<dots> = CHR ''/'' # join ''/'' (map group_segment (split_on CHR ''/'' p))"
    by (rule concat_slash) (simp add: sp)
  finally show ?thesis by (simp add: p_def)
qed

lemma split_on_free_all: "\<forall>w \<in> set (split_on c s). c \<notin> set w"
  by (induction s) (auto split: list.splits)

lemma group_segment_ok: "CHR ''/'' \<notin> set s \<Longrightarrow> CHR ''/'' \<notin> set (group_segment s) \<and> \<not> isDynamicSegment (group_segment s)"
  by (auto simp: group_segment_def isDynamicSegment_def is_digit_def)

text \<open>
  Traffic is grouped, not enumerated. The key under which a request is accounted never contains an
  identifier: apart from the fixed routes and the two placeholder groups, every segment of it is
  static (no number, no hexadecimal blob, nothing of twenty characters or more).
\<close>

theorem grouping_has_no_identifiers:
  assumes "trim_char CHR ''/'' path \<noteq> []" "path \<notin> set fixed_routes"
    and "\<not> has_prefix path ''/v1/models/''" "\<not> list_ex (has_suffix path) ui_suffixes"
  shows "\<forall>seg \<in> set (split_on CHR ''/'' (normalizeRoute m path)). \<not> isDynamicSegment seg"
proof -
  define gs where "gs = map group_segment (split_on CHR ''/'' (trim_char CHR ''/'' path))"
  have gs: "gs \<noteq> []" "\<forall>g \<in> set gs. CHR ''/'' \<notin> set g \<and> \<not> isDynamicSegment g"
    using split_on_free_all [of "CHR ''/''" "trim_char CHR ''/'' path"] by (auto simp: gs_def dest: group_segment_ok)
  have f: "foldl route_step [] (split_on CHR ''/'' (trim_char CHR ''/'' path)) = CHR ''/'' # join ''/'' gs"
    using route_fold_path [OF assms(1)] by (simp add: gs_def)
  have ne: "join ''/'' gs \<noteq> []"
  proof -
    have "split_on CHR ''/'' (join ''/'' gs) = gs" using gs by (intro split_on_join) auto
    moreover have "gs \<noteq> [[]]"
      using assms(1) trim_char_edges [OF assms(1)]
      by (cases "trim_char CHR ''/'' path")
        (auto simp: gs_def group_segment_def split: list.splits if_splits)
    ultimately show ?thesis by auto
  qed
  have "normalizeRoute m path = CHR ''/'' # join ''/'' gs"
    using assms(2-4) ne by (simp add: normalizeRoute_def f)
  moreover have "split_on CHR ''/'' (CHR ''/'' # join ''/'' gs) = [] # gs"
    using gs by (simp add: split_on_join)
  ultimately show ?thesis using gs by (auto simp: not_dynamic_Nil)
qed

section \<open>Concrete requests\<close>

definition demo_handler :: "string list \<Rightarrow> handler" where
  "demo_handler keys = \<lparr> hd_cfg = DefaultConfig, hd_driver = ''zen'', hd_env_keys = keys, hd_pow = None \<rparr>"

definition demo_http :: "string \<Rightarrow> string \<Rightarrow> string \<Rightarrow> http_request" where
  "demo_http m p authz = \<lparr> hr_method = m, hr_path = p,
     hr_header = (\<lambda>k. if k = ''Authorization'' then authz else []) \<rparr>"

definition demo_key_env :: key_env where
  "demo_key_env = \<lparr> ke_fault = False, ke_now = 0, ke_now_limit = 0, ke_now_until = 0 \<rparr>"

definition no_hashes :: hashes where
  "no_hashes = \<lparr> sha256_sum = (\<lambda>_. replicate 32 0), blake3_sum = (\<lambda>_. replicate 32 0) \<rparr>"

lemma demo_models:
  "serve_request no_hashes demo_key_env False (demo_http ''GET'' ''/v1/models'' ''Bearer k'') (demo_handler [''k''])
     = (Dispatched Models, demo_handler [''k''])"
proof -
  have "cleanPath ''/v1/models'' = ''/v1/models''" by code_simp
  then show ?thesis
    by (simp add: serve_request_def gatewayAuth_def lookupKey_def demo_http_def demo_handler_def mux_def
        mux_match_def method_is_def has_prefix_def trim_prefix_def Let_def)
qed

theorem gate_no_bypass_witness:
  "key_admitted no_hashes demo_key_env (demo_http ''GET'' ''/v1/models'' ''Bearer k'') (demo_handler [''k''])"
proof -
  have "authRequired (demo_handler [''k''])" by (simp add: authRequired_def demo_handler_def)
  with gate_no_bypass [OF demo_models] show ?thesis by (simp add: demo_handler_def)
qed

theorem open_mode_refuses_credentials_witness:
  "fst (gatewayAuth no_hashes demo_key_env (demo_http ''POST'' ''/v1/chat/completions'' ''Bearer sk-ant-1'')
      (demo_handler [])) = Some bad_key"
proof -
  have "\<not> authRequired (demo_handler [])" "has_prefix (hr_path (demo_http ''POST'' ''/v1/chat/completions'' ''Bearer sk-ant-1'')) ''/v1/''"
    "bearer_of (demo_http ''POST'' ''/v1/chat/completions'' ''Bearer sk-ant-1'') = ''sk-ant-1''"
    by (simp_all add: authRequired_def demo_handler_def demo_http_def bearer_of_def trim_prefix_def has_prefix_def)
  with open_mode_refuses_credentials [OF this(1,2)] show ?thesis by simp
qed

theorem manage_api_unguarded_witness:
  "fst (serve_request no_hashes demo_key_env True (demo_http ''POST'' ''/api/manage/accounts'' []) (demo_handler [''k'']))
     = Dispatched (Manage_api ''POST'' ''/api/manage/accounts'')"
  using manage_api_unguarded [of "demo_http ''POST'' ''/api/manage/accounts'' []" no_hashes demo_key_env "demo_handler [''k'']"]
  by (simp add: demo_http_def)

text \<open>A configured key in the bearer header is not sent on; a client's own key beside it is.\<close>

theorem gateway_key_not_forwarded_witness:
  "fst (resolveAuth no_hashes demo_key_env demo_key_env 0 (demo_http ''GET'' ''/v1/models'' ''Bearer k'') (demo_handler [''k'']))
     = \<lparr> au_header = ''x-api-key'', au_value = ''public'' \<rparr>
   \<and> fst (resolveAuth no_hashes demo_key_env demo_key_env 0
       ((demo_http ''GET'' ''/v1/models'' ''Bearer k'')\<lparr> hr_header := (\<lambda>n. if n = ''x-api-key'' then ''own'' else ''Bearer k'') \<rparr>)
       (demo_handler [''k'']))
     = \<lparr> au_header = ''x-api-key'', au_value = ''own'' \<rparr>"
proof -
  let ?r = "demo_http ''GET'' ''/v1/models'' ''Bearer k''"
  let ?q = "?r\<lparr> hr_header := (\<lambda>n. if n = ''x-api-key'' then ''own'' else ''Bearer k'') \<rparr>"
  have x: "trim_space (hr_header ?r ''x-api-key'') = []" "trim_space ''own'' = ''own''"
    "trim_space (trim_prefix (hr_header ?r ''Authorization'') ''Bearer '') = ''k''"
    by (simp_all add: demo_http_def trim_prefix_def has_prefix_def trim_space_def is_space_def)
  have g: "gateway_key no_hashes demo_key_env (demo_handler [''k'']) ''k''" "\<not> gateway_key no_hashes demo_key_env (demo_handler [''k'']) ''own''"
    by (simp_all add: gateway_key_def issued_key_def demo_handler_def)
  have f: "fallback_auth 0 (hd_cfg (demo_handler [''k''])) = \<lparr> au_header = ''x-api-key'', au_value = ''public'' \<rparr>"
    by (simp add: fallback_auth_def DefaultConfig_def demo_handler_def)
  show ?thesis
    using gateway_key_not_forwarded [of ?r "demo_handler [''k'']" no_hashes demo_key_env demo_key_env 0]
      gateway_key_not_forwarded [of ?q "demo_handler [''k'']" no_hashes demo_key_env demo_key_env 0]
    by (simp add: x g f Let_def)
qed

theorem grouping_has_no_identifiers_witness:
  "list_all (\<lambda>seg. \<not> isDynamicSegment seg) (split_on CHR ''/'' (normalizeRoute ''PUT'' ''/api/manage/accounts/42''))"
proof -
  have "trim_char CHR ''/'' ''/api/manage/accounts/42'' \<noteq> []" "''/api/manage/accounts/42'' \<notin> set fixed_routes"
    "\<not> has_prefix ''/api/manage/accounts/42'' ''/v1/models/''"
    "\<not> list_ex (has_suffix ''/api/manage/accounts/42'') ui_suffixes"
    by (simp_all add: trim_char_def trim_right_char_def fixed_routes_def has_prefix_def has_suffix_def ui_suffixes_def)
  from grouping_has_no_identifiers [OF this, of "''PUT''"] show ?thesis by (simp add: list_all_iff)
qed

end
