(* ===== verification/Stream_Tools.thy ===== *)
theory Stream_Tools
  imports Prelude "HOL-Library.Multiset"
begin

text \<open>
  \<^verbatim>\<open>internal/handler/tools.go\<close> and the stream relay \<open>handleStreamResponse\<close> of
  \<^verbatim>\<open>internal/handler/handler.go\<close>: generic JSON values, the web-search tool's injection and replay,
  the assembly of streamed tool calls, and the line-by-line relay that withholds them. The
  decoding of a chunk's text into the struct the code declares is \<open>encoding/json\<close>, an argument.
\<close>

section \<open>JSON values\<close>

text \<open>
  \<open>map[string]any\<close> as an association list without repeated keys; encoding orders the keys, so the
  list's order is not significant. A number is what Go prints for the \<open>float64\<close> it decodes to.
\<close>

datatype json =
    JNull
  | JBool bool
  | JNum string
  | JStr string
  | JArr "json list"
  | JObj "(string \<times> json) list"

definition field :: "string \<Rightarrow> (string \<times> json) list \<Rightarrow> json" where
  "field k m = (case map_of m k of Some v \<Rightarrow> v | None \<Rightarrow> JNull)"

definition set_field :: "string \<Rightarrow> json \<Rightarrow> (string \<times> json) list \<Rightarrow> (string \<times> json) list" where
  "set_field k v m = filter (\<lambda>kv. fst kv \<noteq> k) m @ [(k, v)]"

text \<open>The checked assertions \<open>x.([]any)\<close>, \<open>x.(map[string]any)\<close>, \<open>x.(string)\<close> with their zero values.\<close>

fun as_arr :: "json \<Rightarrow> json list" where
  "as_arr (JArr xs) = xs"
| "as_arr _ = []"

fun as_obj :: "json \<Rightarrow> (string \<times> json) list" where
  "as_obj (JObj m) = m"
| "as_obj _ = []"

fun as_str :: "json \<Rightarrow> string" where
  "as_str (JStr s) = s"
| "as_str _ = []"

fun is_obj :: "json \<Rightarrow> bool" where
  "is_obj (JObj m) = True"
| "is_obj _ = False"

lemma field_set_field [simp]: "field k (set_field j v m) = (if k = j then v else field k m)"
proof -
  have "map_of (filter (\<lambda>kv. fst kv \<noteq> j) m) k = (if k = j then None else map_of m k)"
    by (induction m) auto
  then show ?thesis by (simp add: field_def set_field_def map_of_append map_add_def split: option.split)
qed

section \<open>Tool calls\<close>

definition webSearchToolName :: string where "webSearchToolName = ''web_search''"

record accum =
  ac_id :: string
  ac_type :: string
  ac_name :: string
  ac_args :: string

text \<open>One raw call object.\<close>

definition call_object :: "accum \<Rightarrow> json" where
  "call_object a = JObj [(''id'', JStr (ac_id a)),
     (''type'', JStr (if ac_type a = [] then ''function'' else ac_type a)),
     (''function'', JObj [(''name'', JStr (ac_name a)), (''arguments'', JStr (ac_args a))])]"

definition assembleToolCalls :: "(int \<Rightarrow> accum option) \<Rightarrow> int list \<Rightarrow> json list" where
  "assembleToolCalls accs order =
     concat (map (\<lambda>i. case accs i of
                        None \<Rightarrow> []
                      | Some a \<Rightarrow> if ac_name a = [] then [] else [call_object a]) order)"

definition toolCallName :: "json \<Rightarrow> string" where
  "toolCallName call = as_str (field ''name'' (as_obj (field ''function'' (as_obj call))))"

definition allWebSearch :: "json list \<Rightarrow> bool" where
  "allWebSearch calls \<longleftrightarrow> list_all (\<lambda>c. toolCallName c = webSearchToolName) calls \<and> calls \<noteq> []"

definition messageToolCalls :: "(string \<times> json) list \<Rightarrow> json list" where
  "messageToolCalls message = filter is_obj (as_arr (field ''tool_calls'' message))"

text \<open>
  \<open>tool\<close> is \<open>websearch.ToolDefinition()\<close>. A body is given decoded, \<open>None\<close> when it does not decode
  into a map; the literal \<open>null\<close>, which decodes into a nil map, never gets here, because the
  request's fields are validated first.
\<close>

type_synonym body = "(string \<times> json) list option"

definition injectWebSearchTool :: "json \<Rightarrow> body \<Rightarrow> body \<times> bool" where
  "injectWebSearchTool tool body =
     (case body of
        Some m \<Rightarrow>
          let tools = as_arr (field ''tools'' m)
          in if list_ex (\<lambda>t. is_obj t \<and> as_str (field ''name'' (as_obj (field ''function'' (as_obj t)))) = webSearchToolName) tools
             then (body, False)
             else (Some (set_field ''tools'' (JArr (tools @ [tool])) m), True)
      | None \<Rightarrow> (body, False))"

text \<open>The assistant's turn and one tool message per call, appended to the conversation.\<close>

definition tool_message :: "json \<times> string \<Rightarrow> json" where
  "tool_message cr =
     JObj [(''role'', JStr ''tool''), (''tool_call_id'', JStr (as_str (field ''id'' (as_obj (fst cr))))),
           (''name'', JStr (toolCallName (fst cr))), (''content'', JStr (snd cr))]"

definition appendToolResults :: "body \<Rightarrow> json list \<Rightarrow> string list \<Rightarrow> body" where
  "appendToolResults body calls results =
     (case body of
        Some m \<Rightarrow>
          let asst = JObj [(''role'', JStr ''assistant''), (''content'', JNull), (''tool_calls'', JArr calls)]
          in Some (set_field ''messages''
               (JArr (as_arr (field ''messages'' m) @ [asst] @ map tool_message (zip calls results))) m)
      | None \<Rightarrow> None)"

text \<open>\<open>execWebSearchTools\<close>: \<open>run\<close> is the search service, \<open>Inl\<close> its error.\<close>

definition execWebSearchTools :: "(string \<Rightarrow> string + string) \<Rightarrow> json list \<Rightarrow> string list" where
  "execWebSearchTools run calls =
     map (\<lambda>c. case run (as_str (field ''arguments'' (as_obj (field ''function'' (as_obj c))))) of
                Inl err \<Rightarrow> ''web_search failed: '' @ err
              | Inr content \<Rightarrow> content) calls"

section \<open>The stream relay\<close>

record usage =
  us_prompt :: int
  us_completion :: int
  us_total :: int
  us_cached :: int

definition no_usage :: usage where
  "no_usage = \<lparr> us_prompt = 0, us_completion = 0, us_total = 0, us_cached = 0 \<rparr>"

record tool_delta =
  td_index :: int
  td_id :: string
  td_type :: string
  td_name :: string
  td_args :: string

record choice_delta =
  cd_tools :: "tool_delta list"
  cd_finish :: "string option"

record chunk =
  ck_usage :: "usage option"
  ck_choices :: "choice_delta list"

text \<open>What the client is sent: a relayed line, the synthesised usage chunk, an error event.\<close>

datatype sse = Sse_line string | Sse_usage usage | Sse_error string

record stream =
  st_out :: "sse list"
  st_usage :: usage
  st_saw :: bool
  st_buf :: "string list"
  st_accs :: "int \<Rightarrow> accum option"
  st_order :: "int list"
  st_finish :: bool

definition stream_start :: stream where
  "stream_start = \<lparr> st_out = [], st_usage = no_usage, st_saw = False, st_buf = [],
     st_accs = (\<lambda>_. None), st_order = [], st_finish = False \<rparr>"

definition emit :: "sse list \<Rightarrow> stream \<Rightarrow> stream" where
  "emit xs s = s\<lparr> st_out := st_out s @ xs \<rparr>"

definition flushBuffered :: "stream \<Rightarrow> stream" where
  "flushBuffered s = (emit (map Sse_line (st_buf s)) s)\<lparr> st_buf := [] \<rparr>"

definition add_delta :: "tool_delta \<Rightarrow> stream \<Rightarrow> stream" where
  "add_delta tc s =
     (let a = (case st_accs s (td_index tc) of
                 Some a \<Rightarrow> a | None \<Rightarrow> \<lparr> ac_id = [], ac_type = [], ac_name = [], ac_args = [] \<rparr>);
          order = (case st_accs s (td_index tc) of Some _ \<Rightarrow> st_order s | None \<Rightarrow> st_order s @ [td_index tc]);
          a = (if td_id tc \<noteq> [] then a\<lparr> ac_id := td_id tc \<rparr> else a);
          a = (if td_type tc \<noteq> [] then a\<lparr> ac_type := td_type tc \<rparr> else a);
          a = (if td_name tc \<noteq> [] then a\<lparr> ac_name := td_name tc \<rparr> else a);
          a = a\<lparr> ac_args := ac_args a @ td_args tc \<rparr>
      in s\<lparr> st_accs := (st_accs s)(td_index tc \<mapsto> a), st_order := order \<rparr>)"

text \<open>The effects of a decoded chunk: usage and call fragments.\<close>

definition see_chunk :: "chunk \<Rightarrow> stream \<Rightarrow> stream" where
  "see_chunk c s =
     (let s = (case ck_usage c of
                 Some u \<Rightarrow> if us_total u > 0 then s\<lparr> st_usage := u, st_saw := True \<rparr> else s
               | None \<Rightarrow> s)
      in fold add_delta (concat (map cd_tools (ck_choices c))) s)"

definition has_tool_delta :: "chunk \<Rightarrow> bool" where
  "has_tool_delta c \<longleftrightarrow> list_ex (\<lambda>ch. cd_tools ch \<noteq> []) (ck_choices c)"

definition finish_tool_calls :: "chunk \<Rightarrow> bool" where
  "finish_tool_calls c \<longleftrightarrow> list_ex (\<lambda>ch. cd_finish ch = Some ''tool_calls'') (ck_choices c)"

text \<open>How a line leaves the loop: go on, stop reading, or return at once (with the calls).\<close>

datatype flow = Next | Stop | Return "json list"

text \<open>
  One line of the upstream's body. \<open>wok\<close> says whether the write of this line succeeds; \<open>decode\<close> is
  the decoding of a data line's payload.
\<close>

definition relay_line ::
  "(string \<Rightarrow> chunk option) \<Rightarrow> bool \<Rightarrow> bool \<Rightarrow> bool \<Rightarrow> string \<Rightarrow> stream \<Rightarrow> flow \<times> stream" where
  "relay_line decode includeUsage intercept wok line s =
     (if has_prefix line ''data: '' then
        let data = trim_space (trim_prefix line ''data: '')
        in if data = ''[DONE]'' then
             let calls = assembleToolCalls (st_accs s) (st_order s)
             in if intercept \<and> st_finish s \<and> allWebSearch calls then (Return calls, s\<lparr> st_buf := [] \<rparr>)
                else
                  let s = flushBuffered s;
                      s = (if includeUsage \<and> \<not> st_saw s \<and> us_total (st_usage s) > 0
                           then emit [Sse_usage (st_usage s)] s else s)
                  in if wok then (Next, emit [Sse_line line] s) else (Stop, s)
           else
             let dec = decode data;
                 s = (case dec of None \<Rightarrow> s | Some c \<Rightarrow> see_chunk c s);
                 hasToolDelta = (case dec of None \<Rightarrow> False | Some c \<Rightarrow> has_tool_delta c);
                 isFinish = (case dec of None \<Rightarrow> False | Some c \<Rightarrow> finish_tool_calls c)
             in if intercept \<and> (hasToolDelta \<or> isFinish) then
                  (Next, s\<lparr> st_finish := (st_finish s \<or> isFinish), st_buf := st_buf s @ [line] \<rparr>)
                else let s = flushBuffered s
                     in if wok then (Next, emit [Sse_line line] s) else (Return [], s)
      else if wok then (Next, emit [Sse_line line] s) else (Return [], s))"

text \<open>
  The relay of a body given as its lines, each with whether it can be written. \<open>broken\<close> says that
  the body ended in an error rather than at its end.
\<close>

fun relay_lines ::
  "(string \<Rightarrow> chunk option) \<Rightarrow> bool \<Rightarrow> bool \<Rightarrow> (string \<times> bool) list \<Rightarrow> stream \<Rightarrow> json list option \<times> stream" where
  "relay_lines decode iu ic [] s = (None, s)"
| "relay_lines decode iu ic ((line, wok) # rest) s =
     (case relay_line decode iu ic wok line s of
        (Next, s) \<Rightarrow> relay_lines decode iu ic rest s
      | (Stop, s) \<Rightarrow> (None, s)
      | (Return calls, s) \<Rightarrow> (Some calls, s))"

definition interrupted_text :: string where
  "interrupted_text = ''The upstream connection was interrupted before the response completed.''"

definition handleStreamResponse ::
  "(string \<Rightarrow> chunk option) \<Rightarrow> bool \<Rightarrow> bool \<Rightarrow> (string \<times> bool) list \<Rightarrow> bool
     \<Rightarrow> sse list \<times> usage \<times> json list" where
  "handleStreamResponse decode includeUsage intercept lines broken =
     (case relay_lines decode includeUsage intercept lines stream_start of
        (Some calls, s) \<Rightarrow> (st_out s, st_usage s, calls)
      | (None, s) \<Rightarrow>
          let s = flushBuffered s;
              s = (if broken then emit [Sse_error interrupted_text] s else s)
          in (st_out s, st_usage s, []))"

section \<open>What the relay does to the lines\<close>

definition sent :: "sse list \<Rightarrow> string list" where
  "sent xs = concat (map (\<lambda>x. case x of Sse_line l \<Rightarrow> [l] | _ \<Rightarrow> []) xs)"

lemma sent_simps [simp]: "sent [] = []" "sent (xs @ ys) = sent xs @ sent ys" "sent (map Sse_line ls) = ls"
    "sent (Sse_line l # xs) = l # sent xs" "sent (Sse_usage u # xs) = sent xs"
    "sent (Sse_error e # xs) = sent xs"
  by (simp_all add: sent_def comp_def)

lemma add_delta_frame [simp]:
  "st_out (add_delta tc s) = st_out s" "st_buf (add_delta tc s) = st_buf s"
  "st_saw (add_delta tc s) = st_saw s" "st_usage (add_delta tc s) = st_usage s"
  "st_finish (add_delta tc s) = st_finish s"
  by (simp_all add: add_delta_def Let_def)

lemma fold_add_delta_frame [simp]:
  "st_out (fold add_delta tcs s) = st_out s" "st_buf (fold add_delta tcs s) = st_buf s"
  "st_saw (fold add_delta tcs s) = st_saw s" "st_usage (fold add_delta tcs s) = st_usage s"
  "st_finish (fold add_delta tcs s) = st_finish s"
  by (induction tcs arbitrary: s; simp)+

lemma see_chunk_frame [simp]:
  "st_out (see_chunk c s) = st_out s" "st_buf (see_chunk c s) = st_buf s"
  "st_finish (see_chunk c s) = st_finish s"
  by (simp_all add: see_chunk_def Let_def split: option.split)

lemma flush_frame [simp]:
  "st_out (flushBuffered s) = st_out s @ map Sse_line (st_buf s)" "st_buf (flushBuffered s) = []"
  "st_saw (flushBuffered s) = st_saw s" "st_usage (flushBuffered s) = st_usage s"
  by (simp_all add: flushBuffered_def emit_def)

lemma emit_frame [simp]:
  "st_out (emit xs s) = st_out s @ xs" "st_buf (emit xs s) = st_buf s"
  "st_saw (emit xs s) = st_saw s" "st_usage (emit xs s) = st_usage s"
  by (simp_all add: emit_def)

lemma relay_line_plain:
  "\<exists>u. relay_line decode False False True line s = (Next, u) \<and> st_buf u = []
     \<and> st_out u = st_out s @ [Sse_line line]"
  if "st_buf s = []"
  using that by (simp add: relay_line_def Let_def split: option.split)

lemma relay_lines_plain:
  "st_buf s = [] \<Longrightarrow> list_all snd lines \<Longrightarrow>
     \<exists>u. relay_lines decode False False lines s = (None, u) \<and> st_buf u = []
       \<and> st_out u = st_out s @ map (Sse_line \<circ> fst) lines"
proof (induction lines arbitrary: s)
  case Nil
  then show ?case by simp
next
  case (Cons x lines)
  obtain line wok where x: "x = (line, wok)" by fastforce
  obtain u where u: "relay_line decode False False True line s = (Next, u)" "st_buf u = []"
      "st_out u = st_out s @ [Sse_line line]"
    using relay_line_plain [OF Cons.prems(1)] by blast
  with Cons.IH [of u] Cons.prems(2) x show ?case by auto
qed

text \<open>
  Without the search tool the relay is transparent: the client receives every line of the upstream's
  body, unchanged and in order, and nothing else except one final error event when the upstream's
  connection broke before the end.
\<close>

theorem stream_transparent:
  assumes "list_all snd lines"
  shows "fst (handleStreamResponse decode False False lines broken)
    = map (Sse_line \<circ> fst) lines @ (if broken then [Sse_error interrupted_text] else [])"
proof -
  have "st_buf stream_start = []" "st_out stream_start = []" by (simp_all add: stream_start_def)
  with relay_lines_plain [OF this(1) assms, of decode] show ?thesis
    by (auto simp: handleStreamResponse_def Let_def)
qed

definition in_flight :: "stream \<Rightarrow> string multiset" where
  "in_flight s = mset (sent (st_out s)) + mset (st_buf s)"

lemma relay_line_keeps:
  assumes "relay_line decode iu ic True line s = (f, u)" "f = Next"
  shows "in_flight u = in_flight s + {#line#}"
  using assms
  by (auto simp: relay_line_def Let_def in_flight_def split: if_splits option.splits)

lemma relay_line_no_stop: "relay_line decode iu ic True line s \<noteq> (Stop, u)"
  by (simp add: relay_line_def Let_def split: option.split)

lemma relay_line_return:
  assumes "relay_line decode iu ic wok line s = (Return calls, u)" "calls \<noteq> []"
  shows "ic \<and> allWebSearch calls"
  using assms by (auto simp: relay_line_def Let_def split: if_splits option.splits)

lemma relay_line_done_calls: "relay_line decode iu ic True line s = (Return calls, u) \<Longrightarrow> calls \<noteq> []"
  by (auto simp: relay_line_def Let_def allWebSearch_def split: if_splits option.splits)

text \<open>Whether or not the write succeeds, a line adds at most itself to what is sent or withheld.\<close>

lemma relay_line_at_most:
  assumes "relay_line decode iu ic wok line s = (f, u)"
  shows "in_flight u \<subseteq># in_flight s + {#line#}"
  using assms
  by (auto simp: relay_line_def Let_def in_flight_def split: if_splits option.splits)

lemma relay_lines_at_most:
  "relay_lines decode iu ic lines s = (r, u) \<Longrightarrow> in_flight u \<subseteq># in_flight s + mset (map fst lines)"
proof (induction lines arbitrary: s)
  case Nil
  then show ?case by simp
next
  case (Cons x lines)
  obtain line wok where x: "x = (line, wok)" by fastforce
  obtain f v where l: "relay_line decode iu ic wok line s = (f, v)" by fastforce
  note one = relay_line_at_most [OF l]
  show ?case
  proof (cases f)
    case Next
    with Cons.prems x l have "relay_lines decode iu ic lines v = (r, u)" by simp
    from subset_mset.order_trans [OF Cons.IH [OF this] subset_mset.add_right_mono [OF one]] show ?thesis
      by (simp add: x)
  next
    case Stop
    with Cons.prems x l have "u = v" by simp
    with one show ?thesis by (auto simp: x intro: subset_mset.order_trans mset_subset_eq_add_left)
  next
    case (Return calls)
    with Cons.prems x l have "u = v" by simp
    with one show ?thesis by (auto simp: x intro: subset_mset.order_trans mset_subset_eq_add_left)
  qed
qed

lemma relay_lines_keep:
  "relay_lines decode iu ic lines s = (None, u) \<Longrightarrow> list_all snd lines \<Longrightarrow>
     in_flight u = in_flight s + mset (map fst lines)"
proof (induction lines arbitrary: s)
  case Nil
  then show ?case by simp
next
  case (Cons x lines)
  obtain line where x: "x = (line, True)" using Cons.prems(2) by (cases x) auto
  obtain f v where l: "relay_line decode iu ic True line s = (f, v)" by fastforce
  with relay_line_no_stop [of decode iu ic line s] Cons.prems(1) x have f: "f = Next"
    by (cases f) auto
  with Cons.prems l x have "relay_lines decode iu ic lines v = (None, u)" "list_all snd lines" by simp_all
  from Cons.IH [OF this] relay_line_keeps [OF l f] x show ?case by simp
qed

lemma relay_lines_calls:
  "relay_lines decode iu ic lines s = (Some calls, u) \<Longrightarrow> calls \<noteq> [] \<Longrightarrow> ic \<and> allWebSearch calls"
proof (induction lines arbitrary: s)
  case Nil
  then show ?case by simp
next
  case (Cons x lines)
  obtain line wok where x: "x = (line, wok)" by fastforce
  obtain f v where l: "relay_line decode iu ic wok line s = (f, v)" by fastforce
  with Cons x relay_line_return [of decode iu ic wok line s] show ?case by (cases f) auto
qed

lemma relay_lines_done_calls:
  "relay_lines decode iu ic lines s = (Some calls, u) \<Longrightarrow> list_all snd lines \<Longrightarrow> calls \<noteq> []"
proof (induction lines arbitrary: s)
  case Nil
  then show ?case by simp
next
  case (Cons x lines)
  obtain line where x: "x = (line, True)" using Cons.prems(2) by (cases x) auto
  obtain f v where l: "relay_line decode iu ic True line s = (f, v)" by fastforce
  with Cons x relay_line_done_calls [of decode iu ic line s] show ?case by (cases f) auto
qed

text \<open>
  C8: Withholding loses nothing. Whenever the relay hands no tool calls to the gateway and
  every write to the client succeeds, every line of the upstream's body reaches the client exactly
  once, the withheld ones included. Calls are handed over only when the search tool is
  on, and then they are all calls of the gateway's own tool. Whatever happens, with failing
  writes too, the client is sent no line that the upstream did not send and none twice.
\<close>

theorem withheld_lines_not_lost:
  assumes "handleStreamResponse decode iu ic lines broken = (out, u, calls)"
  shows "mset (sent out) \<subseteq># mset (map fst lines)
    \<and> (if calls \<noteq> [] then ic \<and> allWebSearch calls
       else list_all snd lines \<longrightarrow> mset (sent out) = mset (map fst lines))"
proof -
  obtain r s where r: "relay_lines decode iu ic lines stream_start = (r, s)" by fastforce
  have z: "in_flight stream_start = {#}" by (simp add: in_flight_def stream_start_def)
  have le: "mset (sent (st_out s)) + mset (st_buf s) \<subseteq># mset (map fst lines)"
    using relay_lines_at_most [OF r] unfolding z by (simp add: in_flight_def)
  show ?thesis
  proof (cases r)
    case None
    with r assms have o: "calls = []" "mset (sent out) = mset (sent (st_out s)) + mset (st_buf s)"
      by (auto simp: handleStreamResponse_def Let_def)
    with None relay_lines_keep [of decode iu ic lines stream_start s] r le z show ?thesis
      by (auto simp: in_flight_def)
  next
    case (Some cs)
    with r assms have o: "calls = cs" "out = st_out s" by (auto simp: handleStreamResponse_def)
    have "mset (sent out) \<subseteq># mset (map fst lines)"
      using le unfolding o(2) by (rule subset_mset.order_trans [OF mset_subset_eq_add_left])
    with Some relay_lines_calls [of decode iu ic lines stream_start cs s]
      relay_lines_done_calls [of decode iu ic lines stream_start cs s] r o show ?thesis by auto
  qed
qed

text \<open>
  Withholding does not hold. The stream of a model that calls the gateway's tool ends, when usage was
  asked for, in a usage chunk without choices between the last call chunk and \<open>[DONE]\<close>; that chunk
  releases every withheld call chunk to the client, and \<open>[DONE]\<close> still hands the calls to the
  gateway. \<open>d\<close> is the one call chunk, \<open>u\<close> the usage chunk.
\<close>

theorem usage_chunk_releases_calls:
  assumes "has_prefix d ''data: ''" "trim_space (trim_prefix d ''data: '') = dp" "dp \<noteq> ''[DONE]''"
    and "has_prefix u ''data: ''" "trim_space (trim_prefix u ''data: '') = up" "up \<noteq> ''[DONE]''"
    and "decode dp = Some \<lparr> ck_usage = None, ck_choices = [\<lparr> cd_tools = [tc], cd_finish = Some ''tool_calls'' \<rparr>] \<rparr>"
    and "td_name tc = webSearchToolName"
    and "decode up = Some \<lparr> ck_usage = Some us, ck_choices = [] \<rparr>"
  shows "let (out, _, calls) =
             handleStreamResponse decode iu True [(d, True), (u, True), (''data: [DONE]'', True)] broken
         in length calls = 1 \<and> sent out = [d, u]"
proof -
  have dn: "has_prefix ''data: [DONE]'' ''data: ''" "trim_space (trim_prefix ''data: [DONE]'' ''data: '') = ''[DONE]''"
    by code_simp+
  have [simp]: "ac_name (if c then (ac::accum)\<lparr> ac_id := x \<rparr> else ac) = ac_name ac"
     "ac_name (if c then (ac::accum)\<lparr> ac_type := x \<rparr> else ac) = ac_name ac" for c ac x by simp_all
  show ?thesis
    using assms dn
    by (simp add: handleStreamResponse_def relay_line_def Let_def see_chunk_def has_tool_delta_def
        finish_tool_calls_def stream_start_def add_delta_def flushBuffered_def emit_def
        assembleToolCalls_def allWebSearch_def toolCallName_def call_object_def field_def webSearchToolName_def)
qed

text \<open>
  Nor are the lines left in order. Call chunks are withheld but the blank lines that end their events
  are not: when the calls turn out to be the client's own, the chunks are released one after another
  with no blank line between them, after the blank lines that belonged to them.
\<close>

definition blank_line :: string where "blank_line = [CHR 0x0A]"

theorem released_calls_lose_separators:
  assumes "has_prefix d ''data: ''" "trim_space (trim_prefix d ''data: '') = dp" "dp \<noteq> ''[DONE]''"
    and "decode dp = Some \<lparr> ck_usage = None, ck_choices = [\<lparr> cd_tools = tcs, cd_finish = None \<rparr>] \<rparr>"
    and "tcs \<noteq> []"
  shows "sent (fst (handleStreamResponse decode iu True
             (concat (replicate n [(d, True), (blank_line, True)])) broken))
         = replicate n blank_line @ replicate n d"
proof -
  have blank: "\<not> has_prefix blank_line ''data: ''" by code_simp
  have steps: "\<exists>v. relay_lines decode iu True (concat (replicate n [(d, True), (blank_line, True)])) s
      = (None, v) \<and> st_out v = st_out s @ replicate n (Sse_line blank_line)
        \<and> st_buf v = st_buf s @ replicate n d" for n s
  proof (induction n arbitrary: s)
    case 0
    then show ?case by simp
  next
    case (Suc n)
    define s1 where "s1 = see_chunk \<lparr> ck_usage = None, ck_choices = [\<lparr> cd_tools = tcs, cd_finish = None \<rparr>] \<rparr> s"
    define s2 where "s2 = s1\<lparr> st_finish := st_finish s1 \<or> False, st_buf := st_buf s1 @ [d] \<rparr>"
    have r1: "relay_line decode iu True True d s = (Next, s2)"
      using assms by (simp add: relay_line_def Let_def has_tool_delta_def finish_tool_calls_def s1_def s2_def)
    have r2: "relay_line decode iu True True blank_line s2 = (Next, emit [Sse_line blank_line] s2)"
      using blank by (simp add: relay_line_def)
    from Suc [of "emit [Sse_line blank_line] s2"] r1 r2 show ?case
      by (auto simp: s2_def s1_def)
  qed
  obtain v where "relay_lines decode iu True (concat (replicate n [(d, True), (blank_line, True)])) stream_start
      = (None, v)" "st_out v = replicate n (Sse_line blank_line)" "st_buf v = replicate n d"
    using steps [of n stream_start] by (auto simp: stream_start_def)
  moreover have "sent (replicate k (Sse_line l)) = replicate k l" for k l by (induction k) simp_all
  ultimately show ?thesis by (simp add: handleStreamResponse_def Let_def)
qed

section \<open>A concrete upstream\<close>

text \<open>
  A stand-in for the JSON decoder on three payloads: a fragment of a call to the gateway's tool, the
  usage chunk, and a fragment of a call to the client's own tool.
\<close>

definition demo_usage :: usage where
  "demo_usage = \<lparr> us_prompt = 5, us_completion = 2, us_total = 7, us_cached = 4 \<rparr>"

definition demo_delta :: "string \<Rightarrow> tool_delta" where
  "demo_delta nm = \<lparr> td_index = 0, td_id = ''c1'', td_type = [], td_name = nm, td_args = [] \<rparr>"

definition demo_decode :: "string \<Rightarrow> chunk option" where
  "demo_decode p =
     (if p = ''call'' then Some \<lparr> ck_usage = None,
           ck_choices = [\<lparr> cd_tools = [demo_delta webSearchToolName], cd_finish = Some ''tool_calls'' \<rparr>] \<rparr>
      else if p = ''usage'' then Some \<lparr> ck_usage = Some demo_usage, ck_choices = [] \<rparr>
      else if p = ''own'' then Some \<lparr> ck_usage = None,
           ck_choices = [\<lparr> cd_tools = [demo_delta ''other''], cd_finish = None \<rparr>] \<rparr>
      else None)"

theorem stream_transparent_witness:
  "fst (handleStreamResponse demo_decode False False [(''data: call'', True), (''data: [DONE]'', True)] True)
     = [Sse_line ''data: call'', Sse_line ''data: [DONE]'', Sse_error interrupted_text]"
  using stream_transparent [of "[(''data: call'', True), (''data: [DONE]'', True)]" demo_decode True] by simp

theorem withheld_lines_not_lost_witness:
  "mset (sent (fst (handleStreamResponse demo_decode False True
      [(''data: own'', True), (''data: [DONE]'', True)] False))) = {#''data: own'', ''data: [DONE]''#}
   \<and> allWebSearch (snd (snd (handleStreamResponse demo_decode False True
      [(''data: call'', True), (''data: [DONE]'', False)] False)))"
proof -
  define r q where "r = handleStreamResponse demo_decode False True
      [(''data: own'', True), (''data: [DONE]'', True)] False"
    and "q = handleStreamResponse demo_decode False True [(''data: call'', True), (''data: [DONE]'', False)] False"
  have c: "snd (snd r) = []" "snd (snd q) \<noteq> []" unfolding r_def q_def by code_simp+
  have e: "handleStreamResponse demo_decode False True [(''data: own'', True), (''data: [DONE]'', True)] False
      = (fst r, fst (snd r), snd (snd r))"
    "handleStreamResponse demo_decode False True [(''data: call'', True), (''data: [DONE]'', False)] False
      = (fst q, fst (snd q), snd (snd q))" by (simp_all add: r_def q_def)
  from withheld_lines_not_lost [OF e(1)] withheld_lines_not_lost [OF e(2)] c show ?thesis
    by (simp add: r_def [symmetric] q_def [symmetric] add_mset_commute)
qed

theorem usage_chunk_releases_calls_witness:
  "sent (fst (handleStreamResponse demo_decode True True
      [(''data: call'', True), (''data: usage'', True), (''data: [DONE]'', True)] False))
     = [''data: call'', ''data: usage'']"
proof -
  have p: "has_prefix ''data: call'' ''data: ''" "trim_space (trim_prefix ''data: call'' ''data: '') = ''call''"
    "has_prefix ''data: usage'' ''data: ''" "trim_space (trim_prefix ''data: usage'' ''data: '') = ''usage''"
    by code_simp+
  have q: "td_name (demo_delta webSearchToolName) = webSearchToolName" by (simp add: demo_delta_def)
  have d: "demo_decode ''call'' = Some \<lparr> ck_usage = None,
           ck_choices = [\<lparr> cd_tools = [demo_delta webSearchToolName], cd_finish = Some ''tool_calls'' \<rparr>] \<rparr>"
    "demo_decode ''usage'' = Some \<lparr> ck_usage = Some demo_usage, ck_choices = [] \<rparr>"
    by (simp_all add: demo_decode_def)
  show ?thesis
    using usage_chunk_releases_calls [OF p(1,2) _ p(3,4) _ d(1) q d(2), of True False]
    by (simp split: prod.splits)
qed

theorem released_calls_lose_separators_witness:
  "sent (fst (handleStreamResponse demo_decode True True
      [(''data: own'', True), (blank_line, True), (''data: own'', True), (blank_line, True)] False))
     = [blank_line, blank_line, ''data: own'', ''data: own'']"
proof -
  have p: "has_prefix ''data: own'' ''data: ''" "trim_space (trim_prefix ''data: own'' ''data: '') = ''own''"
    by code_simp+
  have d: "demo_decode ''own'' = Some \<lparr> ck_usage = None,
           ck_choices = [\<lparr> cd_tools = [demo_delta ''other''], cd_finish = None \<rparr>] \<rparr>"
    by (simp add: demo_decode_def)
  show ?thesis
    using released_calls_lose_separators [where d = "''data: own''" and dp = "''own''"
        and decode = demo_decode and tcs = "[demo_delta ''other'']" and iu = True and n = 2 and broken = False] p d
    by (simp add: numeral_2_eq_2)
qed

end
