(* ===== verification/Tool_Rounds.thy ===== *)
theory Tool_Rounds
  imports Stream_Tools Gateway_Http
begin

text \<open>
  The web-search rounds of \<^verbatim>\<open>internal/handler/tools.go\<close> (\<open>doRound\<close>, \<open>streamWithToolRounds\<close>,
  \<open>completeWithToolRounds\<close>) and \<open>handleNormalResponse\<close> of \<^verbatim>\<open>internal/handler/handler.go\<close>. What a
  request does to the rest of the gateway is written down as the list of its calls to the pool and to
  the upstream, in the order it makes them; what those calls answer is the environment's.
\<close>

section \<open>Calls and answers\<close>

text \<open>A proxy is named by its \<open>ID\<close>; \<open>None\<close> is Go's nil.\<close>

datatype call =
    Acquire "string option"
  | Release "string option"
  | Mark_limited "string option" string bool
  | Mark_unhealthy "string option"
  | Send string body
  | Sleep duration

text \<open>
  An upstream response: the first value of each header, the whole body, whether reading it ends in
  an error, and how many of its lines can still be written to the client.
\<close>

record response =
  rs_status :: int
  rs_headers :: "(string \<times> string) list"
  rs_body :: string
  rs_broken :: bool
  rs_writable :: nat

text \<open>What \<open>Do\<close> returns: a rate limit with its \<open>Retry-After\<close>, a transport failure with its text, a response.\<close>

datatype do_result = Limited string | Failed string | Answered response

definition success :: "int \<Rightarrow> bool" where
  "success status \<longleftrightarrow> 200 \<le> status \<and> status < 300"

section \<open>The client's side\<close>

datatype content = C_error openai_error | C_raw string | C_sse "sse list"

record reply =
  rp_status :: int
  rp_headers :: "(string \<times> string) list"
  rp_content :: content

definition error_reply :: "(string \<times> string) list \<Rightarrow> openai_error \<Rightarrow> reply" where
  "error_reply hdrs e = \<lparr> rp_status = oe_status e, rp_headers = hdrs, rp_content = C_error e \<rparr>"

definition shouldSkipHeader :: "string \<Rightarrow> bool" where
  "shouldSkipHeader key \<longleftrightarrow>
     to_lower key = ''content-length'' \<or> to_lower key = ''transfer-encoding'' \<or> to_lower key = ''connection''"

definition relayed_headers :: "response \<Rightarrow> (string \<times> string) list" where
  "relayed_headers rs = filter (\<lambda>kv. \<not> shouldSkipHeader (fst kv)) (rs_headers rs)"

definition relay_whole :: "response \<Rightarrow> reply" where
  "relay_whole rs = \<lparr> rp_status = rs_status rs, rp_headers = relayed_headers rs, rp_content = C_raw (rs_body rs) \<rparr>"

text \<open>\<open>bufio.Reader.ReadString('\n')\<close> until the end: every line keeps its terminator.\<close>

fun read_lines :: "string \<Rightarrow> string list" where
  "read_lines [] = []"
| "read_lines (c # cs) =
     (if c = CHR 0x0A then [c] # read_lines cs
      else (case read_lines cs of [] \<Rightarrow> [[c]] | l # ls \<Rightarrow> (c # l) # ls))"

lemma concat_read_lines [simp]: "concat (read_lines s) = s"
  by (induction s) (auto split: list.splits)

definition body_lines :: "response \<Rightarrow> (string \<times> bool) list" where
  "body_lines rs =
     (let ls = read_lines (rs_body rs)
      in zip ls (map (\<lambda>i. i < rs_writable rs) [0..<length ls]))"

text \<open>
  \<open>json\<close> stands for what \<open>encoding/json\<close> makes of a text: the chunk of a stream's line, and the
  first message and the usage of a whole body.
\<close>

record decoder =
  dc_chunk :: "string \<Rightarrow> chunk option"
  dc_message :: "string \<Rightarrow> (string \<times> json) list option"
  dc_usage :: "string \<Rightarrow> usage option"

definition usage_or_zero :: "usage option \<Rightarrow> usage" where
  "usage_or_zero u = (case u of Some u \<Rightarrow> u | None \<Rightarrow> no_usage)"

definition handleNormalResponse :: "decoder \<Rightarrow> response \<Rightarrow> reply \<times> usage" where
  "handleNormalResponse dc rs =
     (if rs_broken rs then (error_reply [] (writeError 502 ''Failed to read upstream response''), no_usage)
      else (relay_whole rs, usage_or_zero (dc_usage dc (rs_body rs))))"

text \<open>The rounds' sum of token counts; the cached ones are left out.\<close>

definition add_usage :: "usage \<Rightarrow> usage \<Rightarrow> usage" where
  "add_usage t u = t\<lparr> us_prompt := us_prompt t + us_prompt u, us_completion := us_completion t + us_completion u,
     us_total := us_total t + us_total u \<rparr>"

section \<open>One further request\<close>

text \<open>
  \<open>doRound\<close>: \<open>first\<close> answers the request on the turn's own proxy, \<open>fresh\<close> the (at most two)
  attempts to get another one, each with what the request on it answers.
\<close>

record round_env =
  re_first :: do_result
  re_fresh :: "(string option \<times> do_result) list"

fun fresh_rounds :: "body \<Rightarrow> (string option \<times> do_result) list \<Rightarrow> response option \<times> call list" where
  "fresh_rounds b [] = (None, [])"
| "fresh_rounds b ((None, _) # _) = (None, [Acquire None])"
| "fresh_rounds b ((Some np, Answered rs) # _) = (Some rs, [Acquire (Some np), Send np b])"
| "fresh_rounds b ((Some np, _) # rest) =
     (case fresh_rounds b rest of (r, cs) \<Rightarrow> (r, [Acquire (Some np), Send np b] @ cs))"

definition doRound :: "round_env \<Rightarrow> string \<Rightarrow> body \<Rightarrow> response option \<times> call list" where
  "doRound e p b =
     (case re_first e of
        Answered rs \<Rightarrow> (Some rs, [Send p b])
      | _ \<Rightarrow> (case fresh_rounds b (take 2 (re_fresh e)) of (r, cs) \<Rightarrow> (r, Send p b # cs)))"

section \<open>The rounds of a streamed turn\<close>

text \<open>\<open>run\<close> is the search service bound to the proxy, \<open>None\<close> when \<open>wsFor\<close> gives none.\<close>

definition round_failed_text :: string where
  "round_failed_text = ''The gateway could not complete the web search request.''"

definition continue_failed_text :: string where
  "continue_failed_text = ''The gateway failed to continue after the web search.''"

record turn =
  tn_sent :: "sse list"
  tn_usage :: usage
  tn_calls :: "call list"

definition run_search :: "(string \<Rightarrow> string + string) option \<Rightarrow> json list \<Rightarrow> string list" where
  "run_search run calls = (case run of Some f \<Rightarrow> execWebSearchTools f calls | None \<Rightarrow> [])"

text \<open>\<open>left\<close> counts the rounds still allowed, so \<open>round >= WebSearchMaxRounds\<close> is \<open>left = 0\<close>.\<close>

fun stream_rounds ::
  "decoder \<Rightarrow> (string \<Rightarrow> string + string) option \<Rightarrow> bool \<Rightarrow> string \<Rightarrow> (nat \<Rightarrow> round_env)
     \<Rightarrow> nat \<Rightarrow> response \<Rightarrow> body \<Rightarrow> turn \<Rightarrow> turn" where
  "stream_rounds dc run iu p env left resp cur t =
     (let (out, u, calls) = handleStreamResponse (dc_chunk dc) iu (run \<noteq> None) (body_lines resp) (rs_broken resp);
          t = t\<lparr> tn_sent := tn_sent t @ out, tn_usage := add_usage (tn_usage t) u \<rparr>
      in case left of
           0 \<Rightarrow> t
         | Suc k \<Rightarrow>
             if calls = [] then t
             else (case appendToolResults cur calls (run_search run calls) of
                     None \<Rightarrow> t\<lparr> tn_sent := tn_sent t @ [Sse_error continue_failed_text] \<rparr>
                   | Some nxt \<Rightarrow>
                       (case doRound (env k) p (Some nxt) of
                          (r, cs) \<Rightarrow>
                            let t = t\<lparr> tn_calls := tn_calls t @ cs \<rparr>
                            in case r of
                                 Some rs \<Rightarrow>
                                   if success (rs_status rs) then stream_rounds dc run iu p env k rs (Some nxt) t
                                   else t\<lparr> tn_sent := tn_sent t @ [Sse_error round_failed_text] \<rparr>
                               | None \<Rightarrow> t\<lparr> tn_sent := tn_sent t @ [Sse_error round_failed_text] \<rparr>)))"

declare stream_rounds.simps [simp del]

definition turn_start :: turn where
  "turn_start = \<lparr> tn_sent = [], tn_usage = no_usage, tn_calls = [] \<rparr>"

definition streamWithToolRounds ::
  "decoder \<Rightarrow> config \<Rightarrow> (string \<Rightarrow> string + string) option \<Rightarrow> bool \<Rightarrow> string \<Rightarrow> (nat \<Rightarrow> round_env)
     \<Rightarrow> body \<Rightarrow> response \<Rightarrow> reply \<times> usage \<times> call list" where
  "streamWithToolRounds dc cfg run iu p env b firstResp =
     (let t = stream_rounds dc run iu p env (nat (WebSearchMaxRounds cfg)) firstResp b turn_start
      in (\<lparr> rp_status = 200,
            rp_headers = [(''Content-Type'', ''text/event-stream''), (''Cache-Control'', ''no-cache''),
              (''Connection'', ''keep-alive''), (''X-Accel-Buffering'', ''no'')],
            rp_content = C_sse (tn_sent t) \<rparr>, tn_usage t, tn_calls t))"

section \<open>The rounds of a whole answer\<close>

definition interceptable :: "decoder \<Rightarrow> bool \<Rightarrow> nat \<Rightarrow> response \<Rightarrow> json list \<Rightarrow> bool" where
  "interceptable dc svc left rs calls \<longleftrightarrow> svc \<and> allWebSearch calls \<and> left > 0 \<and> success (rs_status rs)"

definition body_calls :: "decoder \<Rightarrow> response \<Rightarrow> json list" where
  "body_calls dc rs = (case dc_message dc (rs_body rs) of Some m \<Rightarrow> messageToolCalls m | None \<Rightarrow> [])"

fun complete_rounds ::
  "decoder \<Rightarrow> (string \<Rightarrow> string + string) option \<Rightarrow> string \<Rightarrow> (nat \<Rightarrow> round_env) \<Rightarrow> nat \<Rightarrow> response
     \<Rightarrow> body \<Rightarrow> usage \<Rightarrow> call list \<Rightarrow> reply \<times> usage \<times> call list" where
  "complete_rounds dc run p env left resp cur u cs =
     (if rs_broken resp then (error_reply [] (writeError 502 ''Failed to read upstream response''), u, cs)
      else
        let calls = body_calls dc resp;
            u = (case dc_usage dc (rs_body resp) of Some v \<Rightarrow> add_usage u v | None \<Rightarrow> u)
        in if \<not> interceptable dc (run \<noteq> None) left resp calls then (relay_whole resp, u, cs)
           else (case appendToolResults cur calls (run_search run calls) of
                   None \<Rightarrow> (relay_whole resp, u, cs)
                 | Some nxt \<Rightarrow>
                     (case left of
                        0 \<Rightarrow> (relay_whole resp, u, cs)
                      | Suc k \<Rightarrow>
                          (case doRound (env k) p (Some nxt) of
                             (None, ds) \<Rightarrow>
                               (error_reply [] (writeError 502 ''Request failed during web search''), u, cs @ ds)
                           | (Some rs, ds) \<Rightarrow> complete_rounds dc run p env k rs (Some nxt) u (cs @ ds)))))"

declare complete_rounds.simps [simp del]

definition completeWithToolRounds ::
  "decoder \<Rightarrow> config \<Rightarrow> (string \<Rightarrow> string + string) option \<Rightarrow> string \<Rightarrow> (nat \<Rightarrow> round_env)
     \<Rightarrow> body \<Rightarrow> response \<Rightarrow> reply \<times> usage \<times> call list" where
  "completeWithToolRounds dc cfg run p env b firstResp =
     complete_rounds dc run p env (nat (WebSearchMaxRounds cfg)) firstResp b no_usage []"

section \<open>Bounds and frame of the rounds\<close>

definition is_send :: "call \<Rightarrow> bool" where
  "is_send c = (case c of Send _ _ \<Rightarrow> True | _ \<Rightarrow> False)"

definition is_release :: "call \<Rightarrow> bool" where
  "is_release c = (case c of Release _ \<Rightarrow> True | _ \<Rightarrow> False)"

lemma call_class [simp]:
  "is_send (Send p b)" "\<not> is_send (Acquire x)" "\<not> is_send (Release x)" "\<not> is_send (Mark_limited x r q)"
  "\<not> is_send (Mark_unhealthy x)" "\<not> is_send (Sleep d)"
  "is_release (Release x)" "\<not> is_release (Send p b)" "\<not> is_release (Acquire x)"
  "\<not> is_release (Mark_limited x r q)" "\<not> is_release (Mark_unhealthy x)" "\<not> is_release (Sleep d)"
  by (simp_all add: is_send_def is_release_def)

abbreviation sends :: "call list \<Rightarrow> nat" where
  "sends cs \<equiv> length (filter is_send cs)"

text \<open>The calls of a round all carry the round's body and none gives a proxy back.\<close>

lemma fresh_rounds_calls:
  "fresh_rounds b es = (r, cs) \<Longrightarrow>
     sends cs \<le> length es \<and> list_all (\<lambda>c. \<not> is_release c) cs
       \<and> list_all (\<lambda>c. case c of Send _ b' \<Rightarrow> b' = b | _ \<Rightarrow> True) cs"
proof (induction es arbitrary: r cs)
  case Nil
  then show ?case by simp
next
  case (Cons e es)
  obtain np d where e: "e = (np, d)" by fastforce
  obtain r' cs' where f: "fresh_rounds b es = (r', cs')" by fastforce
  with Cons e show ?case by (cases np; cases d) auto
qed

lemma doRound_calls:
  assumes "doRound e p b = (r, cs)"
  shows "sends cs \<le> 3 \<and> list_all (\<lambda>c. \<not> is_release c) cs
       \<and> list_all (\<lambda>c. case c of Send _ b' \<Rightarrow> b' = b | _ \<Rightarrow> True) cs"
proof -
  obtain r' cs' where f: "fresh_rounds b (take 2 (re_fresh e)) = (r', cs')" by fastforce
  from fresh_rounds_calls [OF this]
  have "sends cs' \<le> 2" "list_all (\<lambda>c. \<not> is_release c) cs'"
    "list_all (\<lambda>c. case c of Send _ b' \<Rightarrow> b' = b | _ \<Rightarrow> True) cs'" by auto
  with f assms show ?thesis by (auto simp: doRound_def split: do_result.splits)
qed

text \<open>
  What one round of either loop adds, as an invariant of the calls made so far; both loops are
  covered by the same three instances below.
\<close>

lemma stream_rounds_inv:
  assumes "P (tn_calls t) left cur"
    and step: "\<And>cs k b calls rs e ds r. P cs (Suc k) b \<Longrightarrow>
        doRound e p (appendToolResults b calls rs) = (r, ds) \<Longrightarrow> appendToolResults b calls rs \<noteq> None \<Longrightarrow>
        P (cs @ ds) k (appendToolResults b calls rs)"
  shows "\<exists>k b. k \<le> left \<and> P (tn_calls (stream_rounds dc run iu p env left resp cur t)) k b"
  using assms(1)
proof (induction left arbitrary: resp cur t)
  case 0
  then show ?case by (auto simp: stream_rounds.simps [of _ _ _ _ _ 0] Let_def split: prod.splits)
next
  case (Suc n)
  obtain out u calls where h: "handleStreamResponse (dc_chunk dc) iu (run \<noteq> None) (body_lines resp) (rs_broken resp)
      = (out, u, calls)" by (metis prod.exhaust)
  define t1 where "t1 = t\<lparr> tn_sent := tn_sent t @ out, tn_usage := add_usage (tn_usage t) u \<rparr>"
  have t1: "tn_calls t1 = tn_calls t" by (simp add: t1_def)
  define nxt where "nxt = appendToolResults cur calls (run_search run calls)"
  note unf = stream_rounds.simps [of dc run iu p env "Suc n" resp cur t] h Let_def
  show ?case
  proof (cases "calls = [] \<or> nxt = None")
    case True
    with Suc.prems show ?thesis
      by (intro exI [of _ "Suc n"] exI [of _ cur])
        (auto simp: unf nxt_def simp del: not_None_eq split: option.split)
  next
    case False
    obtain r ds where d: "doRound (env n) p nxt = (r, ds)" by fastforce
    define t2 where "t2 = t1\<lparr> tn_calls := tn_calls t1 @ ds \<rparr>"
    have p2: "P (tn_calls t2) n nxt"
      using step [OF Suc.prems, of "env n" calls "run_search run calls" r ds] d False
      by (simp add: t2_def t1 nxt_def)
    have eq: "stream_rounds dc run iu p env (Suc n) resp cur t =
        (case r of Some rs \<Rightarrow> if success (rs_status rs) then stream_rounds dc run iu p env n rs nxt t2
                              else t2\<lparr> tn_sent := tn_sent t2 @ [Sse_error round_failed_text] \<rparr>
         | None \<Rightarrow> t2\<lparr> tn_sent := tn_sent t2 @ [Sse_error round_failed_text] \<rparr>)"
      using False d unfolding nxt_def
      by (auto simp: unf t2_def t1_def simp del: not_None_eq split: option.splits)
    have stop: ?thesis if "tn_calls (stream_rounds dc run iu p env (Suc n) resp cur t) = tn_calls t2"
      using p2 that by (intro exI [of _ n] exI [of _ nxt]) simp
    show ?thesis
    proof (cases "\<exists>rs. r = Some rs \<and> success (rs_status rs)")
      case True
      then obtain rs where eq': "stream_rounds dc run iu p env (Suc n) resp cur t
          = stream_rounds dc run iu p env n rs nxt t2" using eq by auto
      from Suc.IH [OF p2, of rs] show ?thesis unfolding eq' by (meson le_SucI)
    next
      case False
      with eq show ?thesis by (intro stop) (auto split: option.split)
    qed
  qed
qed

lemma complete_rounds_inv:
  assumes "P cs left cur"
    and step: "\<And>cs k b calls rs e ds r. P cs (Suc k) b \<Longrightarrow>
        doRound e p (appendToolResults b calls rs) = (r, ds) \<Longrightarrow> appendToolResults b calls rs \<noteq> None \<Longrightarrow>
        P (cs @ ds) k (appendToolResults b calls rs)"
  shows "\<exists>k b. k \<le> left \<and> P (snd (snd (complete_rounds dc run p env left resp cur u cs))) k b"
  using assms(1)
proof (induction left arbitrary: resp cur u cs)
  case 0
  then show ?case
    by (auto simp: complete_rounds.simps [of _ _ _ _ 0] Let_def interceptable_def)
next
  case (Suc n)
  define calls where "calls = body_calls dc resp"
  define nxt where "nxt = appendToolResults cur calls (run_search run calls)"
  define u1 where "u1 = (case dc_usage dc (rs_body resp) of Some v \<Rightarrow> add_usage u v | None \<Rightarrow> u)"
  note unf = complete_rounds.simps [of dc run p env "Suc n" resp cur u cs] Let_def calls_def [symmetric]
    nxt_def [symmetric] u1_def [symmetric]
  show ?case
  proof (cases "rs_broken resp \<or> \<not> interceptable dc (run \<noteq> None) (Suc n) resp calls \<or> nxt = None")
    case True
    with Suc.prems show ?thesis
      by (intro exI [of _ "Suc n"] exI [of _ cur])
        (auto simp: unf simp del: not_None_eq split: option.split)
  next
    case False
    obtain r ds where d: "doRound (env n) p nxt = (r, ds)" by fastforce
    have p2: "P (cs @ ds) n nxt"
      using step [OF Suc.prems, of "env n" calls "run_search run calls" r ds] d False
      by (simp add: nxt_def)
    show ?thesis
    proof (cases r)
      case None
      with False d p2 show ?thesis by (intro exI [of _ n] exI [of _ nxt]) (auto simp: unf simp del: not_None_eq)
    next
      case (Some rs)
      with False d have "complete_rounds dc run p env (Suc n) resp cur u cs
          = complete_rounds dc run p env n rs nxt u1 (cs @ ds)" by (auto simp: unf simp del: not_None_eq)
      with Suc.IH [OF p2, of rs u1] show ?thesis by (metis le_SucI)
    qed
  qed
qed

section \<open>What the rounds promise\<close>

text \<open>The two loops' common induction principle, from their start.\<close>

lemma rounds_inv:
  assumes start: "P [] (nat (WebSearchMaxRounds cfg)) b"
    and step: "\<And>cs k b calls rs e ds r. P cs (Suc k) b \<Longrightarrow>
        doRound e p (appendToolResults b calls rs) = (r, ds) \<Longrightarrow> appendToolResults b calls rs \<noteq> None \<Longrightarrow>
        P (cs @ ds) k (appendToolResults b calls rs)"
  shows "(\<exists>k b'. P (snd (snd (streamWithToolRounds dc cfg run iu p env b resp))) k b')
    \<and> (\<exists>k b'. P (snd (snd (completeWithToolRounds dc cfg run p env b resp))) k b')"
proof
  have "P (tn_calls turn_start) (nat (WebSearchMaxRounds cfg)) b" using start by (simp add: turn_start_def)
  then have "\<exists>k b'. k \<le> nat (WebSearchMaxRounds cfg) \<and>
      P (tn_calls (stream_rounds dc run iu p env (nat (WebSearchMaxRounds cfg)) resp b turn_start)) k b'"
    by (rule stream_rounds_inv [where P = P]) (rule step)
  then show "\<exists>k b'. P (snd (snd (streamWithToolRounds dc cfg run iu p env b resp))) k b'"
    by (auto simp: streamWithToolRounds_def Let_def)
  from start have "\<exists>k b'. k \<le> nat (WebSearchMaxRounds cfg) \<and>
      P (snd (snd (complete_rounds dc run p env (nat (WebSearchMaxRounds cfg)) resp b no_usage []))) k b'"
    by (rule complete_rounds_inv [where P = P]) (rule step)
  then show "\<exists>k b'. P (snd (snd (completeWithToolRounds dc cfg run p env b resp))) k b'"
    by (auto simp: completeWithToolRounds_def)
qed

text \<open>
  The rounds of one answer are bounded: however the model and the upstream behave, the two loops make
  at most three upstream requests per configured round beyond the first.
\<close>

theorem rounds_bounded:
  "sends (snd (snd (streamWithToolRounds dc cfg run iu p env b resp))) \<le> 3 * nat (WebSearchMaxRounds cfg)
   \<and> sends (snd (snd (completeWithToolRounds dc cfg run p env b resp))) \<le> 3 * nat (WebSearchMaxRounds cfg)"
proof -
  define P where "P = (\<lambda>cs k (b::body). sends cs + 3 * k \<le> 3 * nat (WebSearchMaxRounds cfg))"
  have start: "P [] (nat (WebSearchMaxRounds cfg)) b" by (simp add: P_def)
  have step: "P (cs @ ds) k (appendToolResults b calls rs)"
    if "P cs (Suc k) b" "doRound e p (appendToolResults b calls rs) = (r, ds)" "appendToolResults b calls rs \<noteq> None"
    for cs k b calls rs e ds r
    using that(1) doRound_calls [OF that(2)] by (simp add: P_def)
  have "(\<exists>k b'. P (snd (snd (streamWithToolRounds dc cfg run iu p env b resp))) k b')
    \<and> (\<exists>k b'. P (snd (snd (completeWithToolRounds dc cfg run p env b resp))) k b')"
    by (rule rounds_inv [where P = P, OF start]) (rule step)
  then show ?thesis by (auto simp: P_def)
qed

text \<open>
  \<open>continues m n\<close>: the request \<open>n\<close> is the request \<open>m\<close> with messages added at the end of its conversation.
\<close>

definition continues :: "(string \<times> json) list \<Rightarrow> body \<Rightarrow> bool" where
  "continues m b =
     (case b of
        None \<Rightarrow> False
      | Some n \<Rightarrow>
          (\<forall>k. k \<noteq> ''messages'' \<longrightarrow> field k n = field k m)
          \<and> (let old = as_arr (field ''messages'' m)
             in take (length old) (as_arr (field ''messages'' n)) = old))"

lemma append_continues:
  assumes "continues m b" "appendToolResults b calls rs \<noteq> None"
  shows "continues m (appendToolResults b calls rs)"
proof -
  have "length xs \<le> length ys" if "take (length xs) ys = xs" for xs ys :: "json list"
    using that by (metis length_take min.bounded_iff order_refl)
  with assms show ?thesis
    by (auto simp: continues_def appendToolResults_def Let_def split: option.splits)
qed

text \<open>
  C11: The conversation the upstream sees in a later round is the client's own: every field other than the
  messages is as the client (and the injection) sent it, and the client's messages come first, in
  their order.
\<close>

theorem rounds_extend_conversation:
  "list_all (\<lambda>c. case c of Send _ b \<Rightarrow> continues m b | _ \<Rightarrow> True)
     (snd (snd (streamWithToolRounds dc cfg run iu p env (Some m) resp))
      @ snd (snd (completeWithToolRounds dc cfg run p env (Some m) resp)))"
proof -
  define ok where "ok = (\<lambda>c. case c of Send _ b \<Rightarrow> continues m b | _ \<Rightarrow> True)"
  define P where "P = (\<lambda>cs (k::nat) b. list_all ok cs \<and> continues m b)"
  have start: "P [] (nat (WebSearchMaxRounds cfg)) (Some m)" by (simp add: P_def continues_def Let_def)
  have step: "P (cs @ ds) k (appendToolResults b calls rs)"
    if "P cs (Suc k) b" "doRound e p (appendToolResults b calls rs) = (r, ds)" "appendToolResults b calls rs \<noteq> None"
    for cs k b calls rs e ds r
  proof -
    from that(1) have c: "continues m (appendToolResults b calls rs)"
      using append_continues that(3) by (simp add: P_def)
    with doRound_calls [OF that(2)] have "list_all ok ds"
      by (auto simp: ok_def list_all_iff split: call.splits)
    with that(1) c show ?thesis by (simp add: P_def)
  qed
  have "(\<exists>k b'. P (snd (snd (streamWithToolRounds dc cfg run iu p env (Some m) resp))) k b')
    \<and> (\<exists>k b'. P (snd (snd (completeWithToolRounds dc cfg run p env (Some m) resp))) k b')"
    by (rule rounds_inv [where P = P, OF start]) (rule step)
  then show ?thesis
    unfolding ok_def [symmetric] by (auto simp: P_def)
qed

text \<open>
  A proxy taken for a round is not given back: when the turn's own proxy fails and the pool hands out
  another, the round acquires it, sends on it, and no call of the round releases, bans or marks it.
\<close>

theorem round_proxy_leaked:
  assumes "re_first e = Failed err" "re_fresh e = [(Some np, Answered rs)]"
  shows "doRound e p b = (Some rs, [Send p b, Acquire (Some np), Send np b])"
  using assms by (simp add: doRound_def)

lemma rounds_release_nothing:
  "list_all (\<lambda>c. \<not> is_release c)
     (snd (snd (streamWithToolRounds dc cfg run iu p env b resp))
      @ snd (snd (completeWithToolRounds dc cfg run p env b resp)))"
proof -
  define P where "P = (\<lambda>cs (k::nat) (b::body). list_all (\<lambda>c. \<not> is_release c) cs)"
  have start: "P [] (nat (WebSearchMaxRounds cfg)) b" by (simp add: P_def)
  have step: "P (cs @ ds) k (appendToolResults b calls rs)"
    if "P cs (Suc k) b" "doRound e p (appendToolResults b calls rs) = (r, ds)" "appendToolResults b calls rs \<noteq> None"
    for cs k b calls rs e ds r
    using that(1) doRound_calls [OF that(2)] by (simp add: P_def)
  have "(\<exists>k b'. P (snd (snd (streamWithToolRounds dc cfg run iu p env b resp))) k b')
    \<and> (\<exists>k b'. P (snd (snd (completeWithToolRounds dc cfg run p env b resp))) k b')"
    by (rule rounds_inv [where P = P, OF start]) (rule step)
  then show ?thesis by (auto simp: P_def)
qed

text \<open>
  Usage is not summed in full. After any successful answer, with or without searches, the count of
  cached prompt tokens is zero, so neither the metrics nor the cost estimate see the upstream's cache.
\<close>

lemma add_usage_cached [simp]: "us_cached (add_usage t u) = us_cached t"
  by (simp add: add_usage_def)

lemma stream_rounds_cached:
  "us_cached (tn_usage (stream_rounds dc run iu p env left resp cur t)) = us_cached (tn_usage t)"
proof (induction left arbitrary: resp cur t)
  case 0
  then show ?case by (simp add: stream_rounds.simps [of _ _ _ _ _ 0] Let_def split: prod.split)
next
  case (Suc n)
  then show ?case
    by (simp add: stream_rounds.simps [of _ _ _ _ _ "Suc n"] Let_def split: prod.split option.split)
qed

lemma complete_rounds_cached:
  "us_cached (fst (snd (complete_rounds dc run p env left resp cur u cs))) = us_cached u"
proof (induction left arbitrary: resp cur u cs)
  case 0
  then show ?case
    by (simp add: complete_rounds.simps [of _ _ _ _ 0] interceptable_def Let_def split: option.split)
next
  case (Suc n)
  then show ?case
    by (simp add: complete_rounds.simps [of _ _ _ _ "Suc n"] Let_def split: prod.split option.split)
qed

theorem cached_tokens_lost:
  "us_cached (fst (snd (streamWithToolRounds dc cfg run iu p env b resp))) = 0
   \<and> us_cached (fst (snd (completeWithToolRounds dc cfg run p env b resp))) = 0"
  by (simp add: streamWithToolRounds_def completeWithToolRounds_def Let_def turn_start_def no_usage_def
      stream_rounds_cached complete_rounds_cached)

text \<open>
  Without the search tool the loop is the plain relay: \<open>completeWithToolRounds\<close> answers what
  \<open>handleNormalResponse\<close> answers, makes no further request, and counts the same tokens except the
  cached ones.
\<close>

theorem no_search_is_plain_relay:
  "completeWithToolRounds dc cfg None p env b resp
     = (fst (handleNormalResponse dc resp), (snd (handleNormalResponse dc resp))\<lparr> us_cached := 0 \<rparr>, [])"
  by (simp add: completeWithToolRounds_def complete_rounds.simps [of _ None] interceptable_def
      handleNormalResponse_def Let_def usage_or_zero_def add_usage_def no_usage_def split: option.split)

definition is_done_line :: "string \<Rightarrow> bool" where
  "is_done_line l \<longleftrightarrow> has_prefix l ''data: '' \<and> trim_space (trim_prefix l ''data: '') = ''[DONE]''"

definition is_error_event :: "sse \<Rightarrow> bool" where
  "is_error_event e = (case e of Sse_error _ \<Rightarrow> True | _ \<Rightarrow> False)"

definition unfinished :: "stream \<Rightarrow> bool" where
  "unfinished s \<longleftrightarrow> \<not> list_ex is_done_line (sent (st_out s) @ st_buf s) \<and> \<not> list_ex is_error_event (st_out s)"

lemma no_error_lines [simp]: "\<not> list_ex is_error_event (map Sse_line ls)"
  by (induction ls) (simp_all add: is_error_event_def)

lemma relay_line_unfinished:
  assumes "unfinished s" "\<not> is_done_line line" "relay_line decode iu ic wok line s = (f, u)"
  shows "unfinished u \<and> (f = Next \<or> f = Return [])"
  using assms
  by (auto simp: relay_line_def Let_def unfinished_def is_done_line_def is_error_event_def emit_def
      split: if_splits option.splits)

lemma relay_lines_unfinished:
  assumes "unfinished s" "\<not> list_ex (is_done_line \<circ> fst) ls"
    and "relay_lines decode iu ic (ls @ [(d, wok)]) s = (Some calls, u)" "calls \<noteq> []"
  shows "unfinished u"
  using assms
proof (induction ls arbitrary: s)
  case Nil
  then show ?case
  proof (cases "is_done_line d")
    case False
    obtain f v where "relay_line decode iu ic wok d s = (f, v)" by fastforce
    with relay_line_unfinished [OF Nil(1) False this] Nil show ?thesis by (cases f) auto
  next
    case True
    with Nil show ?thesis
      by (auto simp: relay_line_def Let_def is_done_line_def unfinished_def split: if_splits)
  qed
next
  case (Cons x ls)
  obtain l ok where x: "x = (l, ok)" by fastforce
  obtain f v where f: "relay_line decode iu ic ok l s = (f, v)" by fastforce
  from relay_line_unfinished [OF Cons.prems(1) _ this] Cons.prems x have v: "unfinished v" "f = Next \<or> f = Return []"
    by auto
  with Cons.prems x f have "f = Next" by auto
  with Cons.IH [OF v(1)] Cons.prems x f show ?case by auto
qed

text \<open>
  The last allowed round loses the answer. When the model still asks for a search once the rounds are
  used up, the relay has already withheld its calls, and the turn ends without them: the client is
  sent no call, no \<open>[DONE]\<close> and no error.
\<close>

theorem last_round_answer_lost:
  assumes "body_lines resp = ls @ [(d, wok)]" "\<not> list_ex (is_done_line \<circ> fst) ls"
    and "handleStreamResponse (dc_chunk dc) iu (run \<noteq> None) (body_lines resp) (rs_broken resp) = (out, u, calls)"
    and "calls \<noteq> []"
  shows "tn_sent (stream_rounds dc run iu p env 0 resp cur t) = tn_sent t @ out
    \<and> \<not> list_ex is_done_line (sent out) \<and> \<not> list_ex is_error_event out
    \<and> tn_calls (stream_rounds dc run iu p env 0 resp cur t) = tn_calls t"
proof -
  obtain r s where r: "relay_lines (dc_chunk dc) iu (run \<noteq> None) (ls @ [(d, wok)]) stream_start = (r, s)" by fastforce
  with assms(1,3,4) have rc: "r = Some calls" "out = st_out s"
    by (auto simp: handleStreamResponse_def Let_def simp del: not_None_eq split: option.splits)
  have "unfinished stream_start" by (simp add: unfinished_def stream_start_def)
  from relay_lines_unfinished [OF this assms(2) r [unfolded rc(1)] assms(4)] rc(2)
  have "\<not> list_ex is_done_line (sent out)" "\<not> list_ex is_error_event out" by (auto simp: unfinished_def)
  with assms(3) show ?thesis
    by (simp add: stream_rounds.simps [of _ _ _ _ _ 0] del: not_None_eq)
qed

section \<open>Concrete rounds\<close>

definition demo_text :: string where
  "demo_text = ''data: call'' @ [CHR 0x0A] @ ''data: [DONE]''"

definition demo_response :: response where
  "demo_response = \<lparr> rs_status = 200, rs_headers = [(''Content-Type'', ''application/json''), (''Connection'', ''close'')],
     rs_body = demo_text, rs_broken = False, rs_writable = 9 \<rparr>"

definition demo_decoder :: decoder where
  "demo_decoder = \<lparr> dc_chunk = demo_decode, dc_message = (\<lambda>_. None), dc_usage = (\<lambda>_. Some demo_usage) \<rparr>"

definition demo_search :: "string \<Rightarrow> string + string" where
  "demo_search q = Inr ''nothing found''"

definition demo_round :: round_env where
  "demo_round = \<lparr> re_first = Failed ''EOF'', re_fresh = [(Some ''p2'', Answered demo_response)] \<rparr>"

theorem round_proxy_leaked_witness:
  "snd (doRound demo_round ''p1'' None) = [Send ''p1'' None, Acquire (Some ''p2''), Send ''p2'' None]"
  using round_proxy_leaked [of demo_round "''EOF''" "''p2''" demo_response "''p1''" None]
  by (simp add: demo_round_def)

lemma demo_body_lines:
  "body_lines demo_response = [(''data: call'' @ [CHR 0x0A], True)] @ [(''data: [DONE]'', True)]"
  by code_simp

lemma demo_stream:
  "handleStreamResponse demo_decode False True (body_lines demo_response) False
     = ([], no_usage, [call_object \<lparr> ac_id = ''c1'', ac_type = [], ac_name = webSearchToolName, ac_args = [] \<rparr>])"
  by code_simp

theorem last_round_answer_lost_witness:
  "tn_sent (stream_rounds demo_decoder (Some demo_search) False ''p1'' (\<lambda>_. demo_round) 0 demo_response None
     turn_start) = []"
proof -
  have s: "handleStreamResponse (dc_chunk demo_decoder) False (Some demo_search \<noteq> None) (body_lines demo_response)
      (rs_broken demo_response)
     = ([], no_usage, [call_object \<lparr> ac_id = ''c1'', ac_type = [], ac_name = webSearchToolName, ac_args = [] \<rparr>])"
    using demo_stream by (simp add: demo_decoder_def demo_response_def)
  have n: "\<not> list_ex (is_done_line \<circ> fst) [(''data: call'' @ [CHR 0x0A], True)]" by code_simp
  from last_round_answer_lost [OF demo_body_lines n s, of "''p1''" "\<lambda>_. demo_round" None turn_start]
  show ?thesis by (simp add: turn_start_def)
qed

end
