(* ===== verification/Upstream_Client.thy ===== *)
theory Upstream_Client
  imports Tool_Rounds Pool_Machine
begin

text \<open>
  \<^verbatim>\<open>internal/upstream/client.go\<close>, the driver of an OpenAI-compatible provider: the base URL, the
  cache of HTTP clients, the two requests, and the recognition of rate limits. The network is an
  argument: \<open>dial\<close> for what \<open>golang.org/x/net/proxy\<close> says of an address, \<open>net\<close> for the answer to a
  request.
\<close>

section \<open>The base URL\<close>

definition normalizeBase :: "string \<Rightarrow> string" where
  "normalizeBase base =
     (let trimmed = trim_suffix (trim_space base) ''/''
      in if \<not> has_suffix trimmed ''/v1'' then trimmed @ ''/v1'' else trimmed)"

section \<open>The client and its cache\<close>

text \<open>
  An \<open>http.Client\<close> is what it was built from: the address its transport dials, the request timeout,
  and the transport's idle timeout.
\<close>

record http_client =
  hc_addr :: string
  hc_timeout :: duration
  hc_idle :: duration

record client =
  cl_cfg :: config
  cl_base :: string
  cl_cache :: "string \<Rightarrow> http_client option"

definition NewClient :: "config \<Rightarrow> client" where
  "NewClient cfg = \<lparr> cl_cfg = cfg, cl_base = normalizeBase (UpstreamBaseURL cfg), cl_cache = (\<lambda>_. None) \<rparr>"

definition NewSOCKS5Dialer :: "(string \<Rightarrow> string option) \<Rightarrow> string \<Rightarrow> string + string" where
  "NewSOCKS5Dialer dial socks5Addr =
     (let addr = trim_prefix socks5Addr ''socks5h://'';
          addr = trim_prefix addr ''socks5://''
      in case dial addr of
           Some err \<Rightarrow> Inl (''failed to create SOCKS5 dialer: '' @ err)
         | None \<Rightarrow> Inr addr)"

text \<open>
  \<open>getClient\<close>. Between the unlocked dialer and the second lock another request may have filled the
  cache: \<open>other\<close> is the cache it left.
\<close>

definition getClient ::
  "(string \<Rightarrow> string option) \<Rightarrow> (client \<Rightarrow> client) \<Rightarrow> proxy \<Rightarrow> client \<Rightarrow> (string + http_client) \<times> client" where
  "getClient dial other p c =
     (case cl_cache c (px_id p) of
        Some h \<Rightarrow> (Inr h, c)
      | None \<Rightarrow>
          (case NewSOCKS5Dialer dial (px_addr p) of
             Inl err \<Rightarrow> (Inl err, c)
           | Inr addr \<Rightarrow>
               let h = \<lparr> hc_addr = addr, hc_timeout = RequestTimeout (cl_cfg c), hc_idle = 90 \<rparr>;
                   c = other c
               in case cl_cache c (px_id p) of
                    Some existing \<Rightarrow> (Inr existing, c)
                  | None \<Rightarrow> (Inr h, c\<lparr> cl_cache := (cl_cache c)(px_id p \<mapsto> h) \<rparr>)))"

section \<open>Rate limits\<close>

definition limit_keywords :: "string list" where
  "limit_keywords = [''rate limit'', ''rate_limit'', ''too many requests'', ''quota exceeded'', ''quota_exceeded'',
     ''limit exceeded'', ''limit_exceeded'', ''requests per'', ''try again later'', ''slow down'']"

definition isRateLimitError :: "int \<Rightarrow> string \<Rightarrow> bool" where
  "isRateLimitError statusCode body \<longleftrightarrow>
     statusCode = 429 \<or> list_ex (\<lambda>kw. contains (to_lower body) kw) limit_keywords"

definition header_value :: "response \<Rightarrow> string \<Rightarrow> string" where
  "header_value rs k = (case map_of (rs_headers rs) k of Some v \<Rightarrow> v | None \<Rightarrow> [])"

text \<open>What is made of the provider's answer, in \<open>Do\<close> and \<open>DoModels\<close> alike.\<close>

definition classify :: "response \<Rightarrow> do_result" where
  "classify rs =
     (if rs_status rs = 429 then Limited (header_value rs ''Retry-After'')
      else if rs_status rs \<ge> 400 then
        (if isRateLimitError (rs_status rs) (to_lower (rs_body rs)) then Limited (header_value rs ''Retry-After'')
         else Answered (rs\<lparr> rs_broken := False \<rparr>))
      else Answered rs)"

section \<open>Requests\<close>

record outgoing =
  og_method :: string
  og_url :: string
  og_headers :: "(string \<times> string) list"
  og_body :: string
  og_via :: string

text \<open>\<open>Header.Set\<close> replaces a header of the same name, whatever the case it is written in.\<close>

definition set_header :: "string \<Rightarrow> string \<Rightarrow> (string \<times> string) list \<Rightarrow> (string \<times> string) list" where
  "set_header k v hs = filter (\<lambda>kv. to_lower (fst kv) \<noteq> to_lower k) hs @ [(k, v)]"

definition set_auth :: "auth \<Rightarrow> (string \<times> string) list \<Rightarrow> (string \<times> string) list" where
  "set_auth a hs = (if au_value a \<noteq> [] then set_header (au_header a) (au_value a) hs else hs)"

text \<open>A nil proxy is dereferenced in \<open>getClient\<close>: \<open>None\<close> is that panic.\<close>

definition send_via ::
  "(string \<Rightarrow> string option) \<Rightarrow> (client \<Rightarrow> client) \<Rightarrow> (outgoing \<Rightarrow> string + response)
     \<Rightarrow> (client \<Rightarrow> outgoing) \<Rightarrow> proxy option \<Rightarrow> client \<Rightarrow> do_result option \<times> outgoing option \<times> client" where
  "send_via dial other net mk p c =
     (case p of
        None \<Rightarrow> (None, None, c)
      | Some p \<Rightarrow>
          (case getClient dial other p c of
             (Inl err, c) \<Rightarrow> (Some (Failed err), None, c)
           | (Inr h, c) \<Rightarrow>
               let req = (mk c)\<lparr> og_via := hc_addr h \<rparr>
               in (Some (case net req of Inl err \<Rightarrow> Failed err | Inr rs \<Rightarrow> classify rs), Some req, c)))"

definition Do_request ::
  "(string \<Rightarrow> string option) \<Rightarrow> (client \<Rightarrow> client) \<Rightarrow> (outgoing \<Rightarrow> string + response)
     \<Rightarrow> proxy option \<Rightarrow> string \<Rightarrow> auth \<Rightarrow> bool \<Rightarrow> client \<Rightarrow> do_result option \<times> outgoing option \<times> client" where
  "Do_request dial other net p body a streaming =
     send_via dial other net
       (\<lambda>c. \<lparr> og_method = ''POST'', og_url = cl_base c @ ''/chat/completions'',
              og_headers =
                (let hs = set_auth a (set_header ''Content-Type'' ''application/json'' [])
                 in if streaming then set_header ''Accept'' ''text/event-stream'' hs else hs),
              og_body = body, og_via = [] \<rparr>) p"

definition DoModels ::
  "(string \<Rightarrow> string option) \<Rightarrow> (client \<Rightarrow> client) \<Rightarrow> (outgoing \<Rightarrow> string + response)
     \<Rightarrow> proxy option \<Rightarrow> auth \<Rightarrow> client \<Rightarrow> do_result option \<times> outgoing option \<times> client" where
  "DoModels dial other net p a =
     send_via dial other net
       (\<lambda>c. \<lparr> og_method = ''GET'', og_url = cl_base c @ ''/models'',
              og_headers = set_auth a (set_header ''Accept'' ''application/json'' []),
              og_body = [], og_via = [] \<rparr>) p"

text \<open>\<open>decode\<close> gives the error message of a body that decodes.\<close>

definition ParseError :: "(string \<Rightarrow> string option) \<Rightarrow> string \<Rightarrow> string" where
  "ParseError decode body = (case decode body of Some msg \<Rightarrow> msg | None \<Rightarrow> body)"

section \<open>What the driver promises\<close>

lemma trim_space_start: "trim_space s \<noteq> [] \<Longrightarrow> \<not> is_space (hd (trim_space s))"
proof -
  assume a: "trim_space s \<noteq> []"
  define t where "t = dropWhile is_space s"
  have ts: "trim_space s = rev (dropWhile is_space (rev t))" by (simp add: trim_space_def t_def)
  have tn: "t \<noteq> []" using a ts by auto
  then have h: "\<not> is_space (hd t)" unfolding t_def by (rule hd_dropWhile)
  have "t = trim_space s @ rev (takeWhile is_space (rev t))"
    unfolding ts by (metis rev_append rev_rev_ident takeWhile_dropWhile_id)
  with a have "hd t = hd (trim_space s)" by (metis hd_append2)
  with h show ?thesis by simp
qed

lemma has_suffix_append [simp]: "has_suffix (s @ p) p"
  by (simp add: has_suffix_def)

lemma has_suffix_ex: "has_suffix s p \<longleftrightarrow> (\<exists>r. s = r @ p)"
  by (auto simp: has_suffix_def) (metis append_take_drop_id)

lemma v1_base_fixed:
  assumes "b = r @ ''/v1''" "\<not> is_space (hd b)"
  shows "normalizeBase b = b"
proof -
  have "trim_space b = b"
    by (rule trim_space_clean) (use assms in \<open>auto simp: clean_def is_space_def\<close>)
  moreover have "\<not> has_suffix b ''/''" using assms(1) by (auto simp: has_suffix_ex)
  ultimately show ?thesis using assms(1) by (simp add: normalizeBase_def trim_suffix_def)
qed

text \<open>
  The base URL is normalised once and for all: it always ends in \<open>/v1\<close>, and normalising it again
  changes nothing, so both spellings of a provider reach the same endpoints.
\<close>

theorem base_normalised:
  "has_suffix (normalizeBase base) ''/v1'' \<and> normalizeBase (normalizeBase base) = normalizeBase base"
proof -
  define t where "t = trim_suffix (trim_space base) ''/''"
  have start: "t \<noteq> [] \<Longrightarrow> \<not> is_space (hd t)"
  proof -
    assume n: "t \<noteq> []"
    obtain r where r: "trim_space base = t @ r"
      by (metis append_Nil2 append_take_drop_id t_def trim_suffix_def)
    with n trim_space_start [of base] show ?thesis by auto
  qed
  have nb: "normalizeBase base = (if has_suffix t ''/v1'' then t else t @ ''/v1'')"
    by (simp add: normalizeBase_def t_def)
  have "\<exists>r. normalizeBase base = r @ ''/v1''" unfolding nb has_suffix_ex by simp
  then obtain r where r: "normalizeBase base = r @ ''/v1''" by blast
  have "\<not> is_space (hd (normalizeBase base))"
  proof (cases "t = []")
    case True
    then show ?thesis by (auto simp: nb is_space_def has_suffix_def)
  next
    case False
    with start show ?thesis by (simp add: nb)
  qed
  from v1_base_fixed [OF r this] r show ?thesis by simp
qed

lemma to_lower_twice [simp]: "to_lower (to_lower s) = to_lower s"
proof -
  have "lower_char (lower_char c) = lower_char c" for c
    by (cases "CHR ''A'' \<le> c \<and> c \<le> CHR ''Z''") (auto simp: lower_char_def less_eq_char_def)
  then show ?thesis by (simp add: to_lower_def comp_def)
qed

text \<open>
  A rate limit is never mistaken for an answer, nor an answer for one: a response is classified as
  limited exactly when its status is 429, or it is an error whose text, whatever its case, has one of
  the ten phrases; every other response is passed on with its status, headers and body untouched.
\<close>

theorem classify_exact:
  "classify rs =
     (if rs_status rs = 429
         \<or> (rs_status rs \<ge> 400 \<and> list_ex (contains (to_lower (rs_body rs))) limit_keywords)
      then Limited (header_value rs ''Retry-After'')
      else Answered (if rs_status rs \<ge> 400 then rs\<lparr> rs_broken := False \<rparr> else rs))"
  by (simp add: classify_def isRateLimitError_def)

text \<open>The cache holds, for each proxy, the client that dials that proxy's address.\<close>

definition strip_scheme :: "string \<Rightarrow> string" where
  "strip_scheme a = trim_prefix (trim_prefix a ''socks5h://'') ''socks5://''"

definition cache_ok :: "(string \<Rightarrow> string) \<Rightarrow> client \<Rightarrow> bool" where
  "cache_ok addr c \<longleftrightarrow> (\<forall>i h. cl_cache c i = Some h \<longrightarrow> hc_addr h = strip_scheme (addr i))"

lemma getClient_cache:
  assumes "cache_ok addr c" "\<And>c. cache_ok addr c \<Longrightarrow> cache_ok addr (other c)" "px_addr p = addr (px_id p)"
    and "getClient dial other p c = (r, c')"
  shows "cache_ok addr c' \<and> (case r of Inl _ \<Rightarrow> True | Inr h \<Rightarrow> hc_addr h = strip_scheme (px_addr p))"
proof -
  have d: "NewSOCKS5Dialer dial (px_addr p) = Inr a \<Longrightarrow> a = strip_scheme (addr (px_id p))" for a
    using assms(3) by (auto simp: NewSOCKS5Dialer_def strip_scheme_def Let_def split: option.splits)
  have o: "cache_ok addr (other c)" using assms(1,2) by blast
  show ?thesis
    using assms(1,3,4) o d
    by (auto simp: getClient_def cache_ok_def Let_def split: option.splits sum.splits if_splits)
qed

text \<open>
  C10: Traffic leaves where the pool says it does. As long as an identifier stands for one address, every
  request of either kind goes through the address of the proxy it was given, over any history of the
  cache and whatever other requests do to it meanwhile.
\<close>

theorem egress_is_own_proxy:
  assumes "cache_ok addr c" "\<And>c. cache_ok addr c \<Longrightarrow> cache_ok addr (other c)" "px_addr p = addr (px_id p)"
    and "send_via dial other net mk (Some p) c = (r, Some req, c')"
  shows "og_via req = strip_scheme (px_addr p) \<and> cache_ok addr c'"
proof -
  obtain g c1 where g: "getClient dial other p c = (g, c1)" by fastforce
  from getClient_cache [OF assms(1-3) this] assms(4) g show ?thesis
    by (auto simp: send_via_def Let_def split: sum.splits)
qed

text \<open>
  An identifier used again is not dialled again. When a proxy is replaced by another under the same
  identifier, the requests given the new proxy still leave through the old one's address.
\<close>

theorem reused_id_keeps_old_egress:
  assumes "cl_cache c (px_id old) = None" "px_id new = px_id old" "NewSOCKS5Dialer dial (px_addr old) = Inr a"
    and "Do_request dial (\<lambda>c. c) net (Some old) bo ao so c = (ro, qo, co)"
    and "Do_request dial (\<lambda>c. c) net (Some new) bn an sn co = (rn, Some qn, cn)"
  shows "og_via qn = a"
  using assms by (auto simp: Do_request_def send_via_def getClient_def Let_def)

section \<open>Concrete requests\<close>

definition demo_ext :: "string \<Rightarrow> proxy" where
  "demo_ext a = (demo_proxy ''ext-1'' [])\<lparr> px_addr := a \<rparr>"

definition demo_net :: "outgoing \<Rightarrow> string + response" where
  "demo_net q = Inr demo_response"

theorem egress_is_own_proxy_witness:
  "og_via (the (fst (snd (DoModels (\<lambda>_. None) (\<lambda>c. c) demo_net (Some (demo_ext ''socks5://h:1''))
      \<lparr> au_header = [], au_value = [] \<rparr> (NewClient DefaultConfig))))) = ''h:1''"
proof -
  define r where "r = DoModels (\<lambda>_. None) (\<lambda>c. c) demo_net (Some (demo_ext ''socks5://h:1''))
      \<lparr> au_header = [], au_value = [] \<rparr> (NewClient DefaultConfig)"
  have q: "fst (snd r) \<noteq> None"
    by (simp add: r_def DoModels_def send_via_def getClient_def NewSOCKS5Dialer_def NewClient_def Let_def)
  have c: "cache_ok (\<lambda>_. ''socks5://h:1'') (NewClient DefaultConfig)" by (simp add: cache_ok_def NewClient_def)
  have s: "strip_scheme ''socks5://h:1'' = ''h:1''" by code_simp
  show ?thesis
    using egress_is_own_proxy [of "\<lambda>_. ''socks5://h:1''" "NewClient DefaultConfig" "\<lambda>c. c"
        "demo_ext ''socks5://h:1''" "\<lambda>_. None" demo_net, OF c] q s
    unfolding r_def [symmetric]
    by (cases r) (auto simp: r_def DoModels_def demo_ext_def)
qed

theorem reused_id_keeps_old_egress_witness:
  "og_via (the (fst (snd (Do_request (\<lambda>_. None) (\<lambda>c. c) demo_net (Some (demo_ext ''socks5://new:2'')) [] 
      \<lparr> au_header = [], au_value = [] \<rparr> False
      (snd (snd (Do_request (\<lambda>_. None) (\<lambda>c. c) demo_net (Some (demo_ext ''socks5://old:1'')) []
         \<lparr> au_header = [], au_value = [] \<rparr> False (NewClient DefaultConfig)))))))) = ''old:1''"
proof -
  define a0 where "a0 = \<lparr> au_header = [], au_value = [] \<rparr>"
  define r1 where "r1 = Do_request (\<lambda>_. None) (\<lambda>c. c) demo_net (Some (demo_ext ''socks5://old:1'')) [] a0 False
      (NewClient DefaultConfig)"
  define r2 where "r2 = Do_request (\<lambda>_. None) (\<lambda>c. c) demo_net (Some (demo_ext ''socks5://new:2'')) [] a0 False
      (snd (snd r1))"
  have q: "fst (snd r2) \<noteq> None"
    by (simp add: r2_def r1_def Do_request_def send_via_def getClient_def NewSOCKS5Dialer_def NewClient_def
        demo_ext_def Let_def)
  then obtain q2 where q2: "fst (snd r2) = Some q2" by auto
  have d: "NewSOCKS5Dialer (\<lambda>_. None) (px_addr (demo_ext ''socks5://old:1'')) = Inr ''old:1''"
    by (simp add: demo_ext_def) code_simp
  have n: "cl_cache (NewClient DefaultConfig) (px_id (demo_ext ''socks5://old:1'')) = None" by (simp add: NewClient_def)
  have i: "px_id (demo_ext ''socks5://new:2'') = px_id (demo_ext ''socks5://old:1'')" by (simp add: demo_ext_def)
  have "og_via q2 = ''old:1''"
    by (rule reused_id_keeps_old_egress [OF n i d, where bo = "[]" and ao = a0 and so = False and net = demo_net
          and ro = "fst r1" and qo = "fst (snd r1)" and co = "snd (snd r1)" and bn = "[]" and an = a0
          and sn = False and rn = "fst r2" and cn = "snd (snd r2)"])
      (use q2 in \<open>simp_all add: r1_def [symmetric] r2_def [symmetric] prod_eq_iff\<close>)
  with q2 show ?thesis by (simp add: r2_def r1_def a0_def)
qed

end
