(* ===== verification/Chat_Retry.thy ===== *)
theory Chat_Retry
  imports Upstream_Client
begin

text \<open>
  The forwarding handlers of \<^verbatim>\<open>internal/handler/handler.go\<close>: \<open>handleChatCompletions\<close> with its
  validation, retry loop and relay, \<open>handleModels\<close>, \<open>handleModelRetrieve\<close> and the filtering of the
  model list. An attempt asks the pool at most once and the upstream at most once, so the environment
  answers by the number of the attempt.
\<close>

section \<open>Validation of a chat request\<close>

record chat_message =
  cm_role :: string
  cm_content :: string

record chat_request =
  cq_model :: string
  cq_messages :: "chat_message list"
  cq_stream :: bool
  cq_conversation :: string
  cq_include_usage :: "bool option"

definition validChatRoles :: "string list" where
  "validChatRoles = [''system'', ''user'', ''assistant'', ''tool'', ''function'', ''developer'']"

definition check_message :: "nat \<Rightarrow> chat_message \<Rightarrow> (string \<times> string) option" where
  "check_message i m =
     (let fld = ''messages['' @ itoa (int i) @ '']''
      in if cm_role m \<notin> set validChatRoles then
           Some (fld @ ''.role'', ''invalid role '' @ go_quote (cm_role m)
                   @ ''; expected one of system, user, assistant, tool, function, developer'')
         else if (cm_content m = [] \<or> cm_content m = ''null'') \<and> cm_role m \<noteq> ''assistant'' \<and> cm_role m \<noteq> ''tool'' then
           Some (fld @ ''.content'', ''message content is required for role '' @ cm_role m)
         else None)"

fun check_messages :: "nat \<Rightarrow> chat_message list \<Rightarrow> (string \<times> string) option" where
  "check_messages i [] = None"
| "check_messages i (m # ms) =
     (case check_message i m of Some e \<Rightarrow> Some e | None \<Rightarrow> check_messages (Suc i) ms)"

definition validateChatRequest :: "chat_request \<Rightarrow> (string \<times> string) option" where
  "validateChatRequest req =
     (if trim_space (cq_model req) = [] then Some (''model'', ''you must provide a model parameter'')
      else if cq_messages req = [] then
        Some (''messages'', [CHR 0x27] @ ''messages'' @ [CHR 0x27] @ '' must contain at least one message'')
      else check_messages 0 (cq_messages req))"

section \<open>The retry delay\<close>

text \<open>\<open>1 << uint(attempt-1)\<close> on an \<open>int64\<close>: a shift by 64 or more leaves nothing.\<close>

definition shift_one :: "nat \<Rightarrow> int" where
  "shift_one n = (if n \<ge> 64 then 0 else wrap64 (2 ^ n))"

definition calculateRetryDelay :: "config \<Rightarrow> nat \<Rightarrow> duration" where
  "calculateRetryDelay cfg attempt =
     (let delay = wrap64 (RetryBaseDelay cfg * shift_one (attempt - 1))
      in if delay > RetryMaxDelay cfg then RetryMaxDelay cfg else delay)"

section \<open>The retry loop\<close>

record attempt_env =
  ae_first :: "string + string"
  ae_mark :: "nat \<Rightarrow> time"
  ae_now :: "nat \<Rightarrow> time"
  ae_get :: "nat \<Rightarrow> string + string"
  ae_do :: "nat \<Rightarrow> do_result"

text \<open>The local variables of both loops; \<open>handleModels\<close> has a single proxy variable, \<open>ls_proxy\<close>.\<close>

record loop_state =
  ls_proxy :: "string option"
  ls_own :: "string option"
  ls_limited :: bool
  ls_deadline :: "time option"
  ls_last :: "(int \<times> string \<times> string) option"
  ls_err :: "string option"
  ls_calls :: "call list"

definition did :: "call list \<Rightarrow> loop_state \<Rightarrow> loop_state" where
  "did cs st = st\<lparr> ls_calls := ls_calls st @ cs \<rparr>"

datatype verdict =
    Continue loop_state
  | Break loop_state
  | Relay response loop_state
  | Public_limit string loop_state
  | Panicked loop_state

text \<open>The deadline for a fresh proxy, set when it is first needed, and whether it is still ahead.\<close>

definition with_deadline :: "config \<Rightarrow> attempt_env \<Rightarrow> nat \<Rightarrow> loop_state \<Rightarrow> bool \<times> loop_state" where
  "with_deadline cfg e n st =
     (let d = (case ls_deadline st of None \<Rightarrow> ae_mark e n + RateLimitFreshIPWait cfg | Some d \<Rightarrow> d)
      in (time_sub d (ae_now e n) > 0, st\<lparr> ls_deadline := Some d \<rparr>))"

definition remember :: "response \<Rightarrow> loop_state \<Rightarrow> loop_state" where
  "remember rs st =
     st\<lparr> ls_last := Some (rs_status rs, take 65536 (rs_body rs), header_value rs ''Content-Type'') \<rparr>"

definition chat_attempt ::
  "config \<Rightarrow> bool \<Rightarrow> body \<Rightarrow> attempt_env \<Rightarrow> nat \<Rightarrow> loop_state \<Rightarrow> verdict" where
  "chat_attempt cfg public b e n st =
     (if n > 0 \<and> ls_limited st then
        (case with_deadline cfg e n st of
           (False, st) \<Rightarrow>
             Break (st\<lparr> ls_limited := False, ls_err := Some ''rate limited: timed out waiting for a fresh proxy'' \<rparr>)
         | (True, st) \<Rightarrow>
             (case ae_get e n of
                Inl err \<Rightarrow> Break (did [Acquire None] (st\<lparr> ls_own := None, ls_limited := False, ls_err := Some err \<rparr>))
              | Inr p \<Rightarrow> Continue (did [Acquire (Some p)]
                   (st\<lparr> ls_own := Some p, ls_proxy := Some p, ls_limited := False \<rparr>))))
      else
        let st = (if n > 0 then did [Sleep (calculateRetryDelay cfg n)] st else st)
        in case ls_proxy st of
             None \<Rightarrow> Panicked st
           | Some p \<Rightarrow>
               let st = did [Send p b] st
               in case ae_do e n of
                    Limited ra \<Rightarrow>
                      let st = did [Mark_limited (Some p) ra public] st
                      in if public then Public_limit ra (did [Release (ls_own st)] st)
                         else Continue (st\<lparr> ls_limited := True, ls_err := Some ''rate limited by upstream'' \<rparr>)
                  | Failed err \<Rightarrow>
                      let st = did [Mark_unhealthy (Some p)] (st\<lparr> ls_err := Some err \<rparr>)
                      in (case ae_get e n of
                            Inr np \<Rightarrow> Continue (did [Acquire (Some np), Release (ls_own st)]
                              (st\<lparr> ls_own := Some np, ls_proxy := Some np \<rparr>))
                          | Inl _ \<Rightarrow> Continue (did [Acquire None] (st\<lparr> ls_proxy := None \<rparr>)))
                  | Answered rs \<Rightarrow>
                      if rs_status rs \<ge> 500 \<and> int n < MaxRetries cfg then Continue (remember rs st)
                      else Relay rs st)"

definition models_attempt :: "config \<Rightarrow> bool \<Rightarrow> attempt_env \<Rightarrow> nat \<Rightarrow> loop_state \<Rightarrow> verdict" where
  "models_attempt cfg public e n st =
     (if n > 0 \<and> ls_limited st then
        (case with_deadline cfg e n st of
           (False, st) \<Rightarrow>
             Break (st\<lparr> ls_limited := False, ls_err := Some ''rate limited: timed out waiting for a fresh proxy'' \<rparr>)
         | (True, st) \<Rightarrow>
             (case ae_get e n of
                Inl err \<Rightarrow> Break (did [Acquire None] (st\<lparr> ls_proxy := None, ls_limited := False, ls_err := Some err \<rparr>))
              | Inr p \<Rightarrow> Continue (did [Acquire (Some p)] (st\<lparr> ls_proxy := Some p, ls_limited := False \<rparr>))))
      else
        let st = (if n > 0 then did [Sleep (calculateRetryDelay cfg n)] st else st)
        in case ls_proxy st of
             None \<Rightarrow> Panicked st
           | Some p \<Rightarrow>
               let st = did [Send p None] st
               in case ae_do e n of
                    Limited ra \<Rightarrow>
                      let st = did [Mark_limited (Some p) ra public] st
                      in if public then Public_limit ra st
                         else Continue (st\<lparr> ls_proxy := None, ls_limited := True,
                                            ls_err := Some ''rate limited by upstream'' \<rparr>)
                  | Failed err \<Rightarrow>
                      let st = did [Mark_unhealthy (Some p)] (st\<lparr> ls_err := Some err \<rparr>)
                      in (case ae_get e n of
                            Inr np \<Rightarrow> Continue (did [Acquire (Some np), Release (Some p)] (st\<lparr> ls_proxy := Some np \<rparr>))
                          | Inl _ \<Rightarrow> Continue (did [Acquire None] (st\<lparr> ls_proxy := None \<rparr>)))
                  | Answered rs \<Rightarrow>
                      if rs_status rs \<ge> 500 \<and> int n < MaxRetries cfg then Continue (remember rs st)
                      else Relay rs st)"

text \<open>
  The loop itself, for either body: \<open>left\<close> attempts remain, the next is attempt \<open>n\<close>. It ends in a
  verdict that is not \<open>Continue\<close>; running out of attempts is a \<open>Break\<close>.
\<close>

fun attempts :: "(nat \<Rightarrow> loop_state \<Rightarrow> verdict) \<Rightarrow> nat \<Rightarrow> nat \<Rightarrow> loop_state \<Rightarrow> verdict" where
  "attempts f 0 n st = Break st"
| "attempts f (Suc left) n st =
     (case f n st of Continue st \<Rightarrow> attempts f left (Suc n) st | v \<Rightarrow> v)"

definition loop_start :: "string \<Rightarrow> loop_state" where
  "loop_start p = \<lparr> ls_proxy = Some p, ls_own = Some p, ls_limited = False, ls_deadline = None, ls_last = None,
     ls_err = None, ls_calls = [Acquire (Some p)] \<rparr>"

definition chat_loop :: "config \<Rightarrow> bool \<Rightarrow> body \<Rightarrow> attempt_env \<Rightarrow> string \<Rightarrow> verdict" where
  "chat_loop cfg public b e p = attempts (chat_attempt cfg public b e) (nat (MaxRetries cfg + 1)) 0 (loop_start p)"

definition models_loop :: "config \<Rightarrow> bool \<Rightarrow> attempt_env \<Rightarrow> string \<Rightarrow> verdict" where
  "models_loop cfg public e p = attempts (models_attempt cfg public e) (nat (MaxRetries cfg + 1)) 0 (loop_start p)"

section \<open>The handlers' answers\<close>

text \<open>
  What a handler leaves: its reply (\<open>None\<close> when it panics, which \<open>net/http\<close> turns into an aborted
  connection), its calls, and the outcome it records in the metrics.
\<close>

record handled =
  ha_reply :: "reply option"
  ha_calls :: "call list"
  ha_recorded :: "(bool \<times> int \<times> usage) option"

definition limited_text :: string where
  "limited_text = ''Rate limited by upstream provider, try again later''"

definition limited_reply :: "config \<Rightarrow> reply" where
  "limited_reply cfg = error_reply [(''Retry-After'', RateLimitRetryAfter cfg)] (writeError 429 limited_text)"

definition public_reply :: "config \<Rightarrow> string \<Rightarrow> reply" where
  "public_reply cfg ra =
     (let after = retryAfterHeader (Some ra) (RateLimitRetryAfter cfg)
      in error_reply [(''Retry-After'', after)]
           (writeError 429 (''Upstream rate limited (public tier); retry after '' @ after @ '' second(s)'')))"

definition last_reply :: "int \<times> string \<times> string \<Rightarrow> reply" where
  "last_reply l =
     (case l of (status, body, ct) \<Rightarrow>
        \<lparr> rp_status = status, rp_headers = [(''Content-Type'', if ct \<noteq> [] then ct else ''application/json'')],
          rp_content = C_raw body \<rparr>)"

definition failed_reply :: reply where
  "failed_reply = error_reply [] (writeError 502 ''Request failed: upstream error'')"

text \<open>\<open>relay\<close> is what the response is made of, with the usage it carries and the calls it needs.\<close>

definition chat_result ::
  "config \<Rightarrow> (string \<Rightarrow> response \<Rightarrow> reply \<times> usage \<times> call list) \<Rightarrow> verdict \<Rightarrow> handled" where
  "chat_result cfg relay v =
     (case v of
        Relay rs st \<Rightarrow>
          (case relay (the (ls_proxy st)) rs of
             (r, u, cs) \<Rightarrow> \<lparr> ha_reply = Some r, ha_calls = ls_calls st @ cs @ [Release (ls_own st)],
                             ha_recorded = Some (True, rs_status rs, u) \<rparr>)
      | Public_limit ra st \<Rightarrow>
          \<lparr> ha_reply = Some (public_reply cfg ra), ha_calls = ls_calls st, ha_recorded = Some (False, 429, no_usage) \<rparr>
      | Panicked st \<Rightarrow> \<lparr> ha_reply = None, ha_calls = ls_calls st, ha_recorded = None \<rparr>
      | Continue st \<Rightarrow> \<lparr> ha_reply = None, ha_calls = ls_calls st, ha_recorded = None \<rparr>
      | Break st \<Rightarrow>
          let cs = ls_calls st @ [Release (ls_own st)]
          in if ls_own st = None then \<lparr> ha_reply = None, ha_calls = cs, ha_recorded = None \<rparr>
             else if ls_limited st then
               \<lparr> ha_reply = Some (limited_reply cfg), ha_calls = cs, ha_recorded = Some (False, 429, no_usage) \<rparr>
             else (case ls_last st of
                     Some l \<Rightarrow> \<lparr> ha_reply = Some (last_reply l), ha_calls = cs,
                                 ha_recorded = Some (False, fst l, no_usage) \<rparr>
                   | None \<Rightarrow> \<lparr> ha_reply = Some failed_reply, ha_calls = cs,
                                ha_recorded = Some (False, 502, no_usage) \<rparr>))"

text \<open>
  \<open>wsFor\<close>: the search service for a proxy, by the client cached under its identifier. Identifiers come
  back with other addresses (\<open>AddExternalProxy\<close> calls every proxy \<open>ext-1\<close>); the client stays the first. \<open>addr\<close> is the
  proxy's address, \<open>clients\<close> the address each cached client dials, \<open>search\<close> the service built on one.
\<close>

definition wsFor ::
  "(string \<Rightarrow> string option) \<Rightarrow> handler \<Rightarrow> string option \<Rightarrow> string \<Rightarrow> (string \<Rightarrow> string option)
     \<Rightarrow> string option \<times> (string \<Rightarrow> string option)" where
  "wsFor dial h p addr clients =
     (case p of
        None \<Rightarrow> (None, clients)
      | Some p \<Rightarrow>
          if hd_driver h \<noteq> ''zen'' \<or> \<not> WebSearchEnabled (hd_cfg h) then (None, clients)
          else (case clients p of
                  Some a \<Rightarrow> (Some a, clients)
                | None \<Rightarrow>
                    (case NewSOCKS5Dialer dial addr of
                       Inl _ \<Rightarrow> (None, clients)
                     | Inr a \<Rightarrow> (Some a, clients(p \<mapsto> a)))))"

text \<open>The choice between the three relays, on the status and the kind of the request.\<close>

definition relay_response ::
  "decoder \<Rightarrow> config \<Rightarrow> (string \<Rightarrow> string + string) option \<Rightarrow> chat_request \<Rightarrow> (nat \<Rightarrow> round_env)
     \<Rightarrow> body \<Rightarrow> string \<Rightarrow> response \<Rightarrow> reply \<times> usage \<times> call list" where
  "relay_response dc cfg run req renv b p rs =
     (let includeUsage = (cq_stream req \<and> cq_include_usage req = Some True)
      in if cq_stream req \<and> success (rs_status rs) then streamWithToolRounds dc cfg run includeUsage p renv b rs
         else if success (rs_status rs) then completeWithToolRounds dc cfg run p renv b rs
         else (case handleNormalResponse dc rs of (r, u) \<Rightarrow> (r, u, [])))"

definition forward_chat ::
  "decoder \<Rightarrow> config \<Rightarrow> (string \<Rightarrow> (string \<Rightarrow> string + string) option) \<Rightarrow> (nat \<Rightarrow> round_env) \<Rightarrow> auth
     \<Rightarrow> attempt_env \<Rightarrow> chat_request \<Rightarrow> body \<Rightarrow> handled" where
  "forward_chat dc cfg search renv a e req b =
     (case ae_first e of
        Inl _ \<Rightarrow> \<lparr> ha_reply = Some (limited_reply cfg), ha_calls = [Acquire None],
                    ha_recorded = Some (False, 429, no_usage) \<rparr>
      | Inr p \<Rightarrow>
          chat_result cfg (\<lambda>p rs. relay_response dc cfg (search p) req renv b p rs)
            (chat_loop cfg (isPublicTier a) b e p))"

section \<open>Chat completions\<close>

datatype body_read = Too_large | Unreadable | Read string

text \<open>
  \<open>parse\<close> is the decoding of a body into the request's struct, with the object it is as a whole. The
  search service depends on the proxy of the answer: \<open>addr\<close>, \<open>clients\<close> and \<open>svc\<close> as for \<open>wsFor\<close>.
\<close>

record chat_env =
  ce_read :: body_read
  ce_parse :: "string \<Rightarrow> (chat_request \<times> (string \<times> json) list) option"
  ce_tool :: json
  ce_attempts :: attempt_env
  ce_rounds :: "nat \<Rightarrow> round_env"
  ce_dial :: "string \<Rightarrow> string option"
  ce_addr :: "string \<Rightarrow> string"
  ce_clients :: "string \<Rightarrow> string option"
  ce_service :: "string \<Rightarrow> string \<Rightarrow> string + string"
  ce_key1 :: key_env
  ce_key2 :: key_env
  ce_pick :: nat

definition refused :: "openai_error \<Rightarrow> handled" where
  "refused err = \<lparr> ha_reply = Some (error_reply [] err), ha_calls = [], ha_recorded = None \<rparr>"

definition json_content_type :: "string \<Rightarrow> bool" where
  "json_content_type ct \<longleftrightarrow> ct = [] \<or> has_prefix (to_lower (trim_space ct)) ''application/json''"

definition search_for :: "chat_env \<Rightarrow> handler \<Rightarrow> string \<Rightarrow> (string \<Rightarrow> string + string) option" where
  "search_for ce h p =
     map_option (ce_service ce) (fst (wsFor (ce_dial ce) h (Some p) (ce_addr ce p) (ce_clients ce)))"

definition handleChatCompletions ::
  "hashes \<Rightarrow> decoder \<Rightarrow> chat_env \<Rightarrow> http_request \<Rightarrow> handler \<Rightarrow> handled \<times> handler" where
  "handleChatCompletions hs dc ce r h =
     (let ct = hr_header r ''Content-Type''
      in if \<not> json_content_type ct then
           (refused (writeOpenAIError 415
              (''Expected '' @ [CHR 0x22] @ ''Content-Type: application/json'' @ [CHR 0x22] @ '' but got '' @ ct) [] []), h)
         else case ce_read ce of
           Too_large \<Rightarrow> (refused (writeError 413 ''Request body too large''), h)
         | Unreadable \<Rightarrow> (refused (writeError 400 ''Failed to read request body''), h)
         | Read text \<Rightarrow>
             (case ce_parse ce text of
                None \<Rightarrow> (refused (writeOpenAIError 400
                  ''We could not parse the JSON body of your request.'' [] ''invalid_json''), h)
              | Some (req, m) \<Rightarrow>
                  (case validateChatRequest req of
                     Some (param, msg) \<Rightarrow> (refused (writeErrorParam 400 msg param), h)
                   | None \<Rightarrow>
                       let b = (if WebSearchEnabled (hd_cfg h) \<and> hd_driver h = ''zen''
                                then fst (injectWebSearchTool (ce_tool ce) (Some m)) else Some m);
                           (a, h) = resolveAuth hs (ce_key1 ce) (ce_key2 ce) (ce_pick ce) r h
                       in (forward_chat dc (hd_cfg h) (search_for ce h) (ce_rounds ce) a (ce_attempts ce) req b, h))))"

section \<open>The model list\<close>

definition entry_name :: "(string \<times> json) list \<Rightarrow> string" where
  "entry_name entry =
     (let name = as_str (field ''id'' entry) in if name = [] then as_str (field ''name'' entry) else name)"

fun keep_entry :: "string \<Rightarrow> json \<Rightarrow> bool" where
  "keep_entry pattern (JObj entry) = contains (to_lower (entry_name entry)) pattern"
| "keep_entry pattern _ = True"

text \<open>\<open>decode\<close> and \<open>encode\<close> are \<open>encoding/json\<close> on objects.\<close>

definition filterModels ::
  "(string \<Rightarrow> (string \<times> json) list option) \<Rightarrow> (json \<Rightarrow> string) \<Rightarrow> string \<Rightarrow> string \<Rightarrow> string option" where
  "filterModels decode encode body pattern =
     (case decode body of
        None \<Rightarrow> None
      | Some list \<Rightarrow>
          (case field ''data'' list of
             JArr data \<Rightarrow>
               Some (encode (JObj (set_field ''data'' (JArr (filter (keep_entry (to_lower pattern)) data)) list)))
           | _ \<Rightarrow> None))"

definition handleModelList ::
  "(string \<Rightarrow> (string \<times> json) list option) \<Rightarrow> (json \<Rightarrow> string) \<Rightarrow> config \<Rightarrow> response \<Rightarrow> reply" where
  "handleModelList decode encode cfg rs =
     (if rs_broken rs then error_reply [] (writeError 502 ''Failed to read upstream response'')
      else
        let out = (if ModelFilter cfg \<noteq> [] then
                     (case filterModels decode encode (rs_body rs) (ModelFilter cfg) of
                        Some filtered \<Rightarrow> filtered | None \<Rightarrow> rs_body rs)
                   else rs_body rs)
        in \<lparr> rp_status = rs_status rs, rp_headers = [(''Content-Type'', ''application/json'')],
             rp_content = C_raw out \<rparr>)"

definition release_held :: "loop_state \<Rightarrow> call list" where
  "release_held st = (if ls_proxy st \<noteq> None then [Release (ls_proxy st)] else [])"

definition models_result :: "config \<Rightarrow> (response \<Rightarrow> reply) \<Rightarrow> verdict \<Rightarrow> handled" where
  "models_result cfg relay v =
     (case v of
        Relay rs st \<Rightarrow>
          \<lparr> ha_reply = Some (relay rs), ha_calls = ls_calls st @ [Release (ls_proxy st)], ha_recorded = None \<rparr>
      | Public_limit ra st \<Rightarrow> \<lparr> ha_reply = Some (public_reply cfg ra), ha_calls = ls_calls st, ha_recorded = None \<rparr>
      | Panicked st \<Rightarrow> \<lparr> ha_reply = None, ha_calls = ls_calls st, ha_recorded = None \<rparr>
      | Continue st \<Rightarrow> \<lparr> ha_reply = None, ha_calls = ls_calls st, ha_recorded = None \<rparr>
      | Break st \<Rightarrow>
          (case ls_last st of
             Some l \<Rightarrow> \<lparr> ha_reply = Some (last_reply l), ha_calls = ls_calls st @ release_held st, ha_recorded = None \<rparr>
           | None \<Rightarrow>
               if ls_limited st then
                 \<lparr> ha_reply = Some (limited_reply cfg), ha_calls = ls_calls st, ha_recorded = None \<rparr>
               else
                 \<lparr> ha_reply = Some (error_reply [] (writeError 502 (''Failed to fetch models: ''
                     @ (case ls_err st of Some err \<Rightarrow> err | None \<Rightarrow> ''<nil>'')))),
                   ha_calls = ls_calls st @ (if ls_err st \<noteq> None then release_held st else []),
                   ha_recorded = None \<rparr>))"

definition handleModels ::
  "hashes \<Rightarrow> key_env \<Rightarrow> key_env \<Rightarrow> nat \<Rightarrow> (string \<Rightarrow> (string \<times> json) list option) \<Rightarrow> (json \<Rightarrow> string)
     \<Rightarrow> attempt_env \<Rightarrow> http_request \<Rightarrow> handler \<Rightarrow> handled \<times> handler" where
  "handleModels hs k1 k2 pick decode encode e r h =
     (let (a, h) = resolveAuth hs k1 k2 pick r h; cfg = hd_cfg h
      in (case ae_first e of
            Inl _ \<Rightarrow> \<lparr> ha_reply = Some (limited_reply cfg), ha_calls = [Acquire None], ha_recorded = None \<rparr>
          | Inr p \<Rightarrow>
              models_result cfg (handleModelList decode encode cfg) (models_loop cfg (isPublicTier a) e p), h))"

text \<open>\<open>list\<close> decodes the entries of a model list, \<open>None\<close> when the body is not one.\<close>

definition handleModelRetrieve ::
  "hashes \<Rightarrow> key_env \<Rightarrow> key_env \<Rightarrow> nat \<Rightarrow> (string \<Rightarrow> (string \<times> json) list list option) \<Rightarrow> (json \<Rightarrow> string)
     \<Rightarrow> attempt_env \<Rightarrow> string \<Rightarrow> http_request \<Rightarrow> handler \<Rightarrow> handled \<times> handler" where
  "handleModelRetrieve hs k1 k2 pick list encode e i r h =
     (let (a, h) = resolveAuth hs k1 k2 pick r h; cfg = hd_cfg h;
          done = (\<lambda>rp cs. (\<lparr> ha_reply = Some rp, ha_calls = cs, ha_recorded = None \<rparr>, h))
      in case ae_first e of
           Inl _ \<Rightarrow> done (limited_reply cfg) [Acquire None]
         | Inr p \<Rightarrow>
             let cs = [Acquire (Some p), Send p None];
                 limited = (\<lambda>rl. error_reply [(''Retry-After'', retryAfterHeader rl (RateLimitRetryAfter cfg))]
                                   (writeError 429 limited_text))
             in case ae_do e 0 of
                  Limited ra \<Rightarrow>
                    done (limited (Some ra)) (cs @ [Mark_limited (Some p) ra (isPublicTier a), Release (Some p)])
                | Failed _ \<Rightarrow> done (limited None) (cs @ [Release (Some p)])
                | Answered rs \<Rightarrow>
                    let cs = cs @ [Release (Some p)]
                    in if rs_broken rs then
                         done (error_reply [] (writeError 502 ''Failed to read upstream response'')) cs
                       else (case (case list (rs_body rs) of
                                     Some ms \<Rightarrow> find (\<lambda>m. as_str (field ''id'' m) = i) ms | None \<Rightarrow> None) of
                               Some m \<Rightarrow>
                                 done \<lparr> rp_status = 200, rp_headers = [(''Content-Type'', ''application/json'')],
                                        rp_content = C_raw (encode (JObj m)) \<rparr> cs
                             | None \<Rightarrow>
                                 done (error_reply [] (writeOpenAIError 404
                                   (''The model '' @ go_quote i @ '' does not exist'') [] ''model_not_found'')) cs))"

section \<open>Health\<close>

definition handleHealth :: "pool_stats \<Rightarrow> bool \<times> int" where
  "handleHealth st =
     (let healthy = (ps_total st > 0 \<and> (ps_idle st > 0 \<or> ps_active st > 0))
      in (healthy, if healthy then 200 else 503))"

end
