(* ===== verification/Chat_Laws.thy ===== *)
theory Chat_Laws
  imports Chat_Retry Pool_Laws
begin

text \<open>
  What the forwarding handlers promise: every proxy they take is given back or marked, their attempts
  are bounded, and their answer on each course of the upstream's behaviour. The contract between the
  handlers and the pool is the locale \<open>lease_ledger\<close>; the pool's model provides it.
\<close>

section \<open>Leases\<close>

text \<open>The proxies a list of calls leaves in the request's hands.\<close>

fun held_step :: "call \<Rightarrow> string set \<Rightarrow> string set" where
  "held_step (Acquire (Some p)) H = insert p H"
| "held_step (Release (Some p)) H = H - {p}"
| "held_step (Mark_limited (Some p) _ _) H = H - {p}"
| "held_step (Mark_unhealthy (Some p)) H = H - {p}"
| "held_step _ H = H"

definition held :: "call list \<Rightarrow> string set" where
  "held cs = fold held_step cs {}"

lemma held_append [simp]: "held (cs @ ds) = fold held_step ds (held cs)"
  by (simp add: held_def)

lemma held_Nil [simp]: "held [] = {}"
  by (simp add: held_def)



locale lease_ledger =
  fixes run :: "call \<Rightarrow> 's \<Rightarrow> 's" and leased :: "'s \<Rightarrow> string set"
  assumes acquire: "leased (run (Acquire (Some p)) s) \<subseteq> insert p (leased s)"
    and release: "leased (run (Release (Some p)) s) \<subseteq> leased s - {p}"
    and limited: "leased (run (Mark_limited (Some p) ra pub) s) \<subseteq> leased s - {p}"
    and unhealthy: "leased (run (Mark_unhealthy (Some p)) s) \<subseteq> leased s - {p}"
    and acquire_none: "leased (run (Acquire None) s) \<subseteq> leased s"
    and release_none: "leased (run (Release None) s) \<subseteq> leased s"
    and limited_none: "leased (run (Mark_limited None ra pub) s) \<subseteq> leased s"
    and unhealthy_none: "leased (run (Mark_unhealthy None) s) \<subseteq> leased s"
    and send: "leased (run (Send p b) s) \<subseteq> leased s"
    and sleep: "leased (run (Sleep d) s) \<subseteq> leased s"
begin

lemma run_step:
  assumes "leased s \<subseteq> H"
  shows "leased (run c s) \<subseteq> held_step c H"
proof (cases c)
  case (Acquire x)
  then show ?thesis using assms acquire [of "the x" s] acquire_none [of s] by (cases x) auto
next
  case (Release x)
  then show ?thesis using assms release [of "the x" s] release_none [of s] by (cases x) auto
next
  case (Mark_limited x ra q)
  then show ?thesis using assms limited [of "the x" ra q s] limited_none [of ra q s] by (cases x) auto
next
  case (Mark_unhealthy x)
  then show ?thesis using assms unhealthy [of "the x" s] unhealthy_none [of s] by (cases x) auto
next
  case (Send p b)
  then show ?thesis using assms send [of p b s] by simp
next
  case (Sleep d)
  then show ?thesis using assms sleep [of d s] by simp
qed

lemma run_all: "leased s \<subseteq> H \<Longrightarrow> leased (fold run cs s) \<subseteq> fold held_step cs H"
proof (induction cs arbitrary: s H)
  case Nil
  then show ?case by simp
next
  case (Cons c cs)
  from Cons.IH [OF run_step [OF Cons.prems]] show ?case by simp
qed

lemma nothing_leased: "leased s = {} \<Longrightarrow> held cs = {} \<Longrightarrow> leased (fold run cs s) = {}"
  using run_all [of s "{}" cs] by (simp add: held_def)

end

text \<open>The pool's side: what each call does to it when no other request interferes.\<close>

definition run_call :: "time \<Rightarrow> call \<Rightarrow> pool \<Rightarrow> pool" where
  "run_call now c s =
     (case c of
        Acquire (Some i) \<Rightarrow>
          s\<lparr> pm_pool := pool_update i (\<lambda>p. p\<lparr> px_state := StateActive \<rparr>) (pm_pool s) \<rparr>
      | Release (Some i) \<Rightarrow> ReleaseProxy i s
      | Mark_limited (Some i) ra _ \<Rightarrow>
          (case pool_find i (pm_pool s) of
             Some p \<Rightarrow> snd (MarkRateLimited now now p ra s) | None \<Rightarrow> s)
      | Mark_unhealthy (Some i) \<Rightarrow> snd (MarkUnhealthy now (pool_find i (pm_pool s)) s)
      | _ \<Rightarrow> s)"

definition leases :: "pool \<Rightarrow> string set" where
  "leases s = px_id ` {p \<in> set (pm_pool s). px_state p = StateActive}"

lemma leases_ensure: "leases (snd (ensurePoolCapacity now s)) \<subseteq> leases s"
proof -
  have "pm_pool (snd (plan_spawn now s)) = pm_pool s"
    by (simp add: plan_spawn_def Let_def split: prod.split)
  then have "set (pm_pool (snd (ensurePoolCapacity now s))) \<subseteq> set (pm_pool s)"
    by (auto simp: ensurePoolCapacity_def pruneDeadProxies_def remove_all_pool Let_def split: prod.splits if_splits)
  then show ?thesis by (auto simp: leases_def)
qed

lemma leases_update:
  assumes "\<And>p. px_id (f p) = px_id p" "\<And>p. px_state (f p) \<noteq> StateActive"
    and "pm_pool t = pool_update i f (pm_pool s)"
  shows "leases t \<subseteq> leases s - {i}"
  using assms by (auto simp: leases_def set_update split: if_splits)

lemma not_leased: "pool_find i (pm_pool s) = None \<Longrightarrow> i \<notin> leases s"
  unfolding pool_find_None by (auto simp: leases_def ids_def)

lemma leases_limited: "leases (run_call now (Mark_limited (Some i) ra q) s) \<subseteq> leases s - {i}"
proof (cases "pool_find i (pm_pool s)")
  case None
  then have "run_call now (Mark_limited (Some i) ra q) s = s" by (simp only: run_call_def call.case option.case)
  with not_leased [OF None] show ?thesis by auto
next
  case (Some p)
  then have i: "px_id p = i" using pool_find_Some by blast
  have mem: "i \<in> set (ids (pm_pool s))" using Some by (metis option.distinct(1) pool_find_None)
  have "leases (mark_limited now p ra s) \<subseteq> leases s - {i}"
    by (rule leases_update [where f = "\<lambda>pr. pr\<lparr> px_state := StateCooldown, px_last_used := now, px_errors := px_errors pr + 1 \<rparr>"])
      (simp_all add: mark_limited_def Let_def signal_def mem i)
  with leases_ensure [of now "mark_limited now p ra s"] Some show ?thesis
    by (auto simp: run_call_def MarkRateLimited_def)
qed

lemma leases_unhealthy: "leases (run_call now (Mark_unhealthy (Some i)) s) \<subseteq> leases s - {i}"
proof (cases "pool_find i (pm_pool s)")
  case None
  then have "run_call now (Mark_unhealthy (Some i)) s = s"
    by (simp only: run_call_def MarkUnhealthy_def call.case option.case snd_conv)
  with not_leased [OF None] show ?thesis by auto
next
  case (Some p)
  then have i: "px_id p = i" using pool_find_Some by blast
  define t where "t = s\<lparr> pm_pool := pool_update i (\<lambda>pr. pr\<lparr> px_state := StateUnhealthy, px_errors := px_errors pr + 1 \<rparr>)
      (pm_pool s), pm_total_errors := pm_total_errors s + 1 \<rparr>"
  have "leases t \<subseteq> leases s - {i}"
    by (rule leases_update [where f = "\<lambda>pr. pr\<lparr> px_state := StateUnhealthy, px_errors := px_errors pr + 1 \<rparr>"])
      (simp_all add: t_def)
  moreover have "run_call now (Mark_unhealthy (Some i)) s = snd (ensurePoolCapacity now t)"
    by (simp add: run_call_def MarkUnhealthy_def Some i t_def)
  ultimately show ?thesis using leases_ensure [of now t] by auto
qed

lemma leases_release: "leases (run_call now (Release (Some i)) s) \<subseteq> leases s - {i}"
  by (rule leases_update [where f = "\<lambda>p. if px_state p = StateActive then p\<lparr> px_state := StateIdle \<rparr> else p"])
    (simp_all add: run_call_def ReleaseProxy_def signal_def)

lemma leases_acquire: "leases (run_call now (Acquire (Some i)) s) \<subseteq> insert i (leases s)"
proof
  fix j
  assume "j \<in> leases (run_call now (Acquire (Some i)) s)"
  then obtain p where p: "p \<in> set (pm_pool s)" "j = px_id p" "px_id p = i \<or> px_state p = StateActive"
    by (auto simp: run_call_def leases_def set_update split: if_splits)
  then show "j \<in> insert i (leases s)" by (auto simp: leases_def)
qed

interpretation led: lease_ledger "run_call now" leases
proof (rule lease_ledger.intro)
  show "leases (run_call now (Acquire (Some p)) s) \<subseteq> insert p (leases s)" for p s
    by (rule leases_acquire)
  show "leases (run_call now (Release (Some p)) s) \<subseteq> leases s - {p}" for p s
    by (rule leases_release)
  show "leases (run_call now (Mark_limited (Some p) ra pub) s) \<subseteq> leases s - {p}" for p ra pub s
    by (rule leases_limited)
  show "leases (run_call now (Mark_unhealthy (Some p)) s) \<subseteq> leases s - {p}" for p s
    by (rule leases_unhealthy)
  show "leases (run_call now (Mark_unhealthy None) s) \<subseteq> leases s" for s
    by (simp add: run_call_def)
qed (simp_all add: run_call_def)

section \<open>The loop's invariant\<close>

text \<open>Between attempts a request holds at most its own proxy, and none after a rate limit.\<close>

definition chat_inv :: "loop_state \<Rightarrow> bool" where
  "chat_inv st \<longleftrightarrow>
     (ls_own st \<noteq> None) \<and> held (ls_calls st) \<subseteq> set_option (ls_own st)
     \<and> (ls_limited st \<longrightarrow> held (ls_calls st) = {})
     \<and> (if ls_proxy st = None then held (ls_calls st) = {} else ls_proxy st = ls_own st)"

definition models_inv :: "loop_state \<Rightarrow> bool" where
  "models_inv st \<longleftrightarrow>
     held (ls_calls st) \<subseteq> set_option (ls_proxy st) \<and> (ls_limited st \<longrightarrow> ls_proxy st = None)"

text \<open>What holds of the verdict: whatever it is, the handler's last calls leave nothing held.\<close>

definition settled :: "verdict \<Rightarrow> bool" where
  "settled v =
     (case v of
        Continue st \<Rightarrow> chat_inv st
      | Break st \<Rightarrow> held (ls_calls st) \<subseteq> set_option (ls_own st)
      | Relay rs st \<Rightarrow> held (ls_calls st) \<subseteq> set_option (ls_own st) \<and> ls_own st \<noteq> None \<and> ls_proxy st = ls_own st
      | Public_limit ra st \<Rightarrow> held (ls_calls st) = {}
      | Panicked st \<Rightarrow> held (ls_calls st) = {})"

lemma did_simps [simp]:
  "ls_calls (did cs st) = ls_calls st @ cs" "ls_own (did cs st) = ls_own st" "ls_proxy (did cs st) = ls_proxy st"
  "ls_limited (did cs st) = ls_limited st" "ls_last (did cs st) = ls_last st" "ls_err (did cs st) = ls_err st"
  by (simp_all add: did_def)

lemma deadline_frame:
  "with_deadline cfg e n st = (ok, u) \<Longrightarrow>
     ls_calls u = ls_calls st \<and> ls_own u = ls_own st \<and> ls_proxy u = ls_proxy st \<and> ls_limited u = ls_limited st
     \<and> ls_last u = ls_last st \<and> ls_err u = ls_err st"
  by (auto simp: with_deadline_def Let_def)

lemma remember_frame [simp]:
  "ls_calls (remember rs st) = ls_calls st" "ls_own (remember rs st) = ls_own st"
  "ls_proxy (remember rs st) = ls_proxy st" "ls_limited (remember rs st) = ls_limited st"
  "ls_err (remember rs st) = ls_err st"
  by (simp_all add: remember_def)

lemma chat_attempt_settled:
  assumes "chat_inv st" "n = 0 \<longrightarrow> \<not> ls_limited st"
  shows "settled (chat_attempt cfg public b e n st)"
proof (cases "n > 0 \<and> ls_limited st")
  case True
  obtain ok u where u: "with_deadline cfg e n st = (ok, u)" by fastforce
  note fr = deadline_frame [OF u]
  have h: "held (ls_calls st) = {}" using assms True by (simp add: chat_inv_def)
  show ?thesis
  proof (cases "ok \<and> (\<exists>p. ae_get e n = Inr p)")
    case True
    with \<open>n > 0 \<and> ls_limited st\<close> u fr h show ?thesis
      by (auto simp: chat_attempt_def settled_def chat_inv_def)
  next
    case False
    with True u fr h show ?thesis
      by (cases ok) (auto simp: chat_attempt_def settled_def split: sum.splits)
  qed
next
  case False
  define u where "u = (if n > 0 then did [Sleep (calculateRetryDelay cfg n)] st else st)"
  have u: "chat_inv u" using assms by (auto simp: u_def chat_inv_def split: if_splits)
  have eq: "chat_attempt cfg public b e n st =
     (case ls_proxy u of
             None \<Rightarrow> Panicked u
           | Some p \<Rightarrow>
               let st = did [Send p b] u
               in case ae_do e n of
                    Limited ra \<Rightarrow>
                      let st = did [Mark_limited (Some p) ra public] st
                      in if public then Public_limit ra (did [Release (ls_own st)] st)
                         else Continue (st\<lparr> ls_limited := True, ls_err := Some ''rate limited by upstream'' \<rparr>)
                  | Failed err \<Rightarrow>
                      let st = did [Mark_unhealthy (Some p)] (st\<lparr> ls_err := Some err \<rparr>)
                      in (case ae_get e n of
                            Inr np \<Rightarrow> Continue (did [Acquire (Some np), Release (ls_own st)]
                              (st\<lparr> ls_own := Some np, ls_proxy := Some np \<rparr>))
                          | Inl _ \<Rightarrow> Continue (did [Acquire None] (st\<lparr> ls_proxy := None \<rparr>)))
                  | Answered rs \<Rightarrow>
                      if rs_status rs \<ge> 500 \<and> int n < MaxRetries cfg then Continue (remember rs st)
                      else Relay rs st)"
    unfolding chat_attempt_def if_not_P [OF False] Let_def u_def by (rule refl)
  show ?thesis
  proof (cases "ls_proxy u")
    case None
    with u show ?thesis unfolding eq by (simp add: settled_def chat_inv_def)
  next
    case (Some p)
    with u have o: "ls_own u = Some p" "held (ls_calls u) \<subseteq> {p}" by (auto simp: chat_inv_def)
    have lim: "\<not> ls_limited u" using False assms(2) by (auto simp: u_def)
    show ?thesis
    proof (cases "ae_do e n")
      case (Limited ra)
      with Some o show ?thesis unfolding eq by (auto simp: settled_def chat_inv_def Let_def)
    next
      case (Failed err)
      with Some o lim show ?thesis unfolding eq
        by (cases "ae_get e n") (auto simp: settled_def chat_inv_def Let_def)
    next
      case (Answered rs)
      with Some o lim show ?thesis unfolding eq by (auto simp: settled_def chat_inv_def Let_def)
    qed
  qed
qed

lemma attempts_inv:
  assumes step: "\<And>n st. I n st \<Longrightarrow> n < N \<Longrightarrow> case f n st of Continue u \<Rightarrow> I (Suc n) u | v \<Rightarrow> P v"
    and last: "\<And>st. I N st \<Longrightarrow> P (Break st)"
  shows "I n st \<Longrightarrow> n + left = N \<Longrightarrow> P (attempts f left n st)"
proof (induction left arbitrary: n st)
  case 0
  then show ?case using last by simp
next
  case (Suc left)
  then have "n < N" "Suc n + left = N" by simp_all
  with step [OF Suc.prems(1)] Suc.IH [of "Suc n"] show ?case by (cases "f n st") auto
qed

lemma attempts_never_continue: "attempts f left n st \<noteq> Continue u"
  by (induction left arbitrary: n st) (auto split: verdict.split)

lemma start_inv: "chat_inv (loop_start p)"
  by (simp add: chat_inv_def loop_start_def held_def)

lemma chat_loop_settled: "settled (chat_loop cfg public b e p)"
proof -
  define f where "f = chat_attempt cfg public b e"
  have step: "case f n st of Continue u \<Rightarrow> chat_inv u | v \<Rightarrow> settled v"
    if "chat_inv st" "n = 0 \<longrightarrow> \<not> ls_limited st" for n st
    using chat_attempt_settled [OF that, of cfg public b e] by (cases "f n st") (auto simp: settled_def f_def)
  have last: "settled (Break st)" if "chat_inv st" for st using that by (simp add: settled_def chat_inv_def)
  show ?thesis unfolding chat_loop_def f_def [symmetric]
  proof (rule attempts_inv [where I = "\<lambda>n st. chat_inv st \<and> (n = 0 \<longrightarrow> \<not> ls_limited st)"
        and N = "nat (MaxRetries cfg + 1)"])
    show "case f n st of Continue u \<Rightarrow> chat_inv u \<and> (Suc n = 0 \<longrightarrow> \<not> ls_limited u) | v \<Rightarrow> settled v"
      if "chat_inv st \<and> (n = 0 \<longrightarrow> \<not> ls_limited st)" for n st
      using step [of st n] that by (cases "f n st") auto
  qed (use last start_inv in \<open>auto simp: loop_start_def\<close>)
qed



lemma chat_result_settled:
  assumes "settled v" "\<And>p rs. snd (snd (relay p rs)) = []" "\<And>st. v \<noteq> Continue st"
  shows "held (ha_calls (chat_result cfg relay v)) = {}"
proof (cases v)
  case (Relay rs st)
  obtain o' where o': "ls_own st = Some o'" "held (ls_calls st) \<subseteq> {o'}"
    using assms(1) Relay by (auto simp: settled_def)
  obtain r u cs where r: "relay (the (ls_proxy st)) rs = (r, u, cs)" by (metis prod.exhaust)
  with assms(2) [of "the (ls_proxy st)" rs] Relay o' show ?thesis by (auto simp: chat_result_def)
next
  case (Break st)
  with assms(1) show ?thesis
    by (cases "ls_own st") (auto simp: chat_result_def settled_def Let_def split: option.split)
qed (use assms(1,3) in \<open>auto simp: chat_result_def settled_def\<close>)

text \<open>Without a search service no relay makes a further call.\<close>

lemma stream_rounds_plain:
  "tn_calls (stream_rounds dc None iu p env left resp cur t) = tn_calls t"
proof -
  obtain out u calls where h: "handleStreamResponse (dc_chunk dc) iu False (body_lines resp) (rs_broken resp)
      = (out, u, calls)" by (metis prod.exhaust)
  have "calls = []"
  proof (rule ccontr)
    assume "calls \<noteq> []"
    obtain r s where r: "relay_lines (dc_chunk dc) iu False (body_lines resp) stream_start = (r, s)" by fastforce
    with h \<open>calls \<noteq> []\<close> have "r = Some calls" by (auto simp: handleStreamResponse_def Let_def split: option.splits)
    then show False
    proof -
      have "relay_line decode iu False ok l st = (Return cs, v) \<Longrightarrow> cs = []" for decode ok l st cs v
        by (auto simp: relay_line_def Let_def split: if_splits option.splits)
      then have "relay_lines decode iu False ls st = (Some cs, v) \<Longrightarrow> cs = []" for decode ls st cs v
        by (induction ls arbitrary: st) (auto split: prod.splits flow.splits)
      with r \<open>r = Some calls\<close> \<open>calls \<noteq> []\<close> show False by blast
    qed
  qed
  with h show ?thesis
    by (cases left) (simp_all add: stream_rounds.simps [of dc None] Let_def)
qed

lemma relay_plain_calls: "snd (snd (relay_response dc cfg None req renv b p rs)) = []"
  by (auto simp: relay_response_def Let_def streamWithToolRounds_def stream_rounds_plain turn_start_def
      completeWithToolRounds_def complete_rounds.simps [of dc None] interceptable_def split: prod.splits option.splits)

lemma forward_held:
  "held (ha_calls (forward_chat dc cfg (\<lambda>_. None) renv a e req b)) = {}"
proof (cases "ae_first e")
  case (Inl err)
  then show ?thesis by (simp add: forward_chat_def held_def)
next
  case (Inr p)
  have "held (ha_calls (chat_result cfg (\<lambda>p rs. relay_response dc cfg None req renv b p rs)
      (chat_loop cfg (isPublicTier a) b e p))) = {}"
    by (rule chat_result_settled [OF chat_loop_settled])
      (use relay_plain_calls attempts_never_continue in \<open>auto simp: chat_loop_def\<close>)
  with Inr show ?thesis by (simp add: forward_chat_def)
qed

text \<open>
  C5: A chat request leaves no proxy leased. Whatever the upstream answers on each attempt, however the
  pool answers each request for a proxy, and whether the handler replies, gives up or panics: run on a
  pool none of whose proxies is in use, its calls leave none in use (searches apart, whose rounds
  never return a proxy).
\<close>

theorem chat_leaves_no_lease:
  assumes "leases s = {}"
  shows "leases (fold (run_call now) (ha_calls (forward_chat dc cfg (\<lambda>_. None) renv a e req b)) s) = {}"
  by (rule led.nothing_leased [OF assms forward_held])

end
