(* ===== verification/Chat_Outcomes.thy ===== *)
theory Chat_Outcomes
  imports Chat_Laws Gateway_Laws
begin

text \<open>
  How the forwarding handlers answer on the courses of events that matter: the first answer, refusals,
  throttling, dead tunnels, a provider that keeps failing; and the bounds of their attempts.
\<close>

section \<open>Delays and bounds\<close>

lemma shift_one_exact: "n < 63 \<Longrightarrow> shift_one n = 2 ^ n"
proof -
  assume "n < 63"
  then have "(2::int) ^ n < 2 ^ 63" by (intro power_strict_increasing) auto
  then have "wrap64 (2 ^ n) = 2 ^ n" by (intro wrap64_id) (simp add: order_trans [of _ 0])
  with \<open>n < 63\<close> show ?thesis by (simp add: shift_one_def)
qed

text \<open>
  The delay before a retry never exceeds the configured maximum; and as long as the doubled base stays
  within 64 bits it is exactly the base doubled once per earlier attempt, capped.
\<close>

theorem retry_delay_bounded:
  assumes "attempt \<ge> 1" "attempt \<le> 63" "0 \<le> RetryBaseDelay cfg" "RetryBaseDelay cfg * 2 ^ (attempt - 1) < 2 ^ 63"
  shows "calculateRetryDelay cfg attempt = min (RetryMaxDelay cfg) (RetryBaseDelay cfg * 2 ^ (attempt - 1))"
proof -
  have s: "shift_one (attempt - 1) = 2 ^ (attempt - 1)" using assms(1,2) by (intro shift_one_exact) linarith
  have "wrap64 (RetryBaseDelay cfg * 2 ^ (attempt - 1)) = RetryBaseDelay cfg * 2 ^ (attempt - 1)"
    using assms(3,4) by (intro wrap64_id conjI) (simp_all add: order_trans [of _ 0])
  with s show ?thesis by (simp add: calculateRetryDelay_def Let_def min_def)
qed

definition is_sleep :: "call \<Rightarrow> bool" where
  "is_sleep c = (case c of Sleep _ \<Rightarrow> True | _ \<Rightarrow> False)"

lemma sleep_class [simp]:
  "is_sleep (Sleep d)" "\<not> is_sleep (Acquire x)" "\<not> is_sleep (Release x)" "\<not> is_sleep (Mark_limited x r q)"
  "\<not> is_sleep (Mark_unhealthy x)" "\<not> is_sleep (Send p b)"
  by (simp_all add: is_sleep_def)

abbreviation sleeps :: "call list \<Rightarrow> nat" where
  "sleeps cs \<equiv> length (filter is_sleep cs)"

definition verdict_state :: "verdict \<Rightarrow> loop_state" where
  "verdict_state v = (case v of Continue st \<Rightarrow> st | Break st \<Rightarrow> st | Relay _ st \<Rightarrow> st | Public_limit _ st \<Rightarrow> st | Panicked st \<Rightarrow> st)"

lemma verdict_state_simps [simp]:
  "verdict_state (Continue st) = st" "verdict_state (Break st) = st" "verdict_state (Relay rs st) = st"
  "verdict_state (Public_limit ra st) = st" "verdict_state (Panicked st) = st"
  by (simp_all add: verdict_state_def)

text \<open>An attempt sends at most one request and sleeps at most once, never before the first.\<close>

lemma chat_attempt_counts:
  "sends (ls_calls (verdict_state (chat_attempt cfg public b e n st))) \<le> Suc (sends (ls_calls st))
   \<and> sleeps (ls_calls (verdict_state (chat_attempt cfg public b e n st)))
       \<le> sleeps (ls_calls st) + (if n = 0 then 0 else 1)"
proof (cases "n > 0 \<and> ls_limited st")
  case True
  obtain ok u where u: "with_deadline cfg e n st = (ok, u)" by fastforce
  from True u deadline_frame [OF u] show ?thesis
    by (cases ok) (auto simp: chat_attempt_def split: sum.split)
next
  case False
  define u where "u = (if n > 0 then did [Sleep (calculateRetryDelay cfg n)] st else st)"
  have u: "sends (ls_calls u) = sends (ls_calls st)"
    "sleeps (ls_calls u) \<le> sleeps (ls_calls st) + (if n = 0 then 0 else 1)" by (simp_all add: u_def)
  define k where "k = (if n = 0 then 0 else 1 :: nat)"
  show ?thesis unfolding chat_attempt_def if_not_P [OF False] Let_def u_def [symmetric] k_def [symmetric]
    using u unfolding k_def [symmetric] by (simp split: option.split do_result.split sum.split)
qed

lemma models_attempt_counts:
  "sends (ls_calls (verdict_state (models_attempt cfg public e n st))) \<le> Suc (sends (ls_calls st))
   \<and> sleeps (ls_calls (verdict_state (models_attempt cfg public e n st)))
       \<le> sleeps (ls_calls st) + (if n = 0 then 0 else 1)"
proof (cases "n > 0 \<and> ls_limited st")
  case True
  obtain ok u where u: "with_deadline cfg e n st = (ok, u)" by fastforce
  from True u deadline_frame [OF u] show ?thesis
    by (cases ok) (auto simp: models_attempt_def split: sum.split)
next
  case False
  define u where "u = (if n > 0 then did [Sleep (calculateRetryDelay cfg n)] st else st)"
  have u: "sends (ls_calls u) = sends (ls_calls st)"
    "sleeps (ls_calls u) \<le> sleeps (ls_calls st) + (if n = 0 then 0 else 1)" by (simp_all add: u_def)
  define k where "k = (if n = 0 then 0 else 1 :: nat)"
  show ?thesis unfolding models_attempt_def if_not_P [OF False] Let_def u_def [symmetric] k_def [symmetric]
    using u unfolding k_def [symmetric] by (simp split: option.split do_result.split sum.split)
qed

lemma attempts_counts:
  assumes "\<And>n st. sends (ls_calls (verdict_state (f n st))) \<le> Suc (sends (ls_calls st))
      \<and> sleeps (ls_calls (verdict_state (f n st))) \<le> sleeps (ls_calls st) + (if n = 0 then 0 else 1)"
  shows "sends (ls_calls (verdict_state (attempts f (nat (m + 1)) 0 (loop_start p)))) \<le> nat (m + 1)
    \<and> sleeps (ls_calls (verdict_state (attempts f (nat (m + 1)) 0 (loop_start p)))) \<le> nat m"
proof -
  define N where "N = nat (m + 1)"
  define I where "I = (\<lambda>n (st::loop_state). sends (ls_calls st) \<le> n \<and> sleeps (ls_calls st) \<le> n - 1)"
  define P where "P = (\<lambda>v. sends (ls_calls (verdict_state v)) \<le> N \<and> sleeps (ls_calls (verdict_state v)) \<le> N - 1)"
  have "P (attempts f N 0 (loop_start p))"
  proof (rule attempts_inv [where I = I and N = N])
    show "case f n st of Continue u \<Rightarrow> I (Suc n) u | v \<Rightarrow> P v" if "I n st" "n < N" for n st
      using assms [of n st] that by (cases "f n st") (auto simp: I_def P_def split: if_splits)
  qed (auto simp: I_def P_def loop_start_def)
  moreover have "N - 1 \<le> nat m" by (simp add: N_def)
  ultimately show ?thesis by (simp add: P_def N_def)
qed

text \<open>
  C9: Attempts are bounded by the configuration. Whatever the upstream and the pool answer, the retry
  loops of chat completions and of the model list make at most \<open>MAX_RETRIES + 1\<close> upstream requests
  and sleep at most \<open>MAX_RETRIES\<close> times.
\<close>

theorem attempts_bounded:
  "sends (ls_calls (verdict_state (chat_loop cfg public b e p))) \<le> nat (MaxRetries cfg + 1)
   \<and> sleeps (ls_calls (verdict_state (chat_loop cfg public b e p))) \<le> nat (MaxRetries cfg)
   \<and> sends (ls_calls (verdict_state (models_loop cfg public e p))) \<le> nat (MaxRetries cfg + 1)
   \<and> sleeps (ls_calls (verdict_state (models_loop cfg public e p))) \<le> nat (MaxRetries cfg)"
  using attempts_counts [of "chat_attempt cfg public b e" "MaxRetries cfg" p, OF chat_attempt_counts]
    attempts_counts [of "models_attempt cfg public e" "MaxRetries cfg" p, OF models_attempt_counts]
  by (simp add: chat_loop_def models_loop_def)

section \<open>The course of an answer\<close>

lemma nat_Suc: "0 \<le> m \<Longrightarrow> nat (m + 1) = Suc (nat m)"
  by simp

lemmas outcome_defs = forward_chat_def chat_loop_def chat_attempt_def loop_start_def did_def chat_result_def
  remember_def with_deadline_def Let_def

text \<open>
  C33: The normal course: the first answer that is not a server error is relayed at once. The request takes
  one proxy, sends one request on it, and gives it back after the relay's own calls; it never waits.
  The outcome is recorded as a success whatever the relayed status is, client errors included.
\<close>

theorem first_answer_relayed:
  assumes "0 \<le> MaxRetries cfg" "ae_first e = Inr p" "ae_do e 0 = Answered rs"
    and "rs_status rs < 500 \<or> MaxRetries cfg = 0"
  shows "forward_chat dc cfg search renv a e req b =
    (case relay_response dc cfg (search p) req renv b p rs of
       (r, u, cs) \<Rightarrow> \<lparr> ha_reply = Some r, ha_calls = [Acquire (Some p), Send p b] @ cs @ [Release (Some p)],
                       ha_recorded = Some (True, rs_status rs, u) \<rparr>)"
  using assms by (auto simp: outcome_defs nat_Suc split: prod.split)

text \<open>
  The public tier is never rotated: its first rate limit is answered with a 429 whose \<open>Retry-After\<close>
  is the provider's, or the configured one when the provider names none, after one upstream request;
  the proxy is marked and given back, and no other is asked for.
\<close>

theorem public_tier_limited_at_once:
  assumes "0 \<le> MaxRetries cfg" "ae_first e = Inr p" "ae_do e 0 = Limited ra" "isPublicTier a"
  shows "forward_chat dc cfg search renv a e req b =
    \<lparr> ha_reply = Some (public_reply cfg ra),
      ha_calls = [Acquire (Some p), Send p b, Mark_limited (Some p) ra True, Release (Some p)],
      ha_recorded = Some (False, 429, no_usage) \<rparr>"
  using assms by (simp add: outcome_defs nat_Suc)

text \<open>
  A fresh proxy can be taken only to be given back. With a single retry, a throttled request waits for
  a fresh proxy, gets one, never uses it, and tells the client 502 although the provider said 429:
  taking the proxy used up the attempt it was taken for.
\<close>

theorem fresh_proxy_wasted:
  assumes "MaxRetries cfg = 1" "ae_first e = Inr p" "ae_do e 0 = Limited ra" "\<not> isPublicTier a"
    and "ae_get e 1 = Inr q" "time_sub (ae_mark e 1 + RateLimitFreshIPWait cfg) (ae_now e 1) > 0"
  shows "forward_chat dc cfg search renv a e req b =
    \<lparr> ha_reply = Some failed_reply,
      ha_calls = [Acquire (Some p), Send p b, Mark_limited (Some p) ra False, Acquire (Some q), Release (Some q)],
      ha_recorded = Some (False, 502, no_usage) \<rparr>"
  using assms by (simp add: outcome_defs numeral_2_eq_2)

text \<open>
  A throttled request that gets no fresh proxy in time does not get its 429 either: the handler
  releases a nil proxy and panics, and nothing is recorded.
\<close>

theorem no_fresh_proxy_panics:
  assumes "1 \<le> MaxRetries cfg" "ae_first e = Inr p" "ae_do e 0 = Limited ra" "\<not> isPublicTier a"
    and "ae_get e 1 = Inl err" "time_sub (ae_mark e 1 + RateLimitFreshIPWait cfg) (ae_now e 1) > 0"
  shows "forward_chat dc cfg search renv a e req b =
    \<lparr> ha_reply = None,
      ha_calls = [Acquire (Some p), Send p b, Mark_limited (Some p) ra False, Acquire None, Release None],
      ha_recorded = None \<rparr>"
proof -
  have "nat (MaxRetries cfg + 1) = Suc (Suc (nat (MaxRetries cfg - 1)))" using assms(1) by simp
  with assms show ?thesis by (simp add: outcome_defs)
qed

text \<open>
  Nor does a dead tunnel with no replacement end in the 502 the comment announces: the next attempt
  sends on a nil proxy and panics.
\<close>

theorem dead_tunnel_panics:
  assumes "1 \<le> MaxRetries cfg" "ae_first e = Inr p" "ae_do e 0 = Failed err" "ae_get e 0 = Inl gerr"
  shows "forward_chat dc cfg search renv a e req b =
    \<lparr> ha_reply = None,
      ha_calls = [Acquire (Some p), Send p b, Mark_unhealthy (Some p), Acquire None, Sleep (calculateRetryDelay cfg 1)],
      ha_recorded = None \<rparr>"
proof -
  have "nat (MaxRetries cfg + 1) = Suc (Suc (nat (MaxRetries cfg - 1)))" using assms(1) by simp
  with assms show ?thesis by (simp add: outcome_defs)
qed

text \<open>
  The lease of a replacement is given up when the pool hands out the proxy that just failed (a health
  check restored it meanwhile): the handler releases what it has just acquired and sends the next
  request on a proxy the pool considers free.
\<close>

theorem failover_releases_new_lease:
  assumes "1 \<le> MaxRetries cfg" "ae_first e = Inr p" "ae_do e 0 = Failed err" "ae_get e 0 = Inr p"
    and "ae_do e 1 = Answered rs" "rs_status rs < 500"
  shows "take 6 (ha_calls (forward_chat dc cfg search renv a e req b)) =
      [Acquire (Some p), Send p b, Mark_unhealthy (Some p), Acquire (Some p), Release (Some p),
       Sleep (calculateRetryDelay cfg 1)]
    \<and> ha_calls (forward_chat dc cfg search renv a e req b) ! 6 = Send p b
    \<and> held (take 6 (ha_calls (forward_chat dc cfg search renv a e req b))) = {}"
proof -
  have n: "nat (MaxRetries cfg + 1) = Suc (Suc (nat (MaxRetries cfg - 1)))" using assms(1) by simp
  obtain r u cs where r: "relay_response dc cfg (search p) req renv b p rs = (r, u, cs)" by (metis prod.exhaust)
  have "ha_calls (forward_chat dc cfg search renv a e req b) =
      [Acquire (Some p), Send p b, Mark_unhealthy (Some p), Acquire (Some p), Release (Some p),
       Sleep (calculateRetryDelay cfg 1), Send p b] @ cs @ [Release (Some p)]"
    using assms r n by (auto simp: outcome_defs)
  then show ?thesis by (simp add: held_def)
qed

section \<open>A provider that keeps failing\<close>

lemma server_errors_retried:
  assumes "\<And>n. ae_do e n = Answered (r n)" "\<And>n. 500 \<le> rs_status (r n)"
    and "ls_proxy st = Some p" "ls_own st = Some p" "\<not> ls_limited st" "int n + int left = MaxRetries cfg"
  shows "\<exists>u. attempts (chat_attempt cfg public b e) (Suc left) n st = Relay (r (n + left)) u
    \<and> ls_proxy u = Some p \<and> ls_own u = Some p \<and> sends (ls_calls u) = sends (ls_calls st) + Suc left"
  using assms(3-6)
proof (induction left arbitrary: n st)
  case 0
  then have "\<not> int n < MaxRetries cfg" by simp
  with 0 assms(1,2) show ?case by (simp add: chat_attempt_def Let_def)
next
  case (Suc left)
  define u where "u = remember (r n) (did [Send p b]
      (if n > 0 then did [Sleep (calculateRetryDelay cfg n)] st else st))"
  have "int n < MaxRetries cfg" using Suc.prems(4) by simp
  with Suc.prems assms(1,2) have s: "chat_attempt cfg public b e n st = Continue u"
    by (simp add: chat_attempt_def Let_def u_def)
  have "ls_proxy u = Some p" "ls_own u = Some p" "\<not> ls_limited u" "int (Suc n) + int left = MaxRetries cfg"
      "sends (ls_calls u) = Suc (sends (ls_calls st))"
    using Suc.prems by (simp_all add: u_def)
  with Suc.IH [of u "Suc n"] s show ?case by (simp del: attempts.simps(2) add: attempts.simps(2) [of _ "Suc left"])
qed

text \<open>
  Server errors are retried to the end and then relayed verbatim: the client gets the status, headers
  and body of the last attempt's answer, after exactly \<open>MAX_RETRIES + 1\<close> upstream requests. The
  metrics count that request as a success.
\<close>

theorem last_server_error_relayed:
  assumes "0 \<le> MaxRetries cfg" "ae_first e = Inr p"
    and "\<And>n. ae_do e n = Answered (r n)" "\<And>n. 500 \<le> rs_status (r n)"
  shows "let res = forward_chat dc cfg search renv a e req b
    in ha_reply res = Some (fst (handleNormalResponse dc (r (nat (MaxRetries cfg)))))
       \<and> sends (ha_calls res) = nat (MaxRetries cfg + 1)
       \<and> map_option fst (ha_recorded res) = Some True"
proof -
  define m where "m = nat (MaxRetries cfg)"
  have m: "nat (MaxRetries cfg + 1) = Suc m" "int 0 + int m = MaxRetries cfg" using assms(1) by (simp_all add: m_def)
  obtain u where u: "attempts (chat_attempt cfg (isPublicTier a) b e) (Suc m) 0 (loop_start p) = Relay (r m) u"
      "ls_proxy u = Some p" "ls_own u = Some p" "sends (ls_calls u) = Suc m"
    using server_errors_retried [OF assms(3,4), where st = "loop_start p" and p = p and n = 0 and left = m and cfg = cfg] m(2)
    by (auto simp: loop_start_def)
  obtain rp us where h: "handleNormalResponse dc (r m) = (rp, us)" by fastforce
  have "\<not> success (rs_status (r m))" using assms(4) [of m] by (simp add: success_def)
  then have "relay_response dc cfg (search p) req renv b p (r m) = (rp, us, [])"
    using h by (simp add: relay_response_def Let_def)
  with u assms(2) h show ?thesis
    unfolding m_def [symmetric] Let_def by (simp add: forward_chat_def chat_loop_def chat_result_def m(1))
qed

section \<open>Validation\<close>

definition message_ok :: "chat_message \<Rightarrow> bool" where
  "message_ok m \<longleftrightarrow> cm_role m \<in> set validChatRoles
     \<and> (cm_content m \<noteq> [] \<and> cm_content m \<noteq> ''null'' \<or> cm_role m = ''assistant'' \<or> cm_role m = ''tool'')"

lemma check_message_None: "check_message i m = None \<longleftrightarrow> message_ok m"
  by (auto simp: check_message_def message_ok_def Let_def)

lemma check_messages_None: "check_messages i ms = None \<longleftrightarrow> list_all message_ok ms"
proof (induction ms arbitrary: i)
  case (Cons m ms)
  then show ?case using check_message_None [of i m] by (cases "check_message i m") auto
qed simp

text \<open>
  Validation accepts exactly the well-formed requests: a model that is not blank, at least one message,
  every role one of the six, and content present wherever the role needs it (an assistant's or a tool's
  message may be null).
\<close>

theorem validation_exact:
  "validateChatRequest req = None \<longleftrightarrow>
     trim_space (cq_model req) \<noteq> [] \<and> cq_messages req \<noteq> [] \<and> list_all message_ok (cq_messages req)"
  by (simp add: validateChatRequest_def check_messages_None)

text \<open>A request that fails validation is answered without touching the pool, the upstream or the keys.\<close>

theorem invalid_request_isolated:
  assumes "json_content_type (hr_header r ''Content-Type'')" "ce_read ce = Read raw"
    and "ce_parse ce raw = Some (req, m)" "validateChatRequest req = Some (param, msg)"
  shows "handleChatCompletions hs dc ce r h
    = (\<lparr> ha_reply = Some \<lparr> rp_status = 400, rp_headers = [],
           rp_content = C_error \<lparr> oe_status = 400, oe_message = msg, oe_type = ''invalid_request_error'',
             oe_param = (if param = [] then None else Some param), oe_code = None \<rparr> \<rparr>,
         ha_calls = [], ha_recorded = None \<rparr>, h)"
  using assms
  by (simp add: handleChatCompletions_def refused_def error_reply_def writeErrorParam_def writeOpenAIError_def
      openaiErrorType_def)

section \<open>The model list\<close>

text \<open>
  The filter keeps, in their order, the entries whose identifier (or name, without one) contains the
  configured text in any case, keeps whatever is not an object, and leaves every other field of the
  list alone; filtering twice is filtering once.
\<close>

lemma keep_twice: "filter (keep_entry p) (filter (keep_entry p) xs) = filter (keep_entry p) xs"
  by simp

theorem model_filter_exact:
  assumes "decode body = Some list" "field ''data'' list = JArr data"
    and "decode (encode (JObj (set_field ''data'' (JArr (filter (keep_entry (to_lower pattern)) data)) list)))
      = Some (set_field ''data'' (JArr (filter (keep_entry (to_lower pattern)) data)) list)"
  shows "let kept = filter (keep_entry (to_lower pattern)) data;
             out = set_field ''data'' (JArr kept) list
         in filterModels decode encode body pattern = Some (encode (JObj out))
            \<and> (\<forall>k. field k out = (if k = ''data'' then JArr kept else field k list))
            \<and> filterModels decode encode (encode (JObj out)) pattern
                = Some (encode (JObj (set_field ''data'' (JArr kept) out)))"
  using assms by (simp add: filterModels_def Let_def)

text \<open>
  Retrieving a model hides what went wrong: a transport failure is answered as a rate limit, and any
  answer of the provider that does not list the model, an error status included, as a 404.
\<close>

theorem retrieve_masks_failures:
  assumes "ae_first e = Inr p" "ae_do e 0 = d"
    and "d = Failed err \<or> (\<exists>rs. d = Answered rs \<and> \<not> rs_broken rs \<and> list (rs_body rs) = None)"
  shows "map_option rp_status (ha_reply (fst (handleModelRetrieve hs k1 k2 pick list encode e i r h)))
    = Some (case d of Failed _ \<Rightarrow> 429 | _ \<Rightarrow> 404)
    \<and> held (ha_calls (fst (handleModelRetrieve hs k1 k2 pick list encode e i r h))) = {}"
proof -
  obtain a h' where a: "resolveAuth hs k1 k2 pick r h = (a, h')" by fastforce
  from assms show ?thesis
    by (auto simp: handleModelRetrieve_def a error_reply_def writeError_def writeOpenAIError_def held_def)
qed

section \<open>Concrete requests\<close>

definition demo_answer :: "int \<Rightarrow> response" where
  "demo_answer status = demo_response\<lparr> rs_status := status, rs_body := ''{}'' \<rparr>"

definition demo_request :: chat_request where
  "demo_request = \<lparr> cq_model = ''m'', cq_messages = [\<lparr> cm_role = ''user'', cm_content = ''1'' \<rparr>], cq_stream = False,
     cq_conversation = [], cq_include_usage = None \<rparr>"

text \<open>An environment: what each attempt's request answers, and what the pool gives after it.\<close>

definition demo_env :: "(nat \<Rightarrow> do_result) \<Rightarrow> string + string \<Rightarrow> attempt_env" where
  "demo_env d g = \<lparr> ae_first = Inr ''p'', ae_mark = (\<lambda>_. 0), ae_now = (\<lambda>_. 0), ae_get = (\<lambda>_. g), ae_do = d \<rparr>"

definition key_auth :: auth where
  "key_auth = \<lparr> au_header = ''Authorization'', au_value = ''Bearer k'' \<rparr>"

definition public_auth :: auth where
  "public_auth = \<lparr> au_header = ''x-api-key'', au_value = ''public'' \<rparr>"

lemma demo_env_simps [simp]:
  "ae_first (demo_env d g) = Inr ''p''" "ae_do (demo_env d g) = d" "ae_get (demo_env d g) = (\<lambda>_. g)"
  "ae_mark (demo_env d g) = (\<lambda>_. 0)" "ae_now (demo_env d g) = (\<lambda>_. 0)"
  by (simp_all add: demo_env_def)

lemma demo_public: "isPublicTier public_auth" "\<not> isPublicTier key_auth"
  by (simp_all add: isPublicTier_def public_auth_def key_auth_def has_prefix_def)

lemma demo_wait: "time_sub (0 + RateLimitFreshIPWait (DefaultConfig\<lparr> MaxRetries := k \<rparr>)) 0 > 0"
  "time_sub (0 + RateLimitFreshIPWait DefaultConfig) 0 > 0"
  by (simp_all add: DefaultConfig_def time_sub_def duration_defs)

lemma demo_retries: "MaxRetries DefaultConfig = 3"
  by (simp add: DefaultConfig_def)

abbreviation demo_forward :: "config \<Rightarrow> auth \<Rightarrow> attempt_env \<Rightarrow> handled" where
  "demo_forward cfg a e \<equiv> forward_chat demo_decoder cfg (\<lambda>_. None) (\<lambda>_. demo_round) a e demo_request None"

theorem retry_delay_bounded_witness:
  "calculateRetryDelay DefaultConfig 3 = 4 * Second"
  using retry_delay_bounded [of 3 DefaultConfig] by (simp add: DefaultConfig_def duration_defs)

theorem first_answer_relayed_witness:
  "ha_recorded (demo_forward DefaultConfig key_auth (demo_env (\<lambda>_. Answered (demo_answer 401)) (Inl ''x'')))
     = Some (True, 401, demo_usage)"
  using first_answer_relayed [of DefaultConfig "demo_env (\<lambda>_. Answered (demo_answer 401)) (Inl ''x'')" "''p''"
      "demo_answer 401" demo_decoder "\<lambda>_. None" "\<lambda>_. demo_round" key_auth demo_request None]
  by (simp add: demo_retries demo_answer_def relay_response_def success_def handleNormalResponse_def demo_response_def
      demo_decoder_def usage_or_zero_def demo_request_def)

theorem public_tier_limited_at_once_witness:
  "map_option rp_headers (ha_reply (demo_forward DefaultConfig public_auth (demo_env (\<lambda>_. Limited ''17'') (Inr ''q''))))
     = Some [(''Retry-After'', ''17'')]"
  using public_tier_limited_at_once [of DefaultConfig "demo_env (\<lambda>_. Limited ''17'') (Inr ''q'')" "''p''" "''17''" public_auth
      demo_decoder "\<lambda>_. None" "\<lambda>_. demo_round" demo_request None]
  by (simp add: demo_retries demo_public public_reply_def retryAfterHeader_def error_reply_def Let_def)

theorem fresh_proxy_wasted_witness:
  "map_option rp_status (ha_reply (demo_forward (DefaultConfig\<lparr> MaxRetries := 1 \<rparr>) key_auth
      (demo_env (\<lambda>_. Limited []) (Inr ''q'')))) = Some 502"
  using fresh_proxy_wasted [of "DefaultConfig\<lparr> MaxRetries := 1 \<rparr>" "demo_env (\<lambda>_. Limited []) (Inr ''q'')" "''p''" "[]" key_auth
      "''q''" demo_decoder "\<lambda>_. None" "\<lambda>_. demo_round" demo_request None] demo_public demo_wait(1) [of 1]
  by (simp add: failed_reply_def error_reply_def writeError_def writeOpenAIError_def)

theorem no_fresh_proxy_panics_witness:
  "ha_reply (demo_forward DefaultConfig key_auth (demo_env (\<lambda>_. Limited []) (Inl ''timeout''))) = None"
  using no_fresh_proxy_panics [of DefaultConfig "demo_env (\<lambda>_. Limited []) (Inl ''timeout'')" "''p''" "[]" key_auth
      "''timeout''" demo_decoder "\<lambda>_. None" "\<lambda>_. demo_round" demo_request None] demo_public demo_wait(2) demo_retries
  by simp

theorem dead_tunnel_panics_witness:
  "ha_reply (demo_forward DefaultConfig key_auth (demo_env (\<lambda>_. Failed ''EOF'') (Inl ''timeout''))) = None"
  using dead_tunnel_panics [of DefaultConfig "demo_env (\<lambda>_. Failed ''EOF'') (Inl ''timeout'')" "''p''" "''EOF''"
      "''timeout''" demo_decoder "\<lambda>_. None" "\<lambda>_. demo_round" key_auth demo_request None] demo_retries
  by simp

definition flaky :: "nat \<Rightarrow> do_result" where
  "flaky n = (if n = 0 then Failed ''EOF'' else Answered (demo_answer 200))"

theorem failover_releases_new_lease_witness:
  "ha_calls (demo_forward DefaultConfig key_auth (demo_env flaky (Inr ''p''))) ! 6 = Send ''p'' None"
  using failover_releases_new_lease [of DefaultConfig "demo_env flaky (Inr ''p'')" "''p''" "''EOF''" "demo_answer 200"
      demo_decoder "\<lambda>_. None" "\<lambda>_. demo_round" key_auth demo_request None] demo_retries
  by (simp add: flaky_def demo_answer_def)

theorem last_server_error_relayed_witness:
  "sends (ha_calls (demo_forward DefaultConfig key_auth (demo_env (\<lambda>_. Answered (demo_answer 503)) (Inl ''x'')))) = 4"
  using last_server_error_relayed [of DefaultConfig "demo_env (\<lambda>_. Answered (demo_answer 503)) (Inl ''x'')" "''p''"
      "\<lambda>_. demo_answer 503" demo_decoder "\<lambda>_. None" "\<lambda>_. demo_round" key_auth demo_request None] demo_retries
  by (simp add: demo_answer_def Let_def)

theorem retrieve_masks_failures_witness:
  "map_option rp_status (ha_reply (fst (handleModelRetrieve no_hashes demo_key_env demo_key_env 0 (\<lambda>_. None) (\<lambda>_. [])
      (demo_env (\<lambda>_. Failed ''EOF'') (Inl ''x'')) ''m'' (demo_http ''GET'' ''/v1/models/m'' []) (demo_handler []))))
   = Some 429"
  using retrieve_masks_failures [where e = "demo_env (\<lambda>_. Failed ''EOF'') (Inl ''x'')" and p = "''p''"
      and d = "Failed ''EOF''" and err = "''EOF''" and list = "\<lambda>_. None" and ?hs = no_hashes and ?k1.0 = demo_key_env
      and ?k2.0 = demo_key_env and pick = 0 and r = "demo_http ''GET'' ''/v1/models/m'' []" and h = "demo_handler []"
      and encode = "\<lambda>_. []" and i = "''m''"]
  by simp

definition demo_list :: "(string \<times> json) list" where
  "demo_list = [(''object'', JStr ''list''),
     (''data'', JArr [JObj [(''id'', JStr ''big-Free'')], JObj [(''id'', JStr ''paid'')]])]"

definition demo_kept :: "(string \<times> json) list" where
  "demo_kept = [(''object'', JStr ''list''), (''data'', JArr [JObj [(''id'', JStr ''big-Free'')]])]"

theorem model_filter_exact_witness:
  "filterModels (\<lambda>s. if s = ''kept'' then Some demo_kept else Some demo_list) (\<lambda>_. ''kept'') ''all'' ''-free'' = Some ''kept''"
proof -
  have k: "filter (keep_entry (to_lower ''-free'')) [JObj [(''id'', JStr ''big-Free'')], JObj [(''id'', JStr ''paid'')]]
      = [JObj [(''id'', JStr ''big-Free'')]]" by code_simp
  have s: "set_field ''data'' (JArr [JObj [(''id'', JStr ''big-Free'')]]) demo_list = demo_kept" by code_simp
  have f: "field ''data'' demo_list = JArr [JObj [(''id'', JStr ''big-Free'')], JObj [(''id'', JStr ''paid'')]]" by code_simp
  show ?thesis
    using model_filter_exact [where decode = "\<lambda>s. if s = ''kept'' then Some demo_kept else Some demo_list"
        and body = "''all''" and list = demo_list and encode = "\<lambda>_. ''kept''" and pattern = "''-free''", OF _ f]
    unfolding Let_def k s by simp
qed

definition demo_chat_env :: "chat_request \<Rightarrow> chat_env" where
  "demo_chat_env req = \<lparr> ce_read = Read ''{}'', ce_parse = (\<lambda>_. Some (req, [])), ce_tool = JNull,
     ce_attempts = demo_env (\<lambda>_. Failed ''EOF'') (Inl ''x''), ce_rounds = (\<lambda>_. demo_round), ce_dial = (\<lambda>_. None),
     ce_addr = (\<lambda>_. []), ce_clients = (\<lambda>_. None), ce_service = (\<lambda>_. demo_search), ce_key1 = demo_key_env,
     ce_key2 = demo_key_env, ce_pick = 0 \<rparr>"

theorem invalid_request_isolated_witness:
  "ha_calls (fst (handleChatCompletions no_hashes demo_decoder (demo_chat_env (demo_request\<lparr> cq_model := '' '' \<rparr>))
     (demo_http ''POST'' ''/v1/chat/completions'' []) (demo_handler []))) = []"
proof -
  have v: "validateChatRequest (demo_request\<lparr> cq_model := '' '' \<rparr>) = Some (''model'', ''you must provide a model parameter'')"
    by code_simp
  have c: "json_content_type (hr_header (demo_http ''POST'' ''/v1/chat/completions'' []) ''Content-Type'')"
    by (simp add: json_content_type_def demo_http_def)
  show ?thesis
    using invalid_request_isolated [OF c _ _ v, where ce = "demo_chat_env (demo_request\<lparr> cq_model := '' '' \<rparr>)"
        and raw = "''{}''" and m = "[]" and ?hs = no_hashes and dc = demo_decoder and h = "demo_handler []"]
    by (simp add: demo_chat_env_def)
qed

theorem chat_leaves_no_lease_witness:
  "leases (fold (run_call 0) (ha_calls (demo_forward DefaultConfig key_auth (demo_env flaky (Inr ''a'')))) demo_pool) = {}"
proof -
  have idle: "leases demo_pool = {}" by (auto simp: leases_def demo_pool_def demo_proxy_def)
  show ?thesis by (rule chat_leaves_no_lease [OF idle])
qed

end
