(* ===== verification/Proton_Store.thy ===== *)
theory Proton_Store
  imports Prelude Go_Std
begin

text \<open>
  \<^verbatim>\<open>internal/protonvpn/types.go\<close> and \<^verbatim>\<open>internal/protonvpn/store.go\<close>: the records of the VPN
  provider's API that the gateway keeps, and the SQLite tables as the rows they hold. Whether a
  statement fails, and with what text of the driver, is an input, \<open>fault\<close>. The tables with \<open>CHECK (id = 1)\<close> hold at most one row; the columns
  with JSON text hold the decoded value. Times are compared as instants.
\<close>

section \<open>Records\<close>

record session =
  se_uid :: string
  se_user :: string
  se_cookies :: "(string \<times> string) list"
  se_expires :: time

record certificate =
  ct_certificate :: string
  ct_client_key :: string
  ct_server_key :: string
  ct_peer_ip :: string
  ct_peer_key :: string
  ct_ipv4 :: string
  ct_ipv6 :: string
  ct_dns :: "string list"
  ct_refresh :: int
  ct_expiration :: int

record server =
  sv_entry :: string
  sv_exit :: string
  sv_key :: string
  sv_status :: int

record logical =
  lg_name :: string
  lg_exit :: string
  lg_score :: rat
  lg_load :: int
  lg_status :: int
  lg_servers :: "server list"

section \<open>The tables\<close>

record proton_store =
  pv_credentials :: "(string \<times> string) option"
  pv_session :: "session option"
  pv_certificates :: "certificate list"
  pv_servers :: "(logical list \<times> time) option"
  pv_wireguard :: "(string \<times> string) option"
  pv_ed25519 :: "byte list option"

definition NewStore :: proton_store where
  "NewStore = \<lparr> pv_credentials = None, pv_session = None, pv_certificates = [], pv_servers = None,
     pv_wireguard = None, pv_ed25519 = None \<rparr>"

text \<open>A read: a row, \<open>sql.ErrNoRows\<close> or a failure, the last two with the texts the code gives them.\<close>

definition row_or :: "string option \<Rightarrow> string \<Rightarrow> string \<Rightarrow> 'a option \<Rightarrow> string + 'a" where
  "row_or fault failure missing row =
     (case fault of
        Some e \<Rightarrow> Inl (failure @ '': '' @ e)
      | None \<Rightarrow> (case row of None \<Rightarrow> Inl missing | Some r \<Rightarrow> Inr r))"

definition write_or ::
  "string option \<Rightarrow> string \<Rightarrow> (proton_store \<Rightarrow> proton_store) \<Rightarrow> proton_store \<Rightarrow> string option \<times> proton_store" where
  "write_or fault failure f s =
     (case fault of Some e \<Rightarrow> (Some (failure @ e), s) | None \<Rightarrow> (None, f s))"

definition GetCredentials :: "string option \<Rightarrow> proton_store \<Rightarrow> string + (string \<times> string)" where
  "GetCredentials fault s =
     row_or fault ''failed to get credentials'' ''no credentials stored'' (pv_credentials s)"

definition SetCredentials :: "string option \<Rightarrow> string \<Rightarrow> string \<Rightarrow> proton_store \<Rightarrow> string option \<times> proton_store" where
  "SetCredentials fault u p =
     write_or fault ''failed to set credentials: '' (\<lambda>s. s\<lparr> pv_credentials := Some (u, p) \<rparr>)"

definition GetSession :: "string option \<Rightarrow> proton_store \<Rightarrow> string + session" where
  "GetSession fault s = row_or fault ''failed to get session'' ''no session stored'' (pv_session s)"

text \<open>\<open>SetSession(nil)\<close> deletes the row; its error is the driver's own.\<close>

definition SetSession :: "string option \<Rightarrow> session option \<Rightarrow> proton_store \<Rightarrow> string option \<times> proton_store" where
  "SetSession fault se =
     write_or fault (if se = None then [] else ''failed to set session: '') (\<lambda>s. s\<lparr> pv_session := se \<rparr>)"

text \<open>\<open>GetCertificate\<close>: the newest row that has not expired.\<close>

definition GetCertificate_row :: "string option \<Rightarrow> time \<Rightarrow> proton_store \<Rightarrow> string + certificate" where
  "GetCertificate_row fault now s =
     row_or fault ''failed to get certificate'' ''no valid certificate stored''
       (find (\<lambda>c. ct_expiration c * Second > now) (rev (pv_certificates s)))"

definition SetCertificate :: "string option \<Rightarrow> certificate \<Rightarrow> proton_store \<Rightarrow> string option \<times> proton_store" where
  "SetCertificate fault c =
     write_or fault ''failed to set certificate: '' (\<lambda>s. s\<lparr> pv_certificates := pv_certificates s @ [c] \<rparr>)"

definition GetServerList :: "string option \<Rightarrow> time \<Rightarrow> proton_store \<Rightarrow> string + logical list" where
  "GetServerList fault now s =
     (case row_or fault ''failed to get server list'' ''no server list cached'' (pv_servers s) of
        Inl e \<Rightarrow> Inl e
      | Inr (list, fetchedAt) \<Rightarrow>
          if time_sub now fetchedAt > Hour then Inl ''server list cache expired'' else Inr list)"

definition SetServerList :: "string option \<Rightarrow> time \<Rightarrow> logical list \<Rightarrow> proton_store \<Rightarrow> string option \<times> proton_store" where
  "SetServerList fault now list =
     write_or fault ''failed to set server list: '' (\<lambda>s. s\<lparr> pv_servers := Some (list, now) \<rparr>)"

definition GetWireGuardKey :: "string option \<Rightarrow> proton_store \<Rightarrow> string + (string \<times> string)" where
  "GetWireGuardKey fault s =
     row_or fault ''failed to get wireguard keys'' ''no wireguard keys stored'' (pv_wireguard s)"

definition SetWireGuardKey :: "string option \<Rightarrow> string \<Rightarrow> string \<Rightarrow> proton_store \<Rightarrow> string option \<times> proton_store" where
  "SetWireGuardKey fault priv pub =
     write_or fault ''failed to set wireguard keys: '' (\<lambda>s. s\<lparr> pv_wireguard := Some (priv, pub) \<rparr>)"

definition GetEd25519Key :: "string option \<Rightarrow> proton_store \<Rightarrow> string + byte list" where
  "GetEd25519Key fault s =
     row_or fault ''failed to get Ed25519 keys'' ''no Ed25519 keys stored'' (pv_ed25519 s)"

definition SetEd25519Key :: "string option \<Rightarrow> byte list \<Rightarrow> proton_store \<Rightarrow> string option \<times> proton_store" where
  "SetEd25519Key fault k =
     write_or fault ''failed to set Ed25519 key: '' (\<lambda>s. s\<lparr> pv_ed25519 := Some k \<rparr>)"

definition DeleteEd25519Key :: "string option \<Rightarrow> proton_store \<Rightarrow> string option \<times> proton_store" where
  "DeleteEd25519Key fault =
     write_or fault ''failed to delete Ed25519 key: '' (\<lambda>s. s\<lparr> pv_ed25519 := None \<rparr>)"

lemmas store_reads = row_or_def GetCredentials_def GetSession_def GetCertificate_row_def GetServerList_def
  GetWireGuardKey_def GetEd25519Key_def

lemmas store_writes = write_or_def SetCredentials_def SetSession_def SetCertificate_def SetServerList_def
  SetWireGuardKey_def SetEd25519Key_def DeleteEd25519Key_def

end
