(* ===== verification/Proton_Client.thy ===== *)
theory Proton_Client
  imports Proton_Store
begin

text \<open>
  \<^verbatim>\<open>internal/protonvpn/client.go\<close>: cookies and sessions, certificates, the server list and the
  choice of a server. The provider's answers, the SRP login of \<^verbatim>\<open>auth.go\<close>, key generation and
  the hash are arguments; a statement of the store fails where \<open>fault\<close> says so, by its name in the
  operation.
\<close>

record proton =
  pc_store :: proton_store
  pc_user :: string
  pc_pass :: string
  pc_cookies :: string

definition NewProton :: "proton_store \<Rightarrow> string \<Rightarrow> string \<Rightarrow> proton" where
  "NewProton st user pass = \<lparr> pc_store = st, pc_user = user, pc_pass = pass, pc_cookies = [] \<rparr>"

definition SetSessionCookies :: "string \<Rightarrow> proton \<Rightarrow> proton" where
  "SetSessionCookies raw c = c\<lparr> pc_cookies := raw \<rparr>"

type_synonym faults = "string \<Rightarrow> string option"

text \<open>A write of the store by the client: its error and the client with the store it leaves.\<close>

definition store_write ::
  "(proton_store \<Rightarrow> string option \<times> proton_store) \<Rightarrow> proton \<Rightarrow> string option \<times> proton" where
  "store_write w c = (case w (pc_store c) of (e, st) \<Rightarrow> (e, c\<lparr> pc_store := st \<rparr>))"

section \<open>Cookies\<close>

definition parse_cookie :: "string \<Rightarrow> (string \<times> string) option" where
  "parse_cookie part =
     (let part = trim_space part
      in if part = [] then None
         else (case index_byte part CHR ''='' of
                 None \<Rightarrow> None
               | Some idx \<Rightarrow>
                   let name = trim_space (take idx part); val = trim_space (drop (idx + 1) part)
                   in if name = [] then None else Some (name, val)))"

definition ParseCookieString :: "string \<Rightarrow> (string \<times> string) list" where
  "ParseCookieString s = concat (map (\<lambda>p. case parse_cookie p of None \<Rightarrow> [] | Some c \<Rightarrow> [c]) (split_on CHR '';'' s))"

text \<open>The user id in the first cookie whose name starts with \<open>AUTH-\<close>.\<close>

definition cookie_uid :: "(string \<times> string) list \<Rightarrow> string" where
  "cookie_uid cookies =
     (case find (\<lambda>c. has_prefix (fst c) ''AUTH-'') cookies of
        None \<Rightarrow> [] | Some c \<Rightarrow> trim_prefix (fst c) ''AUTH-'')"

definition ImportBrowserCookies :: "faults \<Rightarrow> time \<Rightarrow> string \<Rightarrow> proton \<Rightarrow> string option \<times> proton" where
  "ImportBrowserCookies fault now cookieStr c =
     (let cookies = ParseCookieString cookieStr; uid = cookie_uid cookies
      in if cookies = [] then (Some ''no valid cookies found in string'', c)
         else if uid = [] then (Some (''AUTH-{UID} cookie not found '' @ [CHR 0xE2, CHR 0x80, CHR 0x94] @ '' cannot determine UID''), c)
         else
           (case store_write (SetSession (fault ''SetSession'') (Some \<lparr> se_uid = uid, se_user = uid,
                   se_cookies = cookies, se_expires = now + 24 * Hour \<rparr>)) c of
              (Some e, c) \<Rightarrow> (Some (''failed to store imported session: '' @ e), c)
            | (None, c) \<Rightarrow> (None, c\<lparr> pc_cookies := cookieStr \<rparr>)))"

section \<open>Sessions\<close>

text \<open>
  What a session check or login meets: the clock, the provider's answers to the two validations (a
  status and a body, or why the request failed), and the SRP login, which is done with the credentials the
  client was built with.
\<close>

record session_env =
  sn_fault :: faults
  sn_now :: time
  sn_now_import :: time
  sn_valid :: "session \<Rightarrow> string + (int \<times> string)"
  sn_valid_again :: "session \<Rightarrow> string + (int \<times> string)"
  sn_srp :: "string \<Rightarrow> string \<Rightarrow> string + session"

definition validateSession :: "(session \<Rightarrow> string + (int \<times> string)) \<Rightarrow> session \<Rightarrow> string option" where
  "validateSession answer se =
     (case answer se of
        Inl e \<Rightarrow> Some e
      | Inr (status, body) \<Rightarrow>
          if status \<noteq> 200 then Some (''API error '' @ itoa status @ '': '' @ body) else None)"

definition Login :: "session_env \<Rightarrow> string \<Rightarrow> string \<Rightarrow> proton \<Rightarrow> string option \<times> proton" where
  "Login e username password c =
     (case sn_srp e (pc_user c) (pc_pass c) of
        Inl err \<Rightarrow> (Some (''login failed: '' @ err), c)
      | Inr se \<Rightarrow>
          (case store_write (SetCredentials (sn_fault e ''SetCredentials'') username password) c of
             (Some err, c) \<Rightarrow> (Some (''failed to store credentials: '' @ err), c)
           | (None, c) \<Rightarrow>
               (case store_write (SetSession (sn_fault e ''SetSession'') (Some se)) c of
                  (Some err, c) \<Rightarrow> (Some (''failed to store session: '' @ err), c)
                | (None, c) \<Rightarrow> (None, c))))"

definition loginWithCredentials :: "session_env \<Rightarrow> proton \<Rightarrow> string option \<times> proton" where
  "loginWithCredentials e c =
     (if pc_user c \<noteq> [] \<and> pc_pass c \<noteq> [] then Login e (pc_user c) (pc_pass c) c
      else (case GetCredentials (sn_fault e ''GetCredentials'') (pc_store c) of
              Inl err \<Rightarrow> (Some (''no credentials available: '' @ err), c)
            | Inr (u, p) \<Rightarrow> Login e u p c))"

definition EnsureSession :: "session_env \<Rightarrow> proton \<Rightarrow> string option \<times> proton" where
  "EnsureSession e c =
     (let got = GetSession (sn_fault e ''GetSession'') (pc_store c)
      in if pc_cookies c \<noteq> [] then
           if (case got of Inl _ \<Rightarrow> False
               | Inr se \<Rightarrow> sn_now e < se_expires se \<and> validateSession (sn_valid e) se = None)
           then (None, c)
           else (case ImportBrowserCookies (sn_fault e) (sn_now_import e) (pc_cookies c) c of
                   (Some err, c) \<Rightarrow> (Some (''failed to re-import cookies: '' @ err), c)
                 | (None, c) \<Rightarrow>
                     (case GetSession (sn_fault e ''GetSession after import'') (pc_store c) of
                        Inl err \<Rightarrow> (Some (''no session after import: '' @ err), c)
                      | Inr se \<Rightarrow>
                          (case validateSession (sn_valid_again e) se of
                             Some err \<Rightarrow> (Some (''cookies are invalid: '' @ err), c)
                           | None \<Rightarrow> (None, c))))
         else
           if (case got of Inl _ \<Rightarrow> False | Inr se \<Rightarrow> sn_now e + 5 * Minute < se_expires se)
           then (None, c)
           else loginWithCredentials e c)"

section \<open>Keys\<close>

text \<open>\<open>pub\<close> gives the base64 public key of a private one, \<open>gen\<close> the outcome of key generation.\<close>

definition GetOrCreateEd25519Key ::
  "string option \<Rightarrow> string option \<Rightarrow> (byte list \<Rightarrow> string) \<Rightarrow> string + byte list \<Rightarrow> proton \<Rightarrow> (string + string) \<times> proton" where
  "GetOrCreateEd25519Key get_fault set_fault pub gen c =
     (case GetEd25519Key get_fault (pc_store c) of
        Inr k \<Rightarrow> (Inr (pub k), c)
      | Inl _ \<Rightarrow>
          (case gen of
             Inl err \<Rightarrow> (Inl (''failed to generate Ed25519 key: '' @ err), c)
           | Inr k \<Rightarrow>
               (case store_write (SetEd25519Key set_fault k) c of
                  (Some err, c) \<Rightarrow> (Inl (''failed to store Ed25519 key: '' @ err), c)
                | (None, c) \<Rightarrow> (Inr (pub k), c))))"

text \<open>\<open>sha512\<close> has 64 bytes of output; the key is its first half, clamped.\<close>

definition ed25519PrivKeyToCurve25519 :: "(byte list \<Rightarrow> byte list) \<Rightarrow> byte list \<Rightarrow> string + byte list" where
  "ed25519PrivKeyToCurve25519 sha512 edKey =
     (if length edKey \<noteq> 64 then Inl ''invalid Ed25519 private key size''
      else
        let h = sha512 (take 32 edKey);
            h = h[0 := and (h ! 0) 248];
            h = h[31 := and (h ! 31) 127];
            h = h[31 := or (h ! 31) 64]
        in Inr (take 32 h))"

text \<open>\<open>x25519\<close> is the base-point multiplication; keys leave base64-encoded by \<open>b64\<close>.\<close>

definition GetOrCreateKeyPair ::
  "string option \<Rightarrow> (byte list \<Rightarrow> byte list) \<Rightarrow> (byte list \<Rightarrow> string + byte list) \<Rightarrow> (byte list \<Rightarrow> string)
     \<Rightarrow> proton \<Rightarrow> string + (string \<times> string)" where
  "GetOrCreateKeyPair fault sha512 x25519 b64 c =
     (case GetEd25519Key fault (pc_store c) of
        Inl err \<Rightarrow> Inl (''no Ed25519 key available (must create certificate first): '' @ err)
      | Inr k \<Rightarrow>
          (case ed25519PrivKeyToCurve25519 sha512 k of
             Inl err \<Rightarrow> Inl (''failed to convert Ed25519 to X25519: '' @ err)
           | Inr priv \<Rightarrow>
               (case x25519 priv of
                  Inl err \<Rightarrow> Inl (''failed to derive X25519 public key: '' @ err)
                | Inr pub \<Rightarrow> Inr (b64 priv, b64 pub))))"

section \<open>Certificates\<close>

record cert_request =
  cr_uid :: string
  cr_cookies :: "(string \<times> string) list"
  cr_key :: string
  cr_peer_name :: string
  cr_peer_ip :: string
  cr_peer_key :: string

text \<open>
  \<open>http\<close> answers the request: why it failed, or a status and a body; \<open>decode\<close> reads a body into its
  code and certificate.
\<close>

definition requestCertificate ::
  "(cert_request \<Rightarrow> string + (int \<times> string)) \<Rightarrow> (string \<Rightarrow> string + (int \<times> certificate))
     \<Rightarrow> session \<Rightarrow> string \<Rightarrow> string \<Rightarrow> string \<Rightarrow> string \<Rightarrow> string + certificate" where
  "requestCertificate http decode se key serverName serverIP serverPubKey =
     (case http \<lparr> cr_uid = se_uid se, cr_cookies = se_cookies se, cr_key = key, cr_peer_name = serverName,
                  cr_peer_ip = serverIP, cr_peer_key = serverPubKey \<rparr> of
        Inl err \<Rightarrow> Inl (''failed to send request: '' @ err)
      | Inr (status, body) \<Rightarrow>
          if status \<noteq> 200 then Inl (''API error '' @ itoa status @ '': '' @ body)
          else (case decode body of
                  Inl err \<Rightarrow> Inl (''failed to unmarshal response: '' @ err)
                | Inr (code, cert) \<Rightarrow>
                    if code \<noteq> 1000 then Inl (''API error code '' @ itoa code) else Inr cert))"

record cert_env =
  cv_session :: session_env
  cv_now :: time
  cv_now_refresh :: time
  cv_pub :: "byte list \<Rightarrow> string"
  cv_gen :: "string + byte list"
  cv_gen_again :: "string + byte list"
  cv_http :: "cert_request \<Rightarrow> string + (int \<times> string)"
  cv_http_again :: "cert_request \<Rightarrow> string + (int \<times> string)"
  cv_decode :: "string \<Rightarrow> string + (int \<times> certificate)"
  cv_fault :: faults

definition store_certificate :: "cert_env \<Rightarrow> certificate \<Rightarrow> proton \<Rightarrow> (string + certificate) \<times> proton" where
  "store_certificate e cert c =
     (case store_write (SetCertificate (cv_fault e ''SetCertificate'') cert) c of
        (Some err, c) \<Rightarrow> (Inl (''failed to store certificate: '' @ err), c)
      | (None, c) \<Rightarrow> (Inr cert, c))"

text \<open>The retry after a key conflict: a new key, one more request.\<close>

definition retry_certificate ::
  "cert_env \<Rightarrow> session \<Rightarrow> string \<Rightarrow> string \<Rightarrow> string \<Rightarrow> proton \<Rightarrow> (string + certificate) \<times> proton" where
  "retry_certificate e se serverName serverIP serverPubKey c =
     (case store_write (DeleteEd25519Key (cv_fault e ''DeleteEd25519Key'')) c of
        (Some err, c) \<Rightarrow> (Inl (''failed to delete conflicting Ed25519 key: '' @ err), c)
      | (None, c) \<Rightarrow>
          (case GetOrCreateEd25519Key (cv_fault e ''GetEd25519Key again'') (cv_fault e ''SetEd25519Key again'')
                  (cv_pub e) (cv_gen_again e) c of
             (Inl err, c) \<Rightarrow> (Inl (''failed to regenerate Ed25519 key: '' @ err), c)
           | (Inr key, c) \<Rightarrow>
               (case requestCertificate (cv_http_again e) (cv_decode e) se key serverName serverIP serverPubKey of
                  Inl err \<Rightarrow> (Inl (''failed to request certificate: '' @ err), c)
                | Inr cert \<Rightarrow> store_certificate e cert c)))"

definition fresh_certificate ::
  "cert_env \<Rightarrow> string \<Rightarrow> string \<Rightarrow> string \<Rightarrow> proton \<Rightarrow> (string + certificate) \<times> proton" where
  "fresh_certificate e serverName serverIP serverPubKey c =
     (case EnsureSession (cv_session e) c of
        (Some err, c) \<Rightarrow> (Inl (''failed to ensure session: '' @ err), c)
      | (None, c) \<Rightarrow>
          (case GetSession (cv_fault e ''GetSession'') (pc_store c) of
             Inl err \<Rightarrow> (Inl (''failed to get session: '' @ err), c)
           | Inr se \<Rightarrow>
               (case GetOrCreateEd25519Key (cv_fault e ''GetEd25519Key'') (cv_fault e ''SetEd25519Key'')
                       (cv_pub e) (cv_gen e) c of
                  (Inl err, c) \<Rightarrow> (Inl (''failed to get Ed25519 key: '' @ err), c)
                | (Inr key, c) \<Rightarrow>
                    (case requestCertificate (cv_http e) (cv_decode e) se key serverName serverIP serverPubKey of
                       Inr cert \<Rightarrow> store_certificate e cert c
                     | Inl err \<Rightarrow>
                         if contains err ''2500'' \<or> contains err ''fingerprint conflict''
                         then retry_certificate e se serverName serverIP serverPubKey c
                         else (Inl (''failed to request certificate: '' @ err), c)))))"

definition GetCertificate ::
  "cert_env \<Rightarrow> string \<Rightarrow> string \<Rightarrow> string \<Rightarrow> proton \<Rightarrow> (string + certificate) \<times> proton" where
  "GetCertificate e serverName serverIP serverPubKey c =
     (case GetCertificate_row (cv_fault e ''GetCertificate'') (cv_now e) (pc_store c) of
        Inr cert \<Rightarrow>
          if cv_now_refresh e < ct_refresh cert * Second then (Inr cert, c)
          else fresh_certificate e serverName serverIP serverPubKey c
      | Inl _ \<Rightarrow> fresh_certificate e serverName serverIP serverPubKey c)"

section \<open>Servers\<close>

record list_env =
  le_session :: session_env
  le_now :: time
  le_now_store :: time
  le_http :: "session \<Rightarrow> string + (int \<times> string)"
  le_decode :: "string \<Rightarrow> string + logical list"
  le_fault :: faults

definition FetchServerList :: "list_env \<Rightarrow> proton \<Rightarrow> (string + logical list) \<times> proton" where
  "FetchServerList e c =
     (case GetServerList (le_fault e ''GetServerList'') (le_now e) (pc_store c) of
        Inr list \<Rightarrow> (Inr list, c)
      | Inl _ \<Rightarrow>
          (case EnsureSession (le_session e) c of
             (Some err, c) \<Rightarrow> (Inl (''failed to ensure session: '' @ err), c)
           | (None, c) \<Rightarrow>
               (case GetSession (le_fault e ''GetSession'') (pc_store c) of
                  Inl err \<Rightarrow> (Inl (''no session: '' @ err), c)
                | Inr se \<Rightarrow>
                    (case le_http e se of
                       Inl err \<Rightarrow> (Inl (''failed to send request: '' @ err), c)
                     | Inr (status, body) \<Rightarrow>
                         if status = 401 then
                           (Inl (''API error '' @ itoa status @ '': '' @ body),
                            snd (store_write (SetSession (le_fault e ''SetSession'') None) c))
                         else if status \<noteq> 200 then (Inl (''API error '' @ itoa status @ '': '' @ body), c)
                         else (case le_decode e body of
                                 Inl err \<Rightarrow> (Inl (''failed to unmarshal response: '' @ err), c)
                               | Inr list \<Rightarrow>
                                   (Inr list, snd (store_write
                                      (SetServerList (le_fault e ''SetServerList'') (le_now_store e) list) c)))))))"

definition usable_server :: "server \<Rightarrow> bool" where
  "usable_server sv \<longleftrightarrow> sv_status sv = 0 \<and> sv_key sv \<noteq> []"

definition usable_logical :: "string \<Rightarrow> (string \<Rightarrow> bool) \<Rightarrow> logical \<Rightarrow> bool" where
  "usable_logical region regions lg \<longleftrightarrow>
     (region = [] \<or> lg_exit lg = region) \<and> \<not> regions (lg_exit lg) \<and> lg_status lg = 0"

definition candidate_servers :: "(logical \<Rightarrow> bool) \<Rightarrow> logical list \<Rightarrow> (logical \<times> server) list" where
  "candidate_servers ok lgs =
     concat (map (\<lambda>lg. if ok lg then map (\<lambda>sv. (lg, sv)) (filter usable_server (lg_servers lg)) else []) lgs)"

definition better :: "logical \<times> server \<Rightarrow> logical \<times> server \<Rightarrow> bool" where
  "better x y \<longleftrightarrow> lg_score (fst x) > lg_score (fst y)
     \<or> (lg_score (fst x) = lg_score (fst y) \<and> lg_load (fst x) < lg_load (fst y))"

definition pick_best :: "(logical \<times> server) list \<Rightarrow> logical \<times> server" where
  "pick_best cs = foldl (\<lambda>best cand. if better cand best then cand else best) (hd cs) (tl cs)"

text \<open>\<open>avoid\<close> comes with whether it is a non-empty map; an avoided server is used only when nothing else is left.\<close>

definition select_from ::
  "string \<Rightarrow> (string \<Rightarrow> bool) \<Rightarrow> (string \<Rightarrow> bool) \<Rightarrow> bool \<Rightarrow> logical list \<Rightarrow> string + (logical \<times> server)" where
  "select_from region regions avoid some_avoided lgs =
     (let cs = candidate_servers (\<lambda>lg. usable_logical region regions lg \<and> \<not> avoid (lg_name lg)) lgs;
          cs = (if cs = [] \<and> some_avoided then candidate_servers (usable_logical region regions) lgs else cs)
      in if cs = [] then Inl (''no available servers for region '' @ region) else Inr (pick_best cs))"

definition SelectServer ::
  "list_env \<Rightarrow> string \<Rightarrow> (string \<Rightarrow> bool) \<Rightarrow> (string \<Rightarrow> bool) \<Rightarrow> bool \<Rightarrow> proton
     \<Rightarrow> (string + (logical \<times> server)) \<times> proton" where
  "SelectServer e region regions avoid some_avoided c =
     (case FetchServerList e c of
        (Inl err, c) \<Rightarrow> (Inl (''failed to fetch server list: '' @ err), c)
      | (Inr lgs, c) \<Rightarrow> (select_from region regions avoid some_avoided lgs, c))"

end
