(* ===== verification/Proton_Laws.thy ===== *)
theory Proton_Laws
  imports Proton_Client
begin

text \<open>
  What the VPN provider's client promises: the choice of a server implements its specification, a
  certificate serves every server until it is due, cookies survive their text form, the WireGuard key
  is clamped.
\<close>

section \<open>The choice of a server\<close>

text \<open>
  The specification, on sets: the servers to choose from, and a choice that nothing beats. It says
  nothing about the order of the list.
\<close>

definition eligible :: "(logical \<Rightarrow> bool) \<Rightarrow> logical list \<Rightarrow> (logical \<times> server) set" where
  "eligible ok lgs = {(lg, sv). lg \<in> set lgs \<and> ok lg \<and> sv \<in> set (lg_servers lg) \<and> usable_server sv}"

definition legal_choice ::
  "string \<Rightarrow> (string \<Rightarrow> bool) \<Rightarrow> (string \<Rightarrow> bool) \<Rightarrow> bool \<Rightarrow> logical list \<Rightarrow> string + (logical \<times> server) \<Rightarrow> bool" where
  "legal_choice region regions avoid some_avoided lgs r =
     (let spread = eligible (\<lambda>lg. usable_logical region regions lg \<and> \<not> avoid (lg_name lg)) lgs;
          E = (if spread = {} \<and> some_avoided then eligible (usable_logical region regions) lgs else spread)
      in case r of Inl _ \<Rightarrow> E = {}
         | Inr x \<Rightarrow> x \<in> E \<and>
             (\<forall>y \<in> E. \<not> lg_score (fst x) < lg_score (fst y) \<and>
                (lg_score (fst y) = lg_score (fst x) \<longrightarrow> \<not> lg_load (fst y) < lg_load (fst x))))"

lemma set_candidates: "set (candidate_servers ok lgs) = eligible ok lgs"
  by (auto simp: candidate_servers_def eligible_def split: if_splits)

lemma candidates_empty: "candidate_servers ok lgs = [] \<longleftrightarrow> eligible ok lgs = {}"
  by (metis set_candidates set_empty)

lemma better_trans: "better x y \<Longrightarrow> better y z \<Longrightarrow> better x z"
  by (auto simp: better_def)

lemma better_irrefl: "\<not> better x x"
  by (simp add: better_def)

lemma better_total: "\<not> better x y \<Longrightarrow> better z y \<Longrightarrow> better z x"
  by (auto simp: better_def)

lemma foldl_best:
  "foldl (\<lambda>b c. if better c b then c else b) b cs \<in> set (b # cs)
   \<and> (\<forall>y \<in> set (b # cs). \<not> better y (foldl (\<lambda>b c. if better c b then c else b) b cs))"
proof (induction cs arbitrary: b)
  case Nil
  then show ?case by (simp add: better_irrefl)
next
  case (Cons c cs)
  define b' where "b' = (if better c b then c else b)"
  have b: "\<not> better b b'" "\<not> better c b'" "b' \<in> {b, c}"
    using better_irrefl better_trans [of b c b] by (auto simp: b'_def)
  define r where "r = foldl (\<lambda>b c. if better c b then c else b) b' cs"
  from Cons.IH [of b'] have r: "r \<in> set (b' # cs)" "\<forall>y \<in> set (b' # cs). \<not> better y r" by (simp_all add: r_def)
  have "\<not> better x r" if "\<not> better x b'" for x
    using that r(2) better_total [of x b' r] better_total by (auto simp: better_def)
  with b r have "r \<in> set (b # c # cs)" "\<forall>y \<in> set (b # c # cs). \<not> better y r" by auto
  then show ?case by (simp add: r_def b'_def)
qed

lemma pick_best_best: "cs \<noteq> [] \<Longrightarrow> pick_best cs \<in> set cs \<and> (\<forall>y \<in> set cs. \<not> better y (pick_best cs))"
  using foldl_best [of "hd cs" "tl cs"] by (simp add: pick_best_def)

text \<open>
  C38: The choice of a server implements its specification: it fails only when no server is eligible, and
  otherwise yields an online server with a key, in the wanted region and in no banned one, not an
  avoided one unless only avoided ones are left, such that no eligible server has a higher score, or
  the same score and less load.
\<close>

theorem select_refines_specification:
  "legal_choice region regions avoid some_avoided lgs (select_from region regions avoid some_avoided lgs)"
proof -
  define ok where "ok = (\<lambda>lg. usable_logical region regions lg \<and> \<not> avoid (lg_name lg))"
  define cs where "cs = (if candidate_servers ok lgs = [] \<and> some_avoided
      then candidate_servers (usable_logical region regions) lgs else candidate_servers ok lgs)"
  define E where "E = (if eligible ok lgs = {} \<and> some_avoided
      then eligible (usable_logical region regions) lgs else eligible ok lgs)"
  have E: "E = set cs" by (simp add: E_def cs_def set_candidates candidates_empty)
  have s: "select_from region regions avoid some_avoided lgs =
      (if cs = [] then Inl (''no available servers for region '' @ region) else Inr (pick_best cs))"
    by (simp add: select_from_def cs_def ok_def Let_def)
  show ?thesis
    unfolding legal_choice_def Let_def ok_def [symmetric] E_def [symmetric] s E
    using pick_best_best [of cs] by (auto simp: better_def)
qed

section \<open>Certificates\<close>

lemma store_certificate_result:
  "store_certificate e cert c = (Inr ct, u) \<Longrightarrow>
     ct = cert \<and> pv_certificates (pc_store u) = pv_certificates (pc_store c) @ [ct]"
  by (auto simp: store_certificate_def store_write_def store_writes split: if_splits prod.splits option.splits)

lemma fresh_certificate_stored:
  assumes "fresh_certificate e n i k c = (Inr ct, u)"
  shows "\<exists>cts. pv_certificates (pc_store u) = cts @ [ct]"
  using assms
  by (auto simp: fresh_certificate_def retry_certificate_def split: prod.splits option.splits sum.splits if_splits
      dest: store_certificate_result)

text \<open>
  A certificate is asked for once and serves every server until it is due. After a certificate has
  been obtained for one server, asking for one for any other server, before the refresh time and the
  expiry, returns the same certificate, with whatever peer address and key the provider put in it,
  makes no request and changes nothing.
\<close>

theorem certificate_serves_all_servers:
  assumes "fresh_certificate e n1 i1 k1 c = (Inr ct, u)"
    and "cv_fault e2 ''GetCertificate'' = None" "cv_now e2 < ct_expiration ct * Second"
    and "cv_now_refresh e2 < ct_refresh ct * Second"
  shows "GetCertificate e2 n2 i2 k2 u = (Inr ct, u)"
proof -
  obtain cts where "pv_certificates (pc_store u) = cts @ [ct]" using fresh_certificate_stored [OF assms(1)] by blast
  with assms(2-4) show ?thesis by (simp add: GetCertificate_def GetCertificate_row_def row_or_def)
qed

section \<open>Sessions\<close>

text \<open>
  Stored credentials are read and never used: a client built without user and password logs in with
  the empty ones whatever the store holds.
\<close>

theorem stored_credentials_unused:
  assumes "pc_user c = []" "pv_credentials (pc_store c) = Some (su, sp)" "sn_fault e ''GetCredentials'' = None"
    and "sn_srp e [] (pc_pass c) = Inl err"
  shows "loginWithCredentials e c = (Some (''login failed: '' @ err), c)"
  using assms by (simp add: loginWithCredentials_def store_reads Login_def)

text \<open>
  An imported session is the one in use: after a successful import the store holds the user id of the
  cookie and the cookies themselves for a day, and a check within that day which the provider accepts
  changes nothing.
\<close>

theorem imported_session_in_use:
  assumes "ImportBrowserCookies fault now raw c = (None, u)" "raw \<noteq> []"
    and "sn_fault e ''GetSession'' = None" "sn_now e < now + 24 * Hour" "\<And>se. sn_valid e se = Inr (200, body)"
  shows "pv_session (pc_store u) = Some \<lparr> se_uid = cookie_uid (ParseCookieString raw),
      se_user = cookie_uid (ParseCookieString raw), se_cookies = ParseCookieString raw, se_expires = now + 24 * Hour \<rparr>
    \<and> EnsureSession e u = (None, u)"
proof -
  have u: "pc_cookies u = raw" "pv_session (pc_store u) = Some \<lparr> se_uid = cookie_uid (ParseCookieString raw),
      se_user = cookie_uid (ParseCookieString raw), se_cookies = ParseCookieString raw, se_expires = now + 24 * Hour \<rparr>"
    using assms(1) by (auto simp: ImportBrowserCookies_def store_write_def store_writes Let_def split: if_splits option.splits)
  with assms(2-5) show ?thesis by (simp add: EnsureSession_def store_reads validateSession_def Let_def)
qed

section \<open>Keys\<close>

text \<open>
  The WireGuard key is a valid X25519 scalar and depends on the seed alone: its low three bits are
  clear, its highest bit is clear and the one below it set; and keys with the same first 32 bytes
  give the same result.
\<close>

theorem wireguard_key_clamped:
  assumes "length edKey = 64" "length (sha512 (take 32 edKey)) = 64"
  shows "\<exists>k. ed25519PrivKeyToCurve25519 sha512 edKey = Inr k \<and> length k = 32
    \<and> and (k ! 0) 7 = 0 \<and> and (k ! 31) 192 = 64 \<and> (\<forall>i \<in> {1..30}. k ! i = sha512 (take 32 edKey) ! i)"
proof -
  define h where "h = sha512 (take 32 edKey)"
  have c0: "and (and b 248) 7 = 0" for b :: byte
  proof -
    have "and (and b 248) 7 = and b (and 248 7)" by (simp only: and.assoc)
    then show ?thesis by simp
  qed
  have c31: "and (or (and b 127) 64) 192 = 64" for b :: byte
  proof -
    have "and (or (and b 127) 64) 192 = or (and b (and 127 192)) (and 64 192)"
      by (simp only: and.assoc bit.conj_disj_distrib2)
    then show ?thesis by (simp add: bit_eq_iff)
  qed
  have "length h = 64" using assms(2) by (simp add: h_def)
  then show ?thesis
    using assms(1) c0 c31
    by (simp add: ed25519PrivKeyToCurve25519_def Let_def h_def [symmetric] nth_list_update)
qed

section \<open>Cookies\<close>

definition cookie_text :: "string \<times> string \<Rightarrow> string" where
  "cookie_text c = fst c @ ''='' @ snd c"

text \<open>Names and values a browser writes: no separators, no blanks around.\<close>

definition cookie_ok :: "string \<times> string \<Rightarrow> bool" where
  "cookie_ok c \<longleftrightarrow> clean (fst c) \<and> CHR '';'' \<notin> set (fst c) \<and> CHR ''='' \<notin> set (fst c)
     \<and> clean (snd c) \<and> CHR '';'' \<notin> set (snd c)"

lemma trim_space_blank: "trim_space (CHR '' '' # w) = trim_space w"
  by (simp add: trim_space_def is_space_def)

lemma parse_cookie_text: "cookie_ok c \<Longrightarrow> parse_cookie (cookie_text c) = Some c"
proof -
  assume ok: "cookie_ok c"
  obtain n v where c: "c = (n, v)" by fastforce
  have n: "clean n" "n \<noteq> []" "CHR ''='' \<notin> set n" and v: "clean v" "v \<noteq> []"
    using ok c by (auto simp: cookie_ok_def clean_def)
  have "clean (n @ ''='' @ v)" using n v by (simp add: clean_def)
  then have t: "trim_space (n @ ''='' @ v) = n @ ''='' @ v" by (rule trim_space_clean)
  have i: "index_byte (n @ ''='' @ v) CHR ''='' = Some (length n)"
    using n(3) by (induction n) (auto simp: index_byte_Cons)
  show ?thesis
    using t i n v by (simp add: parse_cookie_def cookie_text_def c Let_def trim_space_clean)
qed

lemma parse_cookie_blank: "parse_cookie (CHR '' '' # w) = parse_cookie w"
  by (simp add: parse_cookie_def trim_space_blank)

lemma cookie_text_sep: "cookie_ok c \<Longrightarrow> CHR '';'' \<notin> set (cookie_text c)"
  by (auto simp: cookie_ok_def cookie_text_def)

text \<open>
  Cookies survive their text form: what a browser shows as \<open>name=value; name=value\<close> is read back as
  the same cookies in the same order, values with equals signs included.
\<close>

theorem cookies_roundtrip:
  assumes "cs \<noteq> []" "list_all cookie_ok cs"
  shows "ParseCookieString (join ''; '' (map cookie_text cs)) = cs"
proof -
  have gen: "ParseCookieString (pre @ join ''; '' (map cookie_text cs)) = cs"
    if "cs \<noteq> []" "list_all cookie_ok cs" "pre = [] \<or> pre = '' ''" for pre
    using that
  proof (induction cs arbitrary: pre)
    case (Cons c cs)
    have p: "parse_cookie (pre @ cookie_text c) = Some c" "CHR '';'' \<notin> set (pre @ cookie_text c)"
      using Cons.prems parse_cookie_text [of c] cookie_text_sep [of c] by (auto simp: parse_cookie_blank)
    show ?case
    proof (cases cs)
      case Nil
      with p show ?thesis by (simp add: ParseCookieString_def split_on_single)
    next
      case (Cons d ds)
      have "join ''; '' (map cookie_text (c # cs)) = cookie_text c @ CHR '';'' # '' '' @ join ''; '' (map cookie_text cs)"
        by (simp add: Cons)
      then have "split_on CHR '';'' (pre @ join ''; '' (map cookie_text (c # cs)))
          = (pre @ cookie_text c) # split_on CHR '';'' ('' '' @ join ''; '' (map cookie_text cs))"
        using split_on_append [OF p(2)] by simp
      moreover have "ParseCookieString ('' '' @ join ''; '' (map cookie_text cs)) = cs"
        using Cons.IH [of "'' ''"] Cons.prems \<open>cs = d # ds\<close> by simp
      ultimately show ?thesis using p(1) by (simp add: ParseCookieString_def)
    qed
  qed simp
  from gen [OF assms, of "[]"] show ?thesis by simp
qed

section \<open>Concrete sessions and certificates\<close>

theorem cookies_roundtrip_witness:
  "ParseCookieString ''AUTH-u1=x=y; Session-Id=z'' = [(''AUTH-u1'', ''x=y''), (''Session-Id'', ''z'')]"
proof -
  have ok: "list_all cookie_ok [(''AUTH-u1'', ''x=y''), (''Session-Id'', ''z'')]" by code_simp
  from cookies_roundtrip [OF _ ok] show ?thesis by (simp add: cookie_text_def)
qed

definition demo_session_env :: "faults \<Rightarrow> session_env" where
  "demo_session_env f = \<lparr> sn_fault = f, sn_now = 0, sn_now_import = 0, sn_valid = (\<lambda>_. Inr (200, [])),
     sn_valid_again = (\<lambda>_. Inr (200, [])), sn_srp = (\<lambda>u p. Inl ''no user'') \<rparr>"

definition demo_proton :: proton where
  "demo_proton = (NewProton (NewStore\<lparr> pv_credentials := Some (''me'', ''pw'') \<rparr>) [] [])"

theorem stored_credentials_unused_witness:
  "fst (loginWithCredentials (demo_session_env (\<lambda>_. None)) demo_proton) = Some ''login failed: no user''"
  using stored_credentials_unused [of demo_proton "''me''" "''pw''" "demo_session_env (\<lambda>_. None)" "''no user''"]
  by (simp add: demo_proton_def NewProton_def demo_session_env_def)

theorem imported_session_in_use_witness:
  "fst (EnsureSession (demo_session_env (\<lambda>_. None))
     (snd (ImportBrowserCookies (\<lambda>_. None) 0 ''AUTH-u1=x'' demo_proton))) = None"
proof -
  have c: "ParseCookieString ''AUTH-u1=x'' = [(''AUTH-u1'', ''x'')]" "cookie_uid [(''AUTH-u1'', ''x'')] = ''u1''"
    by code_simp+
  have i: "fst (ImportBrowserCookies (\<lambda>_. None) 0 ''AUTH-u1=x'' demo_proton) = None"
    by (simp add: ImportBrowserCookies_def c Let_def store_write_def store_writes)
  then have "ImportBrowserCookies (\<lambda>_. None) 0 ''AUTH-u1=x'' demo_proton
      = (None, snd (ImportBrowserCookies (\<lambda>_. None) 0 ''AUTH-u1=x'' demo_proton))" by (metis prod.collapse)
  from imported_session_in_use [OF this, of "demo_session_env (\<lambda>_. None)"]
  show ?thesis by (simp add: demo_session_env_def duration_defs)
qed

definition demo_cert :: certificate where
  "demo_cert = \<lparr> ct_certificate = ''c'', ct_client_key = ''k'', ct_server_key = ''s'', ct_peer_ip = ''1.1.1.1'',
     ct_peer_key = ''pk'', ct_ipv4 = ''10.2.0.2'', ct_ipv6 = [], ct_dns = [], ct_refresh = 100, ct_expiration = 200 \<rparr>"

definition demo_cert_env :: cert_env where
  "demo_cert_env = \<lparr> cv_session = demo_session_env (\<lambda>_. None), cv_now = 0, cv_now_refresh = 0, cv_pub = (\<lambda>_. ''pub''),
     cv_gen = Inr [1], cv_gen_again = Inr [2], cv_http = (\<lambda>_. Inr (200, ''body'')), cv_http_again = (\<lambda>_. Inl ''x''),
     cv_decode = (\<lambda>_. Inr (1000, demo_cert)), cv_fault = (\<lambda>_. None) \<rparr>"

definition demo_logged_in :: proton where
  "demo_logged_in = NewProton (NewStore\<lparr> pv_session := Some \<lparr> se_uid = ''u'', se_user = ''u'', se_cookies = [],
     se_expires = 1000 * Hour \<rparr> \<rparr>) ''me'' ''pw''"

theorem certificate_serves_all_servers_witness:
  "map_sum id ct_peer_ip (fst (GetCertificate demo_cert_env ''DE#2'' ''2.2.2.2'' ''k2''
     (snd (fresh_certificate demo_cert_env ''CH#1'' ''1.1.1.1'' ''k1'' demo_logged_in)))) = Inr ''1.1.1.1''"
proof -
  define r where "r = fresh_certificate demo_cert_env ''CH#1'' ''1.1.1.1'' ''k1'' demo_logged_in"
  have f: "fst r = Inr demo_cert"
    by (simp add: r_def fresh_certificate_def demo_cert_env_def demo_logged_in_def NewProton_def EnsureSession_def
        demo_session_env_def store_reads GetOrCreateEd25519Key_def NewStore_def store_write_def store_writes
        requestCertificate_def store_certificate_def duration_defs Let_def)
  then have "fresh_certificate demo_cert_env ''CH#1'' ''1.1.1.1'' ''k1'' demo_logged_in = (Inr demo_cert, snd r)"
    unfolding r_def by (metis prod.collapse)
  from certificate_serves_all_servers [OF this, of demo_cert_env "''DE#2''" "''2.2.2.2''" "''k2''"]
  show ?thesis by (simp add: r_def demo_cert_env_def demo_cert_def duration_defs)
qed

theorem wireguard_key_clamped_witness:
  "map_sum id (\<lambda>k. and (k ! 31) 192) (ed25519PrivKeyToCurve25519 (\<lambda>_. replicate 64 255) (replicate 64 1)) = Inr 64"
  using wireguard_key_clamped [of "replicate 64 1" "\<lambda>_. replicate 64 255"] by auto

end
