(* ===== verification/Docker_Manager.thy ===== *)
theory Docker_Manager
  imports Proton_Laws Config Proxy_Managers
begin

text \<open>
  \<^verbatim>\<open>internal/proxy/docker.go\<close>: the manager of VPN containers. The Docker daemon is the
  environment: its answers are inputs, and what the manager asks of it is the list of its calls. An
  identifier of the daemon has at least twelve characters.
\<close>

section \<open>Resource limits\<close>

text \<open>\<open>fmt.Sscanf(mem, "%d%s")\<close> on text without newlines: a number in 64 bits and a word.\<close>

definition scan_int_word :: "string \<Rightarrow> (int \<times> string) option" where
  "scan_int_word s =
     (let s = dropWhile is_space s;
          neg = (s \<noteq> [] \<and> hd s = CHR ''-'');
          s = (if s \<noteq> [] \<and> (hd s = CHR ''-'' \<or> hd s = CHR ''+'') then tl s else s);
          ds = takeWhile is_digit s; rest = dropWhile is_space (dropWhile is_digit s);
          word = takeWhile (\<lambda>c. \<not> is_space c) rest
      in case parse_nat ds of
           None \<Rightarrow> None
         | Some n \<Rightarrow>
             (case in_range (if neg then - int n else int n) of
                None \<Rightarrow> None
              | Some v \<Rightarrow> if word = [] then None else Some (v, word)))"

definition to_upper :: "string \<Rightarrow> string" where
  "to_upper s = map (\<lambda>c. if CHR ''a'' \<le> c \<and> c \<le> CHR ''z'' then char_of (of_char c - (32 :: nat)) else c) s"

definition parseMemoryLimit :: "string \<Rightarrow> int" where
  "parseMemoryLimit mem =
     (case scan_int_word mem of
        None \<Rightarrow> 0
      | Some (v, unit) \<Rightarrow>
          let u = to_upper unit
          in if u = ''K'' \<or> u = ''KB'' then wrap64 (v * 1024)
             else if u = ''M'' \<or> u = ''MB'' then wrap64 (v * 1024 * 1024)
             else if u = ''G'' \<or> u = ''GB'' then wrap64 (v * 1024 * 1024 * 1024)
             else v)"

text \<open>\<open>scan_float\<close> is \<open>Sscanf("%f")\<close>.\<close>

definition parseCPUQuota :: "(string \<Rightarrow> rat option) \<Rightarrow> string \<Rightarrow> int" where
  "parseCPUQuota scan_float cpu =
     (case scan_float cpu of None \<Rightarrow> 0 | Some cores \<Rightarrow> trunc (rnd (cores * 100000)))"

section \<open>The manager\<close>

record docker_manager =
  dk_cfg :: config
  dk_proton :: proton
  dk_next_port :: int
  dk_image_done :: bool

definition namespace :: string where "namespace = ''protonvpn-gateway''"

definition vpnImageTag :: string where "vpnImageTag = ''opencode-multi-agents/protonvpn:latest''"

text \<open>Ports are counted in 32 bits.\<close>

definition wrap32 :: "int \<Rightarrow> int" where
  "wrap32 x = (x + 2 ^ 31) mod 2 ^ 32 - 2 ^ 31"

text \<open>
  What a container is created with: its name, the published port, the environment, the labels and
  the limits.
\<close>

record container_spec =
  cs_name :: string
  cs_port :: int
  cs_env :: "string list"
  cs_labels :: "(string \<times> string) list"
  cs_cpu :: int
  cs_memory :: int

datatype docker_call =
    D_create container_spec "string option"
  | D_start string
  | D_remove string

text \<open>
  \<open>NewDockerManager\<close>: the session is reused, imported or logged in; containers left from an earlier
  run are removed and the image is built. \<open>orphans\<close> are the listed containers, \<open>img\<close> the failure of
  the image's preparation.
\<close>

definition init_session :: "session_env \<Rightarrow> faults \<Rightarrow> time \<Rightarrow> config \<Rightarrow> proton \<Rightarrow> string option \<times> proton" where
  "init_session e fault now cfg c =
     (let raw = ProtonVPNSessionCookies cfg;
          c = (if raw \<noteq> [] then SetSessionCookies raw c else c)
      in case EnsureSession e c of
           (None, c) \<Rightarrow> (None, c)
         | (Some _, c) \<Rightarrow>
             if raw \<noteq> [] then
               (case ImportBrowserCookies fault now raw c of
                  (Some err, c) \<Rightarrow> (Some (''failed to import browser cookies: '' @ err), c)
                | (None, c) \<Rightarrow> (None, c))
             else
               (case Login e (ProtonVPNUsername cfg) (ProtonVPNPassword cfg) c of
                  (Some err, c) \<Rightarrow> (Some (''failed to initialize ProtonVPN session: '' @ err), c)
                | (None, c) \<Rightarrow> (None, c)))"

definition cleanupOrphans :: "string list option \<Rightarrow> docker_call list" where
  "cleanupOrphans orphans = (case orphans of None \<Rightarrow> [] | Some cs \<Rightarrow> map D_remove cs)"

definition NewDockerManager ::
  "session_env \<Rightarrow> faults \<Rightarrow> time \<Rightarrow> string list option \<Rightarrow> string option \<Rightarrow> proton_store \<Rightarrow> config
     \<Rightarrow> (string + docker_manager) \<times> docker_call list" where
  "NewDockerManager e fault now orphans img st cfg =
     (case init_session e fault now cfg (NewProton st (ProtonVPNUsername cfg) (ProtonVPNPassword cfg)) of
        (Some err, _) \<Rightarrow> (Inl err, [])
      | (None, c) \<Rightarrow>
          (case img of
             Some err \<Rightarrow> (Inl (''failed to prepare VPN image: '' @ err), cleanupOrphans orphans)
           | None \<Rightarrow>
               (Inr \<lparr> dk_cfg = cfg, dk_proton = c, dk_next_port = wrap32 (ProxyBasePort cfg), dk_image_done = False \<rparr>,
                cleanupOrphans orphans)))"

section \<open>Creating a container\<close>

datatype image_state = Image_present | Image_missing | Inspect_error string

text \<open>
  How far the creation has come when its context is done, if that happens: a call to the daemon with a
  context that is done is not made, and returns the context's error. \<open>At_wait\<close> is before waiting ends
  for another reason, \<open>At_remove\<close> before a removal.
\<close>

datatype docker_moment = At_create | At_start | At_wait | At_remove

fun moment_rank :: "docker_moment \<Rightarrow> nat" where
  "moment_rank At_create = 0"
| "moment_rank At_start = 1"
| "moment_rank At_wait = 2"
| "moment_rank At_remove = 3"

record docker_env =
  de_inspect :: image_state
  de_pull :: "string option"
  de_list :: list_env
  de_cert :: cert_env
  de_key_fault :: "string option"
  de_sha512 :: "byte list \<Rightarrow> byte list"
  de_x25519 :: "byte list \<Rightarrow> string + byte list"
  de_b64 :: "byte list \<Rightarrow> string"
  de_scan_float :: "string \<Rightarrow> rat option"
  de_create :: "container_spec \<Rightarrow> string + string"
  de_start :: "string option"
  de_ready :: "string option"
  de_done :: "docker_moment option"
  de_ctx_err :: string
  de_now :: time
  de_now_check :: time

definition ensureImage :: "docker_env \<Rightarrow> docker_manager \<Rightarrow> string option \<times> docker_manager" where
  "ensureImage e dm =
     (if dk_image_done dm then (None, dm)
      else (case de_inspect e of
              Image_present \<Rightarrow> (None, dm\<lparr> dk_image_done := True \<rparr>)
            | Inspect_error err \<Rightarrow> (Some (''failed to inspect image: '' @ err), dm)
            | Image_missing \<Rightarrow>
                (case de_pull e of
                   Some err \<Rightarrow> (Some (''failed to pull image '' @ vpnImageTag @ '': '' @ err), dm)
                 | None \<Rightarrow> (None, dm\<lparr> dk_image_done := True \<rparr>))))"

record wg_config =
  wg_private :: string
  wg_address :: string
  wg_dns :: string
  wg_peer_key :: string
  wg_endpoint :: string

definition wireguard :: "string \<Rightarrow> certificate \<Rightarrow> wg_config" where
  "wireguard priv cert =
     \<lparr> wg_private = priv,
       wg_address = (if ct_ipv4 cert = [] then ''10.2.0.2/32'' else ct_ipv4 cert @ ''/32''),
       wg_dns = (case ct_dns cert of [] \<Rightarrow> ''10.2.0.1'' | d # _ \<Rightarrow> d),
       wg_peer_key = ct_peer_key cert, wg_endpoint = ct_peer_ip cert @ '':51820'' \<rparr>"

definition nl :: string where "nl = [CHR 0x0A]"

definition wg_text :: "wg_config \<Rightarrow> string" where
  "wg_text w = ''[Interface]'' @ nl @ ''PrivateKey = '' @ wg_private w @ nl @ ''Address = '' @ wg_address w @ nl
     @ ''DNS = '' @ wg_dns w @ nl @ nl @ ''[Peer]'' @ nl @ ''PublicKey = '' @ wg_peer_key w @ nl
     @ ''Endpoint = '' @ wg_endpoint w @ nl @ ''AllowedIPs = 0.0.0.0/0'' @ nl @ ''PersistentKeepalive = 25'' @ nl"

definition container_name :: "int \<Rightarrow> string" where
  "container_name port = namespace @ ''-'' @ itoa port"

definition container_of :: "(string \<Rightarrow> rat option) \<Rightarrow> config \<Rightarrow> int \<Rightarrow> wg_config \<Rightarrow> logical \<Rightarrow> container_spec" where
  "container_of scan_float cfg port w lg =
     \<lparr> cs_name = container_name port, cs_port = port,
       cs_env = [''WIREGUARD_PRIVATE_KEY='' @ wg_private w, ''WIREGUARD_SERVER_PUBLIC_KEY='' @ wg_peer_key w,
         ''WIREGUARD_ADDRESS='' @ wg_address w, ''WIREGUARD_ENDPOINT='' @ wg_endpoint w, ''WIREGUARD_DNS='' @ wg_dns w,
         ''WIREGUARD_CONFIG='' @ wg_text w],
       cs_labels = [(''protonvpn-gateway'', ''true''), (''protonvpn-port'', itoa port),
         (''protonvpn-region'', lg_exit lg), (''protonvpn-server'', lg_name lg)],
       cs_cpu = parseCPUQuota scan_float (ResourceCPULimit cfg),
       cs_memory = parseMemoryLimit (ResourceMemoryLimit cfg) \<rparr>"

definition ctx_done :: "docker_env \<Rightarrow> docker_moment \<Rightarrow> bool" where
  "ctx_done e m = (case de_done e of None \<Rightarrow> False | Some d \<Rightarrow> moment_rank d \<le> moment_rank m)"

text \<open>
  How \<open>waitForReady\<close> ends: with the egress address its health check found, or with the reason (its loop
  is \<open>Vpn_Image.waitForReady\<close>). \<open>de_ready\<close> is \<open>None\<close>
  when no check succeeds in two minutes.
\<close>

definition wait_end :: "docker_env \<Rightarrow> string + string" where
  "wait_end e =
     (if ctx_done e At_wait then Inl (de_ctx_err e)
      else (case de_ready e of
              None \<Rightarrow> Inl ''timeout waiting for container to be ready''
            | Some ip \<Rightarrow> Inr ip))"

text \<open>
  The part that talks to the daemon: create, start, wait. Both removals are asked for with the context
  of the creation, whose end may be what they clean up after.
\<close>

definition removal :: "docker_env \<Rightarrow> string \<Rightarrow> docker_call list" where
  "removal e cid = (if ctx_done e At_remove then [] else [D_remove cid])"

definition start_container ::
  "docker_env \<Rightarrow> config \<Rightarrow> int \<Rightarrow> wg_config \<Rightarrow> logical \<Rightarrow> server \<Rightarrow> (string + proxy) \<times> docker_call list" where
  "start_container e cfg port w lg sv =
     (let spec = container_of (de_scan_float e) cfg port w lg; created = (\<lambda>cid. [D_create spec cid])
      in if ctx_done e At_create then (Inl (''failed to create container: '' @ de_ctx_err e), [])
         else (case de_create e spec of
           Inl err \<Rightarrow> (Inl (''failed to create container: '' @ err), created None)
         | Inr cid \<Rightarrow>
             if ctx_done e At_start then
               (Inl (''failed to start container: '' @ de_ctx_err e), created (Some cid) @ removal e cid)
             else (case de_start e of
                Some err \<Rightarrow> (Inl (''failed to start container: '' @ err), created (Some cid) @ [D_start cid] @ removal e cid)
              | None \<Rightarrow>
                  (case wait_end e of
                     Inl err \<Rightarrow> (Inl (''container not ready: '' @ err), created (Some cid) @ [D_start cid] @ removal e cid)
                   | Inr ip \<Rightarrow>
                       (Inr \<lparr> px_id = take 12 cid, px_container = cid, px_addr = ''socks5://127.0.0.1:'' @ itoa port,
                              px_port = port, px_state = StateIdle, px_last_used = zero_time,
                              px_last_check = de_now_check e, px_requests = 0, px_errors = 0, px_created = de_now e,
                              px_ip = ip, px_region = lg_exit lg, px_server = lg_name lg, px_server_ip = sv_exit sv,
                              px_manager = None \<rparr>,
                        created (Some cid) @ [D_start cid])))))"

definition docker_CreateEx ::
  "docker_env \<Rightarrow> (string \<Rightarrow> bool) \<Rightarrow> (string \<Rightarrow> bool) \<Rightarrow> bool \<Rightarrow> docker_manager
     \<Rightarrow> (string + proxy) \<times> docker_call list \<times> docker_manager" where
  "docker_CreateEx e regions avoid some_avoided dm =
     (case ensureImage e dm of
        (Some err, dm) \<Rightarrow> (Inl (''VPN image unavailable: '' @ err), [], dm)
      | (None, dm) \<Rightarrow>
          (case SelectServer (de_list e) [] regions avoid some_avoided (dk_proton dm) of
             (Inl err, c) \<Rightarrow> (Inl (''failed to select server: '' @ err), [], dm\<lparr> dk_proton := c \<rparr>)
           | (Inr (lg, sv), c) \<Rightarrow>
               (case GetCertificate (de_cert e) (lg_name lg) (sv_entry sv) (sv_key sv) c of
                  (Inl err, c) \<Rightarrow> (Inl (''failed to get certificate: '' @ err), [], dm\<lparr> dk_proton := c \<rparr>)
                | (Inr cert, c) \<Rightarrow>
                    (case GetOrCreateKeyPair (de_key_fault e) (de_sha512 e) (de_x25519 e) (de_b64 e) c of
                       Inl err \<Rightarrow> (Inl (''failed to get wireguard keys: '' @ err), [], dm\<lparr> dk_proton := c \<rparr>)
                     | Inr (priv, _) \<Rightarrow>
                         let port = wrap32 (dk_next_port dm + 1);
                             dm = dm\<lparr> dk_proton := c, dk_next_port := port \<rparr>;
                             (r, cs) = start_container e (dk_cfg dm) port (wireguard priv cert) lg sv
                         in (r, cs, dm)))))"

text \<open>\<open>Remove\<close>, with a context that is not done: nothing for an empty identifier, otherwise the daemon's answer.\<close>

definition docker_Remove :: "string option \<Rightarrow> string \<Rightarrow> string option \<times> docker_call list" where
  "docker_Remove answer cid =
     (if cid = [] then (None, [])
      else (map_option (\<lambda>err. ''failed to remove container: '' @ err) answer, [D_remove cid]))"

text \<open>\<open>HealthCheck\<close>: through the proxy's address without its scheme, the address recorded when it is one.\<close>

definition docker_HealthCheck ::
  "(string \<Rightarrow> string \<Rightarrow> string + string) \<Rightarrow> (string \<Rightarrow> bool) \<Rightarrow> config \<Rightarrow> proxy \<Rightarrow> (string + bool) \<times> proxy" where
  "docker_HealthCheck probe is_ip cfg p =
     (let url = (if ProtonVPNIPCheckURL cfg = [] then ''https://icanhazip.com/'' else ProtonVPNIPCheckURL cfg)
      in case probe (trim_prefix (trim_prefix (px_addr p) ''socks5h://'') ''socks5://'') url of
           Inl err \<Rightarrow> (Inl err, p)
         | Inr body \<Rightarrow>
             let ip = trim_space body
             in if \<not> is_ip ip then (Inl (''invalid IP response: '' @ ip), p) else (Inr True, p\<lparr> px_ip := ip \<rparr>))"

text \<open>\<open>Exec\<close>: the outcome of the four daemon calls, the output both streams' and the exit code.\<close>

definition docker_Exec ::
  "(string + unit) \<Rightarrow> (string + unit) \<Rightarrow> (string + (string \<times> string)) \<Rightarrow> (string + int) \<Rightarrow> string list
     \<Rightarrow> string \<times> string option" where
  "docker_Exec create attach streams inspect args =
     (case create of
        Inl err \<Rightarrow> ([], Some (''failed to create exec: '' @ err))
      | Inr _ \<Rightarrow>
          (case attach of
             Inl err \<Rightarrow> ([], Some (''failed to attach to exec: '' @ err))
           | Inr _ \<Rightarrow>
               (case streams of
                  Inl err \<Rightarrow> ([], Some (''failed to read exec output: '' @ err))
                | Inr (out, err_out) \<Rightarrow>
                    (case inspect of
                       Inl err \<Rightarrow> ([], Some (''failed to inspect exec: '' @ err))
                     | Inr code \<Rightarrow>
                         (out @ err_out,
                          if code \<noteq> 0 then Some (''exec exited with code '' @ itoa code @ '' (command: '' @ join '' '' args @ '')'')
                          else None)))))"

end
