(* ===== verification/Docker_Laws.thy ===== *)
theory Docker_Laws
  imports Docker_Manager
begin

text \<open>
  What creating a container promises: nothing is left behind on failure unless the context
  is done, ports follow one another, and
  where the promise breaks: several accounts share their names, several containers their endpoint.
\<close>

section \<open>All or nothing\<close>

fun created_ids :: "docker_call list \<Rightarrow> string list" where
  "created_ids [] = []"
| "created_ids (D_create _ (Some cid) # cs) = cid # created_ids cs"
| "created_ids (_ # cs) = created_ids cs"

fun removed_ids :: "docker_call list \<Rightarrow> string list" where
  "removed_ids [] = []"
| "removed_ids (D_remove cid # cs) = cid # removed_ids cs"
| "removed_ids (_ # cs) = removed_ids cs"

definition left_behind :: "docker_call list \<Rightarrow> string list" where
  "left_behind cs = filter (\<lambda>cid. cid \<notin> set (removed_ids cs)) (created_ids cs)"




section \<open>Ports and names\<close>

lemma create_spec:
  assumes "docker_CreateEx e regions avoid some_avoided dm = (r, D_create spec cid # cs, u)"
  shows "dk_next_port u = wrap32 (dk_next_port dm + 1) \<and> cs_name spec = container_name (dk_next_port u)
    \<and> cs_port spec = dk_next_port u"
proof -
  have port: "dk_next_port v = dk_next_port dm" if "ensureImage e dm = (x, v)" for x v
    using that by (auto simp: ensureImage_def split: if_splits image_state.splits option.splits)
  show ?thesis
    using assms port
    by (auto simp: docker_CreateEx_def start_container_def container_of_def Let_def
        split: prod.splits option.splits sum.splits if_splits)
qed

text \<open>
  Accounts get in each other's way. Two managers built from the same configuration, whatever their
  accounts, ask for their first containers under the same name and the same host port, so the daemon
  cannot have both.
\<close>

theorem accounts_share_names:
  assumes "NewDockerManager e1 f1 n1 o1 i1 st1 cfg1 = (Inr dm1, t1)"
    and "NewDockerManager e2 f2 n2 o2 i2 st2 cfg2 = (Inr dm2, t2)"
    and "ProxyBasePort cfg2 = ProxyBasePort cfg1"
    and "docker_CreateEx d1 r1 a1 s1 dm1 = (q1, D_create x i # cs1, u1)"
    and "docker_CreateEx d2 r2 a2 s2 dm2 = (q2, D_create y j # cs2, u2)"
  shows "cs_name x = cs_name y \<and> cs_port x = cs_port y"
proof -
  have b: "dk_next_port dm1 = wrap32 (ProxyBasePort cfg1)" "dk_next_port dm2 = wrap32 (ProxyBasePort cfg1)"
    using assms(1-3) by (auto simp: NewDockerManager_def split: prod.splits option.splits)
  from create_spec [OF assms(4)] create_spec [OF assms(5)] b show ?thesis by metis
qed

section \<open>Endpoints\<close>

text \<open>
  Every container of an account dials the same server. While a certificate is in date, a
  container created for any other selected server carries that certificate's peer address and key in
  its WireGuard configuration, and reports the selected server all the same.
\<close>

theorem containers_share_endpoint:
  assumes "SelectServer (de_list e) [] regions avoid some_avoided (dk_proton dm) = (Inr (lg, sv), c)"
    and "dk_image_done dm" "pv_certificates (pc_store c) = cts @ [ct]"
    and "cv_fault (de_cert e) ''GetCertificate'' = None" "cv_now (de_cert e) < ct_expiration ct * Second"
    and "cv_now_refresh (de_cert e) < ct_refresh ct * Second"
    and "docker_CreateEx e regions avoid some_avoided dm = (Inr p, cs, u)"
  shows "px_server p = lg_name lg
    \<and> (\<exists>spec cid. hd cs = D_create spec cid \<and> ''WIREGUARD_ENDPOINT='' @ ct_peer_ip ct @ '':51820'' \<in> set (cs_env spec)
          \<and> ''WIREGUARD_SERVER_PUBLIC_KEY='' @ ct_peer_key ct \<in> set (cs_env spec))"
proof -
  have g: "GetCertificate (de_cert e) n i k c = (Inr ct, c)" for n i k
    using assms(3-6) by (simp add: GetCertificate_def GetCertificate_row_def row_or_def)
  have img: "ensureImage e dm = (None, dm)" using assms(2) by (simp add: ensureImage_def)
  from assms(1,7) g img obtain cfg port priv where
    "start_container e cfg port (wireguard priv ct) lg sv = (Inr p, cs)"
    by (auto simp: docker_CreateEx_def Let_def split: prod.splits sum.splits)
  then show ?thesis
    by (auto simp: start_container_def container_of_def wireguard_def Let_def split: sum.splits option.splits if_splits)
qed

section \<open>Limits\<close>

lemma scan_digits:
  assumes "rest = [] \<or> \<not> is_digit (hd rest)"
  shows "takeWhile is_digit (nat_digits n @ rest) = nat_digits n \<and> dropWhile is_digit (nat_digits n @ rest) = rest
    \<and> dropWhile is_space (nat_digits n @ rest) = nat_digits n @ rest
    \<and> hd (nat_digits n @ rest) \<noteq> CHR ''-'' \<and> hd (nat_digits n @ rest) \<noteq> CHR ''+''"
proof -
  obtain x xs where x: "nat_digits n = x # xs" by (cases "nat_digits n") auto
  then have "is_digit x" using hd_nat_digits [of n] by simp
  then have h: "\<not> is_space x" "x \<noteq> CHR ''-''" "x \<noteq> CHR ''+''" by (auto simp: is_digit_def is_space_def)
  have "takeWhile is_digit (ds @ rest) = ds \<and> dropWhile is_digit (ds @ rest) = rest" if "list_all is_digit ds" for ds
    using that assms by (induction ds) (cases rest; auto)+
  with h x nat_digits_all_digits [of n] show ?thesis by (simp add: x)
qed

lemma scan_number:
  assumes "0 \<le> v" "in_int64 v" "rest = [] \<or> \<not> is_digit (hd rest)"
  shows "scan_int_word (itoa v @ rest)
    = (let w = takeWhile (\<lambda>c. \<not> is_space c) (dropWhile is_space rest) in if w = [] then None else Some (v, w))"
proof -
  have i: "itoa v = nat_digits (nat v)" using assms(1) by (simp add: itoa_def)
  from scan_digits [OF assms(3), of "nat v"] assms(1,2) show ?thesis
    by (simp add: scan_int_word_def i in_range_def Let_def del: hd_append2)
qed

text \<open>
  A memory limit is its number times its unit, in 64 bits: exact as long as the product fits, wrapped
  around beyond that. A number without a unit is no limit at all.
\<close>

theorem memory_limit_value:
  assumes "0 \<le> v" "in_int64 v"
  shows "parseMemoryLimit (itoa v @ ''K'') = wrap64 (v * 1024)
    \<and> parseMemoryLimit (itoa v @ ''m'') = wrap64 (v * 1024 ^ 2)
    \<and> (parseMemoryLimit (itoa v @ ''G'') = v * 1024 ^ 3 \<longleftrightarrow> v < 2 ^ 33)
    \<and> parseMemoryLimit (itoa v) = 0"
proof -
  have u: "to_upper ''K'' = ''K''" "to_upper ''m'' = ''M''" "to_upper ''G'' = ''G''" by code_simp+
  have g: "wrap64 (v * 1024 ^ 3) = v * 1024 ^ 3 \<longleftrightarrow> v < 2 ^ 33"
  proof
    assume "v < 2 ^ 33"
    with assms(1) have "in_int64 (v * 1024 ^ 3)" by simp
    then show "wrap64 (v * 1024 ^ 3) = v * 1024 ^ 3" by (rule wrap64_id)
  next
    assume "wrap64 (v * 1024 ^ 3) = v * 1024 ^ 3"
    with wrap64_range [of "v * 1024 ^ 3"] show "v < 2 ^ 33" by simp
  qed
  have s: "scan_int_word (itoa v @ ''K'') = Some (v, ''K'')" "scan_int_word (itoa v @ ''m'') = Some (v, ''m'')"
    "scan_int_word (itoa v @ ''G'') = Some (v, ''G'')" "scan_int_word (itoa v) = None"
    using scan_number [OF assms, of "''K''"] scan_number [OF assms, of "''m''"] scan_number [OF assms, of "''G''"]
      scan_number [OF assms, of "[]"] by (simp_all add: is_digit_def is_space_def)
  have "parseMemoryLimit (itoa v @ ''G'') = wrap64 (v * 1024 ^ 3)"
    using s(3) u(3) by (simp add: parseMemoryLimit_def power3_eq_cube mult.commute)
  with g s u show ?thesis
    by (simp add: parseMemoryLimit_def power2_eq_square mult.commute)
qed

section \<open>Concrete managers\<close>

theorem memory_limit_value_witness:
  "parseMemoryLimit (itoa 64) = 0 \<and> parseMemoryLimit (itoa 64 @ ''m'') = wrap64 67108864"
  using memory_limit_value [of 64] by simp

definition demo_config :: config where
  "demo_config = DefaultConfig\<lparr> ProxyBasePort := 31000 \<rparr>"

definition demo_logicals :: "logical list" where
  "demo_logicals = [\<lparr> lg_name = ''CH#1'', lg_exit = ''CH'', lg_score = 1, lg_load = 10, lg_status = 0,
     lg_servers = [\<lparr> sv_entry = ''1.1.1.1'', sv_exit = ''1.1.1.2'', sv_key = ''k1'', sv_status = 0 \<rparr>] \<rparr>,
     \<lparr> lg_name = ''DE#2'', lg_exit = ''DE'', lg_score = 2, lg_load = 10, lg_status = 0,
     lg_servers = [\<lparr> sv_entry = ''2.2.2.2'', sv_exit = ''2.2.2.3'', sv_key = ''k2'', sv_status = 0 \<rparr>] \<rparr>]"

definition demo_list_env :: list_env where
  "demo_list_env = \<lparr> le_session = demo_session_env (\<lambda>_. None), le_now = 0, le_now_store = 0,
     le_http = (\<lambda>_. Inl ''down''), le_decode = (\<lambda>_. Inl ''no''), le_fault = (\<lambda>_. None) \<rparr>"

definition demo_docker_env :: docker_env where
  "demo_docker_env = \<lparr> de_inspect = Image_present, de_pull = None, de_list = demo_list_env, de_cert = demo_cert_env,
     de_key_fault = None, de_sha512 = (\<lambda>_. replicate 64 1), de_x25519 = (\<lambda>_. Inr [1]), de_b64 = (\<lambda>_. ''b64''),
     de_scan_float = (\<lambda>_. Some 1), de_create = (\<lambda>_. Inr ''0123456789abcdef''), de_start = None,
     de_ready = Some ''9.9.9.9'', de_done = None, de_ctx_err = ''context canceled'', de_now = 0, de_now_check = 0 \<rparr>"

text \<open>A provider account with a certificate for the first server, a key, a session and a list of two servers.\<close>

definition demo_account :: proton_store where
  "demo_account = \<lparr> pv_credentials = None,
     pv_session = Some \<lparr> se_uid = ''u'', se_user = ''u'', se_cookies = [], se_expires = 1000 * Hour \<rparr>,
     pv_certificates = [demo_cert], pv_servers = Some (demo_logicals, 0), pv_wireguard = None,
     pv_ed25519 = Some (replicate 64 1) \<rparr>"

definition demo_manager :: docker_manager where
  "demo_manager = \<lparr> dk_cfg = demo_config, dk_proton = NewProton demo_account ''me'' ''pw'', dk_next_port = 31000,
     dk_image_done = True \<rparr>"

lemma demo_select:
  "SelectServer demo_list_env [] (\<lambda>_. False) (\<lambda>_. False) False (NewProton demo_account ''me'' ''pw'')
   = (Inr (demo_logicals ! 1, hd (lg_servers (demo_logicals ! 1))), NewProton demo_account ''me'' ''pw'')"
  by (simp add: SelectServer_def FetchServerList_def GetServerList_def row_or_def demo_list_env_def NewProton_def
      demo_account_def select_from_def candidate_servers_def usable_logical_def usable_server_def pick_best_def better_def
      demo_logicals_def time_sub_def duration_defs Let_def)

lemma demo_certificate:
  "GetCertificate demo_cert_env n i k (NewProton demo_account u p) = (Inr demo_cert, NewProton demo_account u p)"
  by (simp add: GetCertificate_def GetCertificate_row_def row_or_def demo_cert_env_def NewProton_def demo_account_def
      demo_cert_def duration_defs)

lemma demo_key:
  "\<exists>x. GetOrCreateKeyPair None (\<lambda>_. replicate 64 1) (\<lambda>_. Inr [1]) (\<lambda>_. ''b64'') (NewProton demo_account ''me'' ''pw'')
     = Inr (''b64'', x)"
  by (simp add: GetOrCreateKeyPair_def GetEd25519Key_def row_or_def NewProton_def demo_account_def
      ed25519PrivKeyToCurve25519_def Let_def)

lemma demo_create:
  "\<exists>p spec. docker_CreateEx demo_docker_env (\<lambda>_. False) (\<lambda>_. False) False demo_manager
   = (Inr p, [D_create spec (Some ''0123456789abcdef''), D_start ''0123456789abcdef''],
      demo_manager\<lparr> dk_next_port := 31001 \<rparr>)"
proof -
  obtain x where k: "GetOrCreateKeyPair None (\<lambda>_. replicate 64 1) (\<lambda>_. Inr [1]) (\<lambda>_. ''b64'')
      (NewProton demo_account ''me'' ''pw'') = Inr (''b64'', x)" using demo_key by blast
  have w: "wrap32 31001 = 31001" by (simp add: wrap32_def)
  show ?thesis
    using demo_select demo_certificate k w
    by (simp add: docker_CreateEx_def ensureImage_def demo_manager_def demo_docker_env_def start_container_def ctx_done_def wait_end_def Let_def)
qed

theorem containers_share_endpoint_witness:
  "\<exists>spec cid rest. fst (snd (docker_CreateEx demo_docker_env (\<lambda>_. False) (\<lambda>_. False) False demo_manager))
      = D_create spec cid # rest
    \<and> ''WIREGUARD_ENDPOINT=1.1.1.1:51820'' \<in> set (cs_env spec)
    \<and> px_server (projr (fst (docker_CreateEx demo_docker_env (\<lambda>_. False) (\<lambda>_. False) False demo_manager))) = ''DE#2''"
proof -
  obtain p spec where c: "docker_CreateEx demo_docker_env (\<lambda>_. False) (\<lambda>_. False) False demo_manager
     = (Inr p, [D_create spec (Some ''0123456789abcdef''), D_start ''0123456789abcdef''],
        demo_manager\<lparr> dk_next_port := 31001 \<rparr>)"
    using demo_create by blast
  have s: "SelectServer (de_list demo_docker_env) [] (\<lambda>_. False) (\<lambda>_. False) False (dk_proton demo_manager)
     = (Inr (demo_logicals ! 1, hd (lg_servers (demo_logicals ! 1))), NewProton demo_account ''me'' ''pw'')"
    using demo_select by (simp add: demo_docker_env_def demo_manager_def)
  have "px_server p = lg_name (demo_logicals ! 1)
    \<and> (\<exists>sp cid. hd [D_create spec (Some ''0123456789abcdef''), D_start ''0123456789abcdef''] = D_create sp cid
          \<and> ''WIREGUARD_ENDPOINT='' @ ct_peer_ip demo_cert @ '':51820'' \<in> set (cs_env sp)
          \<and> ''WIREGUARD_SERVER_PUBLIC_KEY='' @ ct_peer_key demo_cert \<in> set (cs_env sp))"
    by (rule containers_share_endpoint [OF s _ _ _ _ _ c, of "[]"])
       (simp_all add: demo_manager_def demo_docker_env_def NewProton_def demo_account_def demo_cert_env_def
          demo_cert_def duration_defs)
  with c show ?thesis by (simp add: demo_logicals_def demo_cert_def)
qed

text \<open>
  A creation cancelled while it waits leaves its container running, although it reports a failure and
  the daemon would have removed it.
\<close>

theorem cancelled_creation_leaves_container:
  "\<exists>err cs. docker_CreateEx (demo_docker_env\<lparr> de_done := Some At_wait \<rparr>) (\<lambda>_. False) (\<lambda>_. False) False demo_manager
     = (Inl err, cs, demo_manager\<lparr> dk_next_port := 31001 \<rparr>)
   \<and> D_start ''0123456789abcdef'' \<in> set cs \<and> left_behind cs = [''0123456789abcdef'']"
proof -
  obtain x where k: "GetOrCreateKeyPair None (\<lambda>_. replicate 64 1) (\<lambda>_. Inr [1]) (\<lambda>_. ''b64'')
      (NewProton demo_account ''me'' ''pw'') = Inr (''b64'', x)"
    using demo_key by blast
  have w: "wrap32 31001 = 31001" by (simp add: wrap32_def)
  show ?thesis
    using demo_select demo_certificate k w
    by (simp add: docker_CreateEx_def ensureImage_def demo_manager_def demo_docker_env_def start_container_def
        ctx_done_def wait_end_def removal_def left_behind_def Let_def)
qed

text \<open>A second account with a store of its own; the daemon refuses its container.\<close>

definition demo_second_env :: docker_env where
  "demo_second_env = demo_docker_env\<lparr> de_create := (\<lambda>_. Inl ''name in use'') \<rparr>"

lemma demo_fresh_manager:
  "NewDockerManager (demo_session_env (\<lambda>_. None)) (\<lambda>_. None) 0 None None demo_account
     (demo_config\<lparr> ProtonVPNSessionCookies := [], ProtonVPNUsername := ''me'', ProtonVPNPassword := ''pw'' \<rparr>)
   = (Inr (demo_manager\<lparr> dk_cfg := demo_config\<lparr> ProtonVPNSessionCookies := [], ProtonVPNUsername := ''me'',
        ProtonVPNPassword := ''pw'' \<rparr>, dk_image_done := False \<rparr>), [])"
  by (simp add: NewDockerManager_def init_session_def EnsureSession_def NewProton_def demo_account_def demo_session_env_def
      GetSession_def row_or_def demo_manager_def demo_config_def cleanupOrphans_def wrap32_def duration_defs Let_def)

theorem accounts_share_names_witness:
  "\<exists>dm x y i j cs ds. fst (NewDockerManager (demo_session_env (\<lambda>_. None)) (\<lambda>_. None) 0 None None demo_account
       (demo_config\<lparr> ProtonVPNSessionCookies := [], ProtonVPNUsername := ''me'', ProtonVPNPassword := ''pw'' \<rparr>)) = Inr dm
    \<and> fst (snd (docker_CreateEx demo_docker_env (\<lambda>_. False) (\<lambda>_. False) False dm)) = D_create x i # cs
    \<and> fst (snd (docker_CreateEx demo_second_env (\<lambda>_. False) (\<lambda>_. False) False dm)) = D_create y j # ds
    \<and> cs_name x = cs_name y"
proof -
  let ?cfg = "demo_config\<lparr> ProtonVPNSessionCookies := [], ProtonVPNUsername := ''me'', ProtonVPNPassword := ''pw'' \<rparr>"
  let ?dm = "demo_manager\<lparr> dk_cfg := ?cfg, dk_image_done := False \<rparr>"
  have c: "\<exists>q x i cs u. docker_CreateEx e (\<lambda>_. False) (\<lambda>_. False) False ?dm = (q, D_create x i # cs, u)"
    if "e = demo_docker_env \<or> e = demo_second_env" for e
    using that demo_select demo_certificate
    by (auto simp: docker_CreateEx_def ensureImage_def demo_manager_def demo_docker_env_def demo_second_env_def
        start_container_def ctx_done_def wait_end_def GetOrCreateKeyPair_def GetEd25519Key_def row_or_def NewProton_def demo_account_def
        ed25519PrivKeyToCurve25519_def Let_def)
  obtain q1 x i cs u1 where d1: "docker_CreateEx demo_docker_env (\<lambda>_. False) (\<lambda>_. False) False ?dm = (q1, D_create x i # cs, u1)"
    using c [of demo_docker_env] by blast
  obtain q2 y j ds u2 where d2: "docker_CreateEx demo_second_env (\<lambda>_. False) (\<lambda>_. False) False ?dm = (q2, D_create y j # ds, u2)"
    using c [of demo_second_env] by blast
  have "cs_name x = cs_name y"
    using accounts_share_names [OF demo_fresh_manager demo_fresh_manager refl d1 d2] by simp
  with d1 d2 demo_fresh_manager show ?thesis by fastforce
qed

end
