(* ===== verification/Duration_Text.thy ===== *)
theory Duration_Text
  imports Go_Duration
begin

text \<open>
  \<open>time.Duration.String\<close> of Go's standard library, in which the configuration store keeps every
  duration, and the proof that \<open>time.ParseDuration\<close> reads each of them back exactly, the float64
  arithmetic of its fractions included.
\<close>

section \<open>Printing\<close>

definition digit_of :: "nat \<Rightarrow> char" where
  "digit_of n = char_of (48 + n mod 10)"

text \<open>\<open>fmtFrac\<close>: the last \<open>k\<close> digits behind a point, trailing zeros dropped, in front of \<open>acc\<close>.\<close>

fun fmt_frac :: "nat \<Rightarrow> bool \<Rightarrow> string \<Rightarrow> nat \<Rightarrow> string \<times> nat" where
  "fmt_frac 0 pr acc v = (if pr then CHR ''.'' # acc else acc, v)"
| "fmt_frac (Suc k) pr acc v =
     (let pr = (pr \<or> v mod 10 \<noteq> 0)
      in fmt_frac k pr (if pr then digit_of v # acc else acc) (v div 10))"

definition duration_text :: "nat \<Rightarrow> string" where
  "duration_text u =
     (if u = 0 then ''0s''
      else if u < 1000 then nat_digits u @ ''ns''
      else if u < 1000000 then
        (case fmt_frac 3 False [CHR 0xC2, CHR 0xB5, CHR ''s''] u of (w, u) \<Rightarrow> nat_digits u @ w)
      else if u < 1000000000 then (case fmt_frac 6 False ''ms'' u of (w, u) \<Rightarrow> nat_digits u @ w)
      else
        (case fmt_frac 9 False ''s'' u of
           (w, u) \<Rightarrow>
             let w = nat_digits (u mod 60) @ w; u = u div 60
             in if u > 0 then
                  (let w = nat_digits (u mod 60) @ ''m'' @ w; u = u div 60
                   in if u > 0 then nat_digits u @ ''h'' @ w else w)
                else w))"

definition duration_string :: "duration \<Rightarrow> string" where
  "duration_string d = (if d < 0 then CHR ''-'' # duration_text (nat (- d)) else duration_text (nat d))"

section \<open>What was printed\<close>

fun pad_digits :: "nat \<Rightarrow> nat \<Rightarrow> string" where
  "pad_digits 0 n = []"
| "pad_digits (Suc k) n = pad_digits k (n div 10) @ [digit_of n]"

lemma digit_of_digit [simp]: "is_digit (digit_of n)" "digit_val (digit_of n) = n mod 10"
  by (simp_all add: digit_of_def)

lemma length_pad_digits [simp]: "length (pad_digits k n) = k"
  by (induction k n rule: pad_digits.induct) simp_all

lemma pad_digits_digits: "list_all is_digit (pad_digits k n)"
  by (induction k n rule: pad_digits.induct) simp_all

lemma digits_val_pad_digits: "n < 10 ^ k \<Longrightarrow> digits_val acc (pad_digits k n) = Some (acc * 10 ^ k + n)"
proof (induction k n arbitrary: acc rule: pad_digits.induct)
  case (1 n)
  then show ?case by simp
next
  case (2 k n)
  then have "n div 10 < 10 ^ k" by (simp add: less_mult_imp_div_less mult.commute)
  with 2 show ?case by (simp add: digits_val_append algebra_simps)
qed

lemma fmt_frac_on: "fmt_frac k True acc v = (CHR ''.'' # pad_digits k v @ acc, v div 10 ^ k)"
  by (induction k arbitrary: acc v) (simp_all add: Let_def div_mult2_eq)

lemma fmt_frac_off:
  "(v mod 10 ^ k = 0 \<and> fmt_frac k False acc v = (acc, v div 10 ^ k))
   \<or> (\<exists>j m. 0 < j \<and> j \<le> k \<and> 0 < m \<and> m < 10 ^ j \<and> v mod 10 ^ k = m * 10 ^ (k - j)
        \<and> fmt_frac k False acc v = (CHR ''.'' # pad_digits j m @ acc, v div 10 ^ k))"
proof (induction k arbitrary: v)
  case 0
  then show ?case by simp
next
  case (Suc k)
  have split: "v mod 10 ^ Suc k = 10 * (v div 10 mod 10 ^ k) + v mod 10"
    by (simp add: mod_mult2_eq)
  show ?case
  proof (cases "v mod 10 = 0")
    case True
    then have f: "fmt_frac (Suc k) False acc v = fmt_frac k False acc (v div 10)"
      and d: "v div 10 div 10 ^ k = v div 10 ^ Suc k" by (simp_all add: Let_def div_mult2_eq)
    from Suc.IH [of "v div 10"] show ?thesis
    proof
      assume "v div 10 mod 10 ^ k = 0 \<and> fmt_frac k False acc (v div 10) = (acc, v div 10 div 10 ^ k)"
      with f d split True show ?thesis by simp
    next
      assume "\<exists>j m. 0 < j \<and> j \<le> k \<and> 0 < m \<and> m < 10 ^ j \<and> v div 10 mod 10 ^ k = m * 10 ^ (k - j)
        \<and> fmt_frac k False acc (v div 10) = (CHR ''.'' # pad_digits j m @ acc, v div 10 div 10 ^ k)"
      then obtain j m where jm: "0 < j" "j \<le> k" "0 < m" "m < 10 ^ j" "v div 10 mod 10 ^ k = m * 10 ^ (k - j)"
        "fmt_frac k False acc (v div 10) = (CHR ''.'' # pad_digits j m @ acc, v div 10 div 10 ^ k)" by blast
      then have "v mod 10 ^ Suc k = m * 10 ^ (Suc k - j)" using split True by (simp add: Suc_diff_le)
      with jm f d show ?thesis by (metis le_SucI)
    qed
  next
    case False
    then have f: "fmt_frac (Suc k) False acc v = (CHR ''.'' # pad_digits k (v div 10) @ digit_of v # acc, v div 10 ^ Suc k)"
      by (simp add: Let_def fmt_frac_on div_mult2_eq)
    have m: "pad_digits k (v div 10) @ digit_of v # acc = pad_digits (Suc k) (v mod 10 ^ Suc k) @ acc"
    proof -
      have p: "pad_digits k (n mod 10 ^ k) = pad_digits k n" for n
        by (induction k arbitrary: n) (simp_all add: digit_of_def mod_mult2_eq)
      have "v mod 10 ^ Suc k div 10 = v div 10 mod 10 ^ k" "digit_of (v mod 10 ^ Suc k) = digit_of v"
        using split by (simp_all add: digit_of_def)
      then show ?thesis using p [of "v div 10"] by simp
    qed
    have "v mod 10 ^ Suc k < 10 ^ Suc k" by simp
    moreover have "0 < v mod 10 ^ Suc k" using split False by simp
    ultimately have "v mod 10 ^ Suc k < 10 ^ Suc k" "0 < v mod 10 ^ Suc k" .
    with f m show ?thesis
      by (intro disjI2 exI [of _ "Suc k"] exI [of _ "v mod 10 ^ Suc k"]) simp
  qed
qed

section \<open>Reading it back\<close>

lemma leading_fraction_digits:
  "digits_val acc ds = Some n \<Longrightarrow> n \<le> 10 ^ 18 \<Longrightarrow> \<not> is_digit c \<Longrightarrow>
     leading_fraction (int acc) sc False (ds @ c # r) = (int n, sc * 10 ^ length ds, c # r)"
proof (induction ds arbitrary: acc sc)
  case Nil
  then show ?case by simp
next
  case (Cons d ds)
  then have d: "is_digit d" and dv: "digits_val (10 * acc + digit_val d) ds = Some n"
    by (auto split: if_splits)
  from digits_val_ge [OF dv] Cons.prems(2) have "10 * acc + digit_val d \<le> 1000000000000000000" by simp
  then have b: "int acc * 10 + int (digit_val d) \<le> 1000000000000000000" by linarith
  then have "\<not> 922337203685477580 < int acc" "\<not> 9223372036854775808 < int acc * 10 + int (digit_val d)" by linarith+
  with Cons.IH [OF dv Cons.prems(2,3)] d show ?case by (simp add: Let_def algebra_simps)
qed

text \<open>A unit followed by another term or nothing.\<close>

definition unit_then :: "string \<Rightarrow> string \<Rightarrow> bool" where
  "unit_then u rest \<longleftrightarrow> u \<noteq> [] \<and> list_all (\<lambda>c. \<not> (c = CHR ''.'' \<or> is_digit c)) u
     \<and> (rest = [] \<or> is_digit (hd rest))"

lemma unit_then_take:
  assumes "unit_then u rest"
  shows "takeWhile (\<lambda>c. \<not> (c = CHR ''.'' \<or> is_digit c)) (u @ rest) = u \<and> drop (length u) (u @ rest) = rest"
proof -
  have "takeWhile (\<lambda>c. \<not> (c = CHR ''.'' \<or> is_digit c)) rest = []"
    using assms by (cases rest) (auto simp: unit_then_def)
  with assms show ?thesis by (simp add: unit_then_def list_all_iff takeWhile_append2)
qed

lemma read_whole:
  assumes "unit_then u rest" "unit_map u = Some unit" "int n * unit \<le> 2 ^ 63" "0 < unit"
  shows "parse_term (nat_digits n @ u @ rest) = Some (int n * unit, rest)"
proof -
  obtain c w where u: "u = c # w" "\<not> is_digit c" "c \<noteq> CHR ''.''" using assms(1) by (cases u) (auto simp: unit_then_def)
  have "int n * 1 \<le> int n * unit" using assms(4) by (intro mult_left_mono) simp_all
  with assms(3) have n: "int n \<le> 2 ^ 63" by linarith
  have li: "leading_int 0 (nat_digits n @ u @ rest) = Some (int n, u @ rest)"
    using leading_int_digits [OF digits_val_nat_digits n u(2), of "w @ rest"] u by simp
  have "int n * unit div unit \<le> 2 ^ 63 div unit" using assms(3,4) by (intro zdiv_mono1)
  then have "int n \<le> 2 ^ 63 div unit" using assms(4) by simp
  then have v: "\<not> 9223372036854775808 div unit < int n" by simp
  define s where "s = nat_digits n @ u @ rest"
  have s: "s \<noteq> []" "is_digit (hd s)" "length (u @ rest) \<noteq> length s"
    using hd_nat_digits [of n] by (simp_all add: s_def)
  have r: "u @ rest \<noteq> []" "hd (u @ rest) \<noteq> CHR ''.''" using u by simp_all
  have "\<not> 9223372036854775808 < int n * unit" using assms(3) by simp
  with s r li [folded s_def] unit_then_take [OF assms(1)] v assms(2) u(1)
  show ?thesis unfolding s_def [symmetric] parse_term_def Let_def by simp
qed

lemma parse_term_point:
  assumes "s \<noteq> []" "is_digit (hd s)" "leading_int 0 s = Some (v, CHR ''.'' # t)" "Suc (length t) \<noteq> length s"
    and "leading_fraction 0 1 False t = (f, sc, u @ rest)" "unit_then u rest" "length (u @ rest) \<noteq> length t"
    and "unit_map u = Some unit" "\<not> 2 ^ 63 div unit < v" "0 < f"
    and "trunc (rnd (of_int f * rnd (of_int unit / of_int sc))) = x" "\<not> 2 ^ 63 < v * unit + x"
  shows "parse_term s = Some (v * unit + x, rest)"
proof -
  have "u \<noteq> []" using assms(6) by (simp add: unit_then_def)
  then show ?thesis
    using assms unit_then_take [OF assms(6)] unfolding parse_term_def Let_def by simp
qed

lemma read_fraction:
  assumes "unit_then u rest" "unit_map u = Some (10 ^ p)" "0 < j" "j \<le> p" "p \<le> 9" "0 < m" "m < 10 ^ j"
    and "int n * 10 ^ p + int m * 10 ^ (p - j) \<le> 2 ^ 63"
  shows "parse_term (nat_digits n @ CHR ''.'' # pad_digits j m @ u @ rest)
    = Some (int n * 10 ^ p + int m * 10 ^ (p - j), rest)"
proof -
  obtain c w where u: "u = c # w" "\<not> is_digit c" "c \<noteq> CHR ''.''" using assms(1) by (cases u) (auto simp: unit_then_def)
  have "0 \<le> int m * 10 ^ (p - j)" by simp
  with assms(8) have nu: "int n * 10 ^ p \<le> 2 ^ 63" by linarith
  have "int n * 1 \<le> int n * 10 ^ p" by (intro mult_left_mono) simp_all
  with nu have n: "int n \<le> 2 ^ 63" by linarith
  have "int n * 10 ^ p div 10 ^ p \<le> 2 ^ 63 div 10 ^ p" using nu by (intro zdiv_mono1) simp_all
  then have v: "\<not> 9223372036854775808 div 10 ^ p < int n" by simp
  define s where "s = nat_digits n @ CHR ''.'' # pad_digits j m @ u @ rest"
  have li: "leading_int 0 s = Some (int n, CHR ''.'' # pad_digits j m @ u @ rest)"
    using leading_int_digits [OF digits_val_nat_digits n, of "CHR ''.''"] by (simp add: s_def is_digit_def)
  have "m < 10 ^ 9" using assms(4,5,7) power_increasing [of j 9 "10 :: nat"] by linarith
  then have m: "m \<le> 10 ^ 18" by simp
  have lf: "leading_fraction 0 1 False (pad_digits j m @ u @ rest) = (int m, 10 ^ j, u @ rest)"
    using leading_fraction_digits [OF digits_val_pad_digits [OF assms(7), of 0], of c 1 "w @ rest"] m u by simp
  have s: "s \<noteq> []" "is_digit (hd s)" "length (CHR ''.'' # pad_digits j m @ u @ rest) \<noteq> length s"
    using hd_nat_digits [of n] by (simp_all add: s_def)
  have post: "length (u @ rest) \<noteq> length (pad_digits j m @ u @ rest)" using assms(3) by simp
  define q where "q = p - j"
  have sc: "rnd (of_int (10 ^ p) / of_int (10 ^ j)) = of_int (10 ^ q)"
  proof -
    have "p = j + q" using assms(4) by (simp add: q_def)
    then have "(of_int (10 ^ p) / of_int (10 ^ j) :: rat) = of_int (10 ^ q)" by (simp add: power_add)
    moreover have "(10 :: int) ^ q \<le> 10 ^ 9" using assms(5) by (intro power_increasing) (auto simp: q_def)
    then have "\<bar>(10 :: int) ^ q\<bar> \<le> 2 ^ 53" by simp
    ultimately show ?thesis using rnd_of_int [of "10 ^ q"] by simp
  qed
  have "int m * 10 ^ q < 10 ^ j * 10 ^ q" using assms(7) by (intro mult_strict_right_mono) (simp_all flip: of_nat_less_iff)
  also have "\<dots> = 10 ^ p" using assms(4) by (simp add: q_def flip: power_add)
  also have "\<dots> \<le> 10 ^ 9" using assms(5) by (intro power_increasing) simp_all
  finally have "\<bar>int m * 10 ^ q\<bar> \<le> 2 ^ 53" by simp
  then have "rnd (of_int (int m * 10 ^ q)) = of_int (int m * 10 ^ q)" by (rule rnd_of_int)
  then have fr: "trunc (rnd (of_int (int m) * of_int (10 ^ q))) = int m * 10 ^ q"
    by (metis of_int_mult trunc_of_int)
  have tot: "\<not> 2 ^ 63 < int n * 10 ^ p + int m * 10 ^ q" using assms(8) by (simp add: q_def)
  have h: "Suc (length (pad_digits j m @ u @ rest)) \<noteq> length s" "\<not> 2 ^ 63 div 10 ^ p < int n" "0 < int m"
    using s v assms(6) by simp_all
  have x: "trunc (rnd (of_int (int m) * rnd (of_int (10 ^ p) / of_int (10 ^ j)))) = int m * 10 ^ q"
    by (simp only: sc fr)
  show ?thesis
    unfolding s_def [symmetric] q_def [symmetric]
    by (rule parse_term_point [OF s(1,2) li h(1) lf assms(1) post assms(2) h(2,3) x tot])
qed

lemma read_value:
  assumes "unit_then u rest" "unit_map u = Some (10 ^ p)" "0 < p" "p \<le> 9" "int v \<le> 2 ^ 63"
  shows "parse_term (nat_digits (v div 10 ^ p) @ fst (fmt_frac p False (u @ rest) v)) = Some (int v, rest)"
proof -
  have sum: "int (v div 10 ^ p) * 10 ^ p + int (v mod 10 ^ p) = int v"
  proof -
    have "int (v div 10 ^ p * 10 ^ p + v mod 10 ^ p) = int v" by (simp only: div_mult_mod_eq)
    then show ?thesis by (simp only: of_nat_add of_nat_mult of_nat_power of_nat_numeral)
  qed
  from fmt_frac_off [of v p "u @ rest"] show ?thesis
  proof
    assume "v mod 10 ^ p = 0 \<and> fmt_frac p False (u @ rest) v = (u @ rest, v div 10 ^ p)"
    with sum assms read_whole [OF assms(1,2), of "v div 10 ^ p"] show ?thesis by simp
  next
    assume "\<exists>j m. 0 < j \<and> j \<le> p \<and> 0 < m \<and> m < 10 ^ j \<and> v mod 10 ^ p = m * 10 ^ (p - j)
        \<and> fmt_frac p False (u @ rest) v = (CHR ''.'' # pad_digits j m @ u @ rest, v div 10 ^ p)"
    then obtain j m where jm: "0 < j" "j \<le> p" "0 < m" "m < 10 ^ j" "v mod 10 ^ p = m * 10 ^ (p - j)"
      "fmt_frac p False (u @ rest) v = (CHR ''.'' # pad_digits j m @ u @ rest, v div 10 ^ p)" by blast
    with read_fraction [OF assms(1,2) jm(1,2) assms(4) jm(3,4), of "v div 10 ^ p"] sum assms(5)
    show ?thesis by simp
  qed
qed

lemma fmt_frac_value: "snd (fmt_frac k pr acc v) = v div 10 ^ k"
  by (induction k arbitrary: pr acc v) (simp_all add: Let_def div_mult2_eq)

lemma fmt_frac_mod: "v mod 10 ^ k = w mod 10 ^ k \<Longrightarrow> fst (fmt_frac k pr acc v) = fst (fmt_frac k pr acc w)"
proof (induction k arbitrary: pr acc v w)
  case 0
  then show ?case by simp
next
  case (Suc k)
  have "n mod 10 ^ Suc k mod 10 = n mod 10" "n mod 10 ^ Suc k div 10 = n div 10 mod 10 ^ k" for n :: nat
    by (simp_all add: mod_mult2_eq)
  with Suc.prems have "v mod 10 = w mod 10" "v div 10 mod 10 ^ k = w div 10 mod 10 ^ k" by metis+
  then show ?case using Suc.IH [of "v div 10" "w div 10"] by (simp add: Let_def digit_of_def)
qed

lemma parse_terms_step:
  "parse_term s = Some (v, r) \<Longrightarrow> 0 \<le> d + v \<Longrightarrow> d + v \<le> 2 ^ 63 \<Longrightarrow> parse_terms d s = parse_terms (d + v) r"
  by (subst parse_terms.simps) (auto simp: Let_def parse_term_def)

lemma parse_terms_Nil [simp]: "parse_terms d [] = Some d"
  by (simp add: parse_terms.simps)

lemma units_then:
  "unit_then ''s'' []" "unit_then ''ms'' []" "unit_then ''ns'' []" "unit_then [CHR 0xC2, CHR 0xB5, CHR ''s''] []"
  "unit_then ''m'' (nat_digits n @ w)" "unit_then ''h'' (nat_digits n @ w)"
  using hd_nat_digits [of n] by (simp_all add: unit_then_def is_digit_def)

lemma unit_map_units:
  "unit_map ''s'' = Some (10 ^ 9)" "unit_map ''ms'' = Some (10 ^ 6)" "unit_map [CHR 0xC2, CHR 0xB5, CHR ''s''] = Some (10 ^ 3)"
  "unit_map ''ns'' = Some 1" "unit_map ''m'' = Some (60 * 10 ^ 9)" "unit_map ''h'' = Some (3600 * 10 ^ 9)"
  by (simp_all add: unit_map_def duration_defs)

lemma small_text:
  assumes "unit_then u []" "unit_map u = Some (10 ^ p)" "0 < p" "p \<le> 9" "int v \<le> 2 ^ 63"
  shows "parse_terms 0 (case fmt_frac p False u v of (w, n) \<Rightarrow> nat_digits n @ w) = Some (int v)"
proof -
  have "(case fmt_frac p False u v of (w, n) \<Rightarrow> nat_digits n @ w)
      = nat_digits (v div 10 ^ p) @ fst (fmt_frac p False (u @ []) v)"
    using fmt_frac_value [of p False u v] by (cases "fmt_frac p False u v") simp
  then show ?thesis using parse_terms_step [OF read_value [OF assms], of 0] assms(5) by simp
qed

lemma long_text:
  assumes "int u \<le> 2 ^ 63" "1000000000 \<le> u"
  shows "parse_terms 0 (duration_text u) = Some (int u)"
proof -
  define s where "s = u div 10 ^ 9"
  define w where "w = fst (fmt_frac 9 False ''s'' u)"
  define v where "v = u mod (60 * 10 ^ 9)"
  define secs where "secs = nat_digits (s mod 60) @ w"
  have v1: "v div 10 ^ 9 = s mod 60" "v mod 10 ^ 9 = u mod 10 ^ 9"
    by (simp_all add: v_def s_def mod_mult2_eq [of u "10 ^ 9" 60, simplified])
  have "s div 60 = u div (60 * 10 ^ 9)" by (simp add: s_def div_mult2_eq [symmetric])
  then have e: "u = s div 60 * (60 * 10 ^ 9) + v" unfolding v_def by (simp only: div_mult_mod_eq)
  note u = arg_cong [OF e, of int, unfolded of_nat_add of_nat_mult of_nat_power of_nat_numeral]
  have "0 \<le> int (s div 60) * (60 * 10 ^ 9)" by simp
  with u assms(1) have vb: "int v \<le> 2 ^ 63" by linarith
  have w: "w = fst (fmt_frac 9 False (''s'' @ []) v)" using fmt_frac_mod [OF v1(2), of False "''s''"] by (simp add: w_def)
  have secs: "parse_term secs = Some (int v, [])"
    using read_value [OF units_then(1) unit_map_units(1) _ _ vb] by (simp add: secs_def w flip: v1(1))
  have shape: "duration_text u = (if s div 60 = 0 then secs
      else if s div 60 div 60 = 0 then nat_digits (s div 60 mod 60) @ ''m'' @ secs
      else nat_digits (s div 60 div 60) @ ''h'' @ nat_digits (s div 60 mod 60) @ ''m'' @ secs)"
    using assms(2) fmt_frac_value [of 9 False "''s''" u]
    by (cases "fmt_frac 9 False ''s'' u") (auto simp: duration_text_def Let_def secs_def w_def s_def)
  have rd: "parse_term (nat_digits n @ ''m'' @ secs) = Some (int n * (60 * 10 ^ 9), secs)" if "int n * (60 * 10 ^ 9) \<le> 2 ^ 63" for n
    using read_whole [OF units_then(5) unit_map_units(5) that, of "s mod 60" w] by (simp add: secs_def)
  show ?thesis
  proof (cases "s div 60 = 0")
    case True
    with shape u secs vb show ?thesis using parse_terms_step [OF secs, of 0] by simp
  next
    case m: False
    show ?thesis
    proof (cases "s div 60 div 60 = 0")
      case True
      then have "s div 60 mod 60 = s div 60" by simp
      with m True shape have t: "duration_text u = nat_digits (s div 60) @ ''m'' @ secs" by simp
      have "int (s div 60) * (60 * 10 ^ 9) \<le> 2 ^ 63" using u assms(1) by linarith
      from parse_terms_step [OF rd [OF this], of 0] parse_terms_step [OF secs] this u assms(1) t
      show ?thesis by simp
    next
      case False
      define h where "h = s div 60 div 60"
      define mi where "mi = s div 60 mod 60"
      have "int (s div 60) = 60 * int h + int mi" unfolding h_def mi_def
        by (metis mult_div_mod_eq of_nat_add of_nat_mult of_nat_numeral)
      with u have sum: "int u = int h * (3600 * 10 ^ 9) + int mi * (60 * 10 ^ 9) + int v" by simp
      have t: "duration_text u = nat_digits h @ ''h'' @ nat_digits mi @ ''m'' @ secs"
        using m False shape by (simp add: h_def mi_def)
      have "0 \<le> int h * (3600 * 10 ^ 9)" "0 \<le> int mi * (60 * 10 ^ 9)" by simp_all
      then have bh: "int h * (3600 * 10 ^ 9) \<le> 2 ^ 63" and bm: "int mi * (60 * 10 ^ 9) \<le> 2 ^ 63"
        using sum assms(1) by linarith+
      have hh: "parse_term (nat_digits h @ ''h'' @ nat_digits mi @ ''m'' @ secs)
          = Some (int h * (3600 * 10 ^ 9), nat_digits mi @ ''m'' @ secs)"
        using read_whole [OF units_then(6) unit_map_units(6) bh] by simp
      have "parse_terms 0 (duration_text u) = parse_terms (int h * (3600 * 10 ^ 9)) (nat_digits mi @ ''m'' @ secs)"
        using parse_terms_step [OF hh, of 0] bh by (simp add: t)
      also have "\<dots> = parse_terms (int h * (3600 * 10 ^ 9) + int mi * (60 * 10 ^ 9)) secs"
        using sum assms(1) by (intro parse_terms_step [OF rd [OF bm]]) simp_all
      also have "\<dots> = parse_terms (int u) []"
        unfolding sum using sum assms(1) by (intro parse_terms_step [OF secs]) simp_all
      finally show ?thesis by simp
    qed
  qed
qed

text \<open>
  Durations survive their text: what the configuration store writes for any \<open>int64\<close> number of
  nanoseconds is read back as exactly that number, whatever its sign, its size and its fraction.
\<close>

lemma duration_text_parsed:
  assumes "in_int64 d"
  shows "parse_duration (duration_string d) = Some d"
proof -
  define u where "u = nat \<bar>d\<bar>"
  have u: "int u \<le> 2 ^ 63" "int u = \<bar>d\<bar>" using assms by (auto simp: u_def)
  have terms: "parse_terms 0 (duration_text u) = Some (int u)" if "u \<noteq> 0"
  proof -
    consider "u < 1000" | "1000 \<le> u" "u < 1000000" | "1000000 \<le> u" "u < 1000000000" | "1000000000 \<le> u" by linarith
    then show ?thesis
    proof cases
      case 1
      have "int u * 1 \<le> 2 ^ 63" using u(1) by simp
      from read_whole [OF units_then(3) unit_map_units(4) this] have "parse_term (nat_digits u @ ''ns'') = Some (int u, [])"
        by simp
      from parse_terms_step [OF this, of 0] 1 that u(1) show ?thesis by (simp add: duration_text_def)
    next
      case 2
      with small_text [OF units_then(4) unit_map_units(3) _ _ u(1)] that show ?thesis by (simp add: duration_text_def)
    next
      case 3
      with small_text [OF units_then(2) unit_map_units(2) _ _ u(1)] that show ?thesis by (simp add: duration_text_def)
    next
      case 4
      with long_text [OF u(1)] show ?thesis by simp
    qed
  qed
  show ?thesis
  proof (cases "u = 0")
    case True
    then have "d = 0" using u by simp
    moreover have "parse_duration (duration_string 0) = Some 0" by code_simp
    ultimately show ?thesis by simp
  next
    case False
    note t = terms [OF False]
    from t False have ne: "duration_text u \<noteq> []" by auto
    have "parse_terms 0 ''0'' = None" by code_simp
    with t have z: "duration_text u \<noteq> ''0''" by auto
    from t ne have "parse_term (duration_text u) \<noteq> None" 
      by (auto simp: parse_terms.simps [of 0 "duration_text u"] split: option.splits)
    then have "hd (duration_text u) = CHR ''.'' \<or> is_digit (hd (duration_text u))"
      by (auto simp: parse_term_def split: if_splits)
    then have h: "hd (duration_text u) \<noteq> CHR ''-''" "hd (duration_text u) \<noteq> CHR ''+''"
      by (auto simp: is_digit_def)
    show ?thesis
    proof (cases "d < 0")
      case True
      then have "nat (- d) = u" by (simp add: u_def)
      with True t ne z u assms show ?thesis by (simp add: duration_string_def parse_duration_def Let_def)
    next
      case False
      then have "nat d = u" by (simp add: u_def)
      with False t ne z h u assms show ?thesis by (simp add: duration_string_def parse_duration_def Let_def)
    qed
  qed
qed

lemma duration_text_example:
  "parse_duration (duration_string (- (90 * Minute + 7))) = Some (- (90 * Minute + 7))"
  using duration_text_parsed [of "- (90 * Minute + 7)"] by (simp add: duration_defs)

end
