(* ===== verification/Config_Store.thy ===== *)
theory Config_Store
  imports Config Duration_Text
begin

text \<open>
  \<^verbatim>\<open>internal/config/store.go\<close>: the SQLite database of run-time configuration. Each table is the
  list of its rows in the order of their \<open>AUTOINCREMENT\<close> identifiers with the last one given out;
  the settings are a finite map. A statement fails with the driver's text when its argument
  \<open>fault\<close> is one; a transaction is the list of its statements and leaves the database as it was
  unless all of them and the commit succeed. The creation stamps, which nothing reads, and the
  opening of the file are left out.
\<close>

section \<open>The tables\<close>

record account =
  ua_id :: int
  ua_username :: string
  ua_password :: string
  ua_store_path :: string
  ua_cookies :: string
  ua_enabled :: bool

record proxy_config =
  xp_id :: int
  xp_address :: string
  xp_enabled :: bool

record config_store =
  kf_accounts :: "account list"
  kf_account_seq :: int
  kf_proxies :: "proxy_config list"
  kf_proxy_seq :: int
  kf_settings :: "string \<Rightarrow> string option"

definition NewConfigStore :: config_store where
  "NewConfigStore = \<lparr> kf_accounts = [], kf_account_seq = 0, kf_proxies = [], kf_proxy_seq = 0,
     kf_settings = Map.empty \<rparr>"

text \<open>The driver's texts for a violated \<open>UNIQUE\<close> column and for a query without a row.\<close>

definition unique_error :: "string \<Rightarrow> string" where
  "unique_error column = ''constraint failed: UNIQUE constraint failed: '' @ column @ '' (2067)''"

definition no_rows :: string where "no_rows = ''sql: no rows in result set''"

section \<open>Accounts\<close>

definition GetAccounts :: "string option \<Rightarrow> config_store \<Rightarrow> string + account list" where
  "GetAccounts fault s = (case fault of Some e \<Rightarrow> Inl e | None \<Rightarrow> Inr (kf_accounts s))"

definition GetAccount :: "string option \<Rightarrow> int \<Rightarrow> config_store \<Rightarrow> string + account" where
  "GetAccount fault i s =
     (case fault of
        Some e \<Rightarrow> Inl e
      | None \<Rightarrow> (case find (\<lambda>a. ua_id a = i) (kf_accounts s) of None \<Rightarrow> Inl no_rows | Some a \<Rightarrow> Inr a))"

text \<open>\<open>INSERT INTO accounts\<close>: the new row gets the next identifier.\<close>

definition insert_account :: "string option \<Rightarrow> account \<Rightarrow> config_store \<Rightarrow> string + config_store" where
  "insert_account fault a s =
     (case fault of
        Some e \<Rightarrow> Inl e
      | None \<Rightarrow>
          if ua_username a \<in> ua_username ` set (kf_accounts s) then Inl (unique_error ''accounts.username'')
          else let i = kf_account_seq s + 1
               in Inr (s\<lparr> kf_accounts := kf_accounts s @ [a\<lparr> ua_id := i \<rparr>], kf_account_seq := i \<rparr>))"

definition CreateAccount :: "string option \<Rightarrow> account \<Rightarrow> config_store \<Rightarrow> (string + account) \<times> config_store" where
  "CreateAccount fault a s =
     (case insert_account fault a s of
        Inl e \<Rightarrow> (Inl e, s)
      | Inr s \<Rightarrow> (Inr (a\<lparr> ua_id := kf_account_seq s \<rparr>), s))"

definition UpdateAccount :: "string option \<Rightarrow> account \<Rightarrow> config_store \<Rightarrow> string option \<times> config_store" where
  "UpdateAccount fault a s =
     (case fault of
        Some e \<Rightarrow> (Some e, s)
      | None \<Rightarrow>
          if ua_id a \<in> ua_id ` set (kf_accounts s)
             \<and> ua_username a \<in> ua_username ` {b \<in> set (kf_accounts s). ua_id b \<noteq> ua_id a}
          then (Some (unique_error ''accounts.username''), s)
          else (None, s\<lparr> kf_accounts := map (\<lambda>b. if ua_id b = ua_id a then a else b) (kf_accounts s) \<rparr>))"

definition DeleteAccount :: "string option \<Rightarrow> int \<Rightarrow> config_store \<Rightarrow> string option \<times> config_store" where
  "DeleteAccount fault i s =
     (case fault of
        Some e \<Rightarrow> (Some e, s)
      | None \<Rightarrow> (None, s\<lparr> kf_accounts := filter (\<lambda>a. ua_id a \<noteq> i) (kf_accounts s) \<rparr>))"

section \<open>Proxies\<close>

definition GetProxies :: "string option \<Rightarrow> config_store \<Rightarrow> string + proxy_config list" where
  "GetProxies fault s = (case fault of Some e \<Rightarrow> Inl e | None \<Rightarrow> Inr (kf_proxies s))"

definition GetProxy_row :: "string option \<Rightarrow> int \<Rightarrow> config_store \<Rightarrow> string + proxy_config" where
  "GetProxy_row fault i s =
     (case fault of
        Some e \<Rightarrow> Inl e
      | None \<Rightarrow> (case find (\<lambda>p. xp_id p = i) (kf_proxies s) of None \<Rightarrow> Inl no_rows | Some p \<Rightarrow> Inr p))"

definition insert_proxy :: "string option \<Rightarrow> proxy_config \<Rightarrow> config_store \<Rightarrow> string + config_store" where
  "insert_proxy fault p s =
     (case fault of
        Some e \<Rightarrow> Inl e
      | None \<Rightarrow>
          if xp_address p \<in> xp_address ` set (kf_proxies s) then Inl (unique_error ''proxies.address'')
          else let i = kf_proxy_seq s + 1
               in Inr (s\<lparr> kf_proxies := kf_proxies s @ [p\<lparr> xp_id := i \<rparr>], kf_proxy_seq := i \<rparr>))"

definition CreateProxy :: "string option \<Rightarrow> proxy_config \<Rightarrow> config_store \<Rightarrow> (string + proxy_config) \<times> config_store" where
  "CreateProxy fault p s =
     (case insert_proxy fault p s of
        Inl e \<Rightarrow> (Inl e, s)
      | Inr s \<Rightarrow> (Inr (p\<lparr> xp_id := kf_proxy_seq s \<rparr>), s))"

definition UpdateProxy :: "string option \<Rightarrow> proxy_config \<Rightarrow> config_store \<Rightarrow> string option \<times> config_store" where
  "UpdateProxy fault p s =
     (case fault of
        Some e \<Rightarrow> (Some e, s)
      | None \<Rightarrow>
          if xp_id p \<in> xp_id ` set (kf_proxies s)
             \<and> xp_address p \<in> xp_address ` {q \<in> set (kf_proxies s). xp_id q \<noteq> xp_id p}
          then (Some (unique_error ''proxies.address''), s)
          else (None, s\<lparr> kf_proxies := map (\<lambda>q. if xp_id q = xp_id p then p else q) (kf_proxies s) \<rparr>))"

definition DeleteProxy :: "string option \<Rightarrow> int \<Rightarrow> config_store \<Rightarrow> string option \<times> config_store" where
  "DeleteProxy fault i s =
     (case fault of
        Some e \<Rightarrow> (Some e, s)
      | None \<Rightarrow> (None, s\<lparr> kf_proxies := filter (\<lambda>p. xp_id p \<noteq> i) (kf_proxies s) \<rparr>))"

section \<open>Settings and transactions\<close>

definition GetSettings :: "string option \<Rightarrow> config_store \<Rightarrow> string + (string \<Rightarrow> string option)" where
  "GetSettings fault s = (case fault of Some e \<Rightarrow> Inl e | None \<Rightarrow> Inr (kf_settings s))"

definition GetSetting :: "string option \<Rightarrow> string \<Rightarrow> config_store \<Rightarrow> string + string" where
  "GetSetting fault k s =
     (case fault of
        Some e \<Rightarrow> Inl e
      | None \<Rightarrow> (case kf_settings s k of None \<Rightarrow> Inl no_rows | Some v \<Rightarrow> Inr v))"

definition put_setting :: "string option \<Rightarrow> string \<Rightarrow> string \<Rightarrow> config_store \<Rightarrow> string + config_store" where
  "put_setting fault k v s =
     (case fault of Some e \<Rightarrow> Inl e | None \<Rightarrow> Inr (s\<lparr> kf_settings := (kf_settings s)(k \<mapsto> v) \<rparr>))"

definition SetSetting :: "string option \<Rightarrow> string \<Rightarrow> string \<Rightarrow> config_store \<Rightarrow> string option \<times> config_store" where
  "SetSetting fault k v s =
     (case put_setting fault k v s of Inl e \<Rightarrow> (Some e, s) | Inr s \<Rightarrow> (None, s))"

type_synonym statement = "config_store \<Rightarrow> string + config_store"

fun run_statements :: "statement list \<Rightarrow> config_store \<Rightarrow> string + config_store" where
  "run_statements [] s = Inr s"
| "run_statements (q # qs) s = (case q s of Inl e \<Rightarrow> Inl e | Inr s \<Rightarrow> run_statements qs s)"

text \<open>\<open>Begin\<close>, the statements, \<open>Commit\<close>; every early return runs the deferred
  \<open>Rollback\<close>. That a transaction rolled back leaves the database as it was is the database's promise.\<close>

definition transaction ::
  "string option \<Rightarrow> string option \<Rightarrow> statement list \<Rightarrow> config_store \<Rightarrow> string option \<times> config_store" where
  "transaction begun commit qs s =
     (case begun of
        Some e \<Rightarrow> (Some e, s)
      | None \<Rightarrow>
          (case run_statements qs s of
             Inl e \<Rightarrow> (Some e, s)
           | Inr s' \<Rightarrow> (case commit of Some e \<Rightarrow> (Some e, s) | None \<Rightarrow> (None, s'))))"

text \<open>What a transaction meets, by the statement: \<open>begin\<close>, \<open>prepare\<close>, a key or an index, \<open>commit\<close>.\<close>

record tx_env =
  tx_begin :: "string option"
  tx_prepare :: "string option"
  tx_account :: "nat \<Rightarrow> string option"
  tx_proxy :: "string \<Rightarrow> string option"
  tx_setting :: "string \<Rightarrow> string option"
  tx_commit :: "string option"

definition prepared :: "string option \<Rightarrow> statement" where
  "prepared fault s = (case fault of Some e \<Rightarrow> Inl e | None \<Rightarrow> Inr s)"

text \<open>\<open>kvs\<close> are the entries of the Go map in the order its iteration takes them.\<close>

definition SetSettings :: "tx_env \<Rightarrow> (string \<times> string) list \<Rightarrow> config_store \<Rightarrow> string option \<times> config_store" where
  "SetSettings e kvs =
     transaction (tx_begin e) (tx_commit e)
       (prepared (tx_prepare e) # map (\<lambda>(k, v). put_setting (tx_setting e k) k v) kvs)"

section \<open>Seeding\<close>

definition go_bool :: "bool \<Rightarrow> string" where
  "go_bool b = (if b then ''true'' else ''false'')"

definition seed_settings :: "config \<Rightarrow> (string \<times> string) list" where
  "seed_settings cfg =
     [(''upstream_base_url'', UpstreamBaseURL cfg), (''upstream_provider'', UpstreamProvider cfg),
      (''model_filter'', ModelFilter cfg),
      (''pool_size'', itoa (ProxyPoolSize cfg)), (''proxy_base_port'', itoa (ProxyBasePort cfg)),
      (''max_concurrent'', itoa (MaxConcurrent cfg)), (''vpn_image'', VPNImage cfg),
      (''regions'', ProtonVPNRegions cfg), (''ip_check_url'', ProtonVPNIPCheckURL cfg),
      (''protonvpn_api_base'', ProtonVPNAPIBase cfg),
      (''cooldown_duration'', duration_string (CooldownDuration cfg)),
      (''ip_ban_duration'', duration_string (IPBanDuration cfg)),
      (''rate_limit_retry_after'', RateLimitRetryAfter cfg),
      (''rate_limit_fresh_ip_wait'', duration_string (RateLimitFreshIPWait cfg)),
      (''max_retries'', itoa (MaxRetries cfg)), (''retry_base_delay'', duration_string (RetryBaseDelay cfg)),
      (''retry_max_delay'', duration_string (RetryMaxDelay cfg)),
      (''health_check_period'', duration_string (HealthCheckPeriod cfg)),
      (''resource_cpu_limit'', ResourceCPULimit cfg), (''resource_memory_limit'', ResourceMemoryLimit cfg),
      (''request_timeout'', duration_string (RequestTimeout cfg)),
      (''sticky_session_ttl'', duration_string (StickySessionTTL cfg)),
      (''log_level'', LogLevel cfg), (''log_format'', LogFormat cfg), (''cors_origin'', CORSOrigin cfg),
      (''pow_enabled'', go_bool (PowEnabled cfg)), (''pow_base_difficulty'', itoa (PowBaseDifficulty cfg)),
      (''pow_min_difficulty'', itoa (PowMinDifficulty cfg)), (''pow_max_difficulty'', itoa (PowMaxDifficulty cfg)),
      (''pow_plan1_difficulty'', itoa (PowPlan1Difficulty cfg)),
      (''pow_plan2_difficulty'', itoa (PowPlan2Difficulty cfg)),
      (''pow_plan3_difficulty'', itoa (PowPlan3Difficulty cfg)),
      (''pow_plan1_rpm'', itoa (PowPlan1RPM cfg)), (''pow_plan2_rpm'', itoa (PowPlan2RPM cfg)),
      (''pow_plan3_rpm'', itoa (PowPlan3RPM cfg)), (''pow_burst_rps'', itoa (PowBurstRPS cfg)),
      (''pow_burst_cooldown'', duration_string (PowBurstCooldown cfg)),
      (''pow_challenge_per_min'', itoa (PowChallengePerMin cfg)),
      (''pow_challenge_per_day'', itoa (PowChallengePerDay cfg)),
      (''pow_key_ttl'', duration_string (PowKeyTTL cfg)),
      (''web_search_enabled'', go_bool (WebSearchEnabled cfg)),
      (''web_search_max_results'', itoa (WebSearchMaxResults cfg)),
      (''web_search_max_pages'', itoa (WebSearchMaxPages cfg)),
      (''web_search_max_page_chars'', itoa (WebSearchMaxPageChar cfg)),
      (''web_search_max_rounds'', itoa (WebSearchMaxRounds cfg)), (''searxng_url'', SearxngURL cfg)]"

definition failing :: "string \<Rightarrow> string + config_store \<Rightarrow> string + config_store" where
  "failing what r = (case r of Inl e \<Rightarrow> Inl (''failed to seed '' @ what @ '': '' @ e) | Inr s \<Rightarrow> Inr s)"

definition seed_account :: "config \<Rightarrow> nat \<Rightarrow> vpn_account \<Rightarrow> account" where
  "seed_account cfg i a =
     \<lparr> ua_id = 0, ua_username = acct_username a, ua_password = acct_password a,
       ua_store_path = (if i > 0 then ProtonVPNStorePath cfg @ ''_'' @ itoa (int i) else ProtonVPNStorePath cfg),
       ua_cookies = (if i = 0 then ProtonVPNSessionCookies cfg else []), ua_enabled = True \<rparr>"

definition seed_statements :: "tx_env \<Rightarrow> config \<Rightarrow> statement list" where
  "seed_statements e cfg =
     map (\<lambda>(i, a) s. failing (''account '' @ itoa (int i)) (insert_account (tx_account e i) (seed_account cfg i a) s))
         (enumerate 0 (ParseProtonVPNAccounts cfg))
     @ map (\<lambda>addr s. failing ''proxy'' (insert_proxy (tx_proxy e addr) \<lparr> xp_id = 0, xp_address = addr, xp_enabled = True \<rparr> s))
         (ParseSOCKS5Addrs cfg)
     @ [prepared (tx_prepare e)]
     @ map (\<lambda>(k, v) s. failing (''setting '' @ k) (put_setting (tx_setting e k) k v s)) (seed_settings cfg)"

definition SeedFromConfig :: "string option \<Rightarrow> tx_env \<Rightarrow> config \<Rightarrow> config_store \<Rightarrow> string option \<times> config_store" where
  "SeedFromConfig count e cfg s =
     (case count of
        Some err \<Rightarrow> (Some err, s)
      | None \<Rightarrow>
          if kf_accounts s \<noteq> [] then (None, s)
          else transaction (tx_begin e) (tx_commit e) (seed_statements e cfg) s)"

end
