(* ===== verification/Store_Laws.thy ===== *)
theory Store_Laws
  imports Config_Store
begin

text \<open>
  What the configuration database promises: its tables stay well formed under every operation,
  identifiers are never given out twice, a batch of settings is written whole or not at all, and
  seeding happens once.
\<close>

section \<open>Tables with an identifier and a unique column\<close>

definition table_ok :: "('r \<Rightarrow> int) \<Rightarrow> ('r \<Rightarrow> string) \<Rightarrow> int \<Rightarrow> 'r list \<Rightarrow> bool" where
  "table_ok rid key seq rows \<longleftrightarrow>
     sorted_wrt (<) (map rid rows) \<and> (\<forall>r \<in> set rows. 0 < rid r \<and> rid r \<le> seq) \<and> distinct (map key rows) \<and> 0 \<le> seq"

locale row_table =
  fixes rid :: "'r \<Rightarrow> int" and key :: "'r \<Rightarrow> string" and set_id :: "int \<Rightarrow> 'r \<Rightarrow> 'r"
  assumes rid_set [simp]: "rid (set_id i r) = i" and key_set [simp]: "key (set_id i r) = key r"
begin

lemma insert_ok:
  "table_ok rid key seq rows \<Longrightarrow> key r \<notin> key ` set rows \<Longrightarrow>
     table_ok rid key (seq + 1) (rows @ [set_id (seq + 1) r])"
  by (fastforce simp: table_ok_def sorted_wrt_append)

lemma delete_ok: "table_ok rid key seq rows \<Longrightarrow> table_ok rid key seq (filter P rows)"
  by (auto simp: table_ok_def sorted_wrt_map sorted_wrt_filter distinct_map_filter)

lemma update_ok:
  assumes ok: "table_ok rid key seq rows"
    and free: "\<not> (rid r \<in> rid ` set rows \<and> key r \<in> key ` {q \<in> set rows. rid q \<noteq> rid r})"
  shows "table_ok rid key seq (map (\<lambda>q. if rid q = rid r then r else q) rows)"
proof -
  let ?f = "\<lambda>q. if rid q = rid r then r else q"
  have ids: "map rid (map ?f rows) = map rid rows" by simp
  have bounds: "\<forall>q \<in> set (map ?f rows). 0 < rid q \<and> rid q \<le> seq" using ok by (auto simp: table_ok_def)
  have d: "distinct (map rid rows)" using ok by (auto simp: table_ok_def strict_sorted_iff)
  have keys: "distinct (map key rows)" using ok by (simp add: table_ok_def)
  have "inj_on (key \<circ> ?f) (set rows)"
  proof (rule inj_onI)
    fix x y assume x: "x \<in> set rows" and y: "y \<in> set rows" and e: "(key \<circ> ?f) x = (key \<circ> ?f) y"
    show "x = y"
    proof (cases "rid x = rid r \<or> rid y = rid r")
      case True
      then have "rid r \<in> rid ` set rows" using x y by (metis image_eqI)
      with free have "key r \<notin> key ` {q \<in> set rows. rid q \<noteq> rid r}" by blast
      then have other: "key q \<noteq> key r" if "q \<in> set rows" "rid q \<noteq> rid r" for q
        using that by (auto simp: image_iff)
      have "rid x = rid r \<longleftrightarrow> rid y = rid r"
        using e other [OF x] other [OF y] by (cases "rid x = rid r"; cases "rid y = rid r") auto
      with True have "rid x = rid y" by auto
      moreover have "inj_on rid (set rows)" using d by (simp add: distinct_map)
      ultimately show ?thesis using x y by (blast dest: inj_onD)
    next
      case False
      with e have "key x = key y" by simp
      moreover have "inj_on key (set rows)" using keys by (simp add: distinct_map)
      ultimately show ?thesis using x y by (blast dest: inj_onD)
    qed
  qed
  moreover have "distinct rows" using keys by (simp add: distinct_map)
  ultimately have "distinct (map key (map ?f rows))" by (simp add: distinct_map)
  then show ?thesis using ok bounds unfolding table_ok_def ids by blast
qed

end

interpretation accounts: row_table ua_id ua_username "\<lambda>i a. a\<lparr> ua_id := i \<rparr>"
  by unfold_locales simp_all

interpretation proxies: row_table xp_id xp_address "\<lambda>i p. p\<lparr> xp_id := i \<rparr>"
  by unfold_locales simp_all

section \<open>The database stays well formed\<close>

definition store_ok :: "config_store \<Rightarrow> bool" where
  "store_ok s \<longleftrightarrow> table_ok ua_id ua_username (kf_account_seq s) (kf_accounts s)
     \<and> table_ok xp_id xp_address (kf_proxy_seq s) (kf_proxies s)"

text \<open>Every operation that changes the database, with what its statements meet.\<close>

datatype store_op =
    Create_account "string option" account
  | Update_account "string option" account
  | Delete_account "string option" int
  | Create_proxy "string option" proxy_config
  | Update_proxy "string option" proxy_config
  | Delete_proxy "string option" int
  | Set_setting "string option" string string
  | Set_settings tx_env "(string \<times> string) list"
  | Seed "string option" tx_env config

primrec store_exec :: "store_op \<Rightarrow> config_store \<Rightarrow> config_store" where
  "store_exec (Create_account f a) s = snd (CreateAccount f a s)"
| "store_exec (Update_account f a) s = snd (UpdateAccount f a s)"
| "store_exec (Delete_account f i) s = snd (DeleteAccount f i s)"
| "store_exec (Create_proxy f p) s = snd (CreateProxy f p s)"
| "store_exec (Update_proxy f p) s = snd (UpdateProxy f p s)"
| "store_exec (Delete_proxy f i) s = snd (DeleteProxy f i s)"
| "store_exec (Set_setting f k v) s = snd (SetSetting f k v s)"
| "store_exec (Set_settings e kvs) s = snd (SetSettings e kvs s)"
| "store_exec (Seed c e cfg) s = snd (SeedFromConfig c e cfg s)"

lemma insert_account_ok: "insert_account f a s = Inr t \<Longrightarrow> store_ok s \<Longrightarrow> store_ok t"
  using accounts.insert_ok [of "kf_account_seq s" "kf_accounts s" a]
  by (auto simp: insert_account_def store_ok_def Let_def split: option.splits if_splits)

lemma insert_proxy_ok: "insert_proxy f p s = Inr t \<Longrightarrow> store_ok s \<Longrightarrow> store_ok t"
  using proxies.insert_ok [of "kf_proxy_seq s" "kf_proxies s" p]
  by (auto simp: insert_proxy_def store_ok_def Let_def split: option.splits if_splits)

lemma put_setting_ok: "put_setting f k v s = Inr t \<Longrightarrow> store_ok s \<Longrightarrow> store_ok t"
  by (auto simp: put_setting_def store_ok_def split: option.splits)

text \<open>A statement keeps a condition when every outcome of it does.\<close>

definition keeps :: "(config_store \<Rightarrow> bool) \<Rightarrow> statement \<Rightarrow> bool" where
  "keeps P q \<longleftrightarrow> (\<forall>s t. q s = Inr t \<longrightarrow> P s \<longrightarrow> P t)"

lemma run_statements_keeps:
  "list_all (keeps P) qs \<Longrightarrow> run_statements qs s = Inr t \<Longrightarrow> P s \<Longrightarrow> P t"
  by (induction qs arbitrary: s) (auto simp: keeps_def split: sum.splits)

lemma transaction_keeps: "list_all (keeps P) qs \<Longrightarrow> P s \<Longrightarrow> P (snd (transaction b c qs s))"
  using run_statements_keeps [of P qs s] by (auto simp: transaction_def split: option.splits sum.splits)

lemma keeps_prepared [simp]: "keeps P (prepared f)"
  by (simp add: keeps_def prepared_def split: option.splits)

lemma keeps_failing: "keeps P q \<Longrightarrow> keeps P (\<lambda>s. failing w (q s))"
  by (auto simp: keeps_def failing_def split: sum.splits)

lemma seed_statements_keep_ok: "list_all (keeps store_ok) (seed_statements e cfg)"
proof -
  have "keeps store_ok (\<lambda>s. failing w (insert_account f a s))" "keeps store_ok (\<lambda>s. failing w (insert_proxy f p s))"
    "keeps store_ok (\<lambda>s. failing w (put_setting f k v s))" for w f a p k v
    by (intro keeps_failing; auto simp: keeps_def dest: insert_account_ok insert_proxy_ok put_setting_ok)+
  then show ?thesis by (auto simp: seed_statements_def list_all_iff)
qed

lemma store_exec_ok: "store_ok s \<Longrightarrow> store_ok (store_exec op s)"
proof (cases op)
  case (Create_account f a)
  then show "store_ok s \<Longrightarrow> store_ok (store_exec op s)"
    by (auto simp: CreateAccount_def split: sum.splits dest: insert_account_ok)
next
  case (Update_account f a)
  then show "store_ok s \<Longrightarrow> store_ok (store_exec op s)"
    using accounts.update_ok [of "kf_account_seq s" "kf_accounts s" a]
    by (auto simp: UpdateAccount_def store_ok_def split: option.splits)
next
  case (Delete_account f i)
  then show "store_ok s \<Longrightarrow> store_ok (store_exec op s)"
    by (auto simp: DeleteAccount_def store_ok_def accounts.delete_ok split: option.splits)
next
  case (Create_proxy f p)
  then show "store_ok s \<Longrightarrow> store_ok (store_exec op s)"
    by (auto simp: CreateProxy_def split: sum.splits dest: insert_proxy_ok)
next
  case (Update_proxy f p)
  then show "store_ok s \<Longrightarrow> store_ok (store_exec op s)"
    using proxies.update_ok [of "kf_proxy_seq s" "kf_proxies s" p]
    by (auto simp: UpdateProxy_def store_ok_def split: option.splits)
next
  case (Delete_proxy f i)
  then show "store_ok s \<Longrightarrow> store_ok (store_exec op s)"
    by (auto simp: DeleteProxy_def store_ok_def proxies.delete_ok split: option.splits)
next
  case (Set_setting f k v)
  then show "store_ok s \<Longrightarrow> store_ok (store_exec op s)"
    by (auto simp: SetSetting_def split: sum.splits dest: put_setting_ok)
next
  case (Set_settings e kvs)
  have "list_all (keeps store_ok) (prepared f # map (\<lambda>(k, v). put_setting (tx_setting e k) k v) kvs)" for f
    by (auto simp: list_all_iff) (auto simp: keeps_def dest: put_setting_ok)
  then show "store_ok s \<Longrightarrow> store_ok (store_exec op s)"
    by (simp add: Set_settings SetSettings_def transaction_keeps)
next
  case (Seed c e cfg)
  then show "store_ok s \<Longrightarrow> store_ok (store_exec op s)"
    by (auto simp: SeedFromConfig_def transaction_keeps [OF seed_statements_keep_ok] split: option.splits)
qed

interpretation database: invariant_ops store_exec store_ok
  by unfold_locales (rule store_exec_ok)

text \<open>
  The configuration database is always well formed: after any operations in any order, whatever
  statements fail, the rows of each table have increasing identifiers up to the last one given out,
  and no two accounts share a name and no two proxies an address.
\<close>

theorem config_store_always_ok: "store_ok (fold store_exec ops NewConfigStore)"
  by (rule database.run_inv) (simp add: store_ok_def table_ok_def NewConfigStore_def)

section \<open>Identifiers\<close>

lemma seq_grows: "kf_account_seq s \<le> kf_account_seq (store_exec op s)"
proof -
  have ins: "keeps (\<lambda>t. n \<le> kf_account_seq t) q"
    if "q \<in> set (seed_statements e cfg)" for n q e cfg
    using that
    by (auto simp: seed_statements_def keeps_def failing_def insert_account_def insert_proxy_def put_setting_def Let_def
        prepared_def split: sum.splits option.splits if_splits)
  show ?thesis
  proof (cases op)
    case (Set_settings e kvs)
    have "list_all (keeps (\<lambda>t. kf_account_seq s \<le> kf_account_seq t))
        (prepared (tx_prepare e) # map (\<lambda>(k, v). put_setting (tx_setting e k) k v) kvs)"
      by (auto simp: list_all_iff) (auto simp: keeps_def put_setting_def split: option.splits)
    from transaction_keeps [OF this] show ?thesis by (simp add: Set_settings SetSettings_def)
  next
    case (Seed c e cfg)
    have "list_all (keeps (\<lambda>t. kf_account_seq s \<le> kf_account_seq t)) (seed_statements e cfg)"
      using ins by (simp add: list_all_iff)
    from transaction_keeps [OF this] show ?thesis by (simp add: Seed SeedFromConfig_def split: option.splits)
  qed (auto simp: CreateAccount_def insert_account_def UpdateAccount_def DeleteAccount_def CreateProxy_def
      insert_proxy_def UpdateProxy_def DeleteProxy_def SetSetting_def put_setting_def Let_def
      split: option.splits sum.splits if_splits)
qed

lemma seq_grows_run: "kf_account_seq s \<le> kf_account_seq (fold store_exec ops s)"
  by (induction ops arbitrary: s) (auto intro: order_trans [OF seq_grows])

lemma CreateAccount_id: "CreateAccount f a s = (Inr b, t) \<Longrightarrow> ua_id b = kf_account_seq s + 1 \<and> kf_account_seq t = ua_id b"
  by (auto simp: CreateAccount_def insert_account_def Let_def split: sum.splits option.splits if_splits)

text \<open>
  An account's identifier is never given out again: whatever happens between two creations, deletion
  of the first account included, the second one gets a larger identifier.
\<close>

theorem account_ids_never_reused:
  assumes "CreateAccount f a s = (Inr b, t)" "CreateAccount g c (fold store_exec ops t) = (Inr d, u)"
  shows "ua_id b < ua_id d"
  using CreateAccount_id [OF assms(1)] CreateAccount_id [OF assms(2)] seq_grows_run [of t ops] by simp

section \<open>Settings\<close>

lemma run_settings:
  assumes "run_statements (map (\<lambda>(k, v). put_setting (f k) k v) kvs) s = Inr t" "distinct (map fst kvs)"
  shows "t = s\<lparr> kf_settings := kf_settings s ++ map_of kvs \<rparr>"
  using assms
proof (induction kvs arbitrary: s)
  case Nil
  then show ?case by simp
next
  case (Cons kv kvs)
  obtain k v where kv: "kv = (k, v)" by fastforce
  with Cons.prems have "put_setting (f k) k v s = Inr (s\<lparr> kf_settings := (kf_settings s)(k \<mapsto> v) \<rparr>)"
    by (auto simp: put_setting_def split: option.splits)
  with Cons.prems kv have "run_statements (map (\<lambda>(k, v). put_setting (f k) k v) kvs)
      (s\<lparr> kf_settings := (kf_settings s)(k \<mapsto> v) \<rparr>) = Inr t" "distinct (map fst kvs)" by simp_all
  from Cons.IH [OF this] have t: "t = s\<lparr> kf_settings := (kf_settings s)(k \<mapsto> v) ++ map_of kvs \<rparr>"
    by (simp del: fun_upd_apply)
  from Cons.prems kv have "map_of kvs k = None" by (simp add: map_of_eq_None_iff)
  then have "(kf_settings s)(k \<mapsto> v) ++ map_of kvs = kf_settings s ++ map_of (kv # kvs)"
    by (auto simp: kv map_add_def fun_eq_iff split: option.split)
  with t show ?case by (simp only:)
qed

text \<open>
  C29: A batch of settings is all or nothing: without an error every given setting has its new value and
  every other its old one; with an error, at whatever statement, the database is as before.
\<close>

theorem settings_all_or_nothing:
  assumes "distinct (map fst kvs)"
  shows "case SetSettings e kvs s of
      (None, t) \<Rightarrow> t = s\<lparr> kf_settings := kf_settings s ++ map_of kvs \<rparr>
    | (Some _, t) \<Rightarrow> t = s"
  using run_settings [OF _ assms, of "tx_setting e" s]
  by (auto simp: SetSettings_def transaction_def prepared_def split: option.splits sum.splits)

section \<open>Seeding\<close>

lemma run_append:
  "run_statements (qs @ rs) s = (case run_statements qs s of Inl e \<Rightarrow> Inl e | Inr t \<Rightarrow> run_statements rs t)"
  by (induction qs arbitrary: s) (auto split: sum.splits)

lemma seeded_accounts:
  assumes "SeedFromConfig None e cfg s = (None, t)" "kf_accounts s = []" "ParseProtonVPNAccounts cfg \<noteq> []"
  shows "kf_accounts t \<noteq> []"
proof -
  obtain a as where a: "ParseProtonVPNAccounts cfg = a # as" using assms(3) by (cases "ParseProtonVPNAccounts cfg") auto
  define rest where "rest = tl (seed_statements e cfg)"
  have st: "seed_statements e cfg
      = (\<lambda>s. failing (''account '' @ itoa 0) (insert_account (tx_account e 0) (seed_account cfg 0 a) s)) # rest"
    by (simp add: rest_def seed_statements_def a)
  have "run_statements (seed_statements e cfg) s = Inr t"
    using assms(1,2) by (auto simp: SeedFromConfig_def transaction_def split: option.splits sum.splits)
  then obtain u where u: "insert_account (tx_account e 0) (seed_account cfg 0 a) s = Inr u" "run_statements rest u = Inr t"
    unfolding st by (auto simp: failing_def split: sum.splits)
  then have "kf_accounts u \<noteq> []" by (auto simp: insert_account_def Let_def split: option.splits if_splits)
  moreover have "list_all (keeps (\<lambda>s. kf_accounts s \<noteq> [])) (seed_statements e cfg)"
    by (auto simp: seed_statements_def list_all_iff keeps_def failing_def insert_account_def insert_proxy_def
        put_setting_def Let_def prepared_def split: sum.splits option.splits if_splits)
  then have "list_all (keeps (\<lambda>s. kf_accounts s \<noteq> [])) rest" using st by simp
  ultimately show ?thesis using run_statements_keeps u(2) by blast
qed

text \<open>
  Seeding happens once when there are accounts to seed: after a successful first boot no later boot,
  with whatever configuration, changes the database.
\<close>

theorem seeded_once:
  assumes "SeedFromConfig None e cfg s = (None, t)" "kf_accounts s = []" "ParseProtonVPNAccounts cfg \<noteq> []"
  shows "SeedFromConfig None e' cfg' t = (None, t)"
  using seeded_accounts [OF assms] by (simp add: SeedFromConfig_def)

text \<open>
  Without VPN accounts it never ends: once the external proxies of the configuration are in the
  database, every further boot tries to seed them again, fails on the first one and changes nothing.
\<close>

theorem proxies_reseeded_forever:
  assumes "ParseProtonVPNAccounts cfg = []" "ParseSOCKS5Addrs cfg = a # addrs" "kf_accounts s = []"
    and "SeedFromConfig None e cfg s = (None, t)" "tx_begin e' = None" "tx_proxy e' a = None"
  shows "SeedFromConfig None e' cfg t
    = (Some (''failed to seed proxy: '' @ unique_error ''proxies.address''), t)"
proof -
  define rest where "rest = tl (seed_statements e cfg)"
  define rest' where "rest' = tl (seed_statements e' cfg)"
  have st: "seed_statements e cfg
      = (\<lambda>s. failing ''proxy'' (insert_proxy (tx_proxy e a) \<lparr> xp_id = 0, xp_address = a, xp_enabled = True \<rparr> s)) # rest"
    "seed_statements e' cfg
      = (\<lambda>s. failing ''proxy'' (insert_proxy (tx_proxy e' a) \<lparr> xp_id = 0, xp_address = a, xp_enabled = True \<rparr> s)) # rest'"
    by (simp_all add: rest_def rest'_def seed_statements_def assms(1,2))
  let ?P = "\<lambda>s. a \<in> xp_address ` set (kf_proxies s) \<and> kf_accounts s = []"
  have "run_statements (seed_statements e cfg) s = Inr t"
    using assms(3,4) by (auto simp: SeedFromConfig_def transaction_def split: option.splits sum.splits)
  then obtain u where u: "insert_proxy (tx_proxy e a) \<lparr> xp_id = 0, xp_address = a, xp_enabled = True \<rparr> s = Inr u"
      "run_statements rest u = Inr t"
    unfolding st by (auto simp: failing_def split: sum.splits)
  then have "?P u" using assms(3) by (auto simp: insert_proxy_def Let_def split: option.splits if_splits)
  moreover have "list_all (keeps ?P) (seed_statements e cfg)"
    using assms(1) by (auto simp: seed_statements_def list_all_iff keeps_def failing_def insert_proxy_def
        put_setting_def Let_def prepared_def split: sum.splits option.splits if_splits)
  then have "list_all (keeps ?P) rest" using st by simp
  ultimately have t: "?P t" using run_statements_keeps [of ?P rest u t] u(2) by blast
  then have "run_statements (seed_statements e' cfg) t = Inl (''failed to seed proxy: '' @ unique_error ''proxies.address'')"
    using assms(6) unfolding st by (simp add: insert_proxy_def failing_def)
  with t assms(5) show ?thesis by (simp add: SeedFromConfig_def transaction_def)
qed

section \<open>Concrete settings\<close>

definition quiet_tx :: tx_env where
  "quiet_tx = \<lparr> tx_begin = None, tx_prepare = None, tx_account = (\<lambda>_. None), tx_proxy = (\<lambda>_. None), tx_setting = (\<lambda>_. None), tx_commit = None \<rparr>"

theorem settings_all_or_nothing_witness:
  "case SetSettings quiet_tx [(''log_level'', ''debug''), (''regions'', ''NL'')] NewConfigStore of
      (None, t) \<Rightarrow> kf_settings t ''regions'' = Some ''NL''
    | (Some _, t) \<Rightarrow> t = NewConfigStore"
  using settings_all_or_nothing [where kvs = "[(''log_level'', ''debug''), (''regions'', ''NL'')]" and e = quiet_tx and s = NewConfigStore]
  by (auto split: prod.split option.split)

end
