(* ===== verification/Manage.thy ===== *)
theory Manage
  imports Store_Laws Proton_Client Proxy_Managers Gateway_Http
begin

text \<open>
  \<^verbatim>\<open>internal/handler/manage.go\<close>: the management API over accounts, external proxies, settings and
  the pool. The handler and the pool hold the same configuration, the pool's. A body arrives
  unreadable, as something that is not JSON, or decoded; a reply is an error envelope or a status
  with what is encoded. What statements and the outside answer is an argument of each handler.
\<close>

section \<open>Requests and replies\<close>

datatype 'a body = Unreadable | Bad_json | Decoded 'a

record account_request =
  rq_username :: string
  rq_password :: string
  rq_cookies :: string
  rq_enabled :: "bool option"

datatype reply_body =
    Accounts_body "account list"
  | Account_body account
  | Deleted_body
  | Proxies_body "proxy_config list"
  | Proxy_body proxy_config
  | Settings_body "(string \<Rightarrow> string option) option"
  | Pool_body pool_stats "proxy_snapshot list"
  | Refreshed_body "string list" pool_stats "proxy_snapshot list"
  | Rotated_body proxy_snapshot pool_stats "proxy_snapshot list"

datatype manage_reply = Reply_error openai_error | Reply_json int reply_body

record manage_state =
  mg_store :: config_store
  mg_pool :: pool

abbreviation mg_cfg :: "manage_state \<Rightarrow> config" where
  "mg_cfg s \<equiv> pm_cfg (mg_pool s)"

definition parseID :: "string \<Rightarrow> int option" where
  "parseID v = (if v = [] then None else atoi v)"

section \<open>Accounts\<close>

definition handleListAccounts :: "string option \<Rightarrow> manage_state \<Rightarrow> manage_reply" where
  "handleListAccounts fault s =
     (case GetAccounts fault (mg_store s) of
        Inl _ \<Rightarrow> Reply_error (writeError 500 ''failed to list accounts'')
      | Inr accounts \<Rightarrow> Reply_json 200 (Accounts_body accounts))"

text \<open>
  \<open>validateProtonVPNAccount\<close>: a client on a fresh store imports the cookies or logs in, then fetches
  the server list. \<open>va_open\<close> is why the store could not be opened.
\<close>

record validate_env =
  va_open :: "string option"
  va_faults :: faults
  va_now :: time
  va_session :: session_env
  va_list :: list_env

definition validateProtonVPNAccount :: "validate_env \<Rightarrow> string \<Rightarrow> string \<Rightarrow> string \<Rightarrow> string option" where
  "validateProtonVPNAccount e username password cookies =
     (case va_open e of
        Some err \<Rightarrow> Some (''failed to create temp store: '' @ err)
      | None \<Rightarrow>
          let c = NewProton NewStore username password;
              (r, c) = (if cookies \<noteq> [] then
                          (case ImportBrowserCookies (va_faults e) (va_now e) cookies c of
                             (r, c) \<Rightarrow> (map_option (\<lambda>err. ''invalid session cookies: '' @ err) r, c))
                        else
                          (case Login (va_session e) username password c of
                             (r, c) \<Rightarrow> (map_option (\<lambda>err. ''invalid credentials: '' @ err) r, c)))
          in case r of
               Some err \<Rightarrow> Some err
             | None \<Rightarrow>
                 (case FetchServerList (va_list e) c of
                    (Inl err, _) \<Rightarrow> Some (''session validation failed (cannot access API): '' @ err)
                  | (Inr _, _) \<Rightarrow> None))"

definition account_created :: "(string + account) \<times> config_store \<Rightarrow> manage_state \<Rightarrow> manage_reply \<times> manage_state" where
  "account_created r s =
     (case r of
        (Inl err, _) \<Rightarrow>
          (Reply_error (if contains err ''UNIQUE''
             then writeErrorParam 409 ''account already exists'' ''username''
             else writeError 500 ''failed to create account''), s)
      | (Inr acct, st) \<Rightarrow> (Reply_json 201 (Account_body acct), s\<lparr> mg_store := st \<rparr>))"

definition handleCreateAccount ::
  "validate_env \<Rightarrow> string option \<Rightarrow> string option \<Rightarrow> account_request body \<Rightarrow> manage_state \<Rightarrow> manage_reply \<times> manage_state" where
  "handleCreateAccount e list_fault insert_fault b s =
     (case b of
        Unreadable \<Rightarrow> (Reply_error (writeError 400 ''failed to read request body''), s)
      | Bad_json \<Rightarrow> (Reply_error (writeError 400 ''invalid JSON''), s)
      | Decoded req \<Rightarrow>
          if trim_space (rq_username req) = [] then
            (Reply_error (writeErrorParam 400 ''username is required'' ''username''), s)
          else
            let enabled = (case rq_enabled req of None \<Rightarrow> True | Some x \<Rightarrow> x)
            in case validateProtonVPNAccount e (rq_username req) (rq_password req) (rq_cookies req) of
                 Some err \<Rightarrow> (Reply_error (writeErrorParam 400 (''account validation failed: '' @ err) ''credentials''), s)
               | None \<Rightarrow>
                   let accounts = (case GetAccounts list_fault (mg_store s) of Inl _ \<Rightarrow> [] | Inr as \<Rightarrow> as);
                       path = (if accounts = [] then ProtonVPNStorePath (mg_cfg s)
                               else ''data/protonvpn_'' @ itoa (int (length accounts) + 1) @ ''.db'')
                   in account_created (CreateAccount insert_fault \<lparr> ua_id = 0, ua_username = trim_space (rq_username req),
                          ua_password = rq_password req, ua_store_path = path, ua_cookies = rq_cookies req,
                          ua_enabled = enabled \<rparr> (mg_store s)) s)"

text \<open>Only what the request gives is changed.\<close>

definition edit_account :: "account_request \<Rightarrow> account \<Rightarrow> account" where
  "edit_account req a =
     (let a = (if rq_username req \<noteq> [] then a\<lparr> ua_username := trim_space (rq_username req) \<rparr> else a);
          a = (if rq_password req \<noteq> [] then a\<lparr> ua_password := rq_password req \<rparr> else a);
          a = (if rq_cookies req \<noteq> [] then a\<lparr> ua_cookies := rq_cookies req \<rparr> else a)
      in case rq_enabled req of None \<Rightarrow> a | Some x \<Rightarrow> a\<lparr> ua_enabled := x \<rparr>)"

definition handleUpdateAccount ::
  "string option \<Rightarrow> string option \<Rightarrow> string \<Rightarrow> account_request body \<Rightarrow> manage_state \<Rightarrow> manage_reply \<times> manage_state" where
  "handleUpdateAccount get_fault update_fault idv b s =
     (case parseID idv of
        None \<Rightarrow> (Reply_error (writeError 400 ''invalid account ID''), s)
      | Some i \<Rightarrow>
          (case b of
             Unreadable \<Rightarrow> (Reply_error (writeError 400 ''failed to read request body''), s)
           | Bad_json \<Rightarrow> (Reply_error (writeError 400 ''invalid JSON''), s)
           | Decoded req \<Rightarrow>
               (case GetAccount get_fault i (mg_store s) of
                  Inl _ \<Rightarrow> (Reply_error (writeError 404 ''account not found''), s)
                | Inr a \<Rightarrow>
                    let a = edit_account req a
                    in case UpdateAccount update_fault a (mg_store s) of
                         (Some _, _) \<Rightarrow> (Reply_error (writeError 500 ''failed to update account''), s)
                       | (None, st) \<Rightarrow> (Reply_json 200 (Account_body a), s\<lparr> mg_store := st \<rparr>))))"

definition handleDeleteAccount :: "string option \<Rightarrow> string \<Rightarrow> manage_state \<Rightarrow> manage_reply \<times> manage_state" where
  "handleDeleteAccount fault idv s =
     (case parseID idv of
        None \<Rightarrow> (Reply_error (writeError 400 ''invalid account ID''), s)
      | Some i \<Rightarrow>
          (case DeleteAccount fault i (mg_store s) of
             (Some _, _) \<Rightarrow> (Reply_error (writeError 500 ''failed to delete account''), s)
           | (None, st) \<Rightarrow> (Reply_json 200 Deleted_body, s\<lparr> mg_store := st \<rparr>)))"

section \<open>Proxies\<close>

definition handleListProxies :: "string option \<Rightarrow> manage_state \<Rightarrow> manage_reply" where
  "handleListProxies fault s =
     (case GetProxies fault (mg_store s) of
        Inl _ \<Rightarrow> Reply_error (writeError 500 ''failed to list proxies'')
      | Inr ps \<Rightarrow> Reply_json 200 (Proxies_body ps))"

text \<open>
  \<open>m\<close> names the manager the pool makes for the address, \<open>health\<close> is the outcome of its check,
  \<open>now\<close> the clock at the creation.
\<close>

record add_env =
  ad_insert :: "string option"
  ad_delete :: "string option"
  ad_now :: time
  ad_manager :: nat
  ad_health :: "string + (bool \<times> string)"

definition add_live :: "add_env \<Rightarrow> string \<Rightarrow> pool \<Rightarrow> (string + proxy) \<times> pool" where
  "add_live e addr pl =
     AddExternalProxy (ad_manager e)
       (fst (ext_CreateEx (ad_now e) (NewExternalProxyManager [addr] (ProtonVPNIPCheckURL (pm_cfg pl)))))
       (ad_health e) addr pl"

text \<open>The row is in the database already; a proxy that cannot be used is taken out again.\<close>

definition proxy_added ::
  "add_env \<Rightarrow> proxy_config \<Rightarrow> (string + proxy) \<times> pool \<Rightarrow> manage_state \<Rightarrow> manage_reply \<times> manage_state" where
  "proxy_added e pc r s =
     (case r of
        (Inl err, pl) \<Rightarrow>
          (Reply_error (writeError 400 (''proxy failed health check: '' @ err)),
           s\<lparr> mg_store := snd (DeleteProxy (ad_delete e) (xp_id pc) (mg_store s)), mg_pool := pl \<rparr>)
      | (Inr _, pl) \<Rightarrow> (Reply_json 201 (Proxy_body pc), s\<lparr> mg_pool := pl \<rparr>))"

definition handleCreateProxy :: "add_env \<Rightarrow> string body \<Rightarrow> manage_state \<Rightarrow> manage_reply \<times> manage_state" where
  "handleCreateProxy e b s =
     (case b of
        Unreadable \<Rightarrow> (Reply_error (writeError 400 ''failed to read request body''), s)
      | Bad_json \<Rightarrow> (Reply_error (writeError 400 ''invalid JSON''), s)
      | Decoded address \<Rightarrow>
          let addr = trim_space address
          in if addr = [] then (Reply_error (writeErrorParam 400 ''address is required'' ''address''), s)
             else (case CreateProxy (ad_insert e) \<lparr> xp_id = 0, xp_address = addr, xp_enabled = True \<rparr> (mg_store s) of
                     (Inl err, _) \<Rightarrow>
                       (Reply_error (if contains err ''UNIQUE''
                          then writeErrorParam 409 ''proxy already exists'' ''address''
                          else writeError 500 ''failed to create proxy''), s)
                   | (Inr pc, st) \<Rightarrow>
                       proxy_added e pc (add_live e addr (mg_pool s)) (s\<lparr> mg_store := st \<rparr>)))"

definition handleDeleteProxy :: "string option \<Rightarrow> string \<Rightarrow> manage_state \<Rightarrow> manage_reply \<times> manage_state" where
  "handleDeleteProxy fault idv s =
     (case parseID idv of
        None \<Rightarrow> (Reply_error (writeError 400 ''invalid proxy ID''), s)
      | Some i \<Rightarrow>
          (case DeleteProxy fault i (mg_store s) of
             (Some _, _) \<Rightarrow> (Reply_error (writeError 500 ''failed to delete proxy''), s)
           | (None, st) \<Rightarrow> (Reply_json 200 Deleted_body, s\<lparr> mg_store := st \<rparr>)))"

section \<open>Settings\<close>

definition handleGetSettings :: "string option \<Rightarrow> manage_state \<Rightarrow> manage_reply" where
  "handleGetSettings fault s =
     (case GetSettings fault (mg_store s) of
        Inl _ \<Rightarrow> Reply_error (writeError 500 ''failed to get settings'')
      | Inr m \<Rightarrow> Reply_json 200 (Settings_body (Some m)))"

text \<open>How the request's value for a key reaches a field of the live configuration.\<close>

definition set_text ::
  "(string \<Rightarrow> string option) \<Rightarrow> string \<Rightarrow> ((string \<Rightarrow> string) \<Rightarrow> config \<Rightarrow> config) \<Rightarrow> config \<Rightarrow> config" where
  "set_text req k upd c = (case req k of Some v \<Rightarrow> if v \<noteq> [] then upd (\<lambda>_. v) c else c | None \<Rightarrow> c)"

definition set_any ::
  "(string \<Rightarrow> string option) \<Rightarrow> string \<Rightarrow> ((string \<Rightarrow> string) \<Rightarrow> config \<Rightarrow> config) \<Rightarrow> config \<Rightarrow> config" where
  "set_any req k upd c = (case req k of Some v \<Rightarrow> upd (\<lambda>_. v) c | None \<Rightarrow> c)"

definition set_duration ::
  "(string \<Rightarrow> string option) \<Rightarrow> string \<Rightarrow> ((duration \<Rightarrow> duration) \<Rightarrow> config \<Rightarrow> config) \<Rightarrow> config \<Rightarrow> config" where
  "set_duration req k upd c =
     (case req k of
        Some v \<Rightarrow> if v \<noteq> [] then (case parse_duration v of Some d \<Rightarrow> upd (\<lambda>_. d) c | None \<Rightarrow> c) else c
      | None \<Rightarrow> c)"

definition set_int ::
  "(string \<Rightarrow> string option) \<Rightarrow> string \<Rightarrow> (int \<Rightarrow> bool) \<Rightarrow> ((int \<Rightarrow> int) \<Rightarrow> config \<Rightarrow> config) \<Rightarrow> config \<Rightarrow> config" where
  "set_int req k ok upd c =
     (case req k of
        Some v \<Rightarrow> (case atoi v of Some n \<Rightarrow> if ok n then upd (\<lambda>_. n) c else c | None \<Rightarrow> c)
      | None \<Rightarrow> c)"

definition set_flag ::
  "(string \<Rightarrow> string option) \<Rightarrow> string \<Rightarrow> ((bool \<Rightarrow> bool) \<Rightarrow> config \<Rightarrow> config) \<Rightarrow> config \<Rightarrow> config" where
  "set_flag req k upd c = (case req k of Some v \<Rightarrow> upd (\<lambda>_. v = ''true'') c | None \<Rightarrow> c)"

definition apply_live :: "(string \<Rightarrow> string option) \<Rightarrow> config \<Rightarrow> config" where
  "apply_live req = run_all
     [set_text req ''upstream_base_url'' UpstreamBaseURL_update,
      set_text req ''upstream_provider'' UpstreamProvider_update,
      set_any req ''model_filter'' ModelFilter_update,
      set_text req ''log_level'' LogLevel_update,
      set_text req ''log_format'' LogFormat_update,
      set_duration req ''request_timeout'' RequestTimeout_update,
      set_int req ''max_retries'' (\<lambda>n. n \<ge> 0 \<and> n \<le> 10) MaxRetries_update,
      set_int req ''max_concurrent'' (\<lambda>n. n \<ge> 1) MaxConcurrent_update,
      set_duration req ''cooldown_duration'' CooldownDuration_update,
      set_duration req ''ip_ban_duration'' IPBanDuration_update,
      set_duration req ''rate_limit_fresh_ip_wait'' RateLimitFreshIPWait_update,
      set_text req ''rate_limit_retry_after'' RateLimitRetryAfter_update,
      set_duration req ''health_check_period'' HealthCheckPeriod_update,
      set_duration req ''sticky_session_ttl'' StickySessionTTL_update,
      set_any req ''regions'' ProtonVPNRegions_update,
      set_any req ''ip_check_url'' ProtonVPNIPCheckURL_update,
      set_flag req ''pow_enabled'' PowEnabled_update,
      set_flag req ''web_search_enabled'' WebSearchEnabled_update,
      set_int req ''web_search_max_results'' (\<lambda>n. n \<ge> 0) WebSearchMaxResults_update,
      set_int req ''web_search_max_rounds'' (\<lambda>n. n \<ge> 0) WebSearchMaxRounds_update]"

text \<open>The pool size goes through the pool, which may have to create proxies: the number to create.\<close>

definition apply_pool_size :: "time \<Rightarrow> (string \<Rightarrow> string option) \<Rightarrow> pool \<Rightarrow> nat \<times> pool" where
  "apply_pool_size now req pl =
     (case req ''pool_size'' of
        Some v \<Rightarrow> (case atoi v of Some n \<Rightarrow> if n \<ge> 1 \<and> n \<le> 20 then SetPoolSize now n pl else (0, pl) | None \<Rightarrow> (0, pl))
      | None \<Rightarrow> (0, pl))"

text \<open>\<open>kvs\<close> is the decoded object, its keys distinct, in the order its iteration takes them.\<close>

definition handleUpdateSettings ::
  "tx_env \<Rightarrow> string option \<Rightarrow> time \<Rightarrow> (string \<times> string) list body \<Rightarrow> manage_state \<Rightarrow> manage_reply \<times> nat \<times> manage_state" where
  "handleUpdateSettings e get_fault now b s =
     (case b of
        Unreadable \<Rightarrow> (Reply_error (writeError 400 ''failed to read request body''), 0, s)
      | Bad_json \<Rightarrow> (Reply_error (writeError 400 ''invalid JSON''), 0, s)
      | Decoded kvs \<Rightarrow>
          (case SetSettings e kvs (mg_store s) of
             (Some _, _) \<Rightarrow> (Reply_error (writeError 500 ''failed to update settings''), 0, s)
           | (None, st) \<Rightarrow>
               let req = map_of kvs;
                   (n, pl) = apply_pool_size now req (mg_pool s);
                   pl = pl\<lparr> pm_cfg := apply_live req (pm_cfg pl) \<rparr>;
                   settings = (case GetSettings get_fault st of Inl _ \<Rightarrow> None | Inr m \<Rightarrow> Some m)
               in (Reply_json 200 (Settings_body settings), n, s\<lparr> mg_store := st, mg_pool := pl \<rparr>)))"

section \<open>The pool\<close>

definition snapshots :: "pool \<Rightarrow> proxy_snapshot list" where
  "snapshots pl = map Snapshot (List_proxies pl)"

definition handleGetPool :: "manage_state \<Rightarrow> manage_reply" where
  "handleGetPool s = Reply_json 200 (Pool_body (Stats (mg_pool s)) (snapshots (mg_pool s)))"

text \<open>\<open>e addr\<close> is what adding the address to the pool meets.\<close>

definition refresh_item ::
  "(string \<Rightarrow> add_env) \<Rightarrow> config \<Rightarrow> string \<Rightarrow> string \<times> nat \<times> (string + proxy) \<times> (string + (bool \<times> string))" where
  "refresh_item e cfg addr =
     (addr, ad_manager (e addr),
      fst (ext_CreateEx (ad_now (e addr)) (NewExternalProxyManager [addr] (ProtonVPNIPCheckURL cfg))), ad_health (e addr))"

definition handleRefreshPool ::
  "string option \<Rightarrow> (string \<Rightarrow> add_env) \<Rightarrow> time \<Rightarrow> manage_state \<Rightarrow> manage_reply \<times> nat \<times> manage_state" where
  "handleRefreshPool fault e now s =
     (case GetProxies fault (mg_store s) of
        Inl _ \<Rightarrow> (Reply_error (writeError 500 ''failed to load proxies from config''), 0, s)
      | Inr cfgs \<Rightarrow>
          let addrs = map xp_address (filter xp_enabled cfgs);
              (failed, n, pl) = RefreshPool now (map (refresh_item e (mg_cfg s)) addrs) (mg_pool s)
          in (Reply_json 200 (Refreshed_body failed (Stats pl) (snapshots pl)), n, s\<lparr> mg_pool := pl \<rparr>))"

definition handleRotatePool :: "create_env \<Rightarrow> manage_state \<Rightarrow> manage_reply \<times> manage_state" where
  "handleRotatePool e s =
     (case ForceRotate e (mg_pool s) of
        (Inl err, pl) \<Rightarrow> (Reply_error (writeError 500 (''rotation failed: '' @ err)), s\<lparr> mg_pool := pl \<rparr>)
      | (Inr p, pl) \<Rightarrow> (Reply_json 200 (Rotated_body (Snapshot p) (Stats pl) (snapshots pl)), s\<lparr> mg_pool := pl \<rparr>))"

section \<open>The operations as data\<close>

datatype manage_op =
    Mg_list_accounts "string option"
  | Mg_create_account validate_env "string option" "string option" "account_request body"
  | Mg_update_account "string option" "string option" string "account_request body"
  | Mg_delete_account "string option" string
  | Mg_list_proxies "string option"
  | Mg_create_proxy add_env "string body"
  | Mg_delete_proxy "string option" string
  | Mg_get_settings "string option"
  | Mg_update_settings tx_env "string option" time "(string \<times> string) list body"
  | Mg_get_pool
  | Mg_refresh "string option" "string \<Rightarrow> add_env" time
  | Mg_rotate create_env

definition without_spawns :: "'r \<times> nat \<times> 's \<Rightarrow> 'r \<times> 's" where
  "without_spawns x = (fst x, snd (snd x))"

primrec manage_step :: "manage_op \<Rightarrow> manage_state \<Rightarrow> manage_reply \<times> manage_state" where
  "manage_step (Mg_list_accounts f) s = (handleListAccounts f s, s)"
| "manage_step (Mg_create_account e f g b) s = handleCreateAccount e f g b s"
| "manage_step (Mg_update_account f g i b) s = handleUpdateAccount f g i b s"
| "manage_step (Mg_delete_account f i) s = handleDeleteAccount f i s"
| "manage_step (Mg_list_proxies f) s = (handleListProxies f s, s)"
| "manage_step (Mg_create_proxy e b) s = handleCreateProxy e b s"
| "manage_step (Mg_delete_proxy f i) s = handleDeleteProxy f i s"
| "manage_step (Mg_get_settings f) s = (handleGetSettings f s, s)"
| "manage_step (Mg_update_settings e f now b) s = without_spawns (handleUpdateSettings e f now b s)"
| "manage_step Mg_get_pool s = (handleGetPool s, s)"
| "manage_step (Mg_refresh f e now) s = without_spawns (handleRefreshPool f e now s)"
| "manage_step (Mg_rotate e) s = handleRotatePool e s"

end
