(* ===== verification/Manage_Laws.thy ===== *)
theory Manage_Laws
  imports Manage Pool_Laws Gateway_Laws
begin

text \<open>
  What the management API promises: the database and the pool stay well formed under any requests,
  errors have the documented shape, adding a proxy is all or nothing, settings seeded from a
  configuration lead back to it; and what it does not: its answers show passwords to anyone, and
  live settings escape the validation of the start.
\<close>

section \<open>Any requests\<close>

definition manage_ok :: "manage_state \<Rightarrow> bool" where
  "manage_ok s \<longleftrightarrow> store_ok (mg_store s) \<and> pool_wf (mg_pool s)"

lemma store_steps:
  "store_ok s \<Longrightarrow> store_ok (snd (CreateAccount f a s))" "store_ok s \<Longrightarrow> store_ok (snd (UpdateAccount f a s))"
  "store_ok s \<Longrightarrow> store_ok (snd (DeleteAccount f i s))" "store_ok s \<Longrightarrow> store_ok (snd (CreateProxy f p s))"
  "store_ok s \<Longrightarrow> store_ok (snd (DeleteProxy f i s))" "store_ok s \<Longrightarrow> store_ok (snd (SetSettings e kvs s))"
  using store_exec_ok [of s "Create_account f a"] store_exec_ok [of s "Update_account f a"]
    store_exec_ok [of s "Delete_account f i"] store_exec_ok [of s "Create_proxy f p"]
    store_exec_ok [of s "Delete_proxy f i"] store_exec_ok [of s "Set_settings e kvs"] by simp_all

lemma store_results:
  assumes "store_ok s"
  shows "CreateAccount f a s = (r, u) \<Longrightarrow> store_ok u" "UpdateAccount f a s = (e, u) \<Longrightarrow> store_ok u"
    "DeleteAccount f i s = (e, u) \<Longrightarrow> store_ok u" "CreateProxy f p s = (q, u) \<Longrightarrow> store_ok u"
    "DeleteProxy f i s = (e, u) \<Longrightarrow> store_ok u" "SetSettings x kvs s = (e, u) \<Longrightarrow> store_ok u"
  using store_steps [OF assms] by (metis snd_conv)+

lemma pool_results:
  assumes "pool_wf pl"
  shows "add_live x addr pl = (r, q) \<Longrightarrow> pool_wf q" "ForceRotate c pl = (r, q) \<Longrightarrow> pool_wf q"
  using wf_external [OF assms] wf_force [OF assms] unfolding add_live_def by (metis snd_conv)+

lemma wf_cfg: "pool_wf pl \<Longrightarrow> pool_wf (pl\<lparr> pm_cfg := c \<rparr>)"
  by (simp add: pool_wf_def)

lemma wf_apply_pool_size: "pool_wf pl \<Longrightarrow> pool_wf (snd (apply_pool_size now req pl))"
  using wf_exec [of pl "P_resize now n" for n]
  by (auto simp: apply_pool_size_def split: option.split)

lemma wf_refresh_external: "pool_wf pl \<Longrightarrow> pool_wf (snd (refresh_external items pl))"
proof (induction items pl rule: refresh_external.induct)
  case (2 addr m created health rest s)
  obtain r u where a: "AddExternalProxy m created health addr s = (r, u)" by fastforce
  have "pool_wf u" using wf_external [OF 2(4), of m created health addr] a by simp
  with 2(1) [OF _ 2(4)] 2(2) [of r u] 2(3) [of r u] \<open>pool_wf u\<close> show ?case
    by (cases r) (simp_all add: a Let_def case_prod_beta)
qed simp

lemma account_created_ok:
  "manage_ok s \<Longrightarrow> store_ok (snd r) \<Longrightarrow> manage_ok (snd (account_created r s))"
  by (auto simp: account_created_def manage_ok_def split: prod.split sum.split)

lemma proxy_added_ok:
  "store_ok (mg_store s) \<Longrightarrow> pool_wf (snd r) \<Longrightarrow> manage_ok (snd (proxy_added e p r s))"
  by (auto simp: proxy_added_def manage_ok_def store_steps split: prod.split sum.split)

lemma manage_keeps_ok: "manage_ok s \<Longrightarrow> manage_ok (snd (manage_step op s))"
proof -
  assume ok: "manage_ok s"
  then have st: "store_ok (mg_store s)" and pl: "pool_wf (mg_pool s)" by (simp_all add: manage_ok_def)
  note results = store_results [OF st] pool_results [OF pl]
  show ?thesis
  proof (cases op)
    case (Mg_create_account e f g b)
    have "manage_ok (snd (account_created (CreateAccount g a (mg_store s)) s))" for a
      using account_created_ok [OF ok store_steps(1) [OF st]] .
    with Mg_create_account ok show ?thesis
      by (simp add: handleCreateAccount_def Let_def split: body.split option.split)
  next
    case (Mg_update_account f g i b)
    with ok pl show ?thesis
      by (auto simp: handleUpdateAccount_def manage_ok_def Let_def dest: results
          split: body.split option.split sum.split prod.split)
  next
    case (Mg_delete_account f i)
    with ok pl show ?thesis
      by (auto simp: handleDeleteAccount_def manage_ok_def dest: results split: option.split prod.split)
  next
    case (Mg_delete_proxy f i)
    with ok pl show ?thesis
      by (auto simp: handleDeleteProxy_def manage_ok_def dest: results split: option.split prod.split)
  next
    case (Mg_create_proxy e b)
    have "manage_ok (snd (proxy_added e p (add_live e addr (mg_pool s)) (s\<lparr> mg_store := u \<rparr>)))" if "store_ok u" for p addr u
      using that wf_external [OF pl] by (intro proxy_added_ok) (simp_all add: add_live_def)
    with Mg_create_proxy ok show ?thesis
      by (auto simp: handleCreateProxy_def Let_def dest: results split: body.split sum.split prod.split)
  next
    case (Mg_update_settings e f now b)
    have "apply_pool_size now req (mg_pool s) = (n, q) \<Longrightarrow> pool_wf q" for req n q
      using wf_apply_pool_size [OF pl, of now req] by simp
    with Mg_update_settings ok show ?thesis
      by (auto simp: handleUpdateSettings_def without_spawns_def manage_ok_def Let_def dest: results intro!: wf_cfg
          split: body.split option.split prod.split)
  next
    case (Mg_refresh f e now)
    have "pool_wf (snd (snd (RefreshPool now items (mg_pool s))))" for items
      using wf_ensure [OF wf_refresh_external [OF pl], of now items]
      by (simp add: RefreshPool_def Let_def case_prod_beta)
    with st pl Mg_refresh show ?thesis
      by (auto simp: handleRefreshPool_def without_spawns_def manage_ok_def Let_def case_prod_beta split: sum.split)
  next
    case (Mg_rotate e)
    with ok pl show ?thesis
      by (auto simp: handleRotatePool_def manage_ok_def dest: results split: sum.split prod.split)
  qed (use ok in simp_all)
qed

interpretation manage: invariant_ops "\<lambda>op s. snd (manage_step op s)" manage_ok
  by unfold_locales (rule manage_keeps_ok)

text \<open>
  Under any sequence of management requests, whatever statements, checks and creations fail, the
  database stays well formed and the pool's proxies keep distinct identifiers.
\<close>

lemma manage_always_ok:
  "manage_ok (fold (\<lambda>op s. snd (manage_step op s)) ops
     \<lparr> mg_store = NewConfigStore, mg_pool = NewPoolManagerWithManager has_mgr cfg \<rparr>)"
  by (rule manage.run_inv)
     (simp add: manage_ok_def store_ok_def table_ok_def NewConfigStore_def pool_wf_def NewPoolManagerWithManager_def)

section \<open>Accounts\<close>

text \<open>The row of an identifier, and the requests that change or drop the row of an identifier.\<close>

definition account_of :: "int \<Rightarrow> manage_state \<Rightarrow> account option" where
  "account_of i s = find (\<lambda>a. ua_id a = i) (kf_accounts (mg_store s))"

definition touches :: "int \<Rightarrow> manage_op \<Rightarrow> bool" where
  "touches i op = (case op of
     Mg_update_account f g idv b \<Rightarrow> parseID idv = Some i
   | Mg_delete_account f idv \<Rightarrow> parseID idv = Some i
   | _ \<Rightarrow> False)"

text \<open>What a row is after a request that was answered with it, field by field.\<close>

definition row_asked :: "account_request \<Rightarrow> account \<Rightarrow> account \<Rightarrow> bool" where
  "row_asked req old a \<longleftrightarrow> ua_id a = ua_id old \<and> ua_store_path a = ua_store_path old
     \<and> ua_username a = (if rq_username req = [] then ua_username old else trim_space (rq_username req))
     \<and> ua_password a = (if rq_password req = [] then ua_password old else rq_password req)
     \<and> ua_cookies a = (if rq_cookies req = [] then ua_cookies old else rq_cookies req)
     \<and> ua_enabled a = (case rq_enabled req of None \<Rightarrow> ua_enabled old | Some x \<Rightarrow> x)"

definition row_created :: "account_request \<Rightarrow> account \<Rightarrow> bool" where
  "row_created req a \<longleftrightarrow> ua_username a = trim_space (rq_username req) \<and> ua_username a \<noteq> []
     \<and> ua_password a = rq_password req \<and> ua_cookies a = rq_cookies req
     \<and> ua_enabled a = (case rq_enabled req of None \<Rightarrow> True | Some x \<Rightarrow> x)"

lemma row_asked_edit: "row_asked req old (edit_account req old)"
  by (simp add: row_asked_def edit_account_def Let_def split: option.split)

lemma find_map_other:
  "(\<And>a. rid (f a) = rid a) \<Longrightarrow> (\<And>a. rid a = i \<Longrightarrow> f a = a) \<Longrightarrow> find (\<lambda>a. rid a = i) (map f xs) = find (\<lambda>a. rid a = i) xs"
  by (induction xs) auto

lemma find_filter_other:
  "(\<And>a. rid a = i \<Longrightarrow> P a) \<Longrightarrow> find (\<lambda>a. rid a = i) (filter P xs) = find (\<lambda>a. rid a = i) xs"
  by (induction xs) auto

lemma find_append: "find P (xs @ ys) = (case find P xs of None \<Rightarrow> find P ys | Some x \<Rightarrow> Some x)"
  by (induction xs) auto

lemma find_map_same:
  "find (\<lambda>a. rid a = rid b) xs \<noteq> None \<Longrightarrow> find (\<lambda>a. rid a = rid b) (map (\<lambda>a. if rid a = rid b then b else a) xs) = Some b"
  by (induction xs) auto

lemma CreateAccount_result:
  assumes "CreateAccount f x st = (Inr a, u)"
  shows "a = x\<lparr> ua_id := kf_account_seq st + 1 \<rparr> \<and> kf_accounts u = kf_accounts st @ [a]
    \<and> kf_proxies u = kf_proxies st \<and> kf_settings u = kf_settings st
    \<and> ua_username a \<notin> ua_username ` set (kf_accounts st)"
  using assms by (auto simp: CreateAccount_def insert_account_def Let_def split: option.splits if_splits)

lemma UpdateAccount_result:
  assumes "UpdateAccount f a st = (None, u)"
  shows "kf_accounts u = map (\<lambda>b. if ua_id b = ua_id a then a else b) (kf_accounts st)
    \<and> kf_proxies u = kf_proxies st \<and> kf_settings u = kf_settings st"
  using assms by (auto simp: UpdateAccount_def split: option.splits if_splits)

lemma create_account_cases:
  assumes "handleCreateAccount e lf f b s = (reply, t)"
  shows "(\<exists>err. reply = Reply_error err \<and> t = s)
    \<or> (\<exists>req x a u. b = Decoded req \<and> CreateAccount f x (mg_store s) = (Inr a, u) \<and> row_created req x
         \<and> validateProtonVPNAccount e (rq_username req) (rq_password req) (rq_cookies req) = None
         \<and> reply = Reply_json 201 (Account_body a) \<and> t = s\<lparr> mg_store := u \<rparr>)"
proof (cases "\<exists>req. b = Decoded req \<and> trim_space (rq_username req) \<noteq> []
    \<and> validateProtonVPNAccount e (rq_username req) (rq_password req) (rq_cookies req) = None")
  case True
  then obtain req where b: "b = Decoded req" "trim_space (rq_username req) \<noteq> []"
    "validateProtonVPNAccount e (rq_username req) (rq_password req) (rq_cookies req) = None" by blast
  then have "\<exists>x. row_created req x \<and> handleCreateAccount e lf f b s = account_created (CreateAccount f x (mg_store s)) s"
    by (simp add: handleCreateAccount_def Let_def) (force simp: row_created_def)
  then obtain x where x: "row_created req x" "account_created (CreateAccount f x (mg_store s)) s = (reply, t)"
    using assms by auto
  then show ?thesis using b
    by (cases "CreateAccount f x (mg_store s)") (auto simp: account_created_def split: sum.splits)
next
  case False
  with assms show ?thesis
    by (auto simp: handleCreateAccount_def Let_def split: body.splits if_splits option.splits)
qed

lemma update_account_cases:
  assumes "handleUpdateAccount gf f idv b s = (reply, t)"
  shows "(\<exists>err. reply = Reply_error err \<and> t = s)
    \<or> (\<exists>req i old u. b = Decoded req \<and> parseID idv = Some i \<and> account_of i s = Some old
         \<and> UpdateAccount f (edit_account req old) (mg_store s) = (None, u)
         \<and> reply = Reply_json 200 (Account_body (edit_account req old)) \<and> t = s\<lparr> mg_store := u \<rparr>)"
  using assms
  by (auto simp: handleUpdateAccount_def GetAccount_def account_of_def Let_def
      split: body.splits option.splits sum.splits prod.splits)

lemma account_id: "account_of i s = Some a \<Longrightarrow> ua_id a = i"
  by (auto simp: account_of_def find_Some_iff)

text \<open>Requests about proxies, settings and the pool leave the accounts alone.\<close>

lemma proxy_added_accounts:
  "kf_accounts (mg_store (snd (proxy_added e p r s))) = kf_accounts (mg_store s)"
  by (auto simp: proxy_added_def DeleteProxy_def split: prod.split sum.split option.split)

lemma CreateProxy_accounts: "kf_accounts (snd (CreateProxy f p st)) = kf_accounts st"
  by (auto simp: CreateProxy_def insert_proxy_def Let_def split: option.split sum.split)

lemma SetSettings_accounts: "kf_accounts (snd (SetSettings e kvs st)) = kf_accounts st"
proof -
  have "list_all (keeps (\<lambda>t. kf_accounts t = kf_accounts st))
      (prepared (tx_prepare e) # map (\<lambda>(k, v). put_setting (tx_setting e k) k v) kvs)"
    by (auto simp: list_all_iff) (auto simp: keeps_def put_setting_def split: option.splits)
  from transaction_keeps [OF this refl] show ?thesis by (simp add: SetSettings_def)
qed

lemma accounts_reply:
  assumes "\<And>e lf f b. op \<noteq> Mg_create_account e lf f b" "\<And>gf f i b. op \<noteq> Mg_update_account gf f i b"
  shows "fst (manage_step op s) \<noteq> Reply_json st (Account_body a)"
  using assms
  by (cases op) (auto simp: handleListAccounts_def handleDeleteAccount_def handleListProxies_def handleDeleteProxy_def
      handleCreateProxy_def proxy_added_def handleGetSettings_def handleUpdateSettings_def handleGetPool_def
      handleRefreshPool_def handleRotatePool_def without_spawns_def Let_def case_prod_beta
      split: sum.split option.split body.split prod.split)

lemma other_accounts:
  assumes "\<And>e lf f b. op \<noteq> Mg_create_account e lf f b" "\<And>gf f i b. op \<noteq> Mg_update_account gf f i b"
    "\<And>f i. op \<noteq> Mg_delete_account f i"
  shows "kf_accounts (mg_store (snd (manage_step op s))) = kf_accounts (mg_store s)"
proof (cases op)
  case (Mg_create_proxy e b)
  have "kf_accounts u = kf_accounts (mg_store s)" if "CreateProxy f p (mg_store s) = (r, u)" for f p r u
    using CreateProxy_accounts that by (metis snd_conv)
  then show ?thesis
    by (auto simp: Mg_create_proxy handleCreateProxy_def proxy_added_accounts Let_def
        split: body.split sum.split prod.split)
next
  case (Mg_update_settings e f now b)
  then show ?thesis
    by (auto simp: handleUpdateSettings_def without_spawns_def Let_def case_prod_beta SetSettings_accounts
        split: body.split option.split)
qed (use assms in \<open>auto simp: handleDeleteProxy_def DeleteProxy_def handleRefreshPool_def handleRotatePool_def
    without_spawns_def Let_def case_prod_beta split: option.split sum.split prod.split\<close>)

lemma account_kept:
  assumes "\<not> touches i op" "account_of i s = Some a"
  shows "account_of i (snd (manage_step op s)) = Some a"
proof (cases op)
  case (Mg_create_account e lf f b)
  obtain reply t where r: "handleCreateAccount e lf f b s = (reply, t)" by fastforce
  from create_account_cases [OF r] show ?thesis
  proof (elim disjE exE conjE)
    fix req x a' u
    assume c: "CreateAccount f x (mg_store s) = (Inr a', u)" and t: "t = s\<lparr> mg_store := u \<rparr>"
    from CreateAccount_result [OF c] assms(2) show ?thesis
      by (simp add: Mg_create_account r t account_of_def find_append)
  qed (simp add: Mg_create_account r assms(2))
next
  case (Mg_update_account gf f idv b)
  obtain reply t where r: "handleUpdateAccount gf f idv b s = (reply, t)" by fastforce
  from update_account_cases [OF r] show ?thesis
  proof (elim disjE exE conjE)
    fix req j old u
    assume i: "parseID idv = Some j" "account_of j s = Some old"
      and u: "UpdateAccount f (edit_account req old) (mg_store s) = (None, u)" and t: "t = s\<lparr> mg_store := u \<rparr>"
    have "ua_id (edit_account req old) \<noteq> i"
      using account_id [OF i(2)] row_asked_edit [of req old] assms(1) i(1) Mg_update_account
      by (simp add: row_asked_def touches_def)
    with UpdateAccount_result [OF u] assms(2) show ?thesis
      by (simp add: Mg_update_account r t account_of_def find_map_other [of ua_id])
  qed (simp add: Mg_update_account r assms(2))
next
  case (Mg_delete_account f idv)
  with assms show ?thesis
    by (auto simp: handleDeleteAccount_def DeleteAccount_def account_of_def touches_def
        find_filter_other [of ua_id] split: option.split prod.split)
qed (use assms(2) in \<open>simp_all add: account_of_def other_accounts del: manage_step.simps\<close>)

lemma account_kept_run:
  "\<forall>op \<in> set ops. \<not> touches i op \<Longrightarrow> account_of i s = Some a \<Longrightarrow>
     account_of i (fold (\<lambda>op s. snd (manage_step op s)) ops s) = Some a"
  by (induction ops arbitrary: s) (simp_all add: account_kept del: manage_step.simps)

lemma create_account_exact:
  assumes "store_ok (mg_store s)" "handleCreateAccount e lf f b s = (Reply_json st (Account_body a), t)"
  shows "st = 201 \<and> (\<exists>req. b = Decoded req \<and> row_created req a
        \<and> validateProtonVPNAccount e (rq_username req) (rq_password req) (rq_cookies req) = None)
    \<and> account_of (ua_id a) s = None \<and> kf_accounts (mg_store t) = kf_accounts (mg_store s) @ [a]
    \<and> mg_pool t = mg_pool s \<and> account_of (ua_id a) t = Some a"
proof -
  from create_account_cases [OF assms(2)] obtain req x u where b: "b = Decoded req" "row_created req x" "st = 201"
      "t = s\<lparr> mg_store := u \<rparr>" and c: "CreateAccount f x (mg_store s) = (Inr a, u)"
      and v: "validateProtonVPNAccount e (rq_username req) (rq_password req) (rq_cookies req) = None" by auto
  note r = CreateAccount_result [OF c]
  have n: "account_of (ua_id a) s = None"
    using assms(1) r by (auto simp: account_of_def find_None_iff store_ok_def table_ok_def)
  moreover have "row_created req a" using b(2) r unfolding row_created_def by auto
  ultimately show ?thesis
    using b(1,3,4) v r n by (auto simp: account_of_def find_append)
qed

lemma update_account_exact:
  assumes "handleUpdateAccount gf f idv b s = (Reply_json st (Account_body a), t)"
  shows "st = 200 \<and> parseID idv = Some (ua_id a)
    \<and> (\<exists>req old. b = Decoded req \<and> account_of (ua_id a) s = Some old \<and> row_asked req old a)
    \<and> kf_accounts (mg_store t) = map (\<lambda>r. if ua_id r = ua_id a then a else r) (kf_accounts (mg_store s))
    \<and> mg_pool t = mg_pool s \<and> account_of (ua_id a) t = Some a"
proof -
  from update_account_cases [OF assms] obtain req i old u where b: "b = Decoded req" "parseID idv = Some i"
      "account_of i s = Some old" "st = 200" "t = s\<lparr> mg_store := u \<rparr>" "a = edit_account req old"
      and u: "UpdateAccount f (edit_account req old) (mg_store s) = (None, u)" by auto
  have i: "ua_id a = i" "row_asked req old a"
    using row_asked_edit [of req old] account_id [OF b(3)] b(6) by (auto simp: row_asked_def)
  with UpdateAccount_result [OF u] b show ?thesis
    by (auto simp: account_of_def intro!: find_map_same)
qed

text \<open>
  C19: Accounts are exactly what the API answered. A refused request of any kind leaves every
  account as it was. A request answered with an account was one to create it or to update it: a
  created one has the fields asked for, credentials that passed validation, an identifier nobody had, and
  goes after the others; an update changed the row of the identifier in the path, in the fields the request gives
  and in no other, and no other row. A deletion drops the rows of its identifier, and nothing
  else touches accounts. And the account answered is the one found under its identifier after any further requests
  of any kind, until one names that identifier to update or delete it.
\<close>

theorem accounts_as_answered:
  assumes "store_ok (mg_store s)" "manage_step op s = (reply, t)"
  shows "case reply of
      Reply_error _ \<Rightarrow> kf_accounts (mg_store t) = kf_accounts (mg_store s)
    | Reply_json st (Account_body a) \<Rightarrow>
        (case op of
           Mg_create_account e lf f (Decoded req) \<Rightarrow> st = 201 \<and> row_created req a
             \<and> validateProtonVPNAccount e (rq_username req) (rq_password req) (rq_cookies req) = None
             \<and> account_of (ua_id a) s = None \<and> kf_accounts (mg_store t) = kf_accounts (mg_store s) @ [a]
         | Mg_update_account gf f idv (Decoded req) \<Rightarrow> st = 200 \<and> parseID idv = Some (ua_id a)
             \<and> (\<exists>old. account_of (ua_id a) s = Some old \<and> row_asked req old a)
             \<and> kf_accounts (mg_store t) = map (\<lambda>r. if ua_id r = ua_id a then a else r) (kf_accounts (mg_store s))
         | _ \<Rightarrow> False)
        \<and> mg_pool t = mg_pool s
        \<and> (\<forall>ops. (\<forall>op \<in> set ops. \<not> touches (ua_id a) op) \<longrightarrow>
             account_of (ua_id a) (fold (\<lambda>op s. snd (manage_step op s)) ops t) = Some a)
    | Reply_json st _ \<Rightarrow>
        kf_accounts (mg_store t) = filter (\<lambda>r. \<not> (case op of Mg_delete_account f idv \<Rightarrow> parseID idv = Some (ua_id r) | _ \<Rightarrow> False))
          (kf_accounts (mg_store s))"
proof (cases op)
  case (Mg_create_account e lf f b)
  with assms(2) have r: "handleCreateAccount e lf f b s = (reply, t)" by simp
  from create_account_cases [OF r] show ?thesis
  proof (elim disjE exE conjE)
    fix req x a u
    assume "reply = Reply_json 201 (Account_body a)"
    with create_account_exact [OF assms(1) r [unfolded this]] Mg_create_account account_kept_run show ?thesis by auto
  qed simp
next
  case (Mg_update_account gf f idv b)
  with assms(2) have r: "handleUpdateAccount gf f idv b s = (reply, t)" by simp
  from update_account_cases [OF r] show ?thesis
  proof (elim disjE exE conjE)
    fix req i old u
    assume "reply = Reply_json 200 (Account_body (edit_account req old))"
    with update_account_exact [OF r [unfolded this]] Mg_update_account account_kept_run show ?thesis by auto
  qed simp
next
  case (Mg_delete_account f idv)
  with assms(2) show ?thesis
    by (auto simp: handleDeleteAccount_def DeleteAccount_def split: option.splits prod.splits intro!: filter_cong)
qed (use assms(2) other_accounts [of op s] accounts_reply [of op s] in \<open>auto simp del: manage_step.simps
    split: manage_reply.split reply_body.split\<close>)

section \<open>Replies\<close>

definition reply_typed :: "manage_reply \<Rightarrow> bool" where
  "reply_typed r =
     (case r of
        Reply_error e \<Rightarrow> oe_status e \<in> {400, 404, 409, 500} \<and> oe_type e = openaiErrorType (oe_status e)
          \<and> oe_type e \<in> {''invalid_request_error'', ''server_error''} \<and> oe_message e \<noteq> [] \<and> oe_code e = None
      | Reply_json status b \<Rightarrow> status = 200 \<or> status = 201 \<and> (case b of Account_body _ \<Rightarrow> True | Proxy_body _ \<Rightarrow> True | _ \<Rightarrow> False))"

lemma typed_error [simp]: "st \<in> {400, 404, 500} \<Longrightarrow> msg \<noteq> [] \<Longrightarrow> reply_typed (Reply_error (writeError st msg))"
  by (auto simp: reply_typed_def writeError_def writeOpenAIError_def openaiErrorType_def)

lemma typed_error_param [simp]:
  "st = 400 \<Longrightarrow> msg \<noteq> [] \<Longrightarrow> reply_typed (Reply_error (writeErrorParam st msg par))"
  by (auto simp: reply_typed_def writeErrorParam_def writeOpenAIError_def openaiErrorType_def)

lemma typed_json [simp]: "reply_typed (Reply_json 200 b)" "reply_typed (Reply_json 201 (Account_body a))"
  "reply_typed (Reply_json 201 (Proxy_body p))"
  by (simp_all add: reply_typed_def)

lemma typed_conflict [simp]: "msg \<noteq> [] \<Longrightarrow> reply_typed (Reply_error (writeErrorParam 409 msg par))"
  by (auto simp: reply_typed_def writeErrorParam_def writeOpenAIError_def openaiErrorType_def)

lemma account_created_typed: "reply_typed (fst (account_created r s))"
  by (auto simp: account_created_def split: prod.split sum.split)

lemma proxy_added_typed: "reply_typed (fst (proxy_added e p r s))"
  by (auto simp: proxy_added_def split: prod.split sum.split)

text \<open>
  Every reply of the management API is well typed, whatever the request and whatever fails: an error
  is a client's mistake or the server's, its type is the one documented for its status, it carries a
  message and no code; a success is 200, or 201 with the thing created.
\<close>

lemma manage_replies_typed: "reply_typed (fst (manage_step op s))"
proof (cases op)
  case (Mg_create_account e f g b)
  then show ?thesis
    by (simp add: handleCreateAccount_def Let_def account_created_typed split: body.split option.split)
next
  case (Mg_create_proxy e b)
  then show ?thesis
    by (simp add: handleCreateProxy_def Let_def proxy_added_typed split: body.split prod.split sum.split)
next
  case (Mg_update_account f g i b)
  then show ?thesis
    by (simp add: handleUpdateAccount_def Let_def split: body.split option.split prod.split sum.split)
qed (auto simp: handleListAccounts_def handleDeleteAccount_def handleListProxies_def handleDeleteProxy_def
    handleGetSettings_def handleUpdateSettings_def handleGetPool_def handleRefreshPool_def handleRotatePool_def
    without_spawns_def Let_def case_prod_beta split: sum.split option.split body.split prod.split)

section \<open>Adding a proxy\<close>

lemma insert_then_delete:
  assumes "store_ok st" "CreateProxy f p st = (Inr pc, u)"
  shows "snd (DeleteProxy None (xp_id pc) u) = st\<lparr> kf_proxy_seq := kf_proxy_seq st + 1 \<rparr>"
proof -
  have u: "xp_id pc = kf_proxy_seq st + 1"
    "u = st\<lparr> kf_proxies := kf_proxies st @ [p\<lparr> xp_id := kf_proxy_seq st + 1 \<rparr>], kf_proxy_seq := kf_proxy_seq st + 1 \<rparr>"
    using assms(2) by (auto simp: CreateProxy_def insert_proxy_def Let_def split: if_splits option.splits)
  have "\<forall>q \<in> set (kf_proxies st). xp_id q \<noteq> kf_proxy_seq st + 1"
    using assms(1) by (auto simp: store_ok_def table_ok_def)
  then have "filter (\<lambda>q. xp_id q \<noteq> kf_proxy_seq st + 1) (kf_proxies st) = kf_proxies st" by (simp add: filter_id_conv)
  with u show ?thesis by (simp add: DeleteProxy_def)
qed

lemma add_live_result:
  "add_live e addr pl = (r, q) \<Longrightarrow>
     (case r of Inl _ \<Rightarrow> q = pl | Inr p \<Rightarrow> px_addr p = addr \<and> p \<in> set (pm_pool q))"
  by (auto simp: add_live_def AddExternalProxy_def ext_CreateEx_def NewExternalProxyManager_def SetManager_def
      signal_def pool_insert_def Let_def split: sum.splits prod.splits if_splits)

text \<open>
  C20: Adding an external proxy is all or nothing: when it is answered with 201 its address is both in
  the database and in the running pool; when it is refused, for whatever reason, the rows of the
  database and the whole pool are as before (the statement that takes the row back succeeding).
\<close>

theorem create_proxy_all_or_nothing:
  assumes "store_ok (mg_store s)" "ad_delete e = None"
  shows "case handleCreateProxy e b s of
      (Reply_error _, t) \<Rightarrow> kf_proxies (mg_store t) = kf_proxies (mg_store s) \<and> mg_pool t = mg_pool s
        \<and> kf_accounts (mg_store t) = kf_accounts (mg_store s) \<and> kf_settings (mg_store t) = kf_settings (mg_store s)
    | (Reply_json status _, t) \<Rightarrow> status = 201
        \<and> (\<exists>p addr. b = Decoded addr \<and> p \<in> set (pm_pool (mg_pool t)) \<and> px_addr p = trim_space addr
             \<and> trim_space addr \<in> xp_address ` set (kf_proxies (mg_store t)))"
proof (cases b)
  case (Decoded addr)
  define a where "a = trim_space addr"
  show ?thesis
  proof (cases "a = []")
    case True
    with Decoded show ?thesis by (simp add: handleCreateProxy_def Let_def a_def)
  next
    case False
    let ?p = "\<lparr> xp_id = 0, xp_address = a, xp_enabled = True \<rparr>"
    obtain r u where c: "CreateProxy (ad_insert e) ?p (mg_store s) = (r, u)" by fastforce
    show ?thesis
    proof (cases r)
      case (Inl err)
      with c Decoded False assms show ?thesis by (simp add: handleCreateProxy_def Let_def flip: a_def)
    next
      case (Inr pc)
      obtain v q where v: "add_live e a (mg_pool s) = (v, q)" by fastforce
      have h: "handleCreateProxy e b s = proxy_added e pc (v, q) (s\<lparr> mg_store := u \<rparr>)"
        using c v Inr Decoded False assms by (simp add: handleCreateProxy_def Let_def flip: a_def)
      have row: "a \<in> xp_address ` set (kf_proxies u)"
        using c Inr by (auto simp: CreateProxy_def insert_proxy_def Let_def split: if_splits option.splits)
      from insert_then_delete [OF assms(1) c [unfolded Inr]] add_live_result [OF v] row assms(2) show ?thesis
        unfolding h by (cases v) (auto simp: proxy_added_def a_def Decoded)
    qed
  qed
qed (simp_all add: handleCreateProxy_def)

section \<open>Secrets\<close>

text \<open>
  Passwords of accounts can be read by anyone who reaches the port: whatever keys the gateway has and
  whatever the caller presents, listing the accounts is dispatched, and once an account has been
  created the list shows the password it was created with.
\<close>

theorem passwords_readable:
  assumes "hr_method r = ''GET''" "hr_path r = ''/api/manage/accounts''"
    and "handleCreateAccount e f g (Decoded req) s = (Reply_json 201 (Account_body a), t)"
  shows "serve_request hs ke True r h = (Dispatched (Manage_api ''GET'' ''/api/manage/accounts''), h)
    \<and> (\<exists>as. handleListAccounts None t = Reply_json 200 (Accounts_body as) \<and> a \<in> set as
          \<and> ua_password a = rq_password req)"
proof -
  have "\<not> has_prefix ''/api/manage/accounts'' ''/v1/''" "path_id ''/v1/models/'' ''/api/manage/accounts'' = None"
    by (simp_all add: has_prefix_def path_id_def)
  with assms(1,2) have d: "serve_request hs ke True r h = (Dispatched (Manage_api ''GET'' ''/api/manage/accounts''), h)"
    by (simp add: serve_request_def gatewayAuth_def mux_def mux_match_def manage_match_def method_is_def
        cleanPath_manage Let_def)
  from assms(3) obtain acct u where c: "CreateAccount g acct (mg_store s) = (Inr a, u)" "t = s\<lparr> mg_store := u \<rparr>"
      "ua_password acct = rq_password req"
    by (auto simp: handleCreateAccount_def account_created_def Let_def split: if_splits option.splits prod.splits sum.splits)
  then have "a \<in> set (kf_accounts u)" "ua_password a = rq_password req"
    by (auto simp: CreateAccount_def insert_account_def Let_def split: option.splits if_splits sum.splits)
  with d c(2) show ?thesis by (simp add: handleListAccounts_def GetAccounts_def)
qed

section \<open>A concrete proxy\<close>

definition demo_add :: add_env where
  "demo_add = \<lparr> ad_insert = None, ad_delete = None, ad_now = 0, ad_manager = 1, ad_health = Inr (True, ''10.0.0.9'') \<rparr>"

definition demo_manage :: manage_state where
  "demo_manage = \<lparr> mg_store = NewConfigStore, mg_pool = NewPoolManagerWithManager True DefaultConfig \<rparr>"

theorem create_proxy_all_or_nothing_witness:
  "''h:1'' \<in> xp_address ` set (kf_proxies (mg_store (snd (handleCreateProxy demo_add (Decoded ''h:1'') demo_manage))))"
proof -
  have ok: "store_ok (mg_store demo_manage)"
    by (simp add: demo_manage_def store_ok_def table_ok_def NewConfigStore_def)
  have t: "trim_space ''h:1'' = ''h:1''" by code_simp
  have r: "\<exists>st b. fst (handleCreateProxy demo_add (Decoded ''h:1'') demo_manage) = Reply_json st b"
    by (simp add: handleCreateProxy_def Let_def t CreateProxy_def insert_proxy_def demo_add_def demo_manage_def NewConfigStore_def
        proxy_added_def add_live_def AddExternalProxy_def ext_CreateEx_def NewExternalProxyManager_def split: prod.split sum.split)
  then obtain st b u where "handleCreateProxy demo_add (Decoded ''h:1'') demo_manage = (Reply_json st b, u)"
    by (cases "handleCreateProxy demo_add (Decoded ''h:1'') demo_manage") auto
  with create_proxy_all_or_nothing [OF ok, of demo_add "Decoded ''h:1''"] t show ?thesis
    by (auto simp: demo_add_def)
qed

text \<open>
  An account is created, then renamed and given a password by an update that leaves its cookies and its
  state alone; a request for the pool changes nothing of it.
\<close>

definition demo_account :: account where
  "demo_account = \<lparr> ua_id = 1, ua_username = ''u'', ua_password = ''p'', ua_store_path = ''x.db'', ua_cookies = ''c'',
     ua_enabled = True \<rparr>"

definition demo_accounts :: manage_state where
  "demo_accounts = demo_manage\<lparr> mg_store := NewConfigStore\<lparr> kf_accounts := [demo_account,
     demo_account\<lparr> ua_id := 2, ua_username := ''w'' \<rparr>], kf_account_seq := 2 \<rparr> \<rparr>"

definition demo_account_request :: account_request where
  "demo_account_request = \<lparr> rq_username = ''v'', rq_password = ''q'', rq_cookies = [], rq_enabled = None \<rparr>"

theorem accounts_as_answered_witness:
  "account_of 1 (fold (\<lambda>op s. snd (manage_step op s)) [Mg_get_pool, Mg_delete_account None ''2'']
      (snd (handleUpdateAccount None None ''1'' (Decoded demo_account_request) demo_accounts)))
    = Some (demo_account\<lparr> ua_username := ''v'', ua_password := ''q'' \<rparr>)"
proof -
  have t: "trim_space ''v'' = ''v''" "parseID ''1'' = Some 1" "parseID ''2'' = Some 2" by code_simp+
  define u where "u = snd (handleUpdateAccount None None ''1'' (Decoded demo_account_request) demo_accounts)"
  have "handleUpdateAccount None None ''1'' (Decoded demo_account_request) demo_accounts
      = (Reply_json 200 (Account_body (demo_account\<lparr> ua_username := ''v'', ua_password := ''q'' \<rparr>)), u)"
    by (simp add: u_def handleUpdateAccount_def t demo_accounts_def demo_manage_def demo_account_def demo_account_request_def
        NewConfigStore_def GetAccount_def UpdateAccount_def edit_account_def Let_def) auto
  then have m: "manage_step (Mg_update_account None None ''1'' (Decoded demo_account_request)) demo_accounts
      = (Reply_json 200 (Account_body (demo_account\<lparr> ua_username := ''v'', ua_password := ''q'' \<rparr>)), u)" by simp
  have ok: "store_ok (mg_store demo_accounts)"
    by (simp add: demo_accounts_def demo_manage_def store_ok_def table_ok_def NewConfigStore_def demo_account_def)
  have "\<forall>op \<in> set [Mg_get_pool, Mg_delete_account None ''2'']. \<not> touches 1 op" by (simp add: touches_def t)
  with accounts_as_answered [OF ok m] show ?thesis
    by (simp add: u_def [symmetric] demo_account_def del: fold.simps)
qed

end
