(* ===== verification/Settings_Laws.thy ===== *)
theory Settings_Laws
  imports Manage_Laws
begin

text \<open>
  Settings: what is seeded from a configuration leads back to it, updates keep the counters of the
  live configuration in their documented bounds, durations escape the validation of the start, and
  what is refused is stored and shown all the same.
\<close>

section \<open>From a configuration to settings and back\<close>







section \<open>Bounds of the live configuration\<close>

definition live_bounds :: "config \<Rightarrow> bool" where
  "live_bounds c \<longleftrightarrow> 0 \<le> MaxRetries c \<and> MaxRetries c \<le> 10 \<and> 1 \<le> MaxConcurrent c
     \<and> 1 \<le> ProxyPoolSize c \<and> ProxyPoolSize c \<le> 20 \<and> UpstreamBaseURL c \<noteq> []
     \<and> UpstreamProvider c \<noteq> [] \<and> LogLevel c \<noteq> [] \<and> LogFormat c \<noteq> []"

definition keeps_bounds :: "(config \<Rightarrow> config) \<Rightarrow> bool" where
  "keeps_bounds f \<longleftrightarrow> (\<forall>c. live_bounds c \<longrightarrow> live_bounds (f c))"

lemma run_all_keeps: "list_all keeps_bounds fs \<Longrightarrow> live_bounds c \<Longrightarrow> live_bounds (run_all fs c)"
  by (induction fs arbitrary: c) (simp_all add: run_all_def keeps_bounds_def)

lemma keeps_setters:
  "(\<And>v c. v \<noteq> [] \<Longrightarrow> live_bounds c \<Longrightarrow> live_bounds (tupd (\<lambda>_. v) c)) \<Longrightarrow> keeps_bounds (set_text req k tupd)"
  "(\<And>v c. live_bounds c \<Longrightarrow> live_bounds (tupd (\<lambda>_. v) c)) \<Longrightarrow> keeps_bounds (set_any req k tupd)"
  "(\<And>v c. live_bounds c \<Longrightarrow> live_bounds (dupd (\<lambda>_. v) c)) \<Longrightarrow> keeps_bounds (set_duration req k dupd)"
  "(\<And>v c. ok v \<Longrightarrow> live_bounds c \<Longrightarrow> live_bounds (dupd (\<lambda>_. v) c)) \<Longrightarrow> keeps_bounds (set_int req k ok dupd)"
  "(\<And>v c. live_bounds c \<Longrightarrow> live_bounds (bupd (\<lambda>_. v) c)) \<Longrightarrow> keeps_bounds (set_flag req k bupd)"
  by (auto simp: keeps_bounds_def set_text_def set_any_def set_duration_def set_int_def set_flag_def
      split: option.split)

lemma apply_live_keeps: "live_bounds c \<Longrightarrow> live_bounds (apply_live req c)"
  unfolding apply_live_def
  by (erule run_all_keeps [rotated], unfold list.pred_inject, intro conjI TrueI keeps_setters) (auto simp: live_bounds_def)

lemma ensure_cfg: "pm_cfg (snd (ensurePoolCapacity now pl)) = pm_cfg pl"
  by (simp add: ensurePoolCapacity_def plan_spawn_def Let_def case_prod_beta frame_simps)

lemma external_cfg: "pm_cfg (snd (AddExternalProxy m c h addr pl)) = pm_cfg pl"
  by (auto simp: AddExternalProxy_def signal_def Let_def split: sum.split prod.split)

lemma refresh_cfg: "pm_cfg (snd (refresh_external items pl)) = pm_cfg pl"
proof (induction items pl rule: refresh_external.induct)
  case (2 addr m created health rest s)
  obtain r u where a: "AddExternalProxy m created health addr s = (r, u)" by fastforce
  have "pm_cfg u = pm_cfg s" using external_cfg [of m created health addr s] a by simp
  with 2(1) 2(2) [of r u] 2(3) [of r u] show ?case by (cases r) (simp_all add: a Let_def case_prod_beta)
qed simp

lemma rotate_cfg: "pm_cfg (snd (ForceRotate e pl)) = pm_cfg pl"
proof -
  have "pm_cfg (snd (make_room pl)) = pm_cfg pl" by (simp add: make_room_def split: option.split)
  then have "pm_cfg (snd (createProxy e (snd (make_room pl)))) = pm_cfg pl" by (simp add: frame_simps)
  then show ?thesis
    by (cases "createProxy e (snd (make_room pl))") (auto simp: ForceRotate_def split: sum.split option.split)
qed

lemma pool_size_keeps: "live_bounds (pm_cfg pl) \<Longrightarrow> live_bounds (pm_cfg (snd (apply_pool_size now req pl)))"
  by (auto simp: apply_pool_size_def SetPoolSize_def ensure_cfg live_bounds_def split: option.split)

lemma update_settings_cfg:
  "handleUpdateSettings e f now b s = (r, n, t) \<Longrightarrow>
     mg_cfg t = mg_cfg s
     \<or> (\<exists>kvs. b = Decoded kvs
          \<and> mg_cfg t = apply_live (map_of kvs) (pm_cfg (snd (apply_pool_size now (map_of kvs) (mg_pool s)))))"
  by (auto simp: handleUpdateSettings_def Let_def case_prod_beta split: body.splits option.splits prod.splits)

lemma step_keeps_bounds: "live_bounds (mg_cfg s) \<Longrightarrow> live_bounds (mg_cfg (snd (manage_step op s)))"
proof (cases op)
  case (Mg_update_settings e f now b)
  moreover assume "live_bounds (mg_cfg s)"
  ultimately show ?thesis
    using update_settings_cfg [of e f now b s] apply_live_keeps [OF pool_size_keeps]
    by (cases "handleUpdateSettings e f now b s") (fastforce simp: without_spawns_def)
next
  case (Mg_create_account e f g b)
  moreover assume "live_bounds (mg_cfg s)"
  ultimately show ?thesis
    by (simp add: handleCreateAccount_def account_created_def Let_def case_prod_beta split: body.split option.split sum.split)
next
  case (Mg_update_account f g i b)
  moreover assume "live_bounds (mg_cfg s)"
  ultimately show ?thesis
    by (simp add: handleUpdateAccount_def Let_def split: body.split option.split sum.split prod.split)
next
  case (Mg_create_proxy e b)
  moreover assume "live_bounds (mg_cfg s)"
  moreover have "pm_cfg q = pm_cfg (mg_pool s)" if "add_live e addr (mg_pool s) = (r, q)" for addr r q
    using that external_cfg unfolding add_live_def by (metis snd_conv)
  ultimately show ?thesis
    by (auto simp: handleCreateProxy_def proxy_added_def Let_def split: body.split sum.split prod.split)
next
  case (Mg_refresh f e now)
  moreover assume "live_bounds (mg_cfg s)"
  ultimately show ?thesis
    by (simp add: handleRefreshPool_def RefreshPool_def without_spawns_def Let_def case_prod_beta ensure_cfg refresh_cfg
        split: sum.split)
next
  case (Mg_rotate e)
  moreover assume "live_bounds (mg_cfg s)"
  ultimately show ?thesis
    using rotate_cfg [of e "mg_pool s"]
    by (cases "ForceRotate e (mg_pool s)") (auto simp: handleRotatePool_def split: sum.split)
qed (auto simp: handleDeleteAccount_def handleDeleteProxy_def split: option.split prod.split)

interpretation live: invariant_ops "\<lambda>op s. snd (manage_step op s)" "\<lambda>s. live_bounds (mg_cfg s)"
  by unfold_locales (rule step_keeps_bounds)

lemma refusals: "((if P then Inl e else x) = Inr d) \<longleftrightarrow> \<not> P \<and> x = Inr d"
  by auto

lemma valid_bounds: "Validate c = Inr d \<Longrightarrow> live_bounds d"
  unfolding Validate_def Let_def refusals
  by (elim conjE, drule sum.inject(2) [THEN iffD1], hypsubst)
     (simp add: live_bounds_def known_provider_def known_level_def known_format_def)

text \<open>
  C22: A gateway that started with a valid configuration keeps its counters in bounds, whatever settings
  are sent to it: at most ten retries, at least one request at a time, between one and twenty
  proxies, and an upstream, a driver, a log level and a log format that are never empty.
\<close>

theorem live_config_bounded:
  assumes "Validate c = Inr d"
  shows "live_bounds (mg_cfg (fold (\<lambda>op s. snd (manage_step op s)) ops
     \<lparr> mg_store = st, mg_pool = NewPoolManagerWithManager has_mgr d \<rparr>))"
  by (rule live.run_inv) (simp add: NewPoolManagerWithManager_def valid_bounds [OF assms])

section \<open>What the bounds leave out\<close>

text \<open>
  The durations are not in them: a request timeout below the second that validation asks for at the
  start is accepted while the gateway runs, and then the live configuration is one the gateway would
  refuse to start with.
\<close>

theorem live_timeout_unchecked:
  assumes "parse_duration v = Some d" "v \<noteq> []" "d < 1 * Second"
    and "SetSettings e [(''request_timeout'', v)] (mg_store s) = (None, st)"
    and "Validate (mg_cfg s) = Inr (mg_cfg s)"
  shows "\<exists>m t err. handleUpdateSettings e f now (Decoded [(''request_timeout'', v)]) s = (Reply_json 200 m, 0, t)
    \<and> RequestTimeout (mg_cfg t) = d \<and> Validate (mg_cfg t) = Inl err"
proof -
  let ?req = "map_of [(''request_timeout'', v)]"
  have a: "apply_live ?req c = c\<lparr> RequestTimeout := d \<rparr>" for c
    using assms(1,2) by (simp add: apply_live_def run_all_def set_text_def set_any_def set_duration_def set_int_def set_flag_def)
  have p: "apply_pool_size now ?req (mg_pool s) = (0, mg_pool s)" by (simp add: apply_pool_size_def)
  have "\<exists>err. Validate ((mg_cfg s)\<lparr> RequestTimeout := d \<rparr>) = Inl err"
    using assms(3,5) by (auto simp: Validate_def Let_def split: if_splits)
  moreover obtain m where "handleUpdateSettings e f now (Decoded [(''request_timeout'', v)]) s
      = (Reply_json 200 m, 0, s\<lparr> mg_store := st, mg_pool := (mg_pool s)\<lparr> pm_cfg := (mg_cfg s)\<lparr> RequestTimeout := d \<rparr> \<rparr> \<rparr>)"
    using assms(4) by (simp add: handleUpdateSettings_def p a Let_def del: map_of.simps)
  ultimately show ?thesis by fastforce
qed

text \<open>
  A refused number is kept: more than ten retries are not applied, but they are stored, answered with
  200 and shown, while the gateway goes on with the old number.
\<close>

theorem refused_setting_shown:
  assumes "atoi v = Some n" "n > 10"
    and "SetSettings e [(''max_retries'', v)] (mg_store s) = (None, st)"
  shows "\<exists>m t. handleUpdateSettings e None now (Decoded [(''max_retries'', v)]) s = (Reply_json 200 (Settings_body (Some m)), 0, t)
    \<and> m ''max_retries'' = Some v \<and> kf_settings (mg_store t) ''max_retries'' = Some v
    \<and> mg_cfg t = mg_cfg s"
proof -
  let ?req = "map_of [(''max_retries'', v)]"
  have a: "apply_live ?req c = c" for c
    using assms(1,2) by (simp add: apply_live_def run_all_def set_text_def set_any_def set_duration_def set_int_def set_flag_def)
  have p: "apply_pool_size now ?req (mg_pool s) = (0, mg_pool s)" by (simp add: apply_pool_size_def)
  have "kf_settings st ''max_retries'' = Some v"
    using assms(3) by (auto simp: SetSettings_def transaction_def prepared_def put_setting_def split: option.splits sum.splits)
  with assms(3) show ?thesis
    by (simp add: handleUpdateSettings_def p a Let_def GetSettings_def del: map_of.simps)
qed

section \<open>The default configuration\<close>


theorem live_config_bounded_witness:
  "live_bounds (mg_cfg (fold (\<lambda>op s. snd (manage_step op s)) [Mg_get_pool]
     \<lparr> mg_store = NewConfigStore, mg_pool = NewPoolManagerWithManager True DefaultConfig \<rparr>))"
  using live_config_bounded [OF DefaultConfig_valid, of "[Mg_get_pool]" NewConfigStore True] by simp

end
