(* ===== verification/Gateway_Main.thy ===== *)
theory Gateway_Main
  imports Docker_Laws Store_Laws
begin

text \<open>
  \<^verbatim>\<open>cmd/gateway/main.go\<close>: how the gateway puts its proxy managers together from the environment
  and the configuration database. The files of the provider's stores are a function from paths to
  their contents; what one manager's construction meets is an argument per account. Starting the
  server, signals and shutdown are not modelled.
\<close>

section \<open>Accounts and addresses\<close>

definition add_account :: "vpn_account list \<Rightarrow> account \<Rightarrow> vpn_account list" where
  "add_account accounts a =
     (if ua_enabled a \<and> ua_username a \<notin> acct_username ` set accounts
      then accounts @ [\<lparr> acct_username = ua_username a, acct_password = ua_password a, acct_cookies = ua_cookies a \<rparr>]
      else accounts)"

definition all_accounts :: "string option \<Rightarrow> config \<Rightarrow> config_store \<Rightarrow> vpn_account list" where
  "all_accounts fault cfg st =
     (case GetAccounts fault st of
        Inl _ \<Rightarrow> ParseProtonVPNAccounts cfg
      | Inr rows \<Rightarrow> foldl add_account (ParseProtonVPNAccounts cfg) rows)"

definition add_addr :: "string list \<Rightarrow> proxy_config \<Rightarrow> string list" where
  "add_addr addrs p =
     (if xp_enabled p \<and> xp_address p \<notin> set addrs then addrs @ [xp_address p] else addrs)"

definition all_addrs :: "string option \<Rightarrow> config \<Rightarrow> config_store \<Rightarrow> string list" where
  "all_addrs fault cfg st =
     (case GetProxies fault st of
        Inl _ \<Rightarrow> ParseSOCKS5Addrs cfg
      | Inr rows \<Rightarrow> foldl add_addr (ParseSOCKS5Addrs cfg) rows)"

section \<open>Managers\<close>

text \<open>The configuration of the manager of the \<open>i\<close>-th account.\<close>

definition account_cfg :: "config \<Rightarrow> nat \<Rightarrow> vpn_account \<Rightarrow> config" where
  "account_cfg cfg i a =
     cfg\<lparr> ProtonVPNUsername := acct_username a, ProtonVPNPassword := acct_password a,
          ProtonVPNSessionCookies := (if i > 0 then [] else acct_cookies a),
          ProtonVPNStorePath := (if i > 0 then ProtonVPNStorePath cfg @ ''_'' @ itoa (int i) else ProtonVPNStorePath cfg) \<rparr>"

record vpn_env =
  ve_session :: session_env
  ve_fault :: faults
  ve_now :: time
  ve_orphans :: "string list option"
  ve_image :: "string option"

definition new_vpn ::
  "vpn_env \<Rightarrow> (string \<Rightarrow> proton_store) \<Rightarrow> config \<Rightarrow> (string + docker_manager) \<times> docker_call list" where
  "new_vpn e files cfg =
     NewDockerManager (ve_session e) (ve_fault e) (ve_now e) (ve_orphans e) (ve_image e) (files (ProtonVPNStorePath cfg)) cfg"

fun build_vpn ::
  "(nat \<Rightarrow> vpn_env) \<Rightarrow> (string \<Rightarrow> proton_store) \<Rightarrow> config \<Rightarrow> nat \<Rightarrow> vpn_account list
     \<Rightarrow> (string + docker_manager list) \<times> docker_call list" where
  "build_vpn e files cfg i [] = (Inr [], [])"
| "build_vpn e files cfg i (a # as) =
     (case new_vpn (e i) files (account_cfg cfg i a) of
        (Inl err, cs) \<Rightarrow>
          (Inl (''failed to create VPN manager for account '' @ itoa (int i) @ '' ('' @ acct_username a @ ''): '' @ err), cs)
      | (Inr m, cs) \<Rightarrow>
          (case build_vpn e files cfg (i + 1) as of
             (Inl err, ds) \<Rightarrow> (Inl err, cs @ ds)
           | (Inr ms, ds) \<Rightarrow> (Inr (m # ms), cs @ ds)))"

datatype built = Vpn_only docker_manager | Ext_only ext_manager | Several "docker_manager composite"

definition choose_manager :: "ext_manager option \<Rightarrow> docker_manager list \<Rightarrow> built" where
  "choose_manager ext vpns =
     (case (vpns, ext) of
        ([m], None) \<Rightarrow> Vpn_only m
      | ([], Some x) \<Rightarrow> Ext_only x
      | _ \<Rightarrow> Several (NewCompositeManager ext vpns))"

definition buildManager ::
  "(nat \<Rightarrow> vpn_env) \<Rightarrow> (string \<Rightarrow> proton_store) \<Rightarrow> string option \<Rightarrow> string option \<Rightarrow> config \<Rightarrow> config_store
     \<Rightarrow> (string + built) \<times> docker_call list" where
  "buildManager e files acct_fault proxy_fault cfg st =
     (case build_vpn e files cfg 0 (all_accounts acct_fault cfg st) of
        (Inl err, cs) \<Rightarrow> (Inl err, cs)
      | (Inr vpns, cs) \<Rightarrow>
          (let addrs = all_addrs proxy_fault cfg st;
               ext = (if addrs \<noteq> [] then Some (NewExternalProxyManager addrs (ProtonVPNIPCheckURL cfg)) else None)
           in (Inr (choose_manager ext vpns), cs)))"

section \<open>One manager per account\<close>

lemma add_account_names:
  "acct_username ` set (foldl add_account acc rows)
     = acct_username ` set acc \<union> {ua_username r |r. r \<in> set rows \<and> ua_enabled r}"
proof (induction rows arbitrary: acc)
  case (Cons r rows)
  have "acct_username ` set (add_account acc r)
      = acct_username ` set acc \<union> (if ua_enabled r then {ua_username r} else {})"
    by (auto simp: add_account_def)
  with Cons.IH [of "add_account acc r"] show ?case by (auto split: if_splits)
qed simp

lemma add_account_distinct:
  "distinct (map acct_username acc) \<Longrightarrow> distinct (map acct_username (foldl add_account acc rows))"
  by (induction rows arbitrary: acc) (auto simp: add_account_def)

lemma add_account_extends: "add_account acc r = acc \<or> (\<exists>a. add_account acc r = acc @ [a])"
  by (simp add: add_account_def)

lemma add_account_prefix: "\<exists>more. foldl add_account acc rows = acc @ more"
proof (induction rows arbitrary: acc)
  case (Cons r rows)
  obtain more where "foldl add_account (add_account acc r) rows = add_account acc r @ more"
    using Cons.IH by blast
  with add_account_extends [of acc r] show ?case by (metis append.assoc foldl_Cons)
qed simp

lemma add_account_count:
  "card (acct_username ` set (foldl add_account acc rows) - acct_username ` set acc)
     = length (foldl add_account acc rows) - length acc"
proof -
  obtain more where m: "foldl add_account acc rows = acc @ more" using add_account_prefix by blast
  have "distinct (map acct_username more) \<and> acct_username ` set more \<inter> acct_username ` set acc = {}"
    using m
  proof (induction rows arbitrary: more rule: rev_induct)
    case (snoc r rows)
    obtain more' where m': "foldl add_account acc rows = acc @ more'" using add_account_prefix by blast
    have "acc @ more = add_account (acc @ more') r" using snoc.prems m' by simp
    then have "more = more' \<or> (\<exists>a. more = more' @ [a] \<and> acct_username a \<notin> acct_username ` set (acc @ more'))"
      by (auto simp: add_account_def split: if_splits)
    with snoc.IH [OF m'] show ?case by (elim disjE exE conjE) (simp_all add: image_Un)
  qed simp
  then have "card (acct_username ` set more) = length more"
    "acct_username ` set (acc @ more) - acct_username ` set acc = acct_username ` set more"
    using distinct_card [of "map acct_username more"] by auto
  with m show ?thesis by simp
qed

text \<open>
  Every account gets one manager: the accounts are those of the environment, in their order, then the
  enabled ones of the database whose name the environment does not have, one for each such name.
\<close>

theorem accounts_merged:
  "(\<exists>more. all_accounts None cfg st = ParseProtonVPNAccounts cfg @ more)
   \<and> acct_username ` set (all_accounts None cfg st)
      = acct_username ` set (ParseProtonVPNAccounts cfg) \<union> {ua_username r |r. r \<in> set (kf_accounts st) \<and> ua_enabled r}
   \<and> card (acct_username ` set (all_accounts None cfg st) - acct_username ` set (ParseProtonVPNAccounts cfg))
      = length (all_accounts None cfg st) - length (ParseProtonVPNAccounts cfg)"
proof -
  have "all_accounts None cfg st = foldl add_account (ParseProtonVPNAccounts cfg) (kf_accounts st)"
    by (simp add: all_accounts_def GetAccounts_def)
  then show ?thesis by (metis add_account_prefix add_account_names add_account_count)
qed

section \<open>Session cookies\<close>

lemma parsed_no_cookies: "a \<in> set (ParseProtonVPNAccounts cfg) \<Longrightarrow> acct_cookies a = []"
  by (auto simp: ParseProtonVPNAccounts_def parse_account_def List.map_filter_def Let_def split: if_splits option.splits)

lemma build_vpn_cfg:
  assumes "build_vpn e files cfg i as = (Inr ms, cs)"
  shows "length ms = length as \<and> (\<forall>k < length ms. dk_cfg (ms ! k) = account_cfg cfg (i + k) (as ! k))"
  using assms
proof (induction as arbitrary: i ms cs)
  case (Cons a as)
  obtain m ds where m: "new_vpn (e i) files (account_cfg cfg i a) = (Inr m, ds)"
    and rest: "\<exists>ns es. build_vpn e files cfg (i + 1) as = (Inr ns, es) \<and> ms = m # ns"
    using Cons.prems by (auto split: prod.splits sum.splits)
  have d: "dk_cfg m = account_cfg cfg i a"
    using m by (auto simp: new_vpn_def NewDockerManager_def split: prod.splits option.splits)
  from rest Cons.IH obtain ns where "ms = m # ns" "length ns = length as"
    "\<forall>k < length ns. dk_cfg (ns ! k) = account_cfg cfg (i + 1 + k) (as ! k)" by blast
  with d show ?case by (auto simp: nth_Cons split: nat.split)
qed simp

text \<open>
  Session cookies of the environment are lost: when the accounts come from the environment, no
  manager is built with any session cookies, whatever \<open>PROTONVPN_SESSION_COOKIES\<close> and the database
  hold; every account has to log in by password.
\<close>

theorem session_cookies_lost:
  assumes "ParseProtonVPNAccounts cfg \<noteq> []"
    and "build_vpn e files cfg 0 (all_accounts fault cfg st) = (Inr ms, cs)"
  shows "length ms \<ge> 1 \<and> list_all (\<lambda>m. ProtonVPNSessionCookies (dk_cfg m) = []) ms"
proof -
  have "\<exists>more. all_accounts fault cfg st = ParseProtonVPNAccounts cfg @ more"
    by (cases "GetAccounts fault st") (simp_all add: all_accounts_def add_account_prefix)
  then obtain more where more: "all_accounts fault cfg st = ParseProtonVPNAccounts cfg @ more" by blast
  have c: "length ms = length (all_accounts fault cfg st)"
    "k < length ms \<Longrightarrow> dk_cfg (ms ! k) = account_cfg cfg k (all_accounts fault cfg st ! k)" for k
    using build_vpn_cfg [OF assms(2)] by simp_all
  have "acct_cookies (all_accounts fault cfg st ! 0) = []"
    using more assms(1) parsed_no_cookies [of "ParseProtonVPNAccounts cfg ! 0" cfg] by (simp add: nth_append)
  then have "ProtonVPNSessionCookies (dk_cfg (ms ! k)) = []" if "k < length ms" for k
    using c(2) [OF that] by (cases k) (simp_all add: account_cfg_def)
  then have "list_all (\<lambda>m. ProtonVPNSessionCookies (dk_cfg m) = []) ms" by (simp add: list_all_length)
  moreover have "length ms \<ge> 1" using c(1) more assms(1) by (cases "ParseProtonVPNAccounts cfg") simp_all
  ultimately show ?thesis by simp
qed

section \<open>Stores by position\<close>

definition store_path :: "config \<Rightarrow> nat \<Rightarrow> string" where
  "store_path cfg i = ProtonVPNStorePath (account_cfg cfg i \<lparr> acct_username = [], acct_password = [], acct_cookies = [] \<rparr>)"

lemma account_cfg_path: "ProtonVPNStorePath (account_cfg cfg i a) = store_path cfg i"
  by (simp add: store_path_def account_cfg_def)

lemma itoa_nat_inj: "itoa (int m) = itoa (int n) \<Longrightarrow> m = n"
proof -
  assume "itoa (int m) = itoa (int n)"
  then have "nat_digits m = nat_digits n" by (simp only: itoa_def of_nat_less_0_iff if_False nat_int)
  then show "m = n" by (metis digits_val_nat_digits option.inject)
qed

lemma store_path_simps:
  "store_path cfg i = (if i = 0 then ProtonVPNStorePath cfg else ProtonVPNStorePath cfg @ ''_'' @ itoa (int i))"
  by (simp add: store_path_def account_cfg_def)

lemma inj_store_path: "inj_on (store_path cfg) A"
proof (rule inj_onI)
  fix i j assume "store_path cfg i = store_path cfg j"
  then have "(i = 0 \<longleftrightarrow> j = 0) \<and> (i \<noteq> 0 \<longrightarrow> itoa (int i) = itoa (int j))"
    unfolding store_path_simps by (cases "i = 0"; cases "j = 0") simp_all
  then show "i = j" using itoa_nat_inj by blast
qed

lemma build_vpn_paths:
  assumes "build_vpn e files cfg 0 as = (Inr ms, cs)"
  shows "map (\<lambda>m. ProtonVPNStorePath (dk_cfg m)) ms = map (store_path cfg) [0..<length as]"
  using build_vpn_cfg [OF assms] by (auto intro!: nth_equalityI simp: account_cfg_path)

text \<open>
  The accounts of one run keep their sessions in different stores, but which store an account gets
  depends on nothing but its position: after an account before it has been deleted, the next run
  gives it the store, and the saved session, of another account.
\<close>

theorem stores_by_position:
  assumes "build_vpn e files cfg 0 as = (Inr ms, cs)"
    and "build_vpn e' files cfg 0 (drop 1 as) = (Inr ns, ds)"
  shows "distinct (map (\<lambda>m. ProtonVPNStorePath (dk_cfg m)) ms)
    \<and> (\<forall>k. k + 1 < length as \<longrightarrow>
        ProtonVPNUsername (dk_cfg (ns ! k)) = ProtonVPNUsername (dk_cfg (ms ! (k + 1)))
        \<and> ProtonVPNStorePath (dk_cfg (ns ! k)) = ProtonVPNStorePath (dk_cfg (ms ! k)))"
proof -
  have "distinct (map (\<lambda>m. ProtonVPNStorePath (dk_cfg m)) ms)"
    by (simp add: build_vpn_paths [OF assms(1)] distinct_map inj_store_path)
  moreover have "ProtonVPNUsername (account_cfg cfg i a) = acct_username a" for i a
    by (simp add: account_cfg_def)
  ultimately show ?thesis
    using build_vpn_cfg [OF assms(1)] build_vpn_cfg [OF assms(2)]
    by (simp add: account_cfg_path less_diff_conv)
qed

end
