(* ===== verification/OpenCode_Cli.thy ===== *)
theory OpenCode_Cli
  imports Upstream_Client Docker_Manager
begin

text \<open>
  \<^verbatim>\<open>internal/upstream/opencode_cli.go\<close>: the driver that runs the \<open>opencode\<close> command in the proxy's
  container and turns its event lines into an answer of the OpenAI shape. What the command prints,
  with the error of running it, is an argument; so is the decoding of requests and events, a record
  of functions. Bodies are kept as the values that are encoded, the chunks of a stream in the order
  they are written. Logging is not modelled.
\<close>

section \<open>Events and decoding\<close>

text \<open>The raw values \<open>ev_error\<close> and \<open>ev_part_error\<close> are empty when the event does not have them.\<close>

record cli_event =
  ev_type :: string
  ev_session_id :: string
  ev_text :: string
  ev_session :: string
  ev_part_text :: string
  ev_part_error :: string
  ev_error :: string

record cli_request =
  xr_model :: string
  xr_messages :: "json list"
  xr_conversation :: string

text \<open>
  \<open>cj_string\<close> and \<open>cj_object\<close> decode a raw value as a string and as an object with the members
  \<open>message\<close> and \<open>data.message\<close>.
\<close>

record cli_json =
  cj_request :: "string \<Rightarrow> string + cli_request"
  cj_event :: "string \<Rightarrow> cli_event option"
  cj_string :: "string \<Rightarrow> string option"
  cj_object :: "string \<Rightarrow> (string \<times> string) option"

record cli_client =
  xc_cfg :: config
  xc_sessions :: "string \<Rightarrow> string option"

definition NewOpenCodeCLIClient :: "config \<Rightarrow> cli_client" where
  "NewOpenCodeCLIClient cfg = \<lparr> xc_cfg = cfg, xc_sessions = (\<lambda>_. None) \<rparr>"

section \<open>The command\<close>

definition credential :: "auth \<Rightarrow> string" where
  "credential a = trim_prefix (trim_space (au_value a)) ''Bearer ''"

definition text_parts :: "json list \<Rightarrow> string list" where
  "text_parts ps = List.map_filter
     (\<lambda>p. if is_obj p then (case field ''text'' (as_obj p) of JStr t \<Rightarrow> Some t | _ \<Rightarrow> None) else None) ps"

definition message_content :: "json \<Rightarrow> string" where
  "message_content c =
     (case c of JStr s \<Rightarrow> s | JArr ps \<Rightarrow> join [CHR 0x0A] (text_parts ps) | _ \<Rightarrow> [])"

definition role_prefix :: "string \<Rightarrow> string" where
  "role_prefix role =
     (if role = ''user'' then ''User: '' else if role = ''assistant'' then ''Assistant: '' else role @ '': '')"

definition transcript :: "json \<Rightarrow> string" where
  "transcript m =
     (if is_obj m then
        (let role = as_str (field ''role'' (as_obj m)); content = message_content (field ''content'' (as_obj m))
         in if content = [] then [] else role_prefix role @ content @ [CHR 0x0A, CHR 0x0A])
      else [])"

definition buildPrompt :: "json list \<Rightarrow> string" where
  "buildPrompt messages = trim_space (concat (map transcript messages))"

definition runArgs :: "config \<Rightarrow> string \<Rightarrow> string \<Rightarrow> string \<Rightarrow> string list" where
  "runArgs cfg model session prompt =
     (let model = (if OpenCodeCLIModel cfg \<noteq> [] then OpenCodeCLIModel cfg else model)
      in [''opencode'', ''run'', ''--format'', ''json'']
         @ (if model \<noteq> [] then [''--model'', model] else [])
         @ OpenCodeCLIArgs cfg
         @ (if session \<noteq> [] then [''--session'', session] else [])
         @ (if prompt \<noteq> [] then [prompt] else []))"

definition cli_env :: "config \<Rightarrow> auth \<Rightarrow> string list" where
  "cli_env cfg a =
     (let key = credential a in if key \<noteq> [] then [OpenCodeCLIProviderEnv cfg @ ''='' @ key] else [])"

section \<open>The event lines\<close>

record run_result =
  rr_text :: string
  rr_reasoning :: string
  rr_session :: string
  rr_error :: string
  rr_stdout :: string

definition cliErrorMessage :: "cli_json \<Rightarrow> string \<Rightarrow> string" where
  "cliErrorMessage js raw =
     (case cj_string js raw of
        Some s \<Rightarrow> s
      | None \<Rightarrow>
          (case cj_object js raw of
             Some (message, data_message) \<Rightarrow> if data_message \<noteq> [] then data_message else message
           | None \<Rightarrow> raw))"

definition see_event :: "cli_json \<Rightarrow> cli_event \<Rightarrow> run_result \<Rightarrow> run_result" where
  "see_event js ev r =
     (if ev_type ev = ''session'' then
        (let r = (if ev_session ev \<noteq> [] then r\<lparr> rr_session := ev_session ev \<rparr> else r)
         in if ev_session_id ev \<noteq> [] then r\<lparr> rr_session := ev_session_id ev \<rparr> else r)
      else if ev_type ev = ''text'' \<or> ev_type ev = ''reasoning'' then
        (let text = (if ev_text ev = [] then ev_part_text ev else ev_text ev)
         in if text = [] then r
            else if ev_type ev = ''reasoning'' then r\<lparr> rr_reasoning := rr_reasoning r @ text \<rparr>
            else r\<lparr> rr_text := rr_text r @ text \<rparr>)
      else if ev_type ev = ''error'' then
        (let raw = (if ev_error ev = [] then ev_part_error ev else ev_error ev)
         in r\<lparr> rr_error := cliErrorMessage js raw \<rparr>)
      else if rr_session r = [] \<and> ev_session_id ev \<noteq> [] then r\<lparr> rr_session := ev_session_id ev \<rparr>
      else r)"

definition line_event :: "cli_json \<Rightarrow> string \<Rightarrow> cli_event option" where
  "line_event js line =
     (let trimmed = trim_space line in if has_prefix trimmed ''{'' then cj_event js trimmed else None)"

definition see_line :: "cli_json \<Rightarrow> run_result \<Rightarrow> string \<Rightarrow> run_result" where
  "see_line js r line = (case line_event js line of None \<Rightarrow> r | Some ev \<Rightarrow> see_event js ev r)"

definition read_events :: "cli_json \<Rightarrow> string \<Rightarrow> run_result" where
  "read_events js out =
     foldl (see_line js) \<lparr> rr_text = [], rr_reasoning = [], rr_session = [], rr_error = [], rr_stdout = out \<rparr>
       (split_on CHR 0x0A out)"

text \<open>\<open>run\<close>: what was read and the error, if any.\<close>

definition cli_run :: "cli_json \<Rightarrow> string \<times> string option \<Rightarrow> run_result \<times> string option" where
  "cli_run js result =
     (case result of
        (out, err) \<Rightarrow>
          let r = read_events js out
          in if rr_error r \<noteq> [] then (r, Some (''opencode: '' @ rr_error r))
             else let r = (if rr_text r = [] then r\<lparr> rr_text := rr_stdout r \<rparr> else r)
                  in if err \<noteq> None \<and> rr_text r = [] then (r, err) else (r, None))"

section \<open>Answers\<close>

datatype cli_delta = Delta_role string | Delta_reasoning string | Delta_content string | Delta_finish string

record cli_chunk =
  kc_id :: string
  kc_created :: time
  kc_model :: string
  kc_delta :: cli_delta

datatype cli_event_out = Chunk_event cli_chunk | Done_event

datatype cli_body =
    Error_json string
  | Stream_body "cli_event_out list"
  | Completion_body string time string string
  | Models_body "string list"

datatype cli_reply = Cli_limited string string | Cli_answer int cli_body

definition splitChunks :: "string \<Rightarrow> string list" where
  "splitChunks t = concat (map
     (\<lambda>s. case Prelude.fields s of [] \<Rightarrow> [] | w # ws \<Rightarrow> w # map (\<lambda>w. CHR '' '' # w) ws) (split_on CHR 0x0A t))"

text \<open>Everything that is written while the reader takes it; a reader that goes away sees a prefix.\<close>

definition streamSSE :: "time \<Rightarrow> string \<Rightarrow> string \<Rightarrow> string \<Rightarrow> string \<Rightarrow> cli_event_out list" where
  "streamSSE now i model t reasoning =
     (let chunk = (\<lambda>d. Chunk_event \<lparr> kc_id = i, kc_created = now, kc_model = model, kc_delta = d \<rparr>)
      in [chunk (Delta_role ''assistant'')]
         @ (if reasoning \<noteq> [] then [chunk (Delta_reasoning reasoning)] else [])
         @ (if t \<noteq> [] then map (\<lambda>c. chunk (Delta_content c)) (splitChunks t) else [])
         @ [chunk (Delta_finish ''stop''), Done_event])"

section \<open>Requests\<close>

definition run_reply :: "bool \<Rightarrow> time \<Rightarrow> string \<Rightarrow> string \<Rightarrow> run_result \<times> string option \<Rightarrow> cli_reply" where
  "run_reply stream now conversation model result =
     (case result of
        (r, Some msg) \<Rightarrow>
          let text = msg @ [CHR 0x0A] @ rr_stdout r
          in if isRateLimitError 0 text then Cli_limited ''60'' (''rate limited: '' @ text)
             else Cli_answer 502 (Error_json msg)
      | (r, None) \<Rightarrow>
          if stream then Cli_answer 200 (Stream_body (streamSSE now conversation model (rr_text r) (rr_reasoning r)))
          else Cli_answer 200 (Completion_body conversation now model (rr_text r)))"

text \<open>
  \<open>Do\<close>: the container and its manager are behind \<open>exec\<close>, which takes the environment and the
  arguments; \<open>other\<close> is what other requests do to the sessions while the command runs. The calls
  that were made come back too.
\<close>

definition cli_Do ::
  "cli_json \<Rightarrow> (string list \<Rightarrow> string list \<Rightarrow> string \<times> string option)
     \<Rightarrow> ((string \<Rightarrow> string option) \<Rightarrow> (string \<Rightarrow> string option)) \<Rightarrow> time
     \<Rightarrow> string \<Rightarrow> auth \<Rightarrow> bool \<Rightarrow> cli_client \<Rightarrow> cli_reply \<times> (string list \<times> string list) option \<times> cli_client" where
  "cli_Do js exec other now body a stream c =
     (case cj_request js body of
        Inl err \<Rightarrow> (Cli_answer 400 (Error_json (''invalid request body: '' @ err)), None, c)
      | Inr req \<Rightarrow>
          if xr_messages req = [] then (Cli_answer 400 (Error_json ''messages is required''), None, c)
          else
            let session = (if xr_conversation req \<noteq> []
                           then (case xc_sessions c (xr_conversation req) of Some s \<Rightarrow> s | None \<Rightarrow> []) else []);
                args = runArgs (xc_cfg c) (xr_model req) session (buildPrompt (xr_messages req));
                env = cli_env (xc_cfg c) a;
                result = cli_run js (exec env args);
                sessions = other (xc_sessions c);
                sessions = (if xr_conversation req \<noteq> [] \<and> rr_session (fst result) \<noteq> []
                            then sessions(xr_conversation req \<mapsto> rr_session (fst result)) else sessions);
                model = (if OpenCodeCLIModel (xc_cfg c) \<noteq> [] then OpenCodeCLIModel (xc_cfg c) else xr_model req)
            in (run_reply stream now (xr_conversation req) model result, Some (env, args), c\<lparr> xc_sessions := sessions \<rparr>))"

section \<open>Models\<close>

text \<open>
  The tokens of \<open>modelToken\<close>: the longest run of token characters from a letter or digit on, a colon
  or a slash, a letter or digit and at least one token character more. Only the ASCII characters of
  the pattern are modelled; case folding adds two others.
\<close>

definition alnum :: "char \<Rightarrow> bool" where
  "alnum ch \<longleftrightarrow> is_digit (lower_char ch) \<or> (97 \<le> (of_char (lower_char ch) :: nat) \<and> (of_char (lower_char ch) :: nat) \<le> 122)"

definition token_char :: "char \<Rightarrow> bool" where
  "token_char ch \<longleftrightarrow> alnum ch \<or> ch \<in> set ''._-''"

definition token_at :: "string \<Rightarrow> (string \<times> string) option" where
  "token_at s =
     (let front = takeWhile token_char s; rest = dropWhile token_char s
      in if front = [] \<or> \<not> alnum (hd front) then None
         else case rest of
                sep # behind \<Rightarrow>
                  let tail = takeWhile token_char behind
                  in if sep \<in> set '':/'' \<and> length tail \<ge> 2 \<and> alnum (hd tail)
                     then Some (front @ [sep] @ tail, dropWhile token_char behind) else None
              | [] \<Rightarrow> None)"

function find_tokens :: "string \<Rightarrow> string list" where
  "find_tokens [] = []"
| "find_tokens (ch # s) =
     (case token_at (ch # s) of
        Some (tok, rest) \<Rightarrow> tok # find_tokens rest
      | None \<Rightarrow> find_tokens s)"
  by pat_completeness auto

lemma token_at_shorter: "token_at s = Some (tok, rest) \<Longrightarrow> length rest < length s"
proof -
  assume t: "token_at s = Some (tok, rest)"
  then obtain sep behind where d: "dropWhile token_char s = sep # behind" and r: "rest = dropWhile token_char behind"
    by (auto simp: token_at_def Let_def split: if_splits list.splits)
  have "length rest \<le> length behind" using r by (simp add: length_dropWhile_le)
  also have "\<dots> < length (dropWhile token_char s)" using d by simp
  also have "\<dots> \<le> length s" by (rule length_dropWhile_le)
  finally show ?thesis .
qed

termination find_tokens
  by (relation "measure length") (auto dest: token_at_shorter)

definition parseModelList :: "string \<Rightarrow> string list" where
  "parseModelList out = foldl
     (\<lambda>models tok. let tok = trim_space tok in if tok = [] \<or> tok \<in> set models then models else models @ [tok])
     [] (find_tokens out)"

definition cli_DoModels ::
  "(string list \<Rightarrow> string list \<Rightarrow> string \<times> string option) \<Rightarrow> auth \<Rightarrow> cli_client \<Rightarrow> cli_reply" where
  "cli_DoModels exec a c =
     (let models = OpenCodeCLIModels (xc_cfg c);
          models = (if models = [] then
                      (case exec (cli_env (xc_cfg c) a) [''opencode'', ''models''] of
                         (out, None) \<Rightarrow> parseModelList out
                       | (_, Some _) \<Rightarrow> [])
                    else models);
          models = (if models = [] then [OpenCodeCLIModel (xc_cfg c)] else models);
          models = (if models = [] then [''default''] else models)
      in Cli_answer 200 (Models_body models))"

end
