(* ===== verification/OpenCode_Cli_Laws.thy ===== *)
theory OpenCode_Cli_Laws
  imports OpenCode_Cli Chat_Retry
begin

text \<open>
  What the command-line driver promises: the answer is the text of the event lines and nothing else
  of what the command printed, a conversation keeps its session, a credential travels in the
  environment only, the listed models are those of the table; and where it falls short: a command
  that failed is answered as a success, a streamed answer loses its line breaks.
\<close>

section \<open>Event lines\<close>

definition events :: "cli_json \<Rightarrow> string \<Rightarrow> cli_event list" where
  "events js out = List.map_filter (line_event js) (split_on CHR 0x0A out)"

definition event_text :: "cli_event \<Rightarrow> string" where
  "event_text ev = (if ev_text ev = [] then ev_part_text ev else ev_text ev)"

definition texts_of :: "string \<Rightarrow> cli_event list \<Rightarrow> string" where
  "texts_of ty evs = concat (map event_text (filter (\<lambda>ev. ev_type ev = ty) evs))"

lemma foldl_see_line:
  "foldl (see_line js) r ls = foldl (\<lambda>r ev. see_event js ev r) r (List.map_filter (line_event js) ls)"
  by (induction ls arbitrary: r) (simp_all add: see_line_def map_filter_simps split: option.split)

lemma read_events_fold:
  "read_events js out =
     foldl (\<lambda>r ev. see_event js ev r) \<lparr> rr_text = [], rr_reasoning = [], rr_session = [], rr_error = [], rr_stdout = out \<rparr>
       (events js out)"
  by (simp add: read_events_def events_def foldl_see_line)

lemma see_event_fields:
  "rr_text (see_event js ev r) = rr_text r @ texts_of ''text'' [ev]"
  "rr_reasoning (see_event js ev r) = rr_reasoning r @ texts_of ''reasoning'' [ev]"
  "rr_stdout (see_event js ev r) = rr_stdout r"
  "ev_type ev \<noteq> ''error'' \<Longrightarrow> rr_error (see_event js ev r) = rr_error r"
  by (auto simp: see_event_def texts_of_def event_text_def Let_def)

lemma texts_of_Cons: "texts_of ty (ev # evs) = texts_of ty [ev] @ texts_of ty evs"
  by (simp add: texts_of_def)

lemma fold_events:
  "rr_text (foldl (\<lambda>r ev. see_event js ev r) r evs) = rr_text r @ texts_of ''text'' evs
   \<and> rr_reasoning (foldl (\<lambda>r ev. see_event js ev r) r evs) = rr_reasoning r @ texts_of ''reasoning'' evs
   \<and> rr_stdout (foldl (\<lambda>r ev. see_event js ev r) r evs) = rr_stdout r
   \<and> ((\<forall>ev \<in> set evs. ev_type ev \<noteq> ''error'') \<longrightarrow> rr_error (foldl (\<lambda>r ev. see_event js ev r) r evs) = rr_error r)"
proof (induction evs arbitrary: r)
  case Nil
  then show ?case by (simp add: texts_of_def)
next
  case (Cons ev evs)
  from Cons.IH [of "see_event js ev r"] show ?case
    by (simp add: texts_of_Cons [of _ ev evs] see_event_fields)
qed

lemmas read_events_fields =
  fold_events [of js "\<lparr> rr_text = [], rr_reasoning = [], rr_session = [], rr_error = [], rr_stdout = out \<rparr>"
    "events js out" for js out, folded read_events_fold, simplified]







section \<open>A command that fails\<close>

lemma run_failed:
  assumes "out \<noteq> []" "\<forall>ev \<in> set (events js out). ev_type ev \<noteq> ''error''"
  shows "snd (cli_run js (out, err)) = None
    \<and> rr_text (fst (cli_run js (out, err))) =
        (if texts_of ''text'' (events js out) = [] then out else texts_of ''text'' (events js out))"
  using assms read_events_fields [of js out] by (simp add: cli_run_def Let_def)

text \<open>
  A command that exits with an error but has printed anything that is no error event is answered
  with status 200: the text of the answer is what was printed, error messages included. Nothing is
  banned, retried or reported.
\<close>

theorem failed_command_answers_200:
  assumes "cj_request js body = Inr req" "xr_messages req \<noteq> []"
    and "exec = (\<lambda>env args. docker_Exec (Inr ()) (Inr ()) (Inr (out, err_out)) (Inr code) args)" "code \<noteq> 0"
    and "out @ err_out \<noteq> []" "events js (out @ err_out) = []"
  shows "\<exists>model. fst (cli_Do js exec other now body a False c)
    = Cli_answer 200 (Completion_body (xr_conversation req) now model (out @ err_out))"
proof -
  obtain err where e: "exec env args = (out @ err_out, Some (err args))" for env args
    using assms(3,4) by (simp add: docker_Exec_def)
  have "run_reply False now conv model (cli_run js (exec env args)) = Cli_answer 200 (Completion_body conv now model (out @ err_out))"
    for conv model env args
    using run_failed [of "out @ err_out" js "Some (err args)"] assms(5,6)
    by (cases "cli_run js (out @ err_out, Some (err args))") (simp add: e run_reply_def texts_of_def)
  then show ?thesis using assms(1,2) by (simp add: cli_Do_def Let_def)
qed

section \<open>Sessions\<close>

text \<open>
  A conversation keeps its session: the next request that names the conversation passes the session
  reported for it, whoever sends that request and with whatever credential, for whichever container;
  the sessions of other conversations stay as they are.
\<close>

theorem session_follows_conversation:
  assumes "cj_request js b1 = Inr r1" "xr_messages r1 \<noteq> []" "xr_conversation r1 \<noteq> []"
    and "cli_Do js exec (\<lambda>ss. ss) now b1 a1 stream c = (reply, Some (env, args), c1)"
    and "rr_session (fst (cli_run js (exec env args))) = s" "s \<noteq> []"
    and "cj_request js b2 = Inr r2" "xr_messages r2 \<noteq> []" "xr_conversation r2 = xr_conversation r1"
  shows "map_option snd (fst (snd (cli_Do js exec2 other now2 b2 a2 stream2 c1)))
      = Some (runArgs (xc_cfg c) (xr_model r2) s (buildPrompt (xr_messages r2)))
    \<and> (\<forall>k. k \<noteq> xr_conversation r1 \<longrightarrow> xc_sessions c1 k = xc_sessions c k)"
proof -
  have "xc_sessions c1 = (xc_sessions c)(xr_conversation r1 \<mapsto> s) \<and> xc_cfg c1 = xc_cfg c"
    using assms(1-6) by (auto simp: cli_Do_def Let_def)
  with assms(3,7-9) show ?thesis by (simp add: cli_Do_def Let_def)
qed

section \<open>Arguments\<close>

text \<open>
  What the command line holds does not depend on the client's credential, which goes into the
  environment only, and the environment holds nothing else.
\<close>

theorem credential_not_in_arguments:
  "map_option snd (fst (snd (cli_Do js exec other now body a stream c)))
     = map_option snd (fst (snd (cli_Do js exec' other' now' body a' stream' c)))
   \<and> set (concat (map fst (case fst (snd (cli_Do js exec other now body a stream c)) of None \<Rightarrow> [] | Some x \<Rightarrow> [x])))
     \<subseteq> {OpenCodeCLIProviderEnv (xc_cfg c) @ ''='' @ credential a}"
  by (auto simp: cli_Do_def cli_env_def Let_def split: sum.split)

lemma trim_space_hd:
  assumes "s \<noteq> []" "\<not> is_space (hd s)"
  shows "trim_space s \<noteq> [] \<and> hd (trim_space s) = hd s"
proof -
  have d: "dropWhile is_space s = s" using assms by (cases s) simp_all
  have "\<not> (\<forall>x \<in> set s. is_space x)" using assms by auto
  then have "trim_space s \<noteq> []" unfolding trim_space_def d by (metis dropWhile_eq_Nil_conv rev_is_Nil_conv set_rev)
  moreover have "s = trim_space s @ rev (takeWhile is_space (rev s))"
    unfolding trim_space_def d by (metis rev_append rev_rev_ident takeWhile_dropWhile_id)
  ultimately show ?thesis by (metis hd_append2)
qed

lemma hd_concat: "(\<And>x. x \<in> set xs \<Longrightarrow> x \<noteq> [] \<Longrightarrow> P (hd x)) \<Longrightarrow> concat xs \<noteq> [] \<Longrightarrow> P (hd (concat xs))"
proof (induction xs)
  case (Cons x xs)
  then show ?case by (cases "x = []") simp_all
qed simp

lemma transcript_start:
  assumes "as_str (field ''role'' (as_obj m)) \<in> set validChatRoles" "transcript m \<noteq> []"
  shows "hd (transcript m) \<in> set ''UAstfd''"
  using assms by (auto simp: transcript_def role_prefix_def validChatRoles_def Let_def split: if_splits)

text \<open>
  The prompt is the last argument of the command and, with roles the handler lets through, never
  begins with a hyphen: no message is taken for an option.
\<close>

theorem prompt_is_no_option:
  assumes "\<forall>m \<in> set messages. as_str (field ''role'' (as_obj m)) \<in> set validChatRoles" "buildPrompt messages \<noteq> []"
  shows "last (runArgs cfg model session (buildPrompt messages)) = buildPrompt messages
    \<and> hd (buildPrompt messages) \<noteq> CHR ''-''"
proof -
  let ?t = "concat (map transcript messages)"
  have n: "?t \<noteq> []"
  proof
    assume "?t = []"
    then have "buildPrompt messages = []" unfolding buildPrompt_def by (simp only:) (simp add: trim_space_def)
    then show False using assms(2) by simp
  qed
  have "hd ?t \<in> set ''UAstfd''"
    using hd_concat [of "map transcript messages" "\<lambda>ch. ch \<in> set ''UAstfd''"] n transcript_start assms(1) by auto
  moreover from this have "\<not> is_space (hd ?t)" by (auto simp: is_space_def)
  ultimately have "hd (buildPrompt messages) \<in> set ''UAstfd''"
    using trim_space_hd [OF n] by (simp add: buildPrompt_def)
  then show ?thesis using assms(2) by (auto simp: runArgs_def)
qed

section \<open>Streams\<close>

definition streamed :: "cli_event_out list \<Rightarrow> string" where
  "streamed evs = concat (map
     (\<lambda>e. case e of Chunk_event k \<Rightarrow> (case kc_delta k of Delta_content c \<Rightarrow> c | _ \<Rightarrow> []) | Done_event \<Rightarrow> []) evs)"

lemma join_blank: "join sep ((x # w) # ws) = x # join sep (w # ws)"
  by (cases ws) simp_all

lemma concat_words: "concat (case ws of [] \<Rightarrow> [] | w # ws \<Rightarrow> w # map (\<lambda>w. CHR '' '' # w) ws) = join '' '' ws"
proof (cases ws)
  case (Cons w vs)
  have "w @ concat (map (\<lambda>w. CHR '' '' # w) vs) = join '' '' (w # vs)"
    by (induction vs arbitrary: w) (simp_all add: join_blank)
  with Cons show ?thesis by simp
qed simp

lemma concat_splitChunks: "concat (splitChunks t) = concat (map (\<lambda>l. join '' '' (Prelude.fields l)) (split_on CHR 0x0A t))"
proof -
  have "concat (concat (map f ls)) = concat (map (\<lambda>l. concat (f l)) ls)" for f :: "string \<Rightarrow> string list" and ls
    by (induction ls) simp_all
  then show ?thesis by (simp add: splitChunks_def concat_words)
qed

lemma set_split_on: "w \<in> set (split_on c s) \<Longrightarrow> set w \<subseteq> set s"
proof (induction s arbitrary: w)
  case (Cons x s)
  show ?case
  proof (cases "split_on c s")
    case (Cons v vs)
    with Cons.IH have "set v \<subseteq> set s" "\<And>w. w \<in> set vs \<Longrightarrow> set w \<subseteq> set s" by auto
    with Cons Cons.prems show ?thesis by (auto split: if_splits)
  qed (use Cons.prems in \<open>auto split: if_splits\<close>)
qed simp

lemma fields_no_space:
  assumes "w \<in> set (Prelude.fields s)" "ch \<in> set w"
  shows "\<not> is_space ch"
proof -
  let ?s = "map (\<lambda>c. if is_space c then CHR '' '' else c) s"
  have w: "w \<in> set (split_on CHR '' '' ?s)" using assms(1) by (simp add: Prelude.fields_def)
  have "ch \<noteq> CHR '' ''" using split_on_free [OF w] assms(2) by auto
  moreover have "ch \<in> set ?s" using set_split_on [OF w] assms(2) by blast
  ultimately show ?thesis by auto
qed

lemma set_join: "set (join sep ws) \<subseteq> set sep \<union> \<Union> (set ` set ws)"
  by (induction sep ws rule: join.induct) auto

lemma splitChunks_Nil: "splitChunks [] = []"
  by (simp add: splitChunks_def Prelude.fields_def)

text \<open>
  A streamed answer is the words of the text's lines, joined by single blanks within a line and by
  nothing between lines: all line breaks are lost, the last word of a line is glued to the first of
  the next. The same text answered without streaming is complete.
\<close>

theorem streamed_text_loses_lines:
  "streamed (streamSSE now i model t reasoning)
     = concat (map (\<lambda>l. join '' '' (Prelude.fields l)) (split_on CHR 0x0A t))
   \<and> CHR 0x0A \<notin> set (streamed (streamSSE now i model t reasoning))"
proof -
  have s: "streamed (streamSSE now i model t reasoning) = concat (splitChunks t)"
    by (simp add: streamed_def streamSSE_def Let_def o_def splitChunks_Nil)
  have "CHR 0x0A \<notin> set (join '' '' (Prelude.fields l))" for l
    using set_join [of "'' ''" "Prelude.fields l"] fields_no_space [of _ l "CHR 0x0A"] by (auto simp: is_space_def)
  then show ?thesis by (simp add: s concat_splitChunks)
qed

section \<open>Models\<close>

text \<open>A model identifier the pattern takes whole.\<close>

definition model_token :: "string \<Rightarrow> bool" where
  "model_token t \<longleftrightarrow> token_at t = Some (t, [])"

lemma alnum_token: "alnum ch \<Longrightarrow> token_char ch"
  by (simp add: token_char_def)

lemma no_token_char: "is_space ch \<Longrightarrow> \<not> token_char ch" "ch \<in> set '':/'' \<Longrightarrow> \<not> token_char ch"
  by (auto simp: is_space_def token_char_def alnum_def is_digit_def lower_char_def)

lemma model_token_shape:
  assumes "model_token t"
  obtains f sep b where "t = f @ sep # b" "f \<noteq> []" "alnum (hd f)" "list_all token_char f" "sep \<in> set '':/''"
    "list_all token_char b" "2 \<le> length b" "alnum (hd b)"
proof -
  let ?f = "takeWhile token_char t"
  obtain sep behind where d: "dropWhile token_char t = sep # behind"
    and f: "?f \<noteq> []" "alnum (hd ?f)" and sep: "sep \<in> set '':/''"
    and b: "2 \<le> length (takeWhile token_char behind)" "alnum (hd (takeWhile token_char behind))"
    and t: "?f @ sep # takeWhile token_char behind = t"
    using assms by (auto simp: model_token_def token_at_def Let_def split: if_splits list.splits)
  show ?thesis
    by (rule that [OF t [symmetric] f _ sep _ b]) (auto simp: list_all_iff dest: set_takeWhileD)
qed

lemma token_at_append:
  assumes "model_token t" "rest = [] \<or> \<not> token_char (hd rest)"
  shows "token_at (t @ rest) = Some (t, rest)"
proof -
  obtain f sep b where t: "t = f @ sep # b" "f \<noteq> []" "alnum (hd f)" "list_all token_char f" "sep \<in> set '':/''"
    "list_all token_char b" "2 \<le> length b" "alnum (hd b)"
    using model_token_shape [OF assms(1)] by metis
  have s: "\<not> token_char sep" using no_token_char(2) [OF t(5)] .
  have f: "takeWhile token_char (t @ rest) = f" "dropWhile token_char (t @ rest) = sep # b @ rest"
    using t s by (simp_all add: takeWhile_append2 dropWhile_append2 list_all_iff)
  have "takeWhile token_char rest = []" "dropWhile token_char rest = rest"
    using assms(2) by (cases rest; simp)+
  then have b: "takeWhile token_char (b @ rest) = b" "dropWhile token_char (b @ rest) = rest"
    using t(6) by (simp_all add: takeWhile_append2 dropWhile_append2 list_all_iff)
  then have "token_at (t @ rest) = Some (f @ [sep] @ b, rest)"
    unfolding token_at_def Let_def f using t by simp
  then show ?thesis using t(1) by simp
qed

lemma find_tokens_append:
  assumes "model_token t" "rest = [] \<or> \<not> token_char (hd rest)"
  shows "find_tokens (t @ rest) = t # find_tokens rest"
proof -
  have "t \<noteq> []" using assms(1) by (auto simp: model_token_def token_at_def)
  then obtain ch s where "t @ rest = ch # s" by (cases "t @ rest") simp_all
  with token_at_append [OF assms] show ?thesis by simp
qed

lemma find_tokens_space: "is_space ch \<Longrightarrow> find_tokens (ch # s) = find_tokens s"
  by (simp add: token_at_def no_token_char)

lemma find_tokens_table: "list_all model_token ts \<Longrightarrow> find_tokens (join [CHR 0x0A] ts) = ts"
proof (induction ts)
  case (Cons w ts)
  note IH = Cons.IH
  have sp: "is_space (CHR 0x0A)" by (simp add: is_space_def)
  show ?case
  proof (cases ts)
    case Nil
    with Cons.prems show ?thesis using find_tokens_append [of w "[]"] by simp
  next
    case (Cons v vs)
    have "find_tokens (w @ CHR 0x0A # join [CHR 0x0A] ts) = w # find_tokens (join [CHR 0x0A] ts)"
      using \<open>list_all model_token (w # ts)\<close> no_token_char(1) [OF sp] find_tokens_space [OF sp, of "join [CHR 0x0A] ts"]
      by (subst find_tokens_append) (simp_all del: find_tokens.simps)
    with IH \<open>list_all model_token (w # ts)\<close> Cons show ?thesis by simp
  qed
qed simp

lemma trim_token:
  assumes "model_token t" shows "trim_space t = t \<and> t \<noteq> []"
proof -
  obtain f sep b where t: "t = f @ sep # b" "f \<noteq> []" "alnum (hd f)" "list_all token_char b" "2 \<le> length b"
    using model_token_shape [OF assms] by metis
  have b: "b \<noteq> []" using t(5) by auto
  have "hd t = hd f" "last t = last b" "t \<noteq> []" using t(1,2) b by simp_all
  moreover have "token_char (hd f)" using alnum_token [OF t(3)] .
  moreover have "token_char (last b)" using t(4) b by (simp add: list_all_iff)
  ultimately have "clean t" using no_token_char(1) unfolding clean_def by metis
  then show ?thesis using trim_space_clean [of t] by (simp add: clean_def)
qed

definition add_model :: "string list \<Rightarrow> string \<Rightarrow> string list" where
  "add_model models tok = (let tok = trim_space tok in if tok = [] \<or> tok \<in> set models then models else models @ [tok])"

lemma parseModelList_fold: "parseModelList out = foldl add_model [] (find_tokens out)"
  by (simp add: parseModelList_def add_model_def [abs_def])

lemma fold_add_model_distinct: "distinct ms \<Longrightarrow> distinct (foldl add_model ms ts)"
  by (induction ts arbitrary: ms) (simp_all add: add_model_def Let_def)

lemma fold_add_model: "list_all model_token ts \<Longrightarrow> distinct (ms @ ts) \<Longrightarrow> foldl add_model ms ts = ms @ ts"
  by (induction ts arbitrary: ms) (simp_all add: add_model_def Let_def trim_token)

text \<open>
  The models of a table are read back: from distinct identifiers printed one per line exactly those
  identifiers, in their order, are listed. Whatever is printed, no model is listed twice.
\<close>

theorem model_table_roundtrip:
  assumes "list_all model_token ts" "distinct ts"
  shows "parseModelList (join [CHR 0x0A] ts) = ts"
  using assms fold_add_model [of ts "[]"] by (simp add: parseModelList_fold find_tokens_table)

lemma parseModelList_distinct: "distinct (parseModelList out)"
  by (simp add: parseModelList_fold fold_add_model_distinct)

text \<open>The list of models is never empty and never an error.\<close>

lemma models_never_empty: "\<exists>ms. cli_DoModels exec a c = Cli_answer 200 (Models_body ms) \<and> ms \<noteq> []"
  by (simp add: cli_DoModels_def Let_def split: prod.split option.split)

text \<open>
  Without configured models and with a command that fails the list is the one configured model, and
  when none is configured that is the empty name: the model \<open>default\<close> the code means to fall back on
  is never listed.
\<close>

theorem models_never_default:
  assumes "OpenCodeCLIModels (xc_cfg c) = []" "OpenCodeCLIModel (xc_cfg c) = []"
    and "exec (cli_env (xc_cfg c) a) [''opencode'', ''models''] = (out, Some err)"
  shows "cli_DoModels exec a c = Cli_answer 200 (Models_body [[]])"
  using assms by (simp add: cli_DoModels_def Let_def)

section \<open>Concrete runs\<close>

definition demo_event :: "string \<Rightarrow> string \<Rightarrow> string \<Rightarrow> cli_event" where
  "demo_event ty sess t = \<lparr> ev_type = ty, ev_session_id = sess, ev_text = t, ev_session = [],
     ev_part_text = [], ev_part_error = [], ev_error = [] \<rparr>"

definition demo_user :: json where
  "demo_user = JObj [(''role'', JStr ''user''), (''content'', JStr ''-hi'')]"

text \<open>A request is always the same here; a line is an event when it is one of two.\<close>

definition demo_js :: cli_json where
  "demo_js = \<lparr> cj_request = (\<lambda>b. Inr \<lparr> xr_model = ''m'', xr_messages = [demo_user], xr_conversation = ''c'' \<rparr>),
     cj_event = (\<lambda>l. if l = ''{s'' then Some (demo_event ''step'' ''s1'' [])
       else if l = ''{t'' then Some (demo_event ''text'' [] ''ok'') else None),
     cj_string = (\<lambda>_. None), cj_object = (\<lambda>_. None) \<rparr>"

definition demo_cli :: cli_client where
  "demo_cli = NewOpenCodeCLIClient DefaultConfig"

definition demo_output :: string where
  "demo_output = join [CHR 0x0A] [''{s'', ''noise'', ''{t'']"



theorem failed_command_answers_200_witness:
  "\<exists>model. fst (cli_Do demo_js (\<lambda>env args. docker_Exec (Inr ()) (Inr ()) (Inr ([], ''no such model'')) (Inr 1) args)
       (\<lambda>ss. ss) 0 ''b'' \<lparr> au_header = [], au_value = [] \<rparr> False demo_cli)
     = Cli_answer 200 (Completion_body ''c'' 0 model ''no such model'')"
proof -
  have "events demo_js ''no such model'' = []" by code_simp
  then show ?thesis
    using failed_command_answers_200 [of demo_js "''b''" "\<lparr> xr_model = ''m'', xr_messages = [demo_user], xr_conversation = ''c'' \<rparr>"
        "\<lambda>env args. docker_Exec (Inr ()) (Inr ()) (Inr ([], ''no such model'')) (Inr 1) args" "[]" "''no such model''" 1
        "\<lambda>ss. ss" 0 "\<lparr> au_header = [], au_value = [] \<rparr>" demo_cli]
    by (simp add: demo_js_def)
qed

theorem session_follows_conversation_witness:
  "map_option snd (fst (snd (cli_Do demo_js (\<lambda>_ _. ([], None)) (\<lambda>ss. ss) 1 ''b'' \<lparr> au_header = [], au_value = ''other'' \<rparr> False
      (snd (snd (cli_Do demo_js (\<lambda>_ _. (demo_output, None)) (\<lambda>ss. ss) 0 ''b'' \<lparr> au_header = [], au_value = ''key'' \<rparr> False demo_cli))))))
   = Some [''opencode'', ''run'', ''--format'', ''json'', ''--model'', ''m'', ''--session'', ''s1'', ''User: -hi'']"
proof -
  define one where "one = cli_Do demo_js (\<lambda>_ _. (demo_output, None)) (\<lambda>ss. ss) 0 ''b'' \<lparr> au_header = [], au_value = ''key'' \<rparr> False demo_cli"
  have r: "rr_session (fst (cli_run demo_js (demo_output, None))) = ''s1''" by code_simp
  have q: "cj_request demo_js ''b'' = Inr \<lparr> xr_model = ''m'', xr_messages = [demo_user], xr_conversation = ''c'' \<rparr>"
    by (simp add: demo_js_def)
  have e: "fst (snd one) \<noteq> None" by (simp add: one_def cli_Do_def q Let_def)
  then obtain env args where o: "one = (fst one, Some (env, args), snd (snd one))" by (cases one) auto
  have a: "runArgs (xc_cfg demo_cli) ''m'' ''s1'' (buildPrompt [demo_user])
      = [''opencode'', ''run'', ''--format'', ''json'', ''--model'', ''m'', ''--session'', ''s1'', ''User: -hi'']"
    by code_simp
  show ?thesis
    using session_follows_conversation [OF q _ _ o [unfolded one_def] _ _ q, of "''s1''" "\<lambda>_ _. ([], None)" "\<lambda>ss. ss" 1
        "\<lparr> au_header = [], au_value = ''other'' \<rparr>" False] r a
    by (simp add: one_def)
qed

theorem prompt_is_no_option_witness: "hd (buildPrompt [demo_user]) \<noteq> CHR ''-''"
proof -
  have "buildPrompt [demo_user] \<noteq> []" by code_simp
  moreover have "as_str (field ''role'' (as_obj demo_user)) \<in> set validChatRoles" by code_simp
  ultimately show ?thesis using prompt_is_no_option [of "[demo_user]"] by simp
qed

theorem model_table_roundtrip_witness:
  "parseModelList (join [CHR 0x0A] [''anthropic/claude-4'', ''zen:m1'']) = [''anthropic/claude-4'', ''zen:m1'']"
proof -
  have "list_all model_token [''anthropic/claude-4'', ''zen:m1'']" by code_simp
  then show ?thesis using model_table_roundtrip [of "[''anthropic/claude-4'', ''zen:m1'']"] by simp
qed

theorem models_never_default_witness:
  "cli_DoModels (\<lambda>_ _. ([], Some ''exec not supported'')) \<lparr> au_header = [], au_value = [] \<rparr> demo_cli
     = Cli_answer 200 (Models_body [[]])"
  using models_never_default [of demo_cli "\<lambda>_ _. ([], Some ''exec not supported'')"]
  by (simp add: demo_cli_def NewOpenCodeCLIClient_def DefaultConfig_def)

end
