(* ===== verification/OpenCode_Server.thy ===== *)
theory OpenCode_Server
  imports Upstream_Client
begin

text \<open>
  \<^verbatim>\<open>internal/upstream/opencode_client.go\<close>: the driver for an OpenCode server. One chat request opens
  a session there, hands over the client's key, sends the conversation as text parts and turns the
  answer into a completion or a stream of the OpenAI shape. What the network answers to a request is
  an argument, and so is the decoding of answers; bodies are kept as the values that are encoded.
\<close>

section \<open>Values\<close>

datatype oc_out = Session_request string | Credential_request string | Message_request string string "string list"

record oc_call =
  kl_method :: string
  kl_url :: string
  kl_headers :: "(string \<times> string) list"
  kl_body :: oc_out
  kl_via :: string

record oc_part_result =
  pr_type :: string
  pr_text :: string
  pr_error :: "string option"

record oc_request =
  oq_model :: string
  oq_messages :: "json list"

datatype oc_delta = Oc_role string | Oc_content string | Oc_finish string

record oc_chunk =
  kd_id :: string
  kd_created :: time
  kd_model :: string
  kd_delta :: oc_delta

text \<open>
  What a reader of a stream gets: the chunks, or the text of an error. \<open>Oc_crash\<close> is a panic outside
  the handler's goroutine, which ends the process.
\<close>

datatype oc_event = Oc_chunk oc_chunk | Oc_error_text string | Oc_crash

datatype oc_reply =
    Oc_limited string string
  | Oc_failed string
  | Oc_stream "oc_event list"
  | Oc_completion string time string string
  | Oc_models string

record oc_client =
  xo_cfg :: config
  xo_base :: string
  xo_cache :: "string \<Rightarrow> http_client option"

text \<open>
  The outside: the dialer, URLs that do not parse, the network, the status line of a response, the
  decoding of the three answers, the clock.
\<close>

record oc_env =
  oe_dial :: "string \<Rightarrow> string option"
  oe_url :: "string \<Rightarrow> string option"
  oe_net :: "oc_call \<Rightarrow> string + response"
  oe_status :: "response \<Rightarrow> string"
  oe_request :: "string \<Rightarrow> oc_request"
  oe_session :: "response \<Rightarrow> string + string"
  oe_message :: "response \<Rightarrow> string + oc_part_result list"
  oe_now :: time

definition NewOpenCodeClient :: "config \<Rightarrow> oc_client" where
  "NewOpenCodeClient cfg =
     \<lparr> xo_cfg = cfg, xo_base = trim_right_char CHR ''/'' (trim_space (OpenCodeServerURL cfg)), xo_cache = (\<lambda>_. None) \<rparr>"

section \<open>Models and credentials\<close>

definition resolveModel :: "config \<Rightarrow> string \<Rightarrow> string \<times> string" where
  "resolveModel cfg m =
     (if OpenCodeModel cfg \<noteq> [] then (OpenCodeProviderID cfg, OpenCodeModel cfg)
      else case index_byte m CHR ''/'' of
             Some i \<Rightarrow> if i > 0 then (take i m, drop (i + 1) m) else (OpenCodeProviderID cfg, m)
           | None \<Rightarrow> (OpenCodeProviderID cfg, m))"

text \<open>\<open>toAuth\<close>: the basic credentials, if any, and the provider and key to put, if any.\<close>

definition toAuth :: "config \<Rightarrow> auth \<Rightarrow> (string \<times> string) option \<times> (string \<times> string) option" where
  "toAuth cfg a =
     (if OpenCodeServerPassword cfg \<noteq> [] then (Some (''opencode'', OpenCodeServerPassword cfg), None)
      else if has_prefix (to_lower (au_header a)) ''authorization'' \<and> has_prefix (au_value a) ''Bearer ''
      then (None, Some (snd (resolveModel cfg []), trim_prefix (au_value a) ''Bearer ''))
      else (None, None))"

text \<open>\<open>SetBasicAuth\<close>, with padded base64.\<close>

definition basic_auth :: "string \<times> string \<Rightarrow> string \<times> string" where
  "basic_auth up = (''Authorization'', ''Basic '' @ b64_padded (map of_char (fst up @ '':'' @ snd up)))"

section \<open>Requests\<close>

definition oc_getClient :: "(string \<Rightarrow> string option) \<Rightarrow> proxy \<Rightarrow> oc_client \<Rightarrow> (string + http_client) \<times> oc_client" where
  "oc_getClient dial p c =
     (case xo_cache c (px_id p) of
        Some h \<Rightarrow> (Inr h, c)
      | None \<Rightarrow>
          (case NewSOCKS5Dialer dial (px_addr p) of
             Inl err \<Rightarrow> (Inl err, c)
           | Inr addr \<Rightarrow>
               let h = \<lparr> hc_addr = addr, hc_timeout = RequestTimeout (xo_cfg c), hc_idle = 0 \<rparr>
               in (Inr h, c\<lparr> xo_cache := (xo_cache c)(px_id p \<mapsto> h) \<rparr>)))"

definition newRequest ::
  "oc_env \<Rightarrow> proxy \<Rightarrow> string \<Rightarrow> string \<Rightarrow> oc_out \<Rightarrow> auth \<Rightarrow> oc_client \<Rightarrow> (string + oc_call) \<times> oc_client" where
  "newRequest e p method path body a c =
     (case oc_getClient (oe_dial e) p c of
        (Inl err, c) \<Rightarrow> (Inl err, c)
      | (Inr h, c) \<Rightarrow>
          (case oe_url e (xo_base c @ path) of
             Some err \<Rightarrow> (Inl err, c)
           | None \<Rightarrow>
               (Inr \<lparr> kl_method = method, kl_url = xo_base c @ path,
                      kl_headers = (case fst (toAuth (xo_cfg c) a) of
                                      Some up \<Rightarrow> if fst up \<noteq> [] then [basic_auth up] else []
                                    | None \<Rightarrow> []),
                      kl_body = body, kl_via = hc_addr h \<rparr>, c)))"

definition rateLimitFromResp :: "response \<Rightarrow> string option" where
  "rateLimitFromResp rs = (if rs_status rs \<noteq> 429 then None else Some (header_value rs ''Retry-After''))"

section \<open>The conversation\<close>

definition oc_part :: "json \<Rightarrow> string option" where
  "oc_part m =
     (if is_obj m then
        (let role = as_str (field ''role'' (as_obj m)); content = as_str (field ''content'' (as_obj m))
         in if content = [] then None
            else Some ((if role = ''assistant'' then ''Assistant: '' else if role = ''user'' then [] else role @ '': '') @ content))
      else None)"

definition conversationToParts :: "json list \<Rightarrow> string list" where
  "conversationToParts messages = List.map_filter oc_part messages"

definition assistantText :: "oc_part_result list \<Rightarrow> string" where
  "assistantText parts = concat (map pr_text (filter (\<lambda>p. pr_type p = ''text'') parts))"

definition hasErrorPart :: "oc_part_result list \<Rightarrow> bool" where
  "hasErrorPart parts \<longleftrightarrow> list_ex (\<lambda>p. pr_error p \<noteq> None) parts"

definition errorPartMessage :: "oc_part_result list \<Rightarrow> string" where
  "errorPartMessage parts = (case List.map_filter pr_error parts of [] \<Rightarrow> [] | m # _ \<Rightarrow> m)"

section \<open>One turn\<close>

datatype oc_turn = Turn_limited string | Turn_failed string | Turn_text string string string

definition create_session :: "oc_env \<Rightarrow> oc_call \<Rightarrow> oc_turn + string" where
  "create_session e q =
     (case oe_net e q of
        Inl err \<Rightarrow> Inl (Turn_failed err)
      | Inr rs \<Rightarrow>
          (case rateLimitFromResp rs of
             Some ra \<Rightarrow> Inl (Turn_limited ra)
           | None \<Rightarrow>
               if rs_status rs \<noteq> 200 then Inl (Turn_failed (''opencode /session: '' @ oe_status e rs))
               else (case oe_session e rs of
                       Inl err \<Rightarrow> Inl (Turn_failed (''decode session: '' @ err))
                     | Inr i \<Rightarrow> if i = [] then Inl (Turn_failed ''opencode: empty session id'') else Inr i)))"

definition read_turn :: "oc_env \<Rightarrow> string \<Rightarrow> string \<Rightarrow> oc_call \<Rightarrow> oc_turn" where
  "read_turn e i model q =
     (case oe_net e q of
        Inl err \<Rightarrow> Turn_failed err
      | Inr rs \<Rightarrow>
          (case rateLimitFromResp rs of
             Some ra \<Rightarrow> Turn_limited ra
           | None \<Rightarrow>
               if rs_status rs \<ge> 400 then
                 Turn_failed (''opencode message: '' @ oe_status e rs @ '': '' @ rs_body rs)
               else (case oe_message e rs of
                       Inl err \<Rightarrow> Turn_failed (''decode message: '' @ err)
                     | Inr parts \<Rightarrow>
                         if hasErrorPart parts then Turn_failed (''opencode tool error: '' @ errorPartMessage parts)
                         else Turn_text i model (assistantText parts))))"

text \<open>\<open>DoChatCompletion\<close> up to the writing of the answer, with the requests it makes.\<close>

definition oc_turn_of :: "oc_env \<Rightarrow> proxy \<Rightarrow> string \<Rightarrow> auth \<Rightarrow> oc_client \<Rightarrow> oc_turn \<times> oc_call list \<times> oc_client" where
  "oc_turn_of e p body a c =
     (let req = oe_request e body;
          parts = conversationToParts (oq_messages req);
          (provider, model) = resolveModel (xo_cfg c) (oq_model req)
      in case newRequest e p ''POST'' ''/session'' (Session_request ''gateway-session'') a c of
           (Inl err, c) \<Rightarrow> (Turn_failed err, [], c)
         | (Inr q, c) \<Rightarrow>
             (case create_session e q of
                Inl t \<Rightarrow> (t, [q], c)
              | Inr i \<Rightarrow>
                  let (put, c) =
                        (case snd (toAuth (xo_cfg c) a) of
                           None \<Rightarrow> (Inr [], c)
                         | Some (prov, key) \<Rightarrow>
                             (case newRequest e p ''PUT'' (''/auth/'' @ prov) (Credential_request key) a c of
                                (Inl err, c) \<Rightarrow> (Inl err, c)
                              | (Inr k, c) \<Rightarrow> (Inr [k], c)))
                  in case put of
                       Inl err \<Rightarrow> (Turn_failed err, [q], c)
                     | Inr ks \<Rightarrow>
                         (case newRequest e p ''POST'' (''/session/'' @ i @ ''/message'') (Message_request provider model parts) a c of
                            (Inl err, c) \<Rightarrow> (Turn_failed err, q # ks, c)
                          | (Inr m, c) \<Rightarrow>
                              let m = m\<lparr> kl_headers := set_header ''Content-Type'' ''application/json'' (kl_headers m) \<rparr>
                              in (read_turn e i (if model \<noteq> [] then model else oq_model req) m, q # ks @ [m], c))))"

section \<open>The answer\<close>

definition writeStream :: "time \<Rightarrow> string \<Rightarrow> string \<Rightarrow> string \<Rightarrow> oc_event list" where
  "writeStream now i model t =
     (let chunk = (\<lambda>d. Oc_chunk \<lparr> kd_id = i, kd_created = now, kd_model = model, kd_delta = d \<rparr>)
      in [chunk (Oc_role ''assistant'')]
         @ (case Prelude.fields t of [] \<Rightarrow> [] | w # ws \<Rightarrow> map (\<lambda>w. chunk (Oc_content w)) (w # map (\<lambda>w. CHR '' '' # w) ws))
         @ [chunk (Oc_finish ''stop'')])"

text \<open>
  \<open>Do\<close>. The stream is answered before anything is known: what follows happens in a goroutine of its
  own, which writes an error as text. \<open>None\<close> is a panic in the handler's goroutine, on a nil proxy.
\<close>

definition oc_Do :: "oc_env \<Rightarrow> proxy option \<Rightarrow> string \<Rightarrow> auth \<Rightarrow> bool \<Rightarrow> oc_client \<Rightarrow> oc_reply option \<times> oc_call list \<times> oc_client" where
  "oc_Do e p body a stream c =
     (case p of
        None \<Rightarrow> (if stream then (Some (Oc_stream [Oc_crash]), [], c) else (None, [], c))
      | Some p \<Rightarrow>
          (case oc_turn_of e p body a c of
             (t, qs, c) \<Rightarrow>
               (Some (if stream then
                        Oc_stream (case t of
                          Turn_limited ra \<Rightarrow> [Oc_error_text ''rate limited (429)'']
                        | Turn_failed err \<Rightarrow> [Oc_error_text err]
                        | Turn_text i model txt \<Rightarrow> writeStream (oe_now e) i model txt)
                      else (case t of
                          Turn_limited ra \<Rightarrow> Oc_limited ra ''rate limited (429)''
                        | Turn_failed err \<Rightarrow> Oc_failed err
                        | Turn_text i model txt \<Rightarrow> Oc_completion i (oe_now e) model txt)), qs, c)))"

definition oc_DoModels :: "oc_client \<Rightarrow> oc_reply" where
  "oc_DoModels c = Oc_models (if OpenCodeModel (xo_cfg c) = [] then ''default'' else OpenCodeModel (xo_cfg c))"

text \<open>What the chat handler is told.\<close>

definition oc_result :: "(oc_event list \<Rightarrow> response) \<Rightarrow> (string \<times> time \<times> string \<times> string \<Rightarrow> response) \<Rightarrow> (string \<Rightarrow> response) \<Rightarrow> oc_reply \<Rightarrow> do_result" where
  "oc_result enc_stream enc_completion enc_models r =
     (case r of
        Oc_limited ra _ \<Rightarrow> Limited ra
      | Oc_failed err \<Rightarrow> Failed err
      | Oc_stream evs \<Rightarrow> Answered ((enc_stream evs)\<lparr> rs_status := 200, rs_headers := [(''Content-Type'', ''text/event-stream'')] \<rparr>)
      | Oc_completion i now model txt \<Rightarrow>
          Answered ((enc_completion (i, now, model, txt))\<lparr> rs_status := 200, rs_headers := [(''Content-Type'', ''application/json'')] \<rparr>)
      | Oc_models m \<Rightarrow> Answered ((enc_models m)\<lparr> rs_status := 200, rs_headers := [(''Content-Type'', ''application/json'')] \<rparr>))"

end
