(* ===== verification/OpenCode_Server_Laws.thy ===== *)
theory OpenCode_Server_Laws
  imports OpenCode_Server
begin

text \<open>
  What the OpenCode server driver promises: every request of a turn leaves through the proxy it was
  given, and a server password shuts out the client's credential. What it breaks: the key is put
  under the model instead of the provider, a streamed turn hides its failures behind status 200, an
  error of the server is taken for one of the proxy, line breaks are lost.
\<close>

section \<open>Requests\<close>

definition oc_cache_ok :: "(string \<Rightarrow> string) \<Rightarrow> oc_client \<Rightarrow> bool" where
  "oc_cache_ok addr c \<longleftrightarrow> (\<forall>i h. xo_cache c i = Some h \<longrightarrow> hc_addr h = strip_scheme (addr i))"

lemma oc_getClient_ok:
  assumes "oc_cache_ok addr c" "px_addr p = addr (px_id p)" "oc_getClient dial p c = (r, c')"
  shows "oc_cache_ok addr c' \<and> xo_base c' = xo_base c \<and> xo_cfg c' = xo_cfg c
    \<and> (case r of Inl _ \<Rightarrow> True | Inr h \<Rightarrow> hc_addr h = strip_scheme (px_addr p))"
proof -
  have "NewSOCKS5Dialer dial (px_addr p) = Inr a \<Longrightarrow> a = strip_scheme (addr (px_id p))" for a
    using assms(2) by (auto simp: NewSOCKS5Dialer_def strip_scheme_def Let_def split: option.splits)
  with assms show ?thesis
    by (auto simp: oc_getClient_def oc_cache_ok_def Let_def split: option.splits sum.splits if_splits)
qed

text \<open>The shape of a request, whatever the cache holds.\<close>

lemma newRequest_shape:
  assumes "newRequest e p m path b a c = (r, c')"
  shows "xo_base c' = xo_base c \<and> xo_cfg c' = xo_cfg c
    \<and> (case r of Inl _ \<Rightarrow> True | Inr q \<Rightarrow> kl_method q = m \<and> kl_url q = xo_base c @ path \<and> kl_body q = b)"
  using assms by (auto simp: newRequest_def oc_getClient_def Let_def split: option.splits sum.splits prod.splits)

lemma newRequest_via:
  assumes "oc_cache_ok addr c" "px_addr p = addr (px_id p)" "newRequest e p m path b a c = (r, c')"
  shows "oc_cache_ok addr c' \<and> (case r of Inl _ \<Rightarrow> True | Inr q \<Rightarrow> kl_via q = strip_scheme (px_addr p))"
proof -
  obtain g c1 where g: "oc_getClient (oe_dial e) p c = (g, c1)" by fastforce
  from oc_getClient_ok [OF assms(1,2) g] assms(3) g show ?thesis
    by (auto simp: newRequest_def split: option.splits sum.splits)
qed

text \<open>The provider that is handed the key is the configured model.\<close>

lemma put_provider: "snd (toAuth cfg a) = Some (prov, key) \<Longrightarrow> prov = OpenCodeModel cfg"
  by (auto simp: toAuth_def resolveModel_def split: if_splits)

text \<open>The calls of a turn, one after another: what holds of each request holds of all of them.\<close>

definition put_key :: "oc_env \<Rightarrow> proxy \<Rightarrow> auth \<Rightarrow> oc_client \<Rightarrow> (string + oc_call list) \<times> oc_client" where
  "put_key e p a c =
     (case snd (toAuth (xo_cfg c) a) of
        None \<Rightarrow> (Inr [], c)
      | Some (prov, key) \<Rightarrow>
          (case newRequest e p ''PUT'' (''/auth/'' @ prov) (Credential_request key) a c of
             (Inl err, c) \<Rightarrow> (Inl err, c)
           | (Inr k, c) \<Rightarrow> (Inr [k], c)))"

lemma turn_calls:
  assumes step: "\<And>m path b c r c'. I c \<Longrightarrow> newRequest e p m path b a c = (r, c') \<Longrightarrow>
      I c' \<and> (case r of Inl _ \<Rightarrow> True | Inr q \<Rightarrow> P m path q)"
    and hdr: "\<And>path q hs. P ''POST'' path q \<Longrightarrow> P ''POST'' path (q\<lparr> kl_headers := hs \<rparr>)"
    and i: "I c" and t: "oc_turn_of e p body a c = (t, qs, c')"
  shows "I c' \<and> list_all (\<lambda>q. (\<exists>path. P ''POST'' path q) \<or> P ''PUT'' (''/auth/'' @ OpenCodeModel (xo_cfg c)) q) qs"
proof -
  let ?req = "oe_request e body" and ?put = "''/auth/'' @ OpenCodeModel (xo_cfg c)"
  obtain prov model where m: "resolveModel (xo_cfg c) (oq_model ?req) = (prov, model)" by fastforce
  obtain r1 c1 where q1: "newRequest e p ''POST'' ''/session'' (Session_request ''gateway-session'') a c = (r1, c1)" by fastforce
  note s1 = step [OF i q1]
  have cfg: "xo_cfg c1 = xo_cfg c" using newRequest_shape [OF q1] by simp
  show ?thesis
  proof (cases r1)
    case (Inl err)
    with t q1 m s1 show ?thesis by (auto simp: oc_turn_of_def Let_def)
  next
    case (Inr q)
    note r1 = Inr
    show ?thesis
    proof (cases "create_session e q")
      case (Inl tt)
      with t q1 m s1 r1 show ?thesis by (auto simp: oc_turn_of_def Let_def)
    next
      case (Inr sid)
      note sid = this
      have p: "I (snd (put_key e p a c1)) \<and> (case fst (put_key e p a c1) of Inl _ \<Rightarrow> True | Inr ks \<Rightarrow> list_all (P ''PUT'' ?put) ks)"
        using s1 step put_provider [of "xo_cfg c1" a] cfg unfolding put_key_def
        by (fastforce split: option.split prod.split sum.split)
      obtain put c2 where pk: "put_key e p a c1 = (put, c2)" by fastforce
      define mp where "mp = ''/session/'' @ sid @ ''/message''"
      define mb where "mb = Message_request prov model (conversationToParts (oq_messages ?req))"
      obtain r3 c3 where q3: "newRequest e p ''POST'' mp mb a c2 = (r3, c3)" by fastforce
      have s3: "I c3 \<and> (case r3 of Inl _ \<Rightarrow> True | Inr q \<Rightarrow> P ''POST'' mp q)"
        using step [OF _ q3] p pk by simp
      define json :: "oc_call \<Rightarrow> oc_call" where
        "json = (\<lambda>m. m\<lparr> kl_headers := set_header ''Content-Type'' ''application/json'' (kl_headers m) \<rparr>)"
      have mono: "list_all (P ''PUT'' ?put) ks \<Longrightarrow> list_all (\<lambda>q. (\<exists>path. P ''POST'' path q) \<or> P ''PUT'' ?put q) ks" for ks
        by (auto simp: list_all_iff)
      have h: "P ''POST'' path q \<Longrightarrow> P ''POST'' path (json q)" for path q
        using hdr [of path q "set_header ''Content-Type'' ''application/json'' (kl_headers q)"] by (simp add: json_def)
      show ?thesis
      proof (cases put)
        case (Inl err)
        with t q1 m r1 sid pk have "c' = c2 \<and> qs = [q]"
          by (simp add: oc_turn_of_def Let_def put_key_def)
        with Inl p pk s1 r1 show ?thesis by auto
      next
        case (Inr ks)
        with p pk have k: "I c2" "list_all (\<lambda>q. (\<exists>path. P ''POST'' path q) \<or> P ''PUT'' ?put q) ks"
          using mono by simp_all
        from Inr t q1 m r1 sid pk q3 have "c' = c3 \<and> qs = (case r3 of Inl _ \<Rightarrow> q # ks | Inr m \<Rightarrow> q # ks @ [json m])"
          by (cases r3) (simp_all add: oc_turn_of_def Let_def put_key_def mp_def mb_def json_def)
        with s3 s1 r1 k h show ?thesis by (cases r3) (simp_all, blast+)
      qed
    qed
  qed
qed

text \<open>
  C24: Every request of a turn leaves through the proxy it was given, as long as an identifier stands for
  one address, and the cache stays that way.
\<close>

theorem turn_egress_is_own_proxy:
  assumes "oc_cache_ok addr c" "px_addr p = addr (px_id p)"
  shows "oc_cache_ok addr (snd (snd (oc_Do e (Some p) body a stream c)))
    \<and> list_all (\<lambda>q. kl_via q = strip_scheme (px_addr p)) (fst (snd (oc_Do e (Some p) body a stream c)))"
proof -
  obtain t qs c' where t: "oc_turn_of e p body a c = (t, qs, c')" by (cases "oc_turn_of e p body a c")
  show ?thesis
    using turn_calls [where I = "oc_cache_ok addr" and P = "\<lambda>m path q. kl_via q = strip_scheme (px_addr p)", OF _ _ assms(1) t]
      newRequest_via [where addr = addr and p = p, OF _ assms(2)] by (simp add: oc_Do_def t)
qed

text \<open>
  The client's key is put under the model's name: the only address it is ever sent to is that of the
  configured model, which is empty when none is configured, never that of a provider.
\<close>

theorem key_put_under_model:
  "list_all (\<lambda>q. kl_url q = xo_base c @ ''/auth/'' @ OpenCodeModel (xo_cfg c))
     (filter (\<lambda>q. kl_method q = ''PUT'') (fst (snd (oc_Do e (Some p) body a stream c))))"
proof -
  obtain t qs c' where t: "oc_turn_of e p body a c = (t, qs, c')" by (cases "oc_turn_of e p body a c")
  have "xo_base c' = xo_base c \<and> list_all (\<lambda>q. (\<exists>path. kl_method q = ''POST'' \<and> kl_url q = xo_base c @ path)
      \<or> (kl_method q = ''PUT'' \<and> kl_url q = xo_base c @ ''/auth/'' @ OpenCodeModel (xo_cfg c))) qs"
  proof (rule turn_calls [where I = "\<lambda>d. xo_base d = xo_base c"
        and P = "\<lambda>m path q. kl_method q = m \<and> kl_url q = xo_base c @ path", OF _ _ refl t])
    fix m path b d r d'
    assume "xo_base d = xo_base c" "newRequest e p m path b a d = (r, d')"
    then show "xo_base d' = xo_base c \<and> (case r of Inl x \<Rightarrow> True | Inr q \<Rightarrow> kl_method q = m \<and> kl_url q = xo_base c @ path)"
      using newRequest_shape by (fastforce split: sum.split)
  qed simp
  then show ?thesis by (auto simp: oc_Do_def t list_all_iff)
qed

text \<open>
  With a server password the client's credential has no effect on a turn: it is neither put nor sent,
  and the answer, the requests and the cache are the same for every client.
\<close>

lemma toAuth_password: "OpenCodeServerPassword cfg \<noteq> [] \<Longrightarrow> toAuth cfg a = toAuth cfg b"
  by (simp add: toAuth_def)

lemma newRequest_auth:
  assumes "OpenCodeServerPassword (xo_cfg c) \<noteq> []"
  shows "newRequest e p m path b a c = newRequest e p m path b a' c"
proof -
  have "xo_cfg (snd (oc_getClient (oe_dial e) p c)) = xo_cfg c"
    by (simp add: oc_getClient_def Let_def split: option.split sum.split)
  with toAuth_password [OF assms, of a a'] show ?thesis
    by (cases "oc_getClient (oe_dial e) p c") (auto simp: newRequest_def split: sum.split option.split)
qed

theorem password_shuts_out_credential:
  assumes "OpenCodeServerPassword (xo_cfg c) \<noteq> []"
  shows "oc_Do e p body a stream c = oc_Do e p body a' stream c"
proof -
  have same: "newRequest e p m path b a d = newRequest e p m path b a' d" if "xo_cfg d = xo_cfg c" for p m path b d
    by (rule newRequest_auth) (use that assms in simp)
  have cfg: "newRequest e p m path b x d = (r, d') \<Longrightarrow> xo_cfg d' = xo_cfg d" for p m path b x d r d'
    using newRequest_shape by blast
  have none: "toAuth (xo_cfg d) x = (Some (''opencode'', OpenCodeServerPassword (xo_cfg c)), None)" if "xo_cfg d = xo_cfg c" for d x
    using that assms by (simp add: toAuth_def)
  have "oc_turn_of e p body a c = oc_turn_of e p body a' c" for p
    unfolding oc_turn_of_def Let_def same [OF refl]
    by (auto simp: none same cfg split: prod.splits sum.splits)
  then show ?thesis by (cases p) (simp_all add: oc_Do_def)
qed

section \<open>Failures\<close>

text \<open>
  A streamed turn hides its failures: whatever happens, a rate limit included, the chat handler is
  told status 200, and the client reads the error as text. The same failure without streaming is
  reported, so that only then the address is banned and another proxy tried.
\<close>

theorem stream_hides_rate_limit:
  assumes "fst (oc_turn_of e p body a c) = Turn_limited ra"
  shows "map_option (oc_result es ec em) (fst (oc_Do e (Some p) body a False c)) = Some (Limited ra)
    \<and> (\<exists>rs. map_option (oc_result es ec em) (fst (oc_Do e (Some p) body a True c)) = Some (Answered rs) \<and> rs_status rs = 200)
    \<and> fst (oc_Do e (Some p) body a True c) = Some (Oc_stream [Oc_error_text ''rate limited (429)''])"
  using assms by (cases "oc_turn_of e p body a c") (simp add: oc_Do_def oc_result_def)

text \<open>
  An error answer of the server is reported as a failure of the transport: a request the server
  refuses, because of a wrong key for example, counts against the proxy.
\<close>

theorem server_refusal_blames_proxy:
  assumes "oe_net e q = Inr rs" "400 \<le> rs_status rs" "rs_status rs \<noteq> 429"
  shows "\<exists>err. read_turn e i model q = Turn_failed err"
  using assms by (simp add: read_turn_def rateLimitFromResp_def)

section \<open>Streams\<close>

definition oc_streamed :: "oc_event list \<Rightarrow> string" where
  "oc_streamed evs = concat (map
     (\<lambda>e. case e of Oc_chunk k \<Rightarrow> (case kd_delta k of Oc_content c \<Rightarrow> c | _ \<Rightarrow> []) | _ \<Rightarrow> []) evs)"

lemma concat_blanks: "w @ concat (map (\<lambda>w. CHR '' '' # w) ws) = join '' '' (w # ws)"
proof (induction ws arbitrary: w)
  case (Cons v ws)
  from Cons.IH [of v] show ?case by simp
qed simp

text \<open>
  A streamed turn is the words of the text joined by single blanks, between the chunk with the role
  and the one that finishes; lines, indentation and repeated blanks are lost, and no closing
  \<open>[DONE]\<close> is among the events.
\<close>

theorem streamed_turn_is_words:
  "oc_streamed (writeStream now i model t) = join '' '' (Prelude.fields t)
   \<and> length (writeStream now i model t) = length (Prelude.fields t) + 2
   \<and> (\<exists>k. last (writeStream now i model t) = Oc_chunk k \<and> kd_delta k = Oc_finish ''stop'')"
  using concat_blanks
  by (cases "Prelude.fields t") (simp_all add: oc_streamed_def writeStream_def Let_def o_def)

text \<open>The model field names provider and model at the first slash.\<close>

theorem resolveModel_pair:
  assumes "OpenCodeModel cfg = []" "prov \<noteq> []" "CHR ''/'' \<notin> set prov"
  shows "resolveModel cfg (prov @ ''/'' @ model) = (prov, model)"
  using assms index_byte_append [of "CHR ''/''" prov model] by (simp add: resolveModel_def)

section \<open>Concrete turns\<close>

definition demo_proxy_oc :: proxy where
  "demo_proxy_oc = (demo_proxy ''ext-1'' [])\<lparr> px_addr := ''socks5://h:1'' \<rparr>"

definition demo_oc_env :: oc_env where
  "demo_oc_env = \<lparr> oe_dial = (\<lambda>_. None), oe_url = (\<lambda>_. None), oe_net = (\<lambda>q. Inr (demo_response\<lparr> rs_status := 429 \<rparr>)),
     oe_status = (\<lambda>_. ''429''), oe_request = (\<lambda>_. \<lparr> oq_model = ''m'', oq_messages = [] \<rparr>),
     oe_session = (\<lambda>_. Inr ''s''), oe_message = (\<lambda>_. Inr []), oe_now = 0 \<rparr>"

theorem turn_egress_is_own_proxy_witness:
  "list_all (\<lambda>q. kl_via q = ''h:1'')
     (fst (snd (oc_Do demo_oc_env (Some demo_proxy_oc) [] \<lparr> au_header = [], au_value = [] \<rparr> True (NewOpenCodeClient DefaultConfig))))"
proof -
  have s: "strip_scheme ''socks5://h:1'' = ''h:1''" by code_simp
  have "oc_cache_ok (\<lambda>_. ''socks5://h:1'') (NewOpenCodeClient DefaultConfig)"
    by (simp add: oc_cache_ok_def NewOpenCodeClient_def)
  moreover have "px_addr demo_proxy_oc = ''socks5://h:1''" by (simp add: demo_proxy_oc_def)
  ultimately show ?thesis
    using turn_egress_is_own_proxy [of "\<lambda>_. ''socks5://h:1''" "NewOpenCodeClient DefaultConfig" demo_proxy_oc demo_oc_env
        "[]" "\<lparr> au_header = [], au_value = [] \<rparr>" True] s by simp
qed

theorem password_shuts_out_credential_witness:
  "oc_Do demo_oc_env (Some demo_proxy_oc) [] \<lparr> au_header = ''Authorization'', au_value = ''Bearer k'' \<rparr> True
     (NewOpenCodeClient (DefaultConfig\<lparr> OpenCodeServerPassword := ''pw'' \<rparr>))
   = oc_Do demo_oc_env (Some demo_proxy_oc) [] \<lparr> au_header = [], au_value = [] \<rparr> True
     (NewOpenCodeClient (DefaultConfig\<lparr> OpenCodeServerPassword := ''pw'' \<rparr>))"
  by (rule password_shuts_out_credential) (simp add: NewOpenCodeClient_def)

theorem stream_hides_rate_limit_witness:
  "fst (oc_Do demo_oc_env (Some demo_proxy_oc) [] \<lparr> au_header = [], au_value = [] \<rparr> True (NewOpenCodeClient DefaultConfig))
     = Some (Oc_stream [Oc_error_text ''rate limited (429)''])"
proof -
  have "fst (oc_turn_of demo_oc_env demo_proxy_oc [] \<lparr> au_header = [], au_value = [] \<rparr> (NewOpenCodeClient DefaultConfig))
      = Turn_limited (header_value (demo_response\<lparr> rs_status := 429 \<rparr>) ''Retry-After'')"
    by (simp add: oc_turn_of_def newRequest_def oc_getClient_def NewSOCKS5Dialer_def NewOpenCodeClient_def demo_oc_env_def
        resolveModel_def create_session_def rateLimitFromResp_def Let_def split: prod.split option.split)
  then show ?thesis using stream_hides_rate_limit by blast
qed

theorem server_refusal_blames_proxy_witness:
  "\<exists>err. read_turn (demo_oc_env\<lparr> oe_net := (\<lambda>q. Inr (demo_response\<lparr> rs_status := 401 \<rparr>)) \<rparr>) ''s'' ''m''
     \<lparr> kl_method = ''POST'', kl_url = [], kl_headers = [], kl_body = Session_request [], kl_via = [] \<rparr> = Turn_failed err"
  by (rule server_refusal_blames_proxy [where rs = "demo_response\<lparr> rs_status := 401 \<rparr>"]) simp_all

theorem resolveModel_pair_witness: "resolveModel DefaultConfig ''zen/m'' = (''zen'', ''m'')"
  using resolveModel_pair [of DefaultConfig "''zen''" "''m''"] by (simp add: DefaultConfig_def)

end
