(* ===== verification/Go_Calendar.thy ===== *)
theory Go_Calendar
  imports Duration_Text
begin

text \<open>
  The part of Go's \<open>time\<close> formatting the metrics use: \<open>RFC3339\<close> and the minute of a time, for
  instants from 1970 on, and the proof that the text of two instants compares as the instants do as
  long as the year has four digits.
\<close>

section \<open>The calendar\<close>

definition leap :: "nat \<Rightarrow> bool" where
  "leap y \<longleftrightarrow> y mod 4 = 0 \<and> (y mod 100 \<noteq> 0 \<or> y mod 400 = 0)"

definition year_days :: "nat \<Rightarrow> nat" where
  "year_days y = (if leap y then 366 else 365)"

definition month_days :: "nat \<Rightarrow> nat list" where
  "month_days y = [31, if leap y then 29 else 28, 31, 30, 31, 30, 31, 31, 30, 31, 30, 31]"

text \<open>The year and the day in it, the month and the day in it, all counted from the left argument on.\<close>

function civil_year :: "nat \<Rightarrow> nat \<Rightarrow> nat \<times> nat" where
  "civil_year y d = (if d < year_days y then (y, d) else civil_year (Suc y) (d - year_days y))"
  by pat_completeness auto

termination civil_year
  by (relation "measure snd") (auto simp: year_days_def)

declare civil_year.simps [simp del]

fun civil_month :: "nat \<Rightarrow> nat list \<Rightarrow> nat \<Rightarrow> nat \<times> nat" where
  "civil_month m [] d = (m, d)"
| "civil_month m (l # ls) d = (if d < l then (m, d) else civil_month (Suc m) ls (d - l))"

definition date_text :: "nat \<Rightarrow> string" where
  "date_text days =
     (case civil_year 1970 days of (y, r) \<Rightarrow>
        (case civil_month 1 (month_days y) r of (m, d) \<Rightarrow>
           pad_digits 4 y @ ''-'' @ pad_digits 2 m @ ''-'' @ pad_digits 2 (d + 1)))"

definition minute_text :: "nat \<Rightarrow> string" where
  "minute_text s =
     date_text (s div 86400) @ ''T'' @ pad_digits 2 (s div 3600 mod 24) @ '':'' @ pad_digits 2 (s div 60 mod 60)"

text \<open>\<open>Format(time.RFC3339)\<close> in UTC, and in a zone \<open>off\<close> seconds east of it.\<close>

definition utc_text :: "nat \<Rightarrow> string" where
  "utc_text s = minute_text s @ '':'' @ pad_digits 2 (s mod 60) @ ''Z''"

definition zone_text :: "int \<Rightarrow> string" where
  "zone_text off =
     (if off = 0 then ''Z''
      else (let m = nat (\<bar>off\<bar> div 60)
            in (if off < 0 then ''-'' else ''+'') @ pad_digits 2 (m div 60) @ '':'' @ pad_digits 2 (m mod 60)))"

definition local_text :: "int \<Rightarrow> int \<Rightarrow> string" where
  "local_text off s = (let l = nat (s + off) in minute_text l @ '':'' @ pad_digits 2 (l mod 60) @ zone_text off)"

lemma date_example: "civil_year 1970 11016 = (2000, 59) \<and> civil_month 1 (month_days 2000) 59 = (2, 28)"
  by (simp add: civil_year.simps year_days_def leap_def month_days_def)

section \<open>Order\<close>

lemma append_less_append:
  fixes xs ys :: "'a::linorder list"
  assumes "length xs = length ys"
  shows "xs @ us < ys @ vs \<longleftrightarrow> xs < ys \<or> (xs = ys \<and> us < vs)"
  using assms by (induction xs ys rule: list_induct2) auto

lemma append_prefix_less [simp]:
  fixes us :: "'a::linorder list"
  shows "xs @ us < xs @ vs \<longleftrightarrow> us < vs"
  by (simp add: append_less_append)

lemma digit_of_less: "digit_of a < digit_of b \<longleftrightarrow> a mod 10 < b mod 10"
proof -
  have "(of_char (digit_of n) :: nat) = 48 + n mod 10" for n
    using mod_less_divisor [of 10 n] by (simp add: digit_of_def)
  then show ?thesis by (simp add: less_char_def)
qed

lemma pad_digits_less_mono: "a < b \<Longrightarrow> b < 10 ^ k \<Longrightarrow> pad_digits k a < pad_digits k b"
proof (induction k arbitrary: a b)
  case (Suc k)
  have b: "b div 10 < 10 ^ k" using Suc.prems by (simp add: div_less_iff_less_mult mult.commute)
  show ?case
  proof (cases "a div 10 < b div 10")
    case True
    with Suc.IH b show ?thesis by (simp add: append_less_append)
  next
    case False
    with Suc.prems have e: "a div 10 = b div 10" using div_le_mono [of a b 10] by simp
    then have "a mod 10 < b mod 10"
      using Suc.prems div_mult_mod_eq [of a 10] div_mult_mod_eq [of b 10] by linarith
    with e show ?thesis by (simp add: append_less_append digit_of_less)
  qed
qed simp

lemma civil_year_ge: "y \<le> fst (civil_year y d)"
  by (induction y d rule: civil_year.induct) (subst civil_year.simps, auto)

lemma civil_year_rest: "snd (civil_year y d) < year_days (fst (civil_year y d))"
  by (induction y d rule: civil_year.induct) (subst (1 2) civil_year.simps, auto)

lemma civil_year_mono:
  "d < e \<Longrightarrow> fst (civil_year y d) < fst (civil_year y e)
     \<or> (fst (civil_year y d) = fst (civil_year y e) \<and> snd (civil_year y d) < snd (civil_year y e))"
proof (induction y d arbitrary: e rule: civil_year.induct)
  case (1 y d)
  show ?case
  proof (cases "d < year_days y")
    case True
    show ?thesis
    proof (cases "e < year_days y")
      case True
      with \<open>d < year_days y\<close> \<open>d < e\<close> show ?thesis by (simp add: civil_year.simps [of y])
    next
      case False
      with True show ?thesis
        using civil_year_ge [of "Suc y" "e - year_days y"] by (simp add: civil_year.simps [of y])
    qed
  next
    case False
    with 1 have "d - year_days y < e - year_days y" by simp
    from "1.IH" [OF False this] False \<open>d < e\<close> show ?thesis by (simp add: civil_year.simps [of y])
  qed
qed

lemma civil_month_mono:
  "d < e \<Longrightarrow> fst (civil_month m ls d) < fst (civil_month m ls e)
     \<or> (fst (civil_month m ls d) = fst (civil_month m ls e) \<and> snd (civil_month m ls d) < snd (civil_month m ls e))"
proof (induction ls arbitrary: m d e)
  case (Cons l ls)
  have ge: "Suc m \<le> fst (civil_month (Suc m) ls x)" for x
  proof -
    have "n \<le> fst (civil_month n ls x)" for n
      by (induction ls arbitrary: n x) (auto dest: Suc_leD)
    then show ?thesis .
  qed
  show ?case using Cons.IH [of "d - l" "e - l" "Suc m"] Cons.prems ge [of "e - l"]
    by (cases "d < l"; cases "e < l") auto
qed simp

lemma civil_month_bounds:
  "d < sum_list ls \<Longrightarrow> list_all (\<lambda>l. l \<le> 31) ls \<Longrightarrow>
     fst (civil_month m ls d) < m + length ls \<and> snd (civil_month m ls d) < 31"
proof (induction ls arbitrary: m d)
  case (Cons l ls)
  show ?case
  proof (cases "d < l")
    case False
    with Cons.IH [of "d - l" "Suc m"] Cons.prems show ?thesis by simp
  qed (use Cons.prems in simp)
qed simp

lemma month_bounds:
  assumes "civil_year 1970 n = (y, r)"
  shows "fst (civil_month 1 (month_days y) r) < 13 \<and> snd (civil_month 1 (month_days y) r) < 31"
proof -
  have "sum_list (month_days y) = year_days y" by (simp add: month_days_def year_days_def)
  moreover have "r < year_days y" using civil_year_rest [of 1970 n] assms by simp
  moreover have "list_all (\<lambda>l. l \<le> 31) (month_days y)" by (simp add: month_days_def)
  moreover have "length (month_days y) = 12" by (simp add: month_days_def)
  ultimately show ?thesis using civil_month_bounds [of r "month_days y" 1] by simp
qed

text \<open>The year has four digits.\<close>

definition four_digits :: "nat \<Rightarrow> bool" where
  "four_digits s \<longleftrightarrow> fst (civil_year 1970 (s div 86400)) < 10000"

lemma length_date_text [simp]: "length (date_text n) = 10"
  by (simp add: date_text_def split: prod.split)

lemma length_minute_text [simp]: "length (minute_text s) = 16"
  by (simp add: minute_text_def)

lemma date_text_less:
  assumes "m < n" "fst (civil_year 1970 n) < 10000"
  shows "date_text m < date_text n"
proof -
  obtain y r where m: "civil_year 1970 m = (y, r)" by fastforce
  obtain z q where n: "civil_year 1970 n = (z, q)" by fastforce
  obtain a d where a: "civil_month 1 (month_days y) r = (a, d)" by fastforce
  obtain b e where b: "civil_month 1 (month_days z) q = (b, e)" by fastforce
  have z: "z < 10 ^ 4" using assms(2) n by simp
  have bb: "b < 10 ^ 2" "e + 1 < 10 ^ 2" using month_bounds [OF n] b by simp_all
  consider "y < z" | "y = z" "a < b" | "y = z" "a = b" "d < e"
    using civil_year_mono [OF assms(1), of 1970] civil_month_mono [of r q 1 "month_days y"] m n a b by auto
  moreover have texts: "date_text m = pad_digits 4 y @ ''-'' @ pad_digits 2 a @ ''-'' @ pad_digits 2 (d + 1)"
    "date_text n = pad_digits 4 z @ ''-'' @ pad_digits 2 b @ ''-'' @ pad_digits 2 (e + 1)"
    unfolding date_text_def m n prod.case a b by (rule refl)+
  ultimately show ?thesis
  proof cases
    case 1
    with z pad_digits_less_mono [of y z 4] show ?thesis
      by (simp add: texts append_less_append)
  next
    case 2
    with bb pad_digits_less_mono [of a b 2] show ?thesis
      by (simp add: texts append_less_append)
  next
    case 3
    with bb pad_digits_less_mono [of "d + 1" "e + 1" 2] show ?thesis
      by (simp add: texts append_less_append)
  qed
qed

lemma day_hour_minute:
  fixes a b h k m n :: nat
  assumes "a * 1440 + h * 60 + m < b * 1440 + k * 60 + n" "m < 60" "n < 60" "h < 24" "k < 24"
  shows "a < b \<or> (a = b \<and> (h < k \<or> (h = k \<and> m < n)))"
  using assms by (cases "a < b"; cases "a = b"; cases "h < k"; cases "h = k") linarith+

lemma minute_text_less:
  assumes "s div 60 < t div 60" "four_digits t"
  shows "minute_text s < minute_text t"
proof -
  let ?d = "\<lambda>s. s div 86400" and ?h = "\<lambda>s. s div 3600 mod 24" and ?m = "\<lambda>s. s div 60 mod (60 :: nat)"
  have e: "x div 60 = ?d x * 1440 + ?h x * 60 + ?m x" for x :: nat
  proof -
    have "x div 3600 = x div 60 div 60" "x div 86400 = x div 3600 div 24" by (simp_all add: div_mult2_eq [symmetric])
    then show ?thesis
      using div_mult_mod_eq [of "x div 60" 60] div_mult_mod_eq [of "x div 3600" 24] by linarith
  qed
  have b: "?h t < 10 ^ 2" "?m t < 10 ^ 2" "?m s < 60" "?m t < 60" "?h s < 24" "?h t < 24" by simp_all
  have "?d s < ?d t \<or> (?d s = ?d t \<and> (?h s < ?h t \<or> (?h s = ?h t \<and> ?m s < ?m t)))"
    by (rule day_hour_minute) (use assms(1) e [of s] e [of t] b in \<open>simp_all only:\<close>)
  then consider "?d s < ?d t" | "?d s = ?d t" "?h s < ?h t" | "?d s = ?d t" "?h s = ?h t" "?m s < ?m t" by blast
  then show ?thesis
  proof cases
    case 1
    with assms(2) date_text_less show ?thesis
      by (simp add: minute_text_def four_digits_def append_less_append)
  next
    case 2
    with pad_digits_less_mono [OF _ b(1)] show ?thesis
      by (simp add: minute_text_def append_less_append)
  next
    case 3
    with pad_digits_less_mono [OF _ b(2)] show ?thesis
      by (simp add: minute_text_def append_less_append)
  qed
qed

lemma minute_text_eq: "s div 60 = t div 60 \<Longrightarrow> minute_text s = minute_text t"
proof -
  assume e: "s div 60 = t div 60"
  have "s div 86400 = s div 60 div 1440" "s div 3600 = s div 60 div 60" for s :: nat
    by (simp_all add: div_mult2_eq [symmetric])
  with e show ?thesis by (simp add: minute_text_def)
qed

text \<open>The minute of two instants reads the same only if it is the same.\<close>

lemma minute_text_inj:
  assumes "four_digits s" "four_digits t"
  shows "minute_text s = minute_text t \<longleftrightarrow> s div 60 = t div 60"
  using assms minute_text_less [of s t] minute_text_less [of t s] minute_text_eq [of s t]
  by (metis less_irrefl linorder_neqE_nat)

text \<open>Texts compare as the instants do.\<close>

lemma utc_text_mono:
  assumes "s < t" "four_digits t"
  shows "utc_text s < utc_text t"
proof (cases "s div 60 < t div 60")
  case True
  with assms minute_text_less show ?thesis by (simp add: utc_text_def append_less_append)
next
  case False
  with assms(1) have e: "s div 60 = t div 60" using div_le_mono [of s t 60] by simp
  then have "s mod 60 < t mod 60"
    using assms(1) div_mult_mod_eq [of s 60] div_mult_mod_eq [of t 60] by linarith
  then have "pad_digits 2 (s mod 60) < pad_digits 2 (t mod 60)"
    using pad_digits_less_mono [of "s mod 60" "t mod 60" 2] less_trans [of "t mod 60" 60 "10 ^ 2"] by simp
  with minute_text_eq [OF e] show ?thesis by (simp add: utc_text_def append_less_append)
qed

lemma utc_text_less_iff:
  assumes "four_digits s" "four_digits t"
  shows "utc_text s < utc_text t \<longleftrightarrow> s < t"
  using utc_text_mono [of s t] utc_text_mono [of t s] assms by (metis less_asym linorder_neqE_nat less_irrefl)

end
