(* ===== verification/Metrics.thy ===== *)
theory Metrics
  imports Go_Calendar Gateway_Http
begin

text \<open>
  \<^verbatim>\<open>internal/metrics/metrics.go\<close>: the database of requests and of traffic per endpoint, its
  migrations, and the figures the dashboard is given. A statement fails when the argument says so; the
  schema is kept apart from the rows. The averages and the sums of \<open>REAL\<close> columns are the database's
  arithmetic and are arguments, as is the order in which it meets the groups of a \<open>GROUP BY\<close>; sums of
  integer columns are exact, below the database's limit of 64 bits. Creating the directory, opening
  the file and indexes are not modelled.
\<close>

section \<open>Rows\<close>

definition PruneAge :: duration where "PruneAge = 7 * 24 * Hour"

definition DefaultTrafficWindow :: nat where "DefaultTrafficWindow = 30"

record token_usage =
  tu_prompt :: int
  tu_completion :: int
  tu_total :: int
  tu_cached :: int

record request_row =
  mr_time :: string
  mr_model :: string
  mr_stream :: bool
  mr_success :: bool
  mr_status :: int
  mr_latency :: int
  mr_usage :: token_usage
  mr_cost :: rat

record traffic_row =
  mt_ts :: int
  mt_method :: string
  mt_route :: string
  mt_status :: int
  mt_duration :: int
  mt_bytes :: int

section \<open>The schema and its migrations\<close>

text \<open>The rows of \<open>schema_version\<close>, the columns of \<open>requests\<close>, whether \<open>endpoint_traffic\<close> is there.\<close>

record schema =
  sh_versions :: "int list option"
  sh_columns :: "string list option"
  sh_traffic :: bool

datatype ddl = Create_version | Create_requests | Add_column string | Add_version int | Create_traffic

definition first_columns :: "string list" where
  "first_columns = [''id'', ''timestamp'', ''model'', ''stream'', ''success'', ''status'', ''latency_ms'']"

definition token_columns :: "string list" where
  "token_columns = [''prompt_tokens'', ''completion_tokens'', ''total_tokens'', ''cached_tokens'', ''estimated_cost'']"

fun apply_ddl :: "ddl \<Rightarrow> schema \<Rightarrow> string + schema" where
  "apply_ddl Create_version s = Inr (if sh_versions s = None then s\<lparr> sh_versions := Some [] \<rparr> else s)"
| "apply_ddl Create_requests s = Inr (if sh_columns s = None then s\<lparr> sh_columns := Some first_columns \<rparr> else s)"
| "apply_ddl (Add_column c) s =
     (case sh_columns s of
        None \<Rightarrow> Inl ''no such table: requests''
      | Some cs \<Rightarrow> if c \<in> set cs then Inl (''duplicate column name: '' @ c) else Inr (s\<lparr> sh_columns := Some (cs @ [c]) \<rparr>))"
| "apply_ddl (Add_version v) s =
     (case sh_versions s of
        None \<Rightarrow> Inl ''no such table: schema_version''
      | Some vs \<Rightarrow> Inr (s\<lparr> sh_versions := Some (vs @ [v]) \<rparr>))"
| "apply_ddl Create_traffic s = Inr (s\<lparr> sh_traffic := True \<rparr>)"

text \<open>
  Statements are numbered in the order they are made, the queries included; \<open>fails n\<close> is why the
  \<open>n\<close>-th one fails. Of several statements executed together those before the failure stay.
\<close>

type_synonym script = "nat \<Rightarrow> string option"

fun exec_batch :: "script \<Rightarrow> ddl list \<Rightarrow> nat \<times> schema \<Rightarrow> string option \<times> nat \<times> schema" where
  "exec_batch fails [] (n, s) = (None, n, s)"
| "exec_batch fails (d # ds) (n, s) =
     (case fails n of
        Some err \<Rightarrow> (Some err, n + 1, s)
      | None \<Rightarrow>
          (case apply_ddl d s of
             Inl err \<Rightarrow> (Some err, n + 1, s)
           | Inr s \<Rightarrow> exec_batch fails ds (n + 1, s)))"

definition migrateV1 :: "script \<Rightarrow> nat \<times> schema \<Rightarrow> string option \<times> nat \<times> schema" where
  "migrateV1 fails = exec_batch fails [Create_requests, Add_version 1]"

definition migrateV2 :: "script \<Rightarrow> nat \<times> schema \<Rightarrow> string option \<times> nat \<times> schema" where
  "migrateV2 fails db =
     (case db of
        (n, s) \<Rightarrow>
          if fails n \<noteq> None \<or> (case sh_columns s of Some cs \<Rightarrow> ''total_tokens'' \<in> set cs | None \<Rightarrow> False) then
            (None, snd (exec_batch fails [Add_version 2] (n + 1, s)))
          else exec_batch fails (map Add_column token_columns @ [Add_version 2]) (n + 1, s))"

definition migrateV3 :: "script \<Rightarrow> nat \<times> schema \<Rightarrow> string option \<times> nat \<times> schema" where
  "migrateV3 fails db =
     (case exec_batch fails [Create_traffic] db of
        (Some err, db) \<Rightarrow> (Some err, db)
      | (None, db) \<Rightarrow> exec_batch fails [Add_version 3] db)"

definition migrate_step ::
  "string \<Rightarrow> int \<Rightarrow> int \<Rightarrow> (nat \<times> schema \<Rightarrow> string option \<times> nat \<times> schema) \<Rightarrow> string option \<times> nat \<times> schema
     \<Rightarrow> string option \<times> nat \<times> schema" where
  "migrate_step name version v mig r =
     (case r of
        (Some err, db) \<Rightarrow> (Some err, db)
      | (None, db) \<Rightarrow>
          if version < v then
            (case mig db of
               (Some err, db) \<Rightarrow> (Some (''migration '' @ name @ '' failed: '' @ err), db)
             | (None, db) \<Rightarrow> (None, db))
          else (None, db))"

definition schema_version :: "schema \<Rightarrow> int" where
  "schema_version s = (case sh_versions s of Some (v # vs) \<Rightarrow> foldl max v vs | _ \<Rightarrow> 0)"

text \<open>The version is looked up; when that fails, row 0 is inserted and the version is 0.\<close>

definition current_version :: "script \<Rightarrow> nat \<times> schema \<Rightarrow> (string + int) \<times> nat \<times> schema" where
  "current_version fails db =
     (case db of
        (n, s) \<Rightarrow>
          if fails n = None then (Inr (schema_version s), n + 1, s)
          else (case exec_batch fails [Add_version 0] (n + 1, s) of
                  (Some err, db) \<Rightarrow> (Inl (''failed to initialize schema version: '' @ err), db)
                | (None, db) \<Rightarrow> (Inr 0, db)))"

definition migrate :: "script \<Rightarrow> schema \<Rightarrow> string option \<times> schema" where
  "migrate fails s =
     (case exec_batch fails [Create_version] (0, s) of
        (Some err, n, s) \<Rightarrow> (Some (''failed to create schema_version table: '' @ err), s)
      | (None, db) \<Rightarrow>
          (case current_version fails db of
             (Inl err, n, s) \<Rightarrow> (Some err, s)
           | (Inr v, db) \<Rightarrow>
               (case migrate_step ''v3'' v 3 (migrateV3 fails)
                       (migrate_step ''v2'' v 2 (migrateV2 fails) (migrate_step ''v1'' v 1 (migrateV1 fails) (None, db))) of
                  (r, n, s) \<Rightarrow> (r, s))))"

section \<open>The store\<close>

record metrics_store =
  mx_schema :: schema
  mx_requests :: "request_row list"
  mx_traffic :: "traffic_row list"
  mx_start :: time
  mx_window :: nat

text \<open>\<open>New\<close>: what the file holds already is \<open>disk\<close>; \<open>opened\<close> is why it cannot be opened.\<close>

definition NewMetrics :: "string option \<Rightarrow> script \<Rightarrow> time \<Rightarrow> metrics_store \<Rightarrow> string + metrics_store" where
  "NewMetrics opened fails now disk =
     (case opened of
        Some err \<Rightarrow> Inl err
      | None \<Rightarrow>
          (case migrate fails (mx_schema disk) of
             (Some err, _) \<Rightarrow> Inl err
           | (None, s) \<Rightarrow>
               Inr (disk\<lparr> mx_schema := s, mx_start := now, mx_window := DefaultTrafficWindow \<rparr>)))"

definition utc_of :: "time \<Rightarrow> string" where
  "utc_of t = utc_text (nat (unix t))"

text \<open>Two statements, each with a cutoff from a clock reading of its own.\<close>

definition Prune ::
  "string option \<Rightarrow> string option \<Rightarrow> time \<Rightarrow> time \<Rightarrow> metrics_store \<Rightarrow> string option \<times> metrics_store" where
  "Prune fault1 fault2 now now2 m =
     (case fault1 of
        Some err \<Rightarrow> (Some err, m)
      | None \<Rightarrow>
          let m = m\<lparr> mx_requests := filter (\<lambda>r. \<not> mr_time r < utc_of (now - PruneAge)) (mx_requests m) \<rparr>
          in case fault2 of
               Some err \<Rightarrow> (Some err, m)
             | None \<Rightarrow> (None, m\<lparr> mx_traffic := filter (\<lambda>r. \<not> mt_ts r < unix (now2 - PruneAge)) (mx_traffic m) \<rparr>))"

definition orUnknown :: "string \<Rightarrow> string" where
  "orUnknown s = (if s = [] then ''unknown'' else s)"

definition milliseconds :: "duration \<Rightarrow> int" where
  "milliseconds d = go_div d 1000000"

text \<open>The first column of the statement the table does not have.\<close>

definition missing_column :: "schema \<Rightarrow> string option" where
  "missing_column s =
     (case sh_columns s of
        None \<Rightarrow> Some ''no such table: requests''
      | Some cs \<Rightarrow>
          map_option (\<lambda>c. ''table requests has no column named '' @ c)
            (List.find (\<lambda>c. c \<notin> set cs) (tl first_columns @ token_columns)))"

definition RecordRequest ::
  "string option \<Rightarrow> time \<Rightarrow> string \<Rightarrow> bool \<Rightarrow> bool \<Rightarrow> int \<Rightarrow> duration \<Rightarrow> token_usage \<Rightarrow> rat \<Rightarrow> metrics_store
     \<Rightarrow> string option \<times> metrics_store" where
  "RecordRequest fault now model stream success status latency usage cost m =
     (case fault of
        Some err \<Rightarrow> (Some err, m)
      | None \<Rightarrow>
          (case missing_column (mx_schema m) of
             Some err \<Rightarrow> (Some err, m)
           | None \<Rightarrow>
               (None, m\<lparr> mx_requests := mx_requests m @
                  [\<lparr> mr_time = utc_of now, mr_model = orUnknown model, mr_stream = stream, mr_success = success,
                     mr_status = status, mr_latency = milliseconds latency, mr_usage = usage, mr_cost = cost \<rparr>] \<rparr>)))"

definition RecordEndpoint ::
  "string option \<Rightarrow> time \<Rightarrow> string \<Rightarrow> string \<Rightarrow> int \<Rightarrow> duration \<Rightarrow> int \<Rightarrow> metrics_store \<Rightarrow> string option \<times> metrics_store" where
  "RecordEndpoint fault now method route status d bytes m =
     (case fault of
        Some err \<Rightarrow> (Some err, m)
      | None \<Rightarrow>
          if \<not> sh_traffic (mx_schema m) then (Some ''no such table: endpoint_traffic'', m)
          else (None, m\<lparr> mx_traffic := mx_traffic m @
                 [\<lparr> mt_ts = unix now, mt_method = method, mt_route = route, mt_status = status,
                    mt_duration = milliseconds d, mt_bytes = bytes \<rparr>] \<rparr>))"

section \<open>Figures\<close>

record metrics_summary =
  sm_requests :: int
  sm_errors :: int
  sm_rate :: rat
  sm_latency :: rat
  sm_streams :: int
  sm_uptime :: int
  sm_tokens :: int
  sm_prompt :: int
  sm_completion :: int
  sm_cached :: int
  sm_cost :: rat

record traffic_point =
  tp_time :: string
  tp_requests :: int
  tp_errors :: int

record model_usage =
  mu_model :: string
  mu_requests :: int
  mu_prompt :: int
  mu_completion :: int
  mu_tokens :: int
  mu_cost :: rat

record endpoint_usage =
  eu_method :: string
  eu_route :: string
  eu_requests :: int
  eu_errors :: int
  eu_latency :: rat
  eu_bytes :: int

record server_stats =
  sr_requests :: int
  sr_errors :: int
  sr_bytes :: int
  sr_routes :: int
  sr_endpoints :: "endpoint_usage list"

text \<open>The database's arithmetic, the order of its groups, the zone of the process in seconds.\<close>

record sql_env =
  se_avg :: "int list \<Rightarrow> rat"
  se_sum :: "rat list \<Rightarrow> rat"
  se_models :: "string list"
  se_routes :: "(string \<times> string) list"
  se_zone :: int

abbreviation count_of :: "('a \<Rightarrow> bool) \<Rightarrow> 'a list \<Rightarrow> int" where
  "count_of P xs \<equiv> int (length (filter P xs))"

definition summary_of :: "sql_env \<Rightarrow> time \<Rightarrow> time \<Rightarrow> request_row list \<Rightarrow> metrics_summary" where
  "summary_of e start now rs =
     (let total = int (length rs); errors = count_of (\<lambda>r. \<not> mr_success r) rs
      in \<lparr> sm_requests = total, sm_errors = errors,
           sm_rate = (if total > 0 then rnd (rnd (rnd (of_int (total - errors)) / rnd (of_int total)) * 100) else 0),
           sm_latency = (if rs = [] then 0 else se_avg e (map mr_latency rs)),
           sm_streams = count_of mr_stream rs,
           sm_uptime = trunc (seconds (time_sub now start)),
           sm_tokens = sum_list (map (tu_total \<circ> mr_usage) rs), sm_prompt = sum_list (map (tu_prompt \<circ> mr_usage) rs),
           sm_completion = sum_list (map (tu_completion \<circ> mr_usage) rs), sm_cached = sum_list (map (tu_cached \<circ> mr_usage) rs),
           sm_cost = (if rs = [] then 0 else se_sum e (map mr_cost rs)) \<rparr>)"

text \<open>The rows of a bucket of the query, whose buckets are minutes of UTC.\<close>

definition bucket_rows :: "int \<Rightarrow> string \<Rightarrow> traffic_row list \<Rightarrow> traffic_row list" where
  "bucket_rows start b rows = filter (\<lambda>r. mt_ts r \<ge> start \<and> minute_text (nat (mt_ts r)) = b) rows"

definition traffic_series :: "int \<Rightarrow> time \<Rightarrow> nat \<Rightarrow> traffic_row list \<Rightarrow> traffic_point list" where
  "traffic_series zone now window rows =
     map (\<lambda>i. let t = now - int i * Minute;
                  found = bucket_rows (unix (now - int window * Minute)) (minute_text (nat (unix t + zone))) rows
              in \<lparr> tp_time = local_text zone (unix t div 60 * 60), tp_requests = int (length found),
                   tp_errors = count_of (\<lambda>r. mt_status r \<ge> 400) found \<rparr>)
       (rev [0..<window])"

definition usage_of :: "sql_env \<Rightarrow> request_row list \<Rightarrow> string \<Rightarrow> model_usage" where
  "usage_of e rs m =
     (let g = filter (\<lambda>r. mr_model r = m) rs
      in \<lparr> mu_model = m, mu_requests = int (length g), mu_prompt = sum_list (map (tu_prompt \<circ> mr_usage) g),
           mu_completion = sum_list (map (tu_completion \<circ> mr_usage) g), mu_tokens = sum_list (map (tu_total \<circ> mr_usage) g),
           mu_cost = se_sum e (map mr_cost g) \<rparr>)"

definition models_of :: "sql_env \<Rightarrow> request_row list \<Rightarrow> model_usage list" where
  "models_of e rs = sort_key (\<lambda>u. - mu_requests u) (map (usage_of e rs) (filter (\<lambda>m. m \<in> mr_model ` set rs) (se_models e)))"

definition endpoint_of :: "sql_env \<Rightarrow> traffic_row list \<Rightarrow> string \<times> string \<Rightarrow> endpoint_usage" where
  "endpoint_of e rows k =
     (let g = filter (\<lambda>r. (mt_method r, mt_route r) = k) rows
      in \<lparr> eu_method = fst k, eu_route = snd k, eu_requests = int (length g), eu_errors = count_of (\<lambda>r. mt_status r \<ge> 400) g,
           eu_latency = se_avg e (map mt_duration g), eu_bytes = sum_list (map mt_bytes g) \<rparr>)"

text \<open>The totals are one query, the routes of the last day another, which may see further rows.\<close>

definition server_of :: "sql_env \<Rightarrow> time \<Rightarrow> traffic_row list \<Rightarrow> traffic_row list \<Rightarrow> server_stats" where
  "server_of e now rows rows2 =
     (let recent = filter (\<lambda>r. mt_ts r \<ge> unix (now - 24 * Hour)) rows2
      in \<lparr> sr_requests = int (length rows), sr_errors = count_of (\<lambda>r. mt_status r \<ge> 400) rows,
           sr_bytes = sum_list (map mt_bytes rows), sr_routes = int (card (set (map mt_route rows))),
           sr_endpoints = take 15 (sort_key (\<lambda>u. - eu_requests u)
             (map (endpoint_of e recent) (filter (\<lambda>k. k \<in> (\<lambda>r. (mt_method r, mt_route r)) ` set recent) (se_routes e)))) \<rparr>)"

record metrics_snapshot =
  mp_summary :: metrics_summary
  mp_traffic :: "traffic_point list"
  mp_models :: "model_usage list"
  mp_server :: server_stats
  mp_window :: nat
  mp_started :: time

text \<open>
  \<open>Snapshot\<close> runs its five queries one after the other, without a lock or a transaction: each sees the
  tables as they are by then and reads the clock anew. \<open>now n\<close> and \<open>m n\<close> are the clock and the
  database at the \<open>n\<close>-th query. The reasons for which the queries fail come in their order.
\<close>

record snapshot_faults =
  sf_summary :: "string option"
  sf_traffic :: "string option"
  sf_models :: "string option"
  sf_totals :: "string option"
  sf_endpoints :: "string option"

definition metrics_Snapshot ::
  "snapshot_faults \<Rightarrow> sql_env \<Rightarrow> (nat \<Rightarrow> time) \<Rightarrow> (nat \<Rightarrow> metrics_store) \<Rightarrow> string + metrics_snapshot" where
  "metrics_Snapshot f e now m =
     (case sf_summary f of Some err \<Rightarrow> Inl (''failed to load summary: '' @ err) | None \<Rightarrow>
     (case sf_traffic f of Some err \<Rightarrow> Inl (''failed to load traffic: '' @ err) | None \<Rightarrow>
     (case sf_models f of Some err \<Rightarrow> Inl (''failed to load model usage: '' @ err) | None \<Rightarrow>
     (case sf_totals f of Some err \<Rightarrow> Inl (''failed to load server traffic totals: '' @ err) | None \<Rightarrow>
     (case sf_endpoints f of Some err \<Rightarrow> Inl (''failed to load endpoint usage: '' @ err) | None \<Rightarrow>
        Inr \<lparr> mp_summary = summary_of e (mx_start (m 0)) (now 0) (mx_requests (m 0)),
              mp_traffic = traffic_series (se_zone e) (now 1) (mx_window (m 0)) (mx_traffic (m 1)),
              mp_models = models_of e (mx_requests (m 2)), mp_server = server_of e (now 4) (mx_traffic (m 3)) (mx_traffic (m 4)),
              mp_window = mx_window (m 0), mp_started = mx_start (m 0) \<rparr>)))))"

end
