(* ===== verification/Metrics_Laws.thy ===== *)
theory Metrics_Laws
  imports Metrics "HOL-Library.Multiset"
begin

text \<open>
  What the metrics promise: pruning removes exactly what is older than a week, the traffic series
  counts every request in its minute when the process runs in UTC, and only then; the figures per model
  account for every request; a migration that runs undisturbed ends with a usable schema, one whose
  check fails once never does.
\<close>

section \<open>Pruning\<close>

lemma utc_text_inj: "four_digits s \<Longrightarrow> four_digits t \<Longrightarrow> utc_text s = utc_text t \<Longrightarrow> s = t"
  using utc_text_less_iff [of s t] utc_text_less_iff [of t s] by (metis less_irrefl linorder_neqE_nat)

text \<open>
  Pruning is exact. The rows removed are those whose recorded second is before the cutoff, a week ago;
  rows of the cutoff's own second and later ones stay, in their order, although the database compares
  texts and not times.
\<close>

theorem prune_removes_old:
  assumes "mx_requests m = map (\<lambda>(s, r). r\<lparr> mr_time := utc_text s \<rparr>) srs"
    and "list_all (\<lambda>(s, r). four_digits s) srs" "four_digits (nat (unix (now - PruneAge)))"
  shows "mx_requests (snd (Prune None None now now2 m))
      = map (\<lambda>(s, r). r\<lparr> mr_time := utc_text s \<rparr>) (filter (\<lambda>(s, r). nat (unix (now - PruneAge)) \<le> s) srs)
    \<and> mx_traffic (snd (Prune None None now now2 m)) = filter (\<lambda>r. unix (now2 - PruneAge) \<le> mt_ts r) (mx_traffic m)"
proof -
  have "filter (\<lambda>r. \<not> mr_time r < utc_of (now - PruneAge)) (map (\<lambda>(s, r). r\<lparr> mr_time := utc_text s \<rparr>) srs)
      = map (\<lambda>(s, r). r\<lparr> mr_time := utc_text s \<rparr>) (filter (\<lambda>(s, r). nat (unix (now - PruneAge)) \<le> s) srs)"
    using assms(2,3) by (induction srs) (auto simp: utc_of_def utc_text_less_iff)
  then show ?thesis by (simp add: Prune_def Let_def assms(1) linorder_not_less)
qed

section \<open>The traffic series\<close>

definition datable :: "traffic_row list \<Rightarrow> bool" where
  "datable rows \<longleftrightarrow> list_all (\<lambda>r. 0 \<le> mt_ts r \<and> four_digits (nat (mt_ts r))) rows"

lemma unix_minutes: "unix (t - int i * Minute) = unix t - int i * 60"
proof -
  have "t - int i * Minute = t + (- int i * 60) * 1000000000" by (simp add: Minute_def Second_def)
  then show ?thesis unfolding unix_def by (simp only: div_mult_self1 [of "1000000000 :: int"])
qed

lemma four_digits_mono: "s \<le> t \<Longrightarrow> four_digits t \<Longrightarrow> four_digits s"
proof -
  assume le: "s \<le> t" and t: "four_digits t"
  have "s div 86400 \<le> t div 86400" using le by (rule div_le_mono)
  then have "fst (civil_year 1970 (s div 86400)) \<le> fst (civil_year 1970 (t div 86400))"
    using civil_year_mono [of "s div 86400" "t div 86400" 1970] by (cases "s div 86400 = t div 86400") auto
  with t show ?thesis by (simp add: four_digits_def)
qed

lemma nat_div_60: "0 \<le> a \<Longrightarrow> 0 \<le> b \<Longrightarrow> nat a div 60 = nat b div 60 \<longleftrightarrow> a div 60 = b div 60"
proof -
  assume "0 \<le> a" "0 \<le> b"
  have "int (nat a div 60) = a div 60" "int (nat b div 60) = b div 60"
    using \<open>0 \<le> a\<close> \<open>0 \<le> b\<close> by (simp_all add: zdiv_int)
  then show ?thesis by (metis of_nat_eq_iff)
qed

lemma bucket_minute:
  assumes "0 \<le> s" "four_digits (nat s)" "0 \<le> b" "four_digits (nat b)"
  shows "minute_text (nat s) = minute_text (nat b) \<longleftrightarrow> s div 60 = b div 60"
  using minute_text_inj [OF assms(2,4)] nat_div_60 [OF assms(1,3)] by simp

text \<open>
  C25: In UTC the series is exact: its point for the minute \<open>k\<close> before now counts every request recorded in
  that minute, and the failed ones, whatever else was recorded.
\<close>

theorem traffic_series_exact:
  assumes "datable rows" "int window * 60 \<le> unix now" "four_digits (nat (unix now))" "k < window"
  shows "tp_requests (traffic_series 0 now window rows ! (window - 1 - k))
      = count_of (\<lambda>r. mt_ts r div 60 = unix now div 60 - int k) rows
    \<and> tp_errors (traffic_series 0 now window rows ! (window - 1 - k))
      = count_of (\<lambda>r. mt_ts r div 60 = unix now div 60 - int k \<and> mt_status r \<ge> 400) rows"
proof -
  let ?t = "unix now - int k * 60"
  have t: "0 \<le> ?t" using assms(2,4) by auto
  have f: "four_digits (nat ?t)" by (rule four_digits_mono [OF _ assms(3)]) simp
  have m: "?t div 60 = unix now div 60 - int k"
    using div_mult_self1 [of "60 :: int" "unix now" "- int k"] by simp
  have "bucket_rows (unix (now - int window * Minute)) (minute_text (nat (?t + 0))) rows
      = filter (\<lambda>r. mt_ts r div 60 = unix now div 60 - int k) rows"
    unfolding bucket_rows_def
  proof (rule filter_cong [OF refl])
    fix r assume "r \<in> set rows"
    then have r: "0 \<le> mt_ts r" "four_digits (nat (mt_ts r))" using assms(1) by (auto simp: datable_def list_all_iff)
    have "minute_text (nat (mt_ts r)) = minute_text (nat ?t) \<longleftrightarrow> mt_ts r div 60 = ?t div 60"
      by (rule bucket_minute [OF r t f])
    moreover have "unix now - int window * 60 \<le> mt_ts r" if "mt_ts r div 60 = ?t div 60"
    proof -
      have "60 * (?t div 60) \<le> mt_ts r" using that mult_div_mod_eq [of 60 "mt_ts r"] pos_mod_sign [of 60 "mt_ts r"] by linarith
      moreover have "?t - 60 < 60 * (?t div 60)" using mult_div_mod_eq [of 60 ?t] pos_mod_bound [of 60 ?t] by linarith
      moreover have "int k + 1 \<le> int window" using assms(4) by simp
      ultimately show ?thesis by linarith
    qed
    ultimately show "(unix (now - int window * Minute) \<le> mt_ts r \<and> minute_text (nat (mt_ts r)) = minute_text (nat (?t + 0)))
        = (mt_ts r div 60 = unix now div 60 - int k)"
      using m by (auto simp: unix_minutes)
  qed
  moreover have "rev [0..<window] ! (window - 1 - k) = k" using assms(4) by (simp add: rev_nth)
  ultimately show ?thesis using assms(4)
    by (simp add: traffic_series_def Let_def unix_minutes conj_commute)
qed

text \<open>
  In any zone further from UTC than the window is long the series is always empty: every point is zero
  however many requests were recorded, because the buckets of the query are minutes of UTC and the
  points are named in local time.
\<close>

theorem traffic_series_empty_off_utc:
  assumes "datable rows" "list_all (\<lambda>r. mt_ts r \<le> unix now) rows" "int window * 60 + 60 \<le> \<bar>zone\<bar>"
    and "int window * 60 \<le> unix now + zone" "four_digits (nat (unix now + \<bar>zone\<bar>))"
  shows "list_all (\<lambda>p. tp_requests p = 0 \<and> tp_errors p = 0) (traffic_series zone now window rows)"
proof -
  have "bucket_rows (unix (now - int window * Minute)) (minute_text (nat (unix (now - int k * Minute) + zone))) rows = []"
    if k: "k < window" for k
    unfolding bucket_rows_def filter_empty_conv
  proof (intro ballI notI)
    fix r assume "r \<in> set rows"
      and c: "unix (now - int window * Minute) \<le> mt_ts r
        \<and> minute_text (nat (mt_ts r)) = minute_text (nat (unix (now - int k * Minute) + zone))"
    then have r: "0 \<le> mt_ts r" "four_digits (nat (mt_ts r))" "mt_ts r \<le> unix now"
      using assms(1,2) by (auto simp: datable_def list_all_iff)
    let ?b = "unix now - int k * 60 + zone"
    have b: "0 \<le> ?b" using assms(4) k by auto
    have f: "four_digits (nat ?b)" by (rule four_digits_mono [OF _ assms(5)]) simp
    have "mt_ts r div 60 = ?b div 60"
      using bucket_minute [OF r(1,2) b f] c by (simp add: unix_minutes)
    then have d: "\<bar>mt_ts r - ?b\<bar> < 60"
      using mult_div_mod_eq [of 60 "mt_ts r"] mult_div_mod_eq [of 60 ?b]
        pos_mod_bound [of 60 "mt_ts r"] pos_mod_bound [of 60 ?b] pos_mod_sign [of 60 "mt_ts r"] pos_mod_sign [of 60 ?b] by linarith
    have "unix now - int window * 60 \<le> mt_ts r" using c by (simp add: unix_minutes)
    moreover have "int k + 1 \<le> int window" using k by simp
    ultimately show False using d r(3) assms(3) by linarith
  qed
  then show ?thesis by (auto simp: traffic_series_def list_all_iff Let_def)
qed

section \<open>Accounts per model\<close>

lemma sum_list_sort_key: "sum_list (map f (sort_key g xs)) = sum_list (map (f :: 'a \<Rightarrow> int) xs)"
  by (metis mset_map mset_sort sum_mset_sum_list)

lemma sum_by_group:
  fixes f :: "'a \<Rightarrow> int"
  assumes "distinct ks" "g ` set rs \<subseteq> set ks"
  shows "sum_list (map (\<lambda>k. sum_list (map f (filter (\<lambda>r. g r = k) rs))) ks) = sum_list (map f rs)"
  using assms(2)
proof (induction rs)
  case (Cons r rs)
  have "sum_list (map (\<lambda>k. sum_list (map f (filter (\<lambda>r. g r = k) (r # rs)))) ks)
      = sum_list (map (\<lambda>k. (if k = g r then f r else 0) + sum_list (map f (filter (\<lambda>r. g r = k) rs))) ks)"
    by (rule arg_cong [where f = sum_list]) auto
  also have "\<dots> = sum_list (map (\<lambda>k. if k = g r then f r else 0) ks) + sum_list (map f rs)"
    using Cons by (simp add: sum_list_addf)
  also have "sum_list (map (\<lambda>k. if k = g r then f r else 0) ks) = f r"
    using assms(1) Cons.prems by (simp add: sum_list_distinct_conv_sum_set sum.delta)
  finally show ?case by simp
qed (simp add: comp_def)

lemma length_as_sum: "int (length xs) = sum_list (map (\<lambda>_. 1) xs)"
  by (induction xs) simp_all

text \<open>
  C26: The figures per model account for everything: their requests and tokens add up to the totals of the
  summary, the models are listed once each and by falling number of requests.
\<close>

theorem models_account_for_all:
  assumes "distinct (se_models e)" "mr_model ` set rs \<subseteq> set (se_models e)"
  shows "sum_list (map mu_requests (models_of e rs)) = sm_requests (summary_of e start now rs)
    \<and> sum_list (map mu_tokens (models_of e rs)) = sm_tokens (summary_of e start now rs)
    \<and> sum_list (map mu_prompt (models_of e rs)) = sm_prompt (summary_of e start now rs)
    \<and> sum_list (map mu_completion (models_of e rs)) = sm_completion (summary_of e start now rs)
    \<and> distinct (map mu_model (models_of e rs)) \<and> sorted_wrt (\<ge>) (map mu_requests (models_of e rs))"
proof -
  let ?ks = "filter (\<lambda>m. m \<in> mr_model ` set rs) (se_models e)"
  have d: "distinct ?ks" and c: "mr_model ` set rs \<subseteq> set ?ks" using assms by auto
  have s: "sum_list (map f (models_of e rs)) = sum_list (map (\<lambda>k. f (usage_of e rs k)) ?ks)" for f :: "model_usage \<Rightarrow> int"
    by (simp add: models_of_def sum_list_sort_key o_def)
  have g: "sum_list (map (\<lambda>k. sum_list (map f (filter (\<lambda>r. mr_model r = k) rs))) ?ks) = sum_list (map f rs)"
    for f :: "request_row \<Rightarrow> int" by (rule sum_by_group [OF d c])
  have "map mu_model (map (usage_of e rs) ?ks) = ?ks" by (simp add: usage_of_def Let_def o_def)
  then have "distinct (map mu_model (models_of e rs))"
  proof -
    assume k: "map mu_model (map (usage_of e rs) ?ks) = ?ks"
    have "mset (map mu_model (models_of e rs)) = mset (map mu_model (map (usage_of e rs) ?ks))"
      by (simp only: models_of_def mset_map mset_sort)
    from mset_eq_imp_distinct_iff [OF this] d show ?thesis unfolding k by blast
  qed
  moreover have "sorted (map (\<lambda>u. - mu_requests u) (models_of e rs))" by (simp add: models_of_def)
  then have "sorted_wrt (\<ge>) (map mu_requests (models_of e rs))"
    by (simp add: sorted_wrt_map)
  ultimately show ?thesis
    using g [of "\<lambda>_. 1"] g [of "tu_total \<circ> mr_usage"] g [of "tu_prompt \<circ> mr_usage"] g [of "tu_completion \<circ> mr_usage"]
    by (simp add: s usage_of_def summary_of_def Let_def length_as_sum)
qed

section \<open>Migrations\<close>

definition no_schema :: schema where
  "no_schema = \<lparr> sh_versions = None, sh_columns = None, sh_traffic = False \<rparr>"

definition usable :: "schema \<Rightarrow> bool" where
  "usable s \<longleftrightarrow> missing_column s = None \<and> sh_traffic s \<and> schema_version s = 3"

text \<open>Undisturbed migrations of a new database end with a usable schema, and change it no further.\<close>

theorem migration_completes:
  "fst (migrate (\<lambda>_. None) no_schema) = None \<and> usable (snd (migrate (\<lambda>_. None) no_schema))
   \<and> migrate (\<lambda>_. None) (snd (migrate (\<lambda>_. None) no_schema)) = (None, snd (migrate (\<lambda>_. None) no_schema))"
  by code_simp

lemma migrated_stays:
  assumes "schema_version s \<ge> 3" "sh_versions s = Some vs"
  shows "migrate (\<lambda>_. None) s = (None, s)"
  using assms by (simp add: migrate_def current_version_def migrate_step_def)

text \<open>
  One failed check spoils the database for good. When the query that looks for the token columns
  fails once, the second migration is skipped and counted as done: the start reports success, every
  later start finds version 3, and no request is ever recorded again.
\<close>

theorem failed_check_loses_columns:
  "\<exists>s. migrate (\<lambda>n. if n = 4 then Some err else None) no_schema = (None, s)
     \<and> migrate (\<lambda>_. None) s = (None, s)
     \<and> (\<forall>fault now model st su code lat us cost m.
          fst (RecordRequest fault now model st su code lat us cost (m\<lparr> mx_schema := s \<rparr>)) \<noteq> None
          \<and> mx_requests (snd (RecordRequest fault now model st su code lat us cost (m\<lparr> mx_schema := s \<rparr>))) = mx_requests m)"
proof -
  define s where "s = \<lparr> sh_versions = Some [1, 2, 3], sh_columns = Some first_columns, sh_traffic = True \<rparr>"
  have "migrate (\<lambda>n. if n = 4 then Some err else None) no_schema = (None, s)"
    by (simp add: migrate_def current_version_def migrate_step_def migrateV1_def migrateV2_def migrateV3_def
        no_schema_def schema_version_def s_def)
  moreover have "migrate (\<lambda>_. None) s = (None, s)"
    by (rule migrated_stays) (simp_all add: s_def schema_version_def)
  moreover have m: "\<exists>err. missing_column s = Some err"
    by (simp add: s_def missing_column_def first_columns_def token_columns_def)
  have "fst (RecordRequest fault now model st su code lat us cost (m\<lparr> mx_schema := s \<rparr>)) \<noteq> None
      \<and> mx_requests (snd (RecordRequest fault now model st su code lat us cost (m\<lparr> mx_schema := s \<rparr>))) = mx_requests m"
    for fault now model st su code lat us cost and m :: metrics_store
    using m by (cases fault) (auto simp: RecordRequest_def)
  ultimately show ?thesis by blast
qed

section \<open>Concrete figures\<close>

definition demo_usage_row :: token_usage where
  "demo_usage_row = \<lparr> tu_prompt = 3, tu_completion = 4, tu_total = 7, tu_cached = 0 \<rparr>"

definition demo_request :: request_row where
  "demo_request = \<lparr> mr_time = [], mr_model = ''m'', mr_stream = False, mr_success = True, mr_status = 200, mr_latency = 5,
     mr_usage = demo_usage_row, mr_cost = 0 \<rparr>"

definition demo_sql :: sql_env where
  "demo_sql = \<lparr> se_avg = (\<lambda>_. 0), se_sum = sum_list, se_models = [''m''], se_routes = [], se_zone = 0 \<rparr>"

definition demo_traffic :: "traffic_row list" where
  "demo_traffic = [\<lparr> mt_ts = 7200, mt_method = ''GET'', mt_route = ''/'', mt_status = 500, mt_duration = 1, mt_bytes = 1 \<rparr>]"

lemma demo_datable: "datable demo_traffic"
  by (simp add: datable_def demo_traffic_def four_digits_def civil_year.simps year_days_def leap_def)

lemma demo_digits: "four_digits 7200" "four_digits 14400"
  by (simp_all add: four_digits_def civil_year.simps year_days_def leap_def)

theorem prune_removes_old_witness:
  "mx_requests (snd (Prune None None (612000 * 1000000000) 0
      \<lparr> mx_schema = no_schema, mx_requests = map (\<lambda>(s, r). r\<lparr> mr_time := utc_text s \<rparr>) [(5, demo_request), (7200, demo_request)],
        mx_traffic = [], mx_start = 0, mx_window = 30 \<rparr>))
   = [demo_request\<lparr> mr_time := utc_text 7200 \<rparr>]"
proof -
  have c: "unix (612000 * 1000000000 - PruneAge) = 7200"
    by (simp add: unix_def PruneAge_def duration_defs)
  have "four_digits 5" using demo_digits(1) four_digits_mono [of 5 7200] by simp
  then show ?thesis
    using prune_removes_old [of "\<lparr> mx_schema = no_schema, mx_requests = map (\<lambda>(s, r). r\<lparr> mr_time := utc_text s \<rparr>) [(5, demo_request), (7200, demo_request)],
        mx_traffic = [], mx_start = 0, mx_window = 30 \<rparr>" "[(5, demo_request), (7200, demo_request)]" "612000 * 1000000000"]
      demo_digits c by simp
qed

theorem traffic_series_exact_witness:
  "tp_requests (traffic_series 0 (7230 * 1000000000) 30 demo_traffic ! 29) = 1"
  using traffic_series_exact [of demo_traffic 30 "7230 * 1000000000" 0] demo_datable
    four_digits_mono [of 7230 14400] demo_digits
  by (simp add: demo_traffic_def unix_def)

theorem traffic_series_empty_off_utc_witness:
  "tp_requests (hd (traffic_series 7200 (7200 * 1000000000) 30 demo_traffic)) = 0"
proof -
  have "list_all (\<lambda>p. tp_requests p = 0 \<and> tp_errors p = 0) (traffic_series 7200 (7200 * 1000000000) 30 demo_traffic)"
    by (rule traffic_series_empty_off_utc [OF demo_datable]) (use demo_digits in \<open>simp_all add: demo_traffic_def unix_def\<close>)
  moreover have "traffic_series 7200 (7200 * 1000000000) 30 demo_traffic \<noteq> []" by (simp add: traffic_series_def)
  ultimately show ?thesis by (cases "traffic_series 7200 (7200 * 1000000000) 30 demo_traffic") simp_all
qed

theorem models_account_for_all_witness:
  "sum_list (map mu_tokens (models_of demo_sql [demo_request])) = sm_tokens (summary_of demo_sql 0 0 [demo_request])"
  using models_account_for_all [of demo_sql "[demo_request]"] by (simp add: demo_sql_def demo_request_def)

end
