(* ===== verification/Metrics_Export.thy ===== *)
theory Metrics_Export
  imports Metrics
begin

text \<open>
  \<^verbatim>\<open>internal/metrics/pricing.go\<close> and \<^verbatim>\<open>internal/metrics/prometheus.go\<close>: the price table and the
  counters of the metrics page. \<open>parse_float\<close> is \<open>strconv.ParseFloat\<close> on finite numbers; a map that is
  iterated comes with the order of the iteration. Products and sums are rounded one by one.
\<close>

section \<open>Prices\<close>

record price =
  pe_input :: rat
  pe_output :: rat
  pe_cached :: rat

type_synonym pricing = "string \<Rightarrow> price option"

definition price_entry :: "(string \<Rightarrow> rat option) \<Rightarrow> string \<Rightarrow> (string \<times> price) option" where
  "price_entry parse_float part =
     (let part = trim_space part
      in if part = [] then None
         else case cut part CHR '':'' of
                None \<Rightarrow> None
              | Some (model, rates_text) \<Rightarrow>
                  let model = trim_space model; rates = split_on CHR '','' rates_text
                  in if model = [] \<or> length rates < 2 then None
                     else case parse_float (trim_space (rates ! 0)) of
                            None \<Rightarrow> None
                          | Some input \<Rightarrow>
                              (case parse_float (trim_space (rates ! 1)) of
                                 None \<Rightarrow> None
                               | Some output \<Rightarrow>
                                   let cached = (if length rates \<ge> 3 then
                                         (case parse_float (trim_space (rates ! 2)) of Some c \<Rightarrow> c | None \<Rightarrow> rnd (input * (1 / 2)))
                                       else rnd (input * (1 / 2)))
                                   in Some (model, \<lparr> pe_input = input, pe_output = output, pe_cached = cached \<rparr>)))"

definition ParsePricing :: "(string \<Rightarrow> rat option) \<Rightarrow> string \<Rightarrow> pricing" where
  "ParsePricing parse_float s =
     (if s = [] then Map.empty
      else foldl (\<lambda>m part. case price_entry parse_float part of None \<Rightarrow> m | Some (k, e) \<Rightarrow> m(k \<mapsto> e)) Map.empty (split_on CHR '';'' s))"

definition NewPricingTable :: "(string \<Rightarrow> rat option) \<Rightarrow> string \<Rightarrow> pricing" where
  "NewPricingTable parse_float s = (if s \<noteq> [] then ParsePricing parse_float s else Map.empty)"

definition longest_match :: "string list \<Rightarrow> string \<Rightarrow> string" where
  "longest_match order model = foldl (\<lambda>best key. if contains model key \<and> length key > length best then key else best) [] order"

definition GetEntry :: "string list \<Rightarrow> pricing \<Rightarrow> string \<Rightarrow> price option" where
  "GetEntry order entries model =
     (case entries model of
        Some e \<Rightarrow> Some e
      | None \<Rightarrow> let best = longest_match order model in if best \<noteq> [] then entries best else None)"

definition price_of :: "price \<Rightarrow> int \<Rightarrow> int \<Rightarrow> int \<Rightarrow> rat" where
  "price_of e prompt completion cached =
     rnd (rnd (rnd (rnd (rnd (of_int prompt) * pe_input e) + rnd (rnd (of_int completion) * pe_output e))
            + rnd (rnd (of_int cached) * pe_cached e)) / 1000000)"

definition EstimateCost :: "string list \<Rightarrow> pricing \<Rightarrow> string \<Rightarrow> token_usage \<Rightarrow> rat" where
  "EstimateCost order entries model u =
     (case GetEntry order entries model of None \<Rightarrow> 0 | Some e \<Rightarrow> price_of e (tu_prompt u) (tu_completion u) (tu_cached u))"

definition EstimateCostFromUpstream :: "string list \<Rightarrow> pricing \<Rightarrow> string \<Rightarrow> int \<Rightarrow> int \<Rightarrow> int \<Rightarrow> rat" where
  "EstimateCostFromUpstream order entries model prompt completion cached =
     (case GetEntry order entries model of None \<Rightarrow> 0 | Some e \<Rightarrow> price_of e prompt completion cached)"

section \<open>Counters\<close>

record exporter =
  ex_start :: time
  ex_requests :: int
  ex_errors :: int
  ex_total :: int
  ex_prompt :: int
  ex_completion :: int
  ex_cached :: int
  ex_cost :: rat
  ex_endpoints :: "((string \<times> int) \<times> int) list"
  ex_bytes :: "(string \<times> int) list"

definition statusClass :: "int \<Rightarrow> int" where
  "statusClass status = go_div status 100"

definition NewPrometheusExporter :: "time \<Rightarrow> exporter" where
  "NewPrometheusExporter now = \<lparr> ex_start = now, ex_requests = 0, ex_errors = 0, ex_total = 0, ex_prompt = 0,
     ex_completion = 0, ex_cached = 0, ex_cost = 0, ex_endpoints = [], ex_bytes = [] \<rparr>"

definition exporter_RecordRequest :: "bool \<Rightarrow> token_usage \<Rightarrow> rat \<Rightarrow> exporter \<Rightarrow> exporter" where
  "exporter_RecordRequest success u cost x =
     x\<lparr> ex_requests := wrap64 (ex_requests x + 1),
        ex_errors := (if success then ex_errors x else wrap64 (ex_errors x + 1)),
        ex_total := wrap64 (ex_total x + tu_total u), ex_prompt := wrap64 (ex_prompt x + tu_prompt u),
        ex_completion := wrap64 (ex_completion x + tu_completion u), ex_cached := wrap64 (ex_cached x + tu_cached u),
        ex_cost := rnd (ex_cost x + cost) \<rparr>"

text \<open>A counter of a Go map: a missing one is zero.\<close>

fun bump :: "'k \<Rightarrow> int \<Rightarrow> ('k \<times> int) list \<Rightarrow> ('k \<times> int) list" where
  "bump k d [] = [(k, wrap64 d)]"
| "bump k d ((j, n) # m) = (if j = k then (j, wrap64 (n + d)) # m else (j, n) # bump k d m)"

definition RecordEndpointTraffic :: "string \<Rightarrow> int \<Rightarrow> int \<Rightarrow> exporter \<Rightarrow> exporter" where
  "RecordEndpointTraffic route status bytes x =
     x\<lparr> ex_endpoints := bump (route, statusClass status) 1 (ex_endpoints x),
        ex_bytes := (if bytes > 0 then bump route bytes (ex_bytes x) else ex_bytes x) \<rparr>"

section \<open>The page\<close>

definition metric_head :: "string \<Rightarrow> string \<Rightarrow> string \<Rightarrow> string list" where
  "metric_head name help kind = [''# HELP '' @ name @ '' '' @ help, ''# TYPE '' @ name @ '' '' @ kind]"

definition labelled :: "string \<Rightarrow> (string \<times> string) list \<Rightarrow> string \<Rightarrow> string" where
  "labelled name labels v = name @ ''{'' @ join '','' (map (\<lambda>(l, x). l @ ''='' @ go_quote x) labels) @ ''} '' @ v"

definition endpoint_lines :: "((string \<times> int) \<times> int) list \<Rightarrow> string list" where
  "endpoint_lines eps =
     map (\<lambda>((route, class), n). labelled ''opencode_endpoint_requests_total''
            [(''route'', route), (''status'', itoa class @ ''xx'')] (itoa n)) (sort_key fst eps)"

definition bytes_lines :: "(string \<times> int) list \<Rightarrow> string list" where
  "bytes_lines bs = map (\<lambda>(route, n). labelled ''opencode_bytes_served_total'' [(''route'', route)] (itoa n)) (sort_key fst bs)"

text \<open>\<open>fmt\<close> prints a \<open>float64\<close> as \<open>%f\<close> does; \<open>snap\<close> is what the store's figures are, or its error.\<close>

definition metrics_page :: "(rat \<Rightarrow> string) \<Rightarrow> string + metrics_snapshot \<Rightarrow> time \<Rightarrow> exporter \<Rightarrow> string list" where
  "metrics_page fmt snap now x =
     metric_head ''opencode_requests_total'' ''Total number of requests'' ''counter''
     @ [''opencode_requests_total '' @ itoa (ex_requests x)]
     @ metric_head ''opencode_errors_total'' ''Total number of errors'' ''counter''
     @ [''opencode_errors_total '' @ itoa (ex_errors x)]
     @ metric_head ''opencode_tokens_total'' ''Total number of tokens'' ''counter''
     @ [labelled ''opencode_tokens_total'' [(''type'', ''prompt'')] (itoa (ex_prompt x)),
        labelled ''opencode_tokens_total'' [(''type'', ''completion'')] (itoa (ex_completion x)),
        labelled ''opencode_tokens_total'' [(''type'', ''cached'')] (itoa (ex_cached x)),
        labelled ''opencode_tokens_total'' [(''type'', ''total'')] (itoa (ex_total x))]
     @ metric_head ''opencode_cost_estimated_total'' ''Estimated cost in dollars'' ''counter''
     @ [''opencode_cost_estimated_total '' @ fmt (ex_cost x)]
     @ metric_head ''opencode_uptime_seconds'' ''Uptime in seconds'' ''gauge''
     @ [''opencode_uptime_seconds '' @ fmt (seconds (time_sub now (ex_start x)))]
     @ (case snap of
          Inl _ \<Rightarrow> []
        | Inr s \<Rightarrow>
            metric_head ''opencode_avg_latency_ms'' ''Average latency in milliseconds'' ''gauge''
            @ [''opencode_avg_latency_ms '' @ fmt (sm_latency (mp_summary s))]
            @ metric_head ''opencode_success_rate'' ''Success rate percentage'' ''gauge''
            @ [''opencode_success_rate '' @ fmt (sm_rate (mp_summary s))])
     @ metric_head ''opencode_endpoint_requests_total'' ''Requests per route and status class'' ''counter''
     @ endpoint_lines (ex_endpoints x)
     @ metric_head ''opencode_bytes_served_total'' ''Response bytes served per route'' ''counter''
     @ bytes_lines (ex_bytes x)"

section \<open>Requests recorded\<close>

text \<open>
  \<open>record\<close> of \<open>handleChatCompletions\<close>: a request is priced and goes to both. A row the database
  refuses is only logged.
\<close>

definition record_chat ::
  "string list \<Rightarrow> pricing \<Rightarrow> string option \<Rightarrow> time \<Rightarrow> string \<Rightarrow> bool \<Rightarrow> bool \<Rightarrow> int \<Rightarrow> duration \<Rightarrow> token_usage
     \<Rightarrow> metrics_store \<times> exporter \<Rightarrow> metrics_store \<times> exporter" where
  "record_chat order prices fault now model stream success status latency u s =
     (let cost = EstimateCostFromUpstream order prices model (tu_prompt u) (tu_completion u) (tu_cached u)
      in (snd (RecordRequest fault now model stream success status latency u cost (fst s)),
          exporter_RecordRequest success u cost (snd s)))"

text \<open>The end of \<open>loggingMiddleware\<close>: what a finished request leaves in both.\<close>

definition record_traffic ::
  "string option \<Rightarrow> time \<Rightarrow> http_request \<Rightarrow> int \<Rightarrow> duration \<Rightarrow> int \<Rightarrow> metrics_store \<times> exporter \<Rightarrow> metrics_store \<times> exporter" where
  "record_traffic fault now r status d bytes s =
     (case tracked_route True r of
        None \<Rightarrow> s
      | Some route \<Rightarrow>
          (snd (RecordEndpoint fault now (hr_method r) route status d bytes (fst s)),
           RecordEndpointTraffic route status bytes (snd s)))"

end
