(* ===== verification/Export_Laws.thy ===== *)
theory Export_Laws
  imports Metrics_Export "HOL-Library.Multiset"
begin

text \<open>
  What the price table and the counters promise: the longest name wins, the page does not depend on
  the order of Go's maps, the counters count; and what the prices get wrong: cached tokens are charged
  on top of the full price.
\<close>

section \<open>The longest name\<close>

definition longer :: "string \<Rightarrow> string \<Rightarrow> string \<Rightarrow> string" where
  "longer model best key = (if contains model key \<and> length key > length best then key else best)"

lemma longest_match_fold: "longest_match order model = foldl (longer model) [] order"
  by (simp add: longest_match_def longer_def [abs_def])

lemma fold_longer:
  "length best \<le> length (foldl (longer model) best order)
   \<and> (\<forall>key \<in> set order. contains model key \<longrightarrow> length key \<le> length (foldl (longer model) best order))
   \<and> (foldl (longer model) best order = best
      \<or> (foldl (longer model) best order \<in> set order \<and> contains model (foldl (longer model) best order)))"
proof (induction order arbitrary: best)
  case (Cons k order)
  have "length best \<le> length (longer model best k)" "contains model k \<Longrightarrow> length k \<le> length (longer model best k)"
    "longer model best k = best \<or> (longer model best k = k \<and> contains model k)"
    by (auto simp: longer_def)
  with Cons.IH [of "longer model best k"] show ?case by fastforce
qed simp

text \<open>
  A model without a price of its own has the price of the longest name of the table it contains, and
  no price exactly when it contains none.
\<close>

theorem longest_name_wins:
  assumes "set order = dom entries" "[] \<notin> dom entries" "entries model = None"
  shows "case GetEntry order entries model of
      None \<Rightarrow> \<not> (\<exists>k \<in> dom entries. contains model k)
    | Some e \<Rightarrow> \<exists>k. entries k = Some e \<and> contains model k \<and> (\<forall>j \<in> dom entries. contains model j \<longrightarrow> length j \<le> length k)"
proof -
  let ?b = "longest_match order model"
  note f = fold_longer [of "[]" model order, folded longest_match_fold]
  show ?thesis
  proof (cases "?b = []")
    case True
    then have "key = []" if "key \<in> dom entries" "contains model key" for key using f that assms(1) by auto
    with True assms(2,3) show ?thesis by (auto simp: GetEntry_def)
  next
    case False
    with f have b: "?b \<in> set order" "contains model ?b" by auto
    then obtain e where "entries ?b = Some e" using assms(1) by auto
    with False b f assms(1,3) show ?thesis by (auto simp: GetEntry_def intro!: exI [of _ ?b])
  qed
qed

text \<open>Of two names of the same length the one the map happens to give first wins.\<close>

lemma price_depends_on_map_order:
  "GetEntry [''gpt'', ''pt4''] [''gpt'' \<mapsto> e, ''pt4'' \<mapsto> f] ''gpt4'' = Some e
   \<and> GetEntry [''pt4'', ''gpt''] [''gpt'' \<mapsto> e, ''pt4'' \<mapsto> f] ''gpt4'' = Some f"
  by (simp add: GetEntry_def longest_match_def has_prefix_def)

text \<open>
  Cached tokens only ever make a request dearer: the provider's prompt tokens include the cached ones,
  and the price of the cached ones is added to the full price of all of them instead of replacing it.
\<close>

theorem cached_tokens_cost_extra:
  assumes "0 \<le> pe_cached e" "0 \<le> cached"
  shows "price_of e prompt completion 0 \<le> price_of e prompt completion cached"
proof -
  have "0 \<le> rnd (of_int cached :: rat)" using assms(2) by (simp add: rnd_nonneg)
  then have "0 \<le> rnd (of_int cached) * pe_cached e" using assms(1) by simp
  then show ?thesis unfolding price_of_def by (intro rnd_mono divide_right_mono add_mono) simp_all
qed

section \<open>Counters\<close>

lemma bump_keys: "fst ` set (bump k d m) = insert k (fst ` set m)"
  by (induction k d m rule: bump.induct) auto

lemma bump_distinct: "distinct (map fst m) \<Longrightarrow> distinct (map fst (bump k d m))"
proof (induction m)
  case (Cons e m)
  obtain j n where e: "e = (j, n)" by fastforce
  have "j \<noteq> k \<Longrightarrow> j \<notin> fst ` set m \<Longrightarrow> j \<notin> fst ` set (bump k d m)" by (simp add: bump_keys)
  with Cons e show ?case by auto
qed simp

definition counter :: "('k \<times> int) list \<Rightarrow> 'k \<Rightarrow> int" where
  "counter m k = (case map_of m k of Some n \<Rightarrow> n | None \<Rightarrow> 0)"

lemma wrap64_count:
  assumes "length xs < 2 ^ 63 - 1"
  shows "wrap64 (int (length (filter P xs)) + 1) = int (length (filter P xs)) + 1"
proof (rule wrap64_id)
  have "length (filter P xs) < 2 ^ 63 - 1" using assms le_less_trans [OF length_filter_le] by blast
  then show "in_int64 (int (length (filter P xs)) + 1)" by simp
qed

lemma counter_bump: "counter (bump k d m) j = (if j = k then wrap64 (counter m k + d) else counter m j)"
  by (induction k d m rule: bump.induct) (auto simp: counter_def)

type_synonym traffic_event = "string \<times> int \<times> int"

definition count_events :: "traffic_event list \<Rightarrow> exporter \<Rightarrow> exporter" where
  "count_events evs x = foldl (\<lambda>x (route, status, bytes). RecordEndpointTraffic route status bytes x) x evs"

lemma count_events_snoc:
  "count_events (evs @ [(route, status, bytes)]) x = RecordEndpointTraffic route status bytes (count_events evs x)"
  by (simp add: count_events_def)

text \<open>
  The counters of the page are the numbers of requests: after any history below \<open>2 ^ 63\<close> requests the
  counter of a route and a status class is how many of them had that route and class, each pair is
  listed once, and the bytes of a route are listed once.
\<close>

theorem endpoint_counters_exact:
  assumes "length evs < 2 ^ 63"
  shows "counter (ex_endpoints (count_events evs (NewPrometheusExporter now))) (route, class)
      = int (length (filter (\<lambda>(r, s, b). r = route \<and> statusClass s = class) evs))
    \<and> distinct (map fst (ex_endpoints (count_events evs (NewPrometheusExporter now))))
    \<and> distinct (map fst (ex_bytes (count_events evs (NewPrometheusExporter now))))"
  using assms
proof (induction evs rule: rev_induct)
  case Nil
  then show ?case by (simp add: count_events_def NewPrometheusExporter_def counter_def)
next
  case (snoc ev evs)
  obtain r s b where ev: "ev = (r, s, b)" using prod_cases3 by blast
  let ?x = "count_events evs (NewPrometheusExporter now)"
  have ih: "counter (ex_endpoints ?x) (route, class) = int (length (filter (\<lambda>(r, s, b). r = route \<and> statusClass s = class) evs))"
    "distinct (map fst (ex_endpoints ?x))" "distinct (map fst (ex_bytes ?x))" using snoc by simp_all
  have w: "wrap64 (int (length (filter (\<lambda>(r, s, b). r = route \<and> statusClass s = class) evs)) + 1)
      = int (length (filter (\<lambda>(r, s, b). r = route \<and> statusClass s = class) evs)) + 1"
    using snoc.prems by (intro wrap64_count) simp
  show ?case
    using ih w by (auto simp: ev count_events_snoc RecordEndpointTraffic_def counter_bump bump_distinct)
qed

text \<open>
  The page does not depend on the order in which Go's maps are iterated: two listings of the same
  counters give the same lines.
\<close>

lemma sorted_listing:
  assumes "mset m = mset m'" "distinct (map fst m)"
  shows "sort_key fst m = sort_key (fst :: 'k::linorder \<times> int \<Rightarrow> 'k) m'"
proof (rule sort_key_inj_key_eq)
  show "mset m = mset (sort_key fst m')" using assms(1) by simp
  show "inj_on fst (set m)" using assms(2) by (simp add: distinct_map)
  show "sorted (map fst (sort_key fst m'))" by simp
qed

theorem page_ignores_map_order:
  assumes "mset eps = mset (ex_endpoints x)" "mset bs = mset (ex_bytes x)"
    and "distinct (map fst (ex_endpoints x))" "distinct (map fst (ex_bytes x))"
  shows "metrics_page fmt snap now (x\<lparr> ex_endpoints := eps, ex_bytes := bs \<rparr>) = metrics_page fmt snap now x"
proof -
  have "endpoint_lines eps = endpoint_lines (ex_endpoints x)" "bytes_lines bs = bytes_lines (ex_bytes x)"
    using sorted_listing [OF assms(1) [symmetric] assms(3)] sorted_listing [OF assms(2) [symmetric] assms(4)]
    by (simp_all add: endpoint_lines_def bytes_lines_def)
  then show ?thesis by (simp add: metrics_page_def)
qed

section \<open>The two accounts agree\<close>

text \<open>
  What writes to both accounts: a chat that is done, a request that is done, and the hourly pruning
  started in \<^verbatim>\<open>cmd/gateway/main.go\<close>, which deletes rows but leaves the counters.
\<close>

datatype metrics_event =
    Chat_done "string option" time string bool bool int duration token_usage
  | Request_done "string option" time http_request int duration int
  | Prune_tick "string option" "string option" time time

primrec metrics_step :: "string list \<Rightarrow> pricing \<Rightarrow> metrics_event \<Rightarrow> metrics_store \<times> exporter \<Rightarrow> metrics_store \<times> exporter" where
  "metrics_step order prices (Chat_done f now model st su status lat u) s = record_chat order prices f now model st su status lat u s"
| "metrics_step order prices (Request_done f now r status d bytes) s = record_traffic f now r status d bytes s"
| "metrics_step order prices (Prune_tick f1 f2 now now2) s = (snd (Prune f1 f2 now now2 (fst s)), snd s)"

definition metrics_run :: "string list \<Rightarrow> pricing \<Rightarrow> metrics_event list \<Rightarrow> metrics_store \<times> exporter \<Rightarrow> metrics_store \<times> exporter" where
  "metrics_run order prices evs s = foldl (\<lambda>s ev. metrics_step order prices ev s) s evs"

text \<open>
  What becomes of a chat's row: the database refuses it, a pruning at least a week later deletes it, or it is kept.
  The pruning's statement compares the texts of the two times.
\<close>

datatype fate = Unstored | Pruned request_row | Kept request_row

definition deleted_by :: "request_row \<Rightarrow> metrics_event \<Rightarrow> bool" where
  "deleted_by r ev = (case ev of Prune_tick None _ now _ \<Rightarrow> mr_time r < utc_of (now - PruneAge) | _ \<Rightarrow> False)"

definition row_of_chat :: "string list \<Rightarrow> pricing \<Rightarrow> time \<Rightarrow> string \<Rightarrow> bool \<Rightarrow> bool \<Rightarrow> int \<Rightarrow> duration \<Rightarrow> token_usage \<Rightarrow> request_row" where
  "row_of_chat order prices now model st su status lat u =
     \<lparr> mr_time = utc_of now, mr_model = orUnknown model, mr_stream = st, mr_success = su, mr_status = status,
       mr_latency = milliseconds lat, mr_usage = u,
       mr_cost = EstimateCostFromUpstream order prices model (tu_prompt u) (tu_completion u) (tu_cached u) \<rparr>"

text \<open>The chats of a history, each with its success and its fate in what follows it.\<close>

fun chats :: "string list \<Rightarrow> pricing \<Rightarrow> metrics_event list \<Rightarrow> (bool \<times> fate) list" where
  "chats order prices [] = []"
| "chats order prices (Chat_done f now model st su status lat u # evs) =
     (su, let r = row_of_chat order prices now model st su status lat u
          in if f \<noteq> None then Unstored else if \<exists>ev \<in> set evs. deleted_by r ev then Pruned r else Kept r)
     # chats order prices evs"
| "chats order prices (_ # evs) = chats order prices evs"

definition kept_rows :: "(bool \<times> fate) list \<Rightarrow> request_row list" where
  "kept_rows cs = List.map_filter (\<lambda>(su, f). case f of Kept r \<Rightarrow> Some r | _ \<Rightarrow> None) cs"

lemma kept_rows_simps [simp]:
  "kept_rows [] = []" "kept_rows ((su, Kept r) # cs) = r # kept_rows cs" "kept_rows ((su, Pruned r) # cs) = kept_rows cs"
  "kept_rows ((su, Unstored) # cs) = kept_rows cs"
  by (simp_all add: kept_rows_def map_filter_simps)

lemma kept_rows_counts:
  "length (kept_rows cs) = length (filter (\<lambda>(su, f). \<exists>r. f = Kept r) cs)"
  by (induction cs) (auto simp: kept_rows_def map_filter_simps split: fate.split)

lemma row_success: "mr_success (row_of_chat order prices now model st su status lat u) = su"
  by (simp add: row_of_chat_def)

lemma failed_chats:
  "length (filter (\<lambda>c. \<not> fst c) (chats order prices evs))
     = length (filter (\<lambda>r. \<not> mr_success r) (kept_rows (chats order prices evs)))
       + length (filter (\<lambda>(ok, f). \<not> ok \<and> (\<forall>r. f \<noteq> Kept r)) (chats order prices evs))"
proof (induction order prices evs rule: chats.induct)
  case (2 order prices f now model st su status lat u evs)
  then show ?case by (cases su) (simp_all add: Let_def row_success)
qed simp_all

lemma not_deleted:
  "\<not> deleted_by r (Chat_done f now model st su status lat u)" "\<not> deleted_by r (Request_done f now q status d bytes)"
  by (simp_all add: deleted_by_def)

lemma step_schema: "mx_schema (fst (metrics_step order prices ev s)) = mx_schema (fst s)"
  by (cases ev) (auto simp: record_chat_def RecordRequest_def record_traffic_def RecordEndpoint_def Prune_def Let_def
      split: option.split)

text \<open>The row an event adds.\<close>

definition new_rows :: "string list \<Rightarrow> pricing \<Rightarrow> metrics_event \<Rightarrow> request_row list" where
  "new_rows order prices ev = (case ev of
     Chat_done f now model st su status lat u \<Rightarrow>
       if f = None then [row_of_chat order prices now model st su status lat u] else []
   | _ \<Rightarrow> [])"

lemma step_rows:
  assumes "missing_column (mx_schema (fst s)) = None"
  shows "mx_requests (fst (metrics_step order prices ev s)) =
    filter (\<lambda>r. \<not> deleted_by r ev) (mx_requests (fst s)) @ new_rows order prices ev"
proof (cases ev)
  case (Chat_done f now model st su status lat u)
  with assms show ?thesis
    by (cases f) (simp_all add: record_chat_def RecordRequest_def not_deleted new_rows_def row_of_chat_def Let_def)
next
  case (Request_done f now r status d bytes)
  then show ?thesis
    by (simp add: record_traffic_def RecordEndpoint_def not_deleted new_rows_def split: option.split)
next
  case (Prune_tick f1 f2 now now2)
  then show ?thesis
    by (cases f1; cases f2) (simp_all add: Prune_def deleted_by_def new_rows_def Let_def)
qed

lemma kept_Cons:
  "kept_rows (chats order prices (ev # evs)) =
     filter (\<lambda>r. \<not> (\<exists>e \<in> set evs. deleted_by r e)) (new_rows order prices ev) @ kept_rows (chats order prices evs)"
  by (cases ev) (simp_all add: new_rows_def Let_def)

lemma run_Cons: "metrics_run order prices (ev # evs) s = metrics_run order prices evs (metrics_step order prices ev s)"
  by (simp add: metrics_run_def)

lemma run_rows:
  assumes "missing_column (mx_schema (fst s)) = None"
  shows "mx_requests (fst (metrics_run order prices evs s)) =
    filter (\<lambda>r. \<not> (\<exists>ev \<in> set evs. deleted_by r ev)) (mx_requests (fst s)) @ kept_rows (chats order prices evs)"
  using assms
proof (induction evs arbitrary: s)
  case Nil
  then show ?case by (simp add: metrics_run_def)
next
  case (Cons ev evs)
  have "mx_requests (fst (metrics_run order prices evs (metrics_step order prices ev s)))
      = filter (\<lambda>r. \<not> (\<exists>e \<in> set evs. deleted_by r e)) (mx_requests (fst (metrics_step order prices ev s)))
        @ kept_rows (chats order prices evs)"
    using Cons.prems by (intro Cons.IH) (simp only: step_schema)
  moreover have "filter (\<lambda>r. \<not> (\<exists>e \<in> set (ev # evs). deleted_by r e)) rs
      = filter (\<lambda>r. \<not> (\<exists>e \<in> set evs. deleted_by r e)) (filter (\<lambda>r. \<not> deleted_by r ev) rs)" for rs
    by (induction rs) auto
  ultimately show ?case
    by (simp only: run_Cons step_rows [OF Cons.prems] kept_Cons filter_append append_assoc)
qed

text \<open>What an event adds to the two counters.\<close>

definition chat_delta :: "metrics_event \<Rightarrow> int \<times> int" where
  "chat_delta ev = (case ev of Chat_done _ _ _ _ su _ _ _ \<Rightarrow> (1, if su then 0 else 1) | _ \<Rightarrow> (0, 0))"

lemma chat_delta_bound: "0 \<le> fst (chat_delta ev)" "fst (chat_delta ev) \<le> 1" "0 \<le> snd (chat_delta ev)" "snd (chat_delta ev) \<le> 1"
  by (simp_all add: chat_delta_def split: metrics_event.split)

lemma step_counters:
  assumes "0 \<le> ex_requests (snd s)" "0 \<le> ex_errors (snd s)" "ex_requests (snd s) + 1 < 2 ^ 63" "ex_errors (snd s) + 1 < 2 ^ 63"
  shows "ex_requests (snd (metrics_step order prices ev s)) = ex_requests (snd s) + fst (chat_delta ev)"
    "ex_errors (snd (metrics_step order prices ev s)) = ex_errors (snd s) + snd (chat_delta ev)"
proof -
  have "wrap64 (ex_requests (snd s) + 1) = ex_requests (snd s) + 1" "wrap64 (ex_errors (snd s) + 1) = ex_errors (snd s) + 1"
    by (rule wrap64_id; use assms in simp)+
  then show "ex_requests (snd (metrics_step order prices ev s)) = ex_requests (snd s) + fst (chat_delta ev)"
    "ex_errors (snd (metrics_step order prices ev s)) = ex_errors (snd s) + snd (chat_delta ev)"
    by (cases ev; simp add: record_chat_def exporter_RecordRequest_def record_traffic_def RecordEndpointTraffic_def
        chat_delta_def Let_def split: option.split)+
qed

lemma chats_Cons:
  "int (length (chats order prices (ev # evs))) = fst (chat_delta ev) + int (length (chats order prices evs))"
  "count_of (\<lambda>c. \<not> fst c) (chats order prices (ev # evs)) = snd (chat_delta ev) + count_of (\<lambda>c. \<not> fst c) (chats order prices evs)"
  by (cases ev; simp add: chat_delta_def)+

lemma run_counters:
  assumes "0 \<le> ex_requests (snd s)" "0 \<le> ex_errors (snd s)"
    and "ex_requests (snd s) + int (length evs) < 2 ^ 63" "ex_errors (snd s) + int (length evs) < 2 ^ 63"
  shows "ex_requests (snd (metrics_run order prices evs s)) = ex_requests (snd s) + int (length (chats order prices evs))
    \<and> ex_errors (snd (metrics_run order prices evs s))
        = ex_errors (snd s) + count_of (\<lambda>c. \<not> fst c) (chats order prices evs)"
  using assms
proof (induction evs arbitrary: s)
  case Nil
  then show ?case by (simp add: metrics_run_def)
next
  case (Cons ev evs)
  let ?t = "metrics_step order prices ev s"
  have l: "int (length (ev # evs)) = int (length evs) + 1" by simp
  have t: "ex_requests (snd ?t) = ex_requests (snd s) + fst (chat_delta ev)"
    "ex_errors (snd ?t) = ex_errors (snd s) + snd (chat_delta ev)"
    by (rule step_counters; use Cons.prems l in linarith)+
  have "ex_requests (snd (metrics_run order prices evs ?t)) = ex_requests (snd ?t) + int (length (chats order prices evs))
    \<and> ex_errors (snd (metrics_run order prices evs ?t))
        = ex_errors (snd ?t) + count_of (\<lambda>c. \<not> fst c) (chats order prices evs)"
    by (rule Cons.IH; use Cons.prems l t chat_delta_bound [of ev] in linarith)
  then show ?case unfolding run_Cons t chats_Cons by linarith
qed

lemma fates_exhaust:
  "length (cs :: (bool \<times> fate) list) = length (filter (\<lambda>(ok, f). \<exists>r. f = Kept r) cs) + length (filter (\<lambda>(ok, f). f = Unstored) cs)
     + length (filter (\<lambda>(ok, f). \<exists>r. f = Pruned r) cs)"
proof (induction cs)
  case (Cons c cs)
  obtain ok f where "c = (ok, f)" by fastforce
  with Cons show ?case by (cases f) simp_all
qed simp

text \<open>
  C27: The counters account for the database. On a new database of a usable schema, after any history
  of chats, other requests and prunings, with any statement failing, every chat is counted once and every failed chat
  as an error once; and the table holds, in order, exactly the rows of those chats whose insertion succeeded and
  that no later pruning found older than a week. So the counters exceed the table by the chats
  whose row was refused or pruned, and by those only; without them the two agree.
\<close>

theorem counters_agree_with_database:
  assumes "missing_column (mx_schema m) = None" "mx_requests m = []" "length evs < 2 ^ 62"
    and "metrics_run order prices evs (m, NewPrometheusExporter now) = (t, x)"
  shows "mx_requests t = kept_rows (chats order prices evs)
    \<and> ex_requests x = int (length (chats order prices evs))
    \<and> ex_errors x = count_of (\<lambda>(ok, f). \<not> ok) (chats order prices evs)
    \<and> ex_errors x = count_of (\<lambda>r. \<not> mr_success r) (mx_requests t)
        + count_of (\<lambda>(ok, f). \<not> ok \<and> (\<forall>r. f \<noteq> Kept r)) (chats order prices evs)
    \<and> ex_requests x = int (length (mx_requests t)) + count_of (\<lambda>(ok, f). f = Unstored) (chats order prices evs)
        + count_of (\<lambda>(ok, f). \<exists>r. f = Pruned r) (chats order prices evs)"
proof -
  let ?c = "chats order prices evs"
  have e: "ex_requests (NewPrometheusExporter now) = 0" "ex_errors (NewPrometheusExporter now) = 0"
    by (simp_all add: NewPrometheusExporter_def)
  have "int (length evs) < 2 ^ 63" using assms(3) by simp
  then have x: "ex_requests x = int (length ?c)" "ex_errors x = count_of (\<lambda>c. \<not> fst c) ?c"
    using run_counters [of "(m, NewPrometheusExporter now)" evs order prices] assms(4) by (simp_all add: e)
  have r: "mx_requests t = kept_rows ?c"
    using run_rows [of "(m, NewPrometheusExporter now)" order prices evs] assms(1,2,4) by simp
  have ne: "(\<lambda>(ok, f :: fate). \<not> ok) = (\<lambda>c. \<not> fst c)" by auto
  have k: "length (mx_requests t) = length (filter (\<lambda>(ok, f). \<exists>r. f = Kept r) ?c)"
    unfolding r by (rule kept_rows_counts)
  have "ex_errors x = count_of (\<lambda>r. \<not> mr_success r) (mx_requests t) + count_of (\<lambda>(ok, f). \<not> ok \<and> (\<forall>r. f \<noteq> Kept r)) ?c"
    unfolding x r failed_chats of_nat_add ..
  moreover have "ex_requests x = int (length (mx_requests t)) + count_of (\<lambda>(ok, f). f = Unstored) ?c
      + count_of (\<lambda>(ok, f). \<exists>r. f = Pruned r) ?c"
    unfolding x(1) k using fates_exhaust [of ?c] by linarith
  ultimately show ?thesis using x r unfolding ne by blast
qed

section \<open>Concrete counters\<close>

definition demo_prices :: pricing where
  "demo_prices = [''gpt'' \<mapsto> \<lparr> pe_input = 1, pe_output = 2, pe_cached = 1 \<rparr>, ''gpt-4'' \<mapsto> \<lparr> pe_input = 3, pe_output = 4, pe_cached = 1 \<rparr>]"

theorem longest_name_wins_witness:
  "\<exists>k. demo_prices k = Some \<lparr> pe_input = 3, pe_output = 4, pe_cached = 1 \<rparr> \<and> contains ''gpt-4o'' k"
proof -
  have g: "GetEntry [''gpt'', ''gpt-4''] demo_prices ''gpt-4o'' = Some \<lparr> pe_input = 3, pe_output = 4, pe_cached = 1 \<rparr>"
    by (simp add: GetEntry_def longest_match_def has_prefix_def demo_prices_def)
  have "set [''gpt'', ''gpt-4''] = dom demo_prices" "[] \<notin> dom demo_prices" "demo_prices ''gpt-4o'' = None"
    by (auto simp: demo_prices_def)
  from longest_name_wins [OF this, unfolded g option.case] show ?thesis by blast
qed

theorem cached_tokens_cost_extra_witness:
  "price_of \<lparr> pe_input = 1, pe_output = 2, pe_cached = 1 \<rparr> 10 5 0 \<le> price_of \<lparr> pe_input = 1, pe_output = 2, pe_cached = 1 \<rparr> 10 5 8"
  by (rule cached_tokens_cost_extra) simp_all

theorem endpoint_counters_exact_witness:
  "counter (ex_endpoints (count_events [(''/'', 200, 1), (''/'', 204, 0)] (NewPrometheusExporter 0))) (''/'', 2) = 2"
  using endpoint_counters_exact [of "[(''/'', 200, 1), (''/'', 204, 0)]" 0 "''/''" 2] by (simp add: statusClass_def)

theorem page_ignores_map_order_witness:
  "metrics_page (\<lambda>_. []) (Inl []) 0 ((NewPrometheusExporter 0)\<lparr> ex_endpoints := [((''b'', 2), 1), ((''a'', 2), 1)], ex_bytes := [] \<rparr>)
   = metrics_page (\<lambda>_. []) (Inl []) 0 ((NewPrometheusExporter 0)\<lparr> ex_endpoints := [((''a'', 2), 1), ((''b'', 2), 1)] \<rparr>)"
  using page_ignores_map_order [of "[((''b'', 2), 1), ((''a'', 2), 1)]"
      "(NewPrometheusExporter 0)\<lparr> ex_endpoints := [((''a'', 2), 1), ((''b'', 2), 1)] \<rparr>" "[]" "\<lambda>_. []" "Inl []" 0]
  by (simp add: NewPrometheusExporter_def)

text \<open>Three chats, one of them refused by the database, and a pruning eight days after the first: one row is left.\<close>

definition demo_history :: "metrics_event list" where
  "demo_history =
     (let u = \<lparr> tu_prompt = 0, tu_completion = 0, tu_total = 0, tu_cached = 0 \<rparr>
      in [Chat_done None 0 ''m'' False False 502 0 u, Chat_done (Some ''disk full'') 0 ''m'' False True 200 0 u,
          Chat_done None (8 * 24 * Hour) ''m'' False True 200 0 u, Prune_tick None None (8 * 24 * Hour) (8 * 24 * Hour)])"

theorem counters_agree_with_database_witness:
  "let (t, x) = metrics_run [] Map.empty demo_history
     (\<lparr> mx_schema = \<lparr> sh_versions = Some [3], sh_columns = Some (first_columns @ token_columns), sh_traffic = True \<rparr>,
        mx_requests = [], mx_traffic = [], mx_start = 0, mx_window = 30 \<rparr>, NewPrometheusExporter 0)
   in ex_requests x = 3 \<and> ex_errors x = 1 \<and> length (mx_requests t) = 1"
proof -
  let ?m = "\<lparr> mx_schema = \<lparr> sh_versions = Some [3], sh_columns = Some (first_columns @ token_columns), sh_traffic = True \<rparr>,
        mx_requests = [], mx_traffic = [], mx_start = 0, mx_window = 30 \<rparr>"
  obtain t x where run: "metrics_run [] Map.empty demo_history (?m, NewPrometheusExporter 0) = (t, x)" by fastforce
  have d: "four_digits 86400" "four_digits 691200" "four_digits 0"
    by (simp_all add: four_digits_def civil_year.simps year_days_def leap_def)
  have n: "nat (unix (8 * 24 * Hour - PruneAge)) = 86400" "nat (unix (8 * 24 * Hour)) = 691200" "nat (unix 0) = 0"
    by (simp_all add: unix_def PruneAge_def duration_defs)
  have ts: "utc_of 0 < utc_of (8 * 24 * Hour - PruneAge)" "\<not> utc_of (8 * 24 * Hour) < utc_of (8 * 24 * Hour - PruneAge)"
    unfolding utc_of_def n using utc_text_less_iff [of 0 86400] utc_text_less_iff [of 691200 86400] d by simp_all
  have h: "\<exists>r q. chats [] Map.empty demo_history = [(False, Pruned r), (True, Unstored), (True, Kept q)]"
    using ts by (simp add: demo_history_def Let_def deleted_by_def row_of_chat_def)
  then obtain r q where c: "chats [] Map.empty demo_history = [(False, Pruned r), (True, Unstored), (True, Kept q)]" by blast
  have "length demo_history < 2 ^ 62" by (simp add: demo_history_def Let_def)
  moreover have "missing_column (mx_schema ?m) = None" by (simp add: missing_column_def first_columns_def token_columns_def)
  ultimately have "ex_requests x = 3" "ex_errors x = 1" "length (mx_requests t) = 1"
    using counters_agree_with_database [OF _ _ _ run] by (simp_all add: c)
  then show ?thesis unfolding run by simp
qed

end
