(* ===== verification/Web_Search.thy ===== *)
theory Web_Search
  imports Chat_Retry
begin

text \<open>
  \<^verbatim>\<open>internal/websearch\<close>: the three search providers, the extraction of a page's text, and the
  execution of one \<open>web_search\<close> call (\<^verbatim>\<open>websearch.go\<close>, \<^verbatim>\<open>providers.go\<close>, \<^verbatim>\<open>fetch.go\<close>, \<^verbatim>\<open>util.go\<close>).
  The HTML parser is a package outside the repository and an argument, as are the answers of the
  network; a document is the tree that parser returns. Every request is written down with the
  client it is reqs through.
\<close>

section \<open>Escapes of a query\<close>

definition unreserved :: "char \<Rightarrow> bool" where
  "unreserved c =
     (let n = (of_char c :: nat)
      in (48 \<le> n \<and> n \<le> 57) \<or> (65 \<le> n \<and> n \<le> 90) \<or> (97 \<le> n \<and> n \<le> 122)
         \<or> c \<in> {CHR ''-'', CHR ''_'', CHR ''.'', CHR ''~''})"

definition upper_hex :: "nat \<Rightarrow> char" where
  "upper_hex n = char_of (if n < 10 then 48 + n else 55 + n)"

definition escape_char :: "char \<Rightarrow> string" where
  "escape_char c =
     (if unreserved c then [c]
      else if c = CHR '' '' then ''+''
      else (let n = (of_char c :: nat) in [CHR ''%'', upper_hex (n div 16), upper_hex (n mod 16)]))"

text \<open>\<open>url.QueryEscape\<close> and its inverse, \<open>None\<close> on a malformed escape.\<close>

definition QueryEscape :: "string \<Rightarrow> string" where
  "QueryEscape s = concat (map escape_char s)"

definition unhex :: "char \<Rightarrow> nat option" where
  "unhex c =
     (let n = (of_char c :: nat)
      in if 48 \<le> n \<and> n \<le> 57 then Some (n - 48)
         else if 97 \<le> n \<and> n \<le> 102 then Some (n - 87)
         else if 65 \<le> n \<and> n \<le> 70 then Some (n - 55)
         else None)"

fun QueryUnescape :: "string \<Rightarrow> string option" where
  "QueryUnescape [] = Some []"
| "QueryUnescape (c # cs) =
     (if c = CHR ''%''
      then (case cs of
              a # b # rest \<Rightarrow>
                (case (unhex a, unhex b, QueryUnescape rest) of
                   (Some i, Some j, Some r) \<Rightarrow> Some (char_of (16 * i + j) # r)
                 | _ \<Rightarrow> None)
            | _ \<Rightarrow> None)
      else map_option (\<lambda>r. (if c = CHR ''+'' then CHR '' '' else c) # r) (QueryUnescape cs))"

text \<open>
  \<open>URL.Query\<close>: the pairs of the raw query. A pair with a semicolon, an empty one and one that does
  not unescape are left out.
\<close>

definition raw_query :: "string \<Rightarrow> string" where
  "raw_query url =
     (let u = (case cut url CHR ''#'' of Some (l, _) \<Rightarrow> l | None \<Rightarrow> url)
      in case cut u CHR ''?'' of Some (_, q) \<Rightarrow> q | None \<Rightarrow> [])"

definition query_pair :: "string \<Rightarrow> (string \<times> string) list" where
  "query_pair p =
     (if CHR '';'' \<in> set p \<or> p = [] then []
      else let (k, v) = (case cut p CHR ''='' of Some kv \<Rightarrow> kv | None \<Rightarrow> (p, []))
           in case (QueryUnescape k, QueryUnescape v) of (Some k, Some v) \<Rightarrow> [(k, v)] | _ \<Rightarrow> [])"

definition query_pairs :: "string \<Rightarrow> (string \<times> string) list" where
  "query_pairs q = concat (map query_pair (split_on CHR ''&'' q))"

definition query_get :: "string \<Rightarrow> string \<Rightarrow> string" where
  "query_get url k = (case map_of (query_pairs (raw_query url)) k of Some v \<Rightarrow> v | None \<Rightarrow> [])"

section \<open>Documents\<close>

text \<open>\<open>Other\<close> is a document, comment or doctype node.\<close>

datatype html =
    Elem string "(string \<times> string) list" "html list"
  | Text_node string
  | Other_node "html list"

definition attrOf :: "(string \<times> string) list \<Rightarrow> string \<Rightarrow> string" where
  "attrOf attrs name = (case map_of attrs name of Some v \<Rightarrow> v | None \<Rightarrow> [])"

definition classOf :: "(string \<times> string) list \<Rightarrow> string" where
  "classOf attrs = attrOf attrs ''class''"

fun inner_text :: "html \<Rightarrow> string" where
  "inner_text (Text_node s) = s"
| "inner_text (Elem _ _ cs) = concat (map inner_text cs)"
| "inner_text (Other_node cs) = concat (map inner_text cs)"

definition textOf :: "html \<Rightarrow> string" where
  "textOf n = trim_space (inner_text n)"

definition hidden_tag :: "string \<Rightarrow> bool" where
  "hidden_tag t \<longleftrightarrow> t \<in> set [''script'', ''style'', ''noscript'', ''svg'', ''head'']"

definition block_tag :: "string \<Rightarrow> bool" where
  "block_tag t \<longleftrightarrow> t \<in> set [''p'', ''div'', ''br'', ''li'', ''tr'', ''h1'', ''h2'', ''h3'', ''h4'', ''section'', ''article'']"

text \<open>\<open>oneLine\<close>, also applied to every text node of a page.\<close>

definition oneLine :: "string \<Rightarrow> string" where
  "oneLine s = join '' '' (Prelude.fields s)"

definition text_piece :: "string \<Rightarrow> string" where
  "text_piece data = (let s = oneLine data in if s = [] then [] else s @ '' '')"

fun page_text :: "html \<Rightarrow> string" where
  "page_text (Text_node data) = text_piece data"
| "page_text (Elem t _ cs) =
     (if hidden_tag t then []
      else (if block_tag t then [CHR 0x0A] else []) @ concat (map page_text cs))"
| "page_text (Other_node cs) = concat (map page_text cs)"

text \<open>\<open>ExtractText\<close> on what the parser makes of the input, \<open>Inl\<close> its error.\<close>

definition ExtractText :: "string + html \<Rightarrow> string" where
  "ExtractText doc = (case doc of Inl _ \<Rightarrow> [] | Inr n \<Rightarrow> trim_space (page_text n))"

section \<open>The network\<close>

record web_request =
  wq_method :: string
  wq_url :: string
  wq_headers :: "(string \<times> string) list"
  wq_body :: string

record web_answer =
  wa_status :: int
  wa_body :: string
  wa_broken :: bool

text \<open>A client is the address of the tunnel it dials. A log is the requests made so far.\<close>

type_synonym web_log = "(string \<times> web_request) list"

text \<open>
  \<open>wn_do\<close> answers a request after a log, \<open>Inl\<close> the transport's error; \<open>wn_bad_url\<close> is the error
  \<open>url.Parse\<close> finds in an URL; \<open>wn_html\<close> the HTML parser; \<open>wn_json\<close> the whole text as a JSON
  value, \<open>wn_first\<close> the first value of a text, \<open>None\<close> when there is none, \<open>wn_decode_error\<close> what
  the decoder then says, of the text or of a value of the wrong type; \<open>wn_read_error\<close> the
  error a broken body ends in.
\<close>

record web_net =
  wn_do :: "string \<Rightarrow> web_log \<Rightarrow> web_request \<Rightarrow> string + web_answer"
  wn_bad_url :: "string \<Rightarrow> string option"
  wn_html :: "string \<Rightarrow> string + html"
  wn_json :: "string \<Rightarrow> json option"
  wn_first :: "string \<Rightarrow> json option"
  wn_decode_error :: "string \<Rightarrow> string"
  wn_read_error :: string

definition userAgent :: string where
  "userAgent = ''Mozilla/5.0 (Macintosh; Intel Mac OS X 10_15_7) AppleWebKit/537.36 (KHTML, like Gecko) Chrome/151.0.0.0 Safari/537.36''"

text \<open>
  \<open>http.NewRequestWithContext\<close> and \<open>Do\<close>. The log has what the code asks the client for, not the redirects
  the client follows by itself, on the same tunnel.
\<close>

definition web_send :: "web_net \<Rightarrow> string \<Rightarrow> web_request \<Rightarrow> web_log \<Rightarrow> (string + web_answer) \<times> web_log" where
  "web_send net client q reqs =
     (case wn_bad_url net (wq_url q) of
        Some err \<Rightarrow> (Inl err, reqs)
      | None \<Rightarrow> (wn_do net client reqs q, reqs @ [(client, q)]))"

definition parse_body :: "web_net \<Rightarrow> web_answer \<Rightarrow> string + html" where
  "parse_body net a = (if wa_broken a then Inl (wn_read_error net) else wn_html net (wa_body a))"

section \<open>Search providers\<close>

record search_hit =
  sh_title :: string
  sh_url :: string
  sh_snippet :: string

definition unwrapDDGURL :: "web_net \<Rightarrow> string \<Rightarrow> string" where
  "unwrapDDGURL net href =
     (let href = (if has_prefix href ''//'' then ''https:'' @ href else href)
      in if wn_bad_url net href \<noteq> None then href
         else let uddg = query_get href ''uddg''
              in if uddg = [] then href
                 else (case QueryUnescape uddg of Some t \<Rightarrow> t | None \<Rightarrow> href))"

definition ddg_visit :: "web_net \<Rightarrow> html \<Rightarrow> search_hit list \<Rightarrow> search_hit list" where
  "ddg_visit net n results =
     (case n of
        Elem t attrs cs \<Rightarrow>
          if t \<noteq> ''a'' then results
          else (let cls = classOf attrs; href = attrOf attrs ''href''
                in if contains cls ''result__a'' then
                     let title = textOf n
                     in if title \<noteq> [] \<and> href \<noteq> []
                        then results @ [\<lparr> sh_title = title, sh_url = unwrapDDGURL net href, sh_snippet = [] \<rparr>]
                        else results
                   else if contains cls ''result__snippet'' then
                     if results \<noteq> [] \<and> sh_snippet (last results) = []
                     then butlast results @ [(last results)\<lparr> sh_snippet := textOf n \<rparr>]
                     else results
                   else results)
      | _ \<Rightarrow> results)"

fun ddg_walk :: "web_net \<Rightarrow> html \<Rightarrow> search_hit list \<Rightarrow> search_hit list" where
  "ddg_walk net (Elem t attrs cs) results = fold (ddg_walk net) cs (ddg_visit net (Elem t attrs cs) results)"
| "ddg_walk net (Text_node s) results = ddg_visit net (Text_node s) results"
| "ddg_walk net (Other_node cs) results = fold (ddg_walk net) cs (ddg_visit net (Other_node cs) results)"

definition first_hits :: "int \<Rightarrow> search_hit list \<Rightarrow> search_hit list" where
  "first_hits maxResults hits = (if int (length hits) > maxResults then take (nat maxResults) hits else hits)"

datatype provider =
    DuckDuckGo string string
  | SearXNG string string
  | Brave string string string

definition ddg_request :: "string \<Rightarrow> string \<Rightarrow> web_request" where
  "ddg_request base query =
     \<lparr> wq_method = ''POST'', wq_url = (if base = [] then ''https://html.duckduckgo.com/html/'' else base),
       wq_headers = [(''Content-Type'', ''application/x-www-form-urlencoded''), (''User-Agent'', userAgent)],
       wq_body = ''kl=wt-wt&q='' @ QueryEscape query \<rparr>"

definition ddg_Search ::
  "web_net \<Rightarrow> string \<Rightarrow> string \<Rightarrow> string \<Rightarrow> int \<Rightarrow> web_log \<Rightarrow> (string + search_hit list) \<times> web_log" where
  "ddg_Search net base client query maxResults reqs =
     (case web_send net client (ddg_request base query) reqs of
        (Inl err, reqs) \<Rightarrow> (Inl err, reqs)
      | (Inr a, reqs) \<Rightarrow>
          if wa_status a \<noteq> 200 then (Inl (''duckduckgo returned status '' @ itoa (wa_status a)), reqs)
          else (case parse_body net a of
                  Inl err \<Rightarrow> (Inl err, reqs)
                | Inr doc \<Rightarrow> (Inr (first_hits maxResults (ddg_walk net doc [])), reqs)))"

text \<open>
  Decoding into \<open>Result\<close>: a key matches a field in any letter case, \<open>null\<close> leaves the field as it
  is, a value of another type is an error. The fields of an unknown key are ignored.
\<close>

fun string_field :: "string \<Rightarrow> (string \<times> json) list \<Rightarrow> string \<Rightarrow> string option" where
  "string_field name [] v = Some v"
| "string_field name ((k, j) # m) v =
     (if to_lower k \<noteq> name then string_field name m v
      else (case j of JStr s \<Rightarrow> string_field name m s | JNull \<Rightarrow> string_field name m v | _ \<Rightarrow> None))"

fun decode_hit :: "json \<Rightarrow> search_hit option" where
  "decode_hit (JObj m) =
     (case (string_field ''title'' m [], string_field ''url'' m [], string_field ''snippet'' m []) of
        (Some t, Some u, Some s) \<Rightarrow> Some \<lparr> sh_title = t, sh_url = u, sh_snippet = s \<rparr>
      | _ \<Rightarrow> None)"
| "decode_hit JNull = Some \<lparr> sh_title = [], sh_url = [], sh_snippet = [] \<rparr>"
| "decode_hit _ = None"

definition decode_hits :: "json \<Rightarrow> search_hit list option" where
  "decode_hits j =
     (case j of
        JArr xs \<Rightarrow> those (map decode_hit xs)
      | JNull \<Rightarrow> Some []
      | _ \<Rightarrow> None)"

text \<open>\<open>struct { Results []Result }\<close> under the key \<open>name\<close>, its value last set.\<close>

definition json_member :: "string \<Rightarrow> json \<Rightarrow> json option" where
  "json_member name j =
     (case j of
        JObj m \<Rightarrow> Some (case map_of (rev (map (\<lambda>(k, v). (to_lower k, v)) m)) name of Some v \<Rightarrow> v | None \<Rightarrow> JNull)
      | JNull \<Rightarrow> Some JNull
      | _ \<Rightarrow> None)"

definition searxng_hits :: "json \<Rightarrow> search_hit list option" where
  "searxng_hits j = Option.bind (json_member ''results'' j) decode_hits"

definition brave_hits :: "json \<Rightarrow> search_hit list option" where
  "brave_hits j = Option.bind (json_member ''web'' j) (\<lambda>w. Option.bind (json_member ''results'' w) decode_hits)"

definition decode_body :: "web_net \<Rightarrow> (json \<Rightarrow> search_hit list option) \<Rightarrow> web_answer \<Rightarrow> string + search_hit list" where
  "decode_body net hits a =
     (let text = take 1048576 (wa_body a)
      in case Option.bind (wn_first net text) hits of
           Some rs \<Rightarrow> Inr rs
         | None \<Rightarrow> Inl (wn_decode_error net text))"

definition searxng_request :: "string \<Rightarrow> string \<Rightarrow> web_request" where
  "searxng_request base query =
     \<lparr> wq_method = ''GET'', wq_url = base @ ''/search?q='' @ QueryEscape query @ ''&format=json'',
       wq_headers = [(''User-Agent'', userAgent)], wq_body = [] \<rparr>"

definition searxng_Search ::
  "web_net \<Rightarrow> string \<Rightarrow> string \<Rightarrow> string \<Rightarrow> int \<Rightarrow> web_log \<Rightarrow> (string + search_hit list) \<times> web_log" where
  "searxng_Search net base client query maxResults reqs =
     (case web_send net client (searxng_request base query) reqs of
        (Inl err, reqs) \<Rightarrow> (Inl err, reqs)
      | (Inr a, reqs) \<Rightarrow>
          if wa_status a \<noteq> 200 then (Inl (''searxng returned status '' @ itoa (wa_status a)), reqs)
          else (map_sum id (first_hits maxResults) (decode_body net searxng_hits a), reqs))"

definition brave_request :: "string \<Rightarrow> string \<Rightarrow> string \<Rightarrow> int \<Rightarrow> web_request" where
  "brave_request base key query maxResults =
     \<lparr> wq_method = ''GET'',
       wq_url = (if base = [] then ''https://api.search.brave.com/res/v1/web/search'' else base)
         @ ''?q='' @ QueryEscape query @ ''&count='' @ itoa maxResults,
       wq_headers = [(''Accept'', ''application/json''), (''X-Subscription-Token'', key)], wq_body = [] \<rparr>"

definition brave_Search ::
  "web_net \<Rightarrow> string \<Rightarrow> string \<Rightarrow> string \<Rightarrow> string \<Rightarrow> int \<Rightarrow> web_log \<Rightarrow> (string + search_hit list) \<times> web_log" where
  "brave_Search net base key client query maxResults reqs =
     (case web_send net client (brave_request base key query maxResults) reqs of
        (Inl err, reqs) \<Rightarrow> (Inl err, reqs)
      | (Inr a, reqs) \<Rightarrow>
          if wa_status a \<noteq> 200 then (Inl (''brave returned status '' @ itoa (wa_status a)), reqs)
          else (decode_body net brave_hits a, reqs))"

definition Search ::
  "web_net \<Rightarrow> provider \<Rightarrow> string \<Rightarrow> int \<Rightarrow> web_log \<Rightarrow> (string + search_hit list) \<times> web_log" where
  "Search net p query maxResults reqs =
     (case p of
        DuckDuckGo base client \<Rightarrow> ddg_Search net base client query maxResults reqs
      | SearXNG base client \<Rightarrow> searxng_Search net base client query maxResults reqs
      | Brave base key client \<Rightarrow> brave_Search net base key client query maxResults reqs)"

section \<open>Pages\<close>

definition errUnsupportedScheme :: string where
  "errUnsupportedScheme = ''only http and https URLs are supported''"

definition errNonOKStatus :: "int \<Rightarrow> string" where
  "errNonOKStatus status = ''page returned status '' @ itoa status"

definition page_request :: "string \<Rightarrow> web_request" where
  "page_request url =
     \<lparr> wq_method = ''GET'', wq_url = url,
       wq_headers = [(''User-Agent'', userAgent),
         (''Accept'', ''text/html,application/xhtml+xml,application/json;q=0.9,*/*;q=0.8'')],
       wq_body = [] \<rparr>"

definition truncated_mark :: string where
  "truncated_mark = [CHR 0x0A] @ ''[...truncated...]''"

definition shorten :: "int \<Rightarrow> string \<Rightarrow> string" where
  "shorten maxChars text = (if int (length text) > maxChars then take (nat maxChars) text @ truncated_mark else text)"

text \<open>
  A body longer than 4 MiB ends there for the reader, before any error it would end in. The limit of
  characters is positive, as \<open>NewService\<close> makes it: Go's slice of a text to a negative length panics.
\<close>

definition page_limit :: nat where "page_limit = 4194304"

definition page_body :: "web_answer \<Rightarrow> web_answer" where
  "page_body a = a\<lparr> wa_body := take page_limit (wa_body a),
     wa_broken := wa_broken a \<and> length (wa_body a) < page_limit \<rparr>"

definition FetchPageText ::
  "web_net \<Rightarrow> string \<Rightarrow> int \<Rightarrow> string \<Rightarrow> web_log \<Rightarrow> (string + string) \<times> web_log" where
  "FetchPageText net client maxChars url reqs =
     (if \<not> has_prefix url ''http://'' \<and> \<not> has_prefix url ''https://'' then (Inl errUnsupportedScheme, reqs)
      else (case web_send net client (page_request url) reqs of
              (Inl err, reqs) \<Rightarrow> (Inl err, reqs)
            | (Inr a, reqs) \<Rightarrow>
                if wa_status a \<noteq> 200 then (Inl (errNonOKStatus (wa_status a)), reqs)
                else (Inr (shorten maxChars (ExtractText (parse_body net (page_body a)))), reqs)))"

section \<open>The service\<close>

record search_service =
  sv_provider :: provider
  sv_client :: string
  sv_maxResults :: int
  sv_maxPages :: int
  sv_maxPageChars :: int

definition NewService ::
  "string option \<Rightarrow> string \<Rightarrow> string \<Rightarrow> int \<Rightarrow> int \<Rightarrow> int \<Rightarrow> search_service option" where
  "NewService client searxngURL braveAPIKey maxResults maxPages maxPageChars =
     (case client of
        None \<Rightarrow> None
      | Some c \<Rightarrow>
          Some \<lparr> sv_provider =
                   (if trim_space searxngURL \<noteq> [] then SearXNG (trim_right_char CHR ''/'' searxngURL) c
                    else if trim_space braveAPIKey \<noteq> [] then Brave [] braveAPIKey c
                    else DuckDuckGo [] c),
                 sv_client = c,
                 sv_maxResults = (if maxResults \<le> 0 then 5 else maxResults),
                 sv_maxPages = (if maxPages < 0 then 2 else maxPages),
                 sv_maxPageChars = (if maxPageChars \<le> 0 then 6000 else maxPageChars) \<rparr>)"

text \<open>The query of a call, \<open>None\<close> when the arguments do not decode or it is blank.\<close>

definition run_query :: "web_net \<Rightarrow> string \<Rightarrow> string option" where
  "run_query net args =
     (case wn_json net args of
        Some (JObj m) \<Rightarrow>
          (case string_field ''query'' m [] of
             Some q \<Rightarrow> if trim_space q = [] then None else Some q
           | None \<Rightarrow> None)
      | _ \<Rightarrow> None)"

definition hit_lines :: "nat \<times> search_hit \<Rightarrow> string" where
  "hit_lines ir =
     (case ir of (i, r) \<Rightarrow>
        ''['' @ itoa (int i + 1) @ ''] '' @ sh_title r @ [CHR 0x0A] @ ''    '' @ sh_url r @ [CHR 0x0A]
        @ (let sn = trim_space (sh_snippet r) in if sn \<noteq> [] then ''    '' @ oneLine sn @ [CHR 0x0A] else [])
        @ [CHR 0x0A])"

definition page_lines :: "nat \<Rightarrow> search_hit \<Rightarrow> string \<Rightarrow> string" where
  "page_lines i r text =
     ''--- Content of ['' @ itoa (int i + 1) @ ''] '' @ sh_url r @ '' ---'' @ [CHR 0x0A]
     @ text @ [CHR 0x0A] @ ''---'' @ [CHR 0x0A]"

fun fetch_pages :: "web_net \<Rightarrow> search_service \<Rightarrow> nat \<Rightarrow> search_hit list \<Rightarrow> web_log \<Rightarrow> string \<times> web_log" where
  "fetch_pages net s i [] reqs = ([], reqs)"
| "fetch_pages net s i (r # rs) reqs =
     (if int i \<ge> sv_maxPages s then ([], reqs)
      else (case FetchPageText net (sv_client s) (sv_maxPageChars s) (sh_url r) reqs of
              (res, reqs) \<Rightarrow>
                (case fetch_pages net s (Suc i) rs reqs of
                   (out, reqs) \<Rightarrow>
                     ((case res of
                         Inl _ \<Rightarrow> []
                       | Inr text \<Rightarrow> if trim_space text = [] then [] else page_lines i r text) @ out, reqs))))"

definition Run :: "web_net \<Rightarrow> search_service \<Rightarrow> string \<Rightarrow> web_log \<Rightarrow> (string + string) \<times> web_log" where
  "Run net s args reqs =
     (case run_query net args of
        None \<Rightarrow> (Inl (''invalid web_search arguments: need a non-empty '' @ go_quote ''query''), reqs)
      | Some q \<Rightarrow>
          (case Search net (sv_provider s) q (sv_maxResults s) reqs of
             (Inl err, reqs) \<Rightarrow> (Inl (''search failed: '' @ err), reqs)
           | (Inr hits, reqs) \<Rightarrow>
               if hits = [] then (Inr ''No results found.'', reqs)
               else (case fetch_pages net s 0 hits reqs of
                       (pages, reqs) \<Rightarrow>
                         (Inr (''Web results for '' @ go_quote q @ '':'' @ [CHR 0x0A, CHR 0x0A]
                               @ concat (map hit_lines (enumerate 0 hits)) @ pages), reqs))))"

text \<open>The tool advertised to the model.\<close>

definition ToolDefinition :: json where
  "ToolDefinition =
     JObj [(''type'', JStr ''function''),
       (''function'', JObj [
          (''name'', JStr ''web_search''),
          (''description'', JStr ''Search the public web for current information. Returns ranked results with titles, URLs, snippets, and the extracted text of the top pages.''),
          (''parameters'', JObj [
             (''type'', JStr ''object''),
             (''properties'', JObj [(''query'', JObj [
                (''type'', JStr ''string''),
                (''description'', JStr ''The search query. Use focused keywords; issue multiple searches for broad topics.'')])]),
             (''required'', JArr [JStr ''query''])])])]"

text \<open>The service \<open>wsFor\<close> builds on the client it cached, and what one call of it answers.\<close>

definition service_on :: "config \<Rightarrow> string \<Rightarrow> search_service option" where
  "service_on cfg client =
     NewService (Some client) (SearxngURL cfg) (BraveAPIKey cfg)
       (WebSearchMaxResults cfg) (WebSearchMaxPages cfg) (WebSearchMaxPageChar cfg)"

definition search_call :: "web_net \<Rightarrow> config \<Rightarrow> string \<Rightarrow> string \<Rightarrow> string + string" where
  "search_call net cfg client args =
     (case service_on cfg client of
        Some s \<Rightarrow> fst (Run net s args [])
      | None \<Rightarrow> Inl [])"

end
