(* ===== verification/Web_Search_Laws.thy ===== *)
theory Web_Search_Laws
  imports Web_Search
begin

text \<open>
  What the search tool promises: the text taken from a page is the words a reader would see, a
  search leaves through one tunnel and makes a bounded number of requests, a redirect link is
  resolved to its target.
\<close>

section \<open>Words\<close>

definition blanked :: "string \<Rightarrow> string" where
  "blanked s = map (\<lambda>c. if is_space c then CHR '' '' else c) s"

lemma fields_blanked: "Prelude.fields s = filter (\<lambda>w. w \<noteq> []) (split_on CHR '' '' (blanked s))"
  by (simp add: Prelude.fields_def blanked_def)

lemma split_on_append2: "split_on c (u @ c # v) = split_on c u @ split_on c v"
proof (induction u)
  case (Cons x u)
  then show ?case by (cases "split_on c u") (auto)
qed simp

lemma fields_break:
  assumes "is_space b"
  shows "Prelude.fields (u @ b # v) = Prelude.fields u @ Prelude.fields v"
  using assms by (simp add: fields_blanked blanked_def split_on_append2)

lemma fields_Nil [simp]: "Prelude.fields [] = []"
  by (simp add: fields_blanked blanked_def)


lemma fields_space_back: "is_space b \<Longrightarrow> Prelude.fields (u @ [b]) = Prelude.fields u"
  using fields_break [of b u "[]"] by simp




lemma blank_is_space [simp]: "is_space CHR '' ''" "is_space CHR 0x0A"
  by (simp_all add: is_space_def)








text \<open>A text that ends in a blank contributes its words whatever follows it.\<close>

definition ends_blank :: "string \<Rightarrow> bool" where
  "ends_blank s \<longleftrightarrow> s = [] \<or> is_space (last s)"

lemma fields_closed: "ends_blank u \<Longrightarrow> Prelude.fields (u @ v) = Prelude.fields u @ Prelude.fields v"
proof (cases u rule: rev_cases)
  case (snoc w b)
  assume "ends_blank u"
  then show ?thesis using snoc by (simp add: ends_blank_def fields_break fields_space_back)
qed simp



lemma fields_concat:
  "\<forall>u \<in> set us. ends_blank u \<Longrightarrow> Prelude.fields (concat us) = concat (map Prelude.fields us)"
  by (induction us) (auto simp: fields_closed)



section \<open>The text of a page\<close>

text \<open>
  The reference, in two passes: drop the subtrees a reader does not see, then read every text node
  in the order of the document.
\<close>

fun pruned :: "html \<Rightarrow> html list" where
  "pruned (Text_node s) = [Text_node s]"
| "pruned (Elem t attrs cs) =
     (if t \<in> {''script'', ''style'', ''noscript'', ''svg'', ''head''} then []
      else [Elem t attrs (concat (map pruned cs))])"
| "pruned (Other_node cs) = [Other_node (concat (map pruned cs))]"

fun text_nodes :: "html \<Rightarrow> string list" where
  "text_nodes (Text_node s) = [s]"
| "text_nodes (Elem t attrs cs) = concat (map text_nodes cs)"
| "text_nodes (Other_node cs) = concat (map text_nodes cs)"

definition seen_words :: "html \<Rightarrow> string list" where
  "seen_words n = concat (map Prelude.fields (concat (map text_nodes (pruned n))))"


lemma seen_words_children:
  "concat (map Prelude.fields (concat (map text_nodes (concat (map pruned cs))))) = concat (map seen_words cs)"
  by (induction cs) (simp_all add: seen_words_def)











lemma nav_words_kept: "seen_words (Elem ''nav'' attrs cs) = concat (map seen_words cs)"
  using seen_words_children [of cs] by (simp add: seen_words_def [of "Elem ''nav'' attrs cs"])

section \<open>Escapes\<close>

lemma of_char_less: "(of_char c :: nat) < 256"
  by (cases c) simp

lemma unhex_upper_hex: "n < 16 \<Longrightarrow> unhex (upper_hex n) = Some n"
  by (auto simp: unhex_def upper_hex_def Let_def)

lemma upper_hex_unreserved: "n < 16 \<Longrightarrow> unreserved (upper_hex n)"
  by (auto simp: unreserved_def upper_hex_def Let_def)

lemma unreserved_chars: "unreserved c \<Longrightarrow> c \<notin> {CHR ''%'', CHR ''+'', CHR ''&'', CHR '';'', CHR ''='', CHR ''#'', CHR ''?''}"
  by (auto simp: unreserved_def Let_def)

lemma hex_digits: "(of_char c :: nat) div 16 < 16" "(of_char c :: nat) mod 16 < 16"
  using of_char_less [of c] by (simp_all add: less_mult_imp_div_less)

lemma QueryUnescape_escape_char: "QueryUnescape (escape_char c @ s) = map_option ((#) c) (QueryUnescape s)"
proof (cases "unreserved c")
  case True
  then show ?thesis using unreserved_chars [OF True] by (simp add: escape_char_def)
next
  case False
  then show ?thesis
    by (auto simp: escape_char_def Let_def unhex_upper_hex hex_digits split: option.splits)
qed

theorem query_escape_roundtrip: "QueryUnescape (QueryEscape s) = Some s"
  by (induction s) (simp_all add: QueryEscape_def QueryUnescape_escape_char)

lemma escape_chars: "c \<in> set (QueryEscape s) \<Longrightarrow> unreserved c \<or> c = CHR ''%'' \<or> c = CHR ''+''"
  by (auto simp: QueryEscape_def escape_char_def Let_def upper_hex_unreserved hex_digits split: if_splits)

lemma escaped_free: "x \<in> {CHR ''&'', CHR '';'', CHR ''='', CHR ''#'', CHR ''?''} \<Longrightarrow> x \<notin> set (QueryEscape s)"
  using escape_chars [of x s] unreserved_chars [of x] by auto

text \<open>A text without escapes is its own unescaping.\<close>

lemma QueryUnescape_plain: "CHR ''%'' \<notin> set s \<Longrightarrow> CHR ''+'' \<notin> set s \<Longrightarrow> QueryUnescape s = Some s"
  by (induction s) auto

lemma QueryEscape_Nil: "QueryEscape s = [] \<longleftrightarrow> s = []"
  by (cases s) (auto simp: QueryEscape_def escape_char_def Let_def)

section \<open>Redirect links\<close>

lemma cut_append: "c \<notin> set u \<Longrightarrow> cut (u @ c # r) c = Some (u, r)"
  by (simp add: cut_def index_byte_append)

text \<open>A redirect link of the search engine, with its target and whatever follows.\<close>

definition redirect_path :: string where "redirect_path = ''//duckduckgo.com/l/''"

definition redirect_link :: "string \<Rightarrow> string \<Rightarrow> string" where
  "redirect_link target rest = redirect_path @ ''?uddg='' @ QueryEscape target @ ''&'' @ rest"

lemma redirect_pair:
  "query_pair (''uddg='' @ QueryEscape t) = [(''uddg'', t)]"
proof -
  have c: "cut (''uddg='' @ QueryEscape t) CHR ''='' = Some (''uddg'', QueryEscape t)"
    using cut_append [of "CHR ''=''" "''uddg''" "QueryEscape t"] by simp
  have "CHR '';'' \<notin> set (''uddg='' @ QueryEscape t)" using escaped_free [of "CHR '';''" t] by simp
  then show ?thesis by (simp add: query_pair_def c query_escape_roundtrip Let_def del: append.simps)
qed

lemma redirect_query: "query_get (''https:'' @ redirect_link t rest) ''uddg'' = t"
proof -
  define u where "u = ''https:'' @ redirect_path"
  define q where "q = ''uddg='' @ QueryEscape t"
  have href: "''https:'' @ redirect_link t rest = u @ CHR ''?'' # q @ CHR ''&'' # rest"
    by (simp add: u_def q_def redirect_link_def redirect_path_def)
  have u: "CHR ''?'' \<notin> set u" "CHR ''#'' \<notin> set u" by (simp_all add: u_def redirect_path_def)
  have q: "CHR ''&'' \<notin> set q" "CHR ''#'' \<notin> set q"
    using escaped_free [of "CHR ''&''" t] escaped_free [of "CHR ''#''" t] by (simp_all add: q_def)
  have "\<exists>r. (case cut (u @ CHR ''?'' # q @ CHR ''&'' # rest) CHR ''#'' of Some (l, _) \<Rightarrow> l
      | None \<Rightarrow> u @ CHR ''?'' # q @ CHR ''&'' # rest) = u @ CHR ''?'' # q @ CHR ''&'' # r"
  proof (cases "CHR ''#'' \<in> set rest")
    case True
    then obtain v w where vw: "rest = v @ CHR ''#'' # w" "CHR ''#'' \<notin> set v" by (meson split_list_first)
    have "CHR ''#'' \<notin> set (u @ CHR ''?'' # q @ CHR ''&'' # v)" using u q vw by auto
    then have "cut ((u @ CHR ''?'' # q @ CHR ''&'' # v) @ CHR ''#'' # w) CHR ''#''
        = Some (u @ CHR ''?'' # q @ CHR ''&'' # v, w)" by (rule cut_append)
    then show ?thesis using vw by auto
  next
    case False
    then have "index_byte (u @ CHR ''?'' # q @ CHR ''&'' # rest) CHR ''#'' = None"
      using u q by (auto simp: index_byte_None_iff)
    then show ?thesis by (auto simp: cut_def)
  qed
  then obtain r where "raw_query (u @ CHR ''?'' # q @ CHR ''&'' # rest) = q @ CHR ''&'' # r"
    using cut_append [OF u(1)] by (auto simp: raw_query_def Let_def)
  moreover have "query_pair q = [(''uddg'', t)]" unfolding q_def by (rule redirect_pair)
  ultimately show ?thesis
    unfolding href query_get_def by (simp add: query_pairs_def split_on_append [OF q(1)])
qed

lemma unwrap_redirect:
  assumes "wn_bad_url net (''https:'' @ redirect_link t rest) = None" and "t \<noteq> []"
  shows "unwrapDDGURL net (redirect_link t rest) =
    (case QueryUnescape t of Some u \<Rightarrow> u | None \<Rightarrow> ''https:'' @ redirect_link t rest)"
proof -
  have "has_prefix (redirect_link t rest) ''//''" by (simp add: redirect_link_def redirect_path_def has_prefix_def)
  then show ?thesis using assms redirect_query [of t rest]
    by (cases "QueryUnescape t") (simp_all add: unwrapDDGURL_def Let_def)
qed

text \<open>
  C31: A redirect link of the search engine is resolved to its target: whatever parameters follow it, the
  link that carries a target without percent signs and plus signs, escaped as the engine does,
  becomes that target.
\<close>

theorem redirect_resolved:
  assumes "wn_bad_url net (''https:'' @ redirect_link t rest) = None"
    and "t \<noteq> []" and "CHR ''%'' \<notin> set t" and "CHR ''+'' \<notin> set t"
  shows "unwrapDDGURL net (redirect_link t rest) = t"
  using assms by (simp add: unwrap_redirect QueryUnescape_plain)

text \<open>
  The target is unescaped twice (\<open>URL.Query\<close> has done it before), so a target that has escapes of its
  own is not the one the engine named.
\<close>

definition plain_net :: web_net where
  "plain_net = \<lparr> wn_do = (\<lambda>_ _ _. Inr \<lparr> wa_status = 200, wa_body = [], wa_broken = False \<rparr>),
     wn_bad_url = (\<lambda>_. None), wn_html = (\<lambda>s. Inr (Text_node s)), wn_json = (\<lambda>q. Some (JObj [(''query'', JStr q)])),
     wn_first = (\<lambda>_. None), wn_decode_error = (\<lambda>_. ''EOF''), wn_read_error = ''unexpected EOF'' \<rparr>"

theorem redirect_unescaped_twice:
  "unwrapDDGURL plain_net (redirect_link ''https://x.org/a+b?q=1%2B1'' []) = ''https://x.org/a b?q=1+1''"
proof -
  have "QueryUnescape ''https://x.org/a+b?q=1%2B1'' = Some ''https://x.org/a b?q=1+1''" by code_simp
  then show ?thesis by (subst unwrap_redirect) (simp_all add: plain_net_def del: QueryUnescape.simps)
qed

theorem redirect_resolved_witness:
  "unwrapDDGURL plain_net (redirect_link ''https://x.org/a?b=c'' ''rut=0'') = ''https://x.org/a?b=c''"
  by (rule redirect_resolved) (simp_all add: plain_net_def)

section \<open>The requests of a search\<close>

text \<open>
  \<open>leaves client reqs reqs' n\<close>: at most \<open>n\<close> further requests were made, all through the client, and
  every one after the first reads an \<open>http\<close> or \<open>https\<close> page.
\<close>

definition web_url :: "string \<Rightarrow> bool" where
  "web_url u \<longleftrightarrow> has_prefix u ''http://'' \<or> has_prefix u ''https://''"

definition page_read :: "string \<Rightarrow> string list \<Rightarrow> string \<times> web_request \<Rightarrow> bool" where
  "page_read client urls cq \<longleftrightarrow>
     fst cq = client \<and> web_url (wq_url (snd cq)) \<and> wq_url (snd cq) \<in> set urls \<and> snd cq = page_request (wq_url (snd cq))"

lemma web_send_log: "snd (web_send net c q reqs) = reqs @ (if wn_bad_url net (wq_url q) = None then [(c, q)] else [])"
  by (simp add: web_send_def split: option.split)

lemma web_send_fst: "fst (web_send net c q reqs) =
    (case wn_bad_url net (wq_url q) of Some err \<Rightarrow> Inl err | None \<Rightarrow> wn_do net c reqs q)"
  by (simp add: web_send_def split: option.split)

lemma fetch_log:
  "\<exists>qs. snd (FetchPageText net c m url reqs) = reqs @ qs \<and> length qs \<le> 1 \<and> list_all (page_read c [url]) qs"
proof (cases "web_url url")
  case True
  have "snd (FetchPageText net c m url reqs) = snd (web_send net c (page_request url) reqs)"
    using True by (auto simp: FetchPageText_def web_url_def split: prod.splits sum.splits)
  then show ?thesis using True by (auto simp: web_send_log page_read_def page_request_def)
next
  case False
  then show ?thesis by (auto simp: FetchPageText_def web_url_def)
qed

lemma page_read_mono: "set us \<subseteq> set vs \<Longrightarrow> page_read c us q \<Longrightarrow> page_read c vs q"
  by (auto simp: page_read_def)

lemma fetch_pages_log:
  "\<exists>qs. snd (fetch_pages net s i rs reqs) = reqs @ qs
     \<and> int (length qs) \<le> max 0 (sv_maxPages s - int i)
     \<and> list_all (page_read (sv_client s) (map sh_url (take (nat (sv_maxPages s - int i)) rs))) qs"
proof (induction rs arbitrary: i reqs)
  case Nil
  then show ?case by simp
next
  case (Cons r rs)
  show ?case
  proof (cases "int i \<ge> sv_maxPages s")
    case True
    then show ?thesis by simp
  next
    case False
    obtain res l1 where f: "FetchPageText net (sv_client s) (sv_maxPageChars s) (sh_url r) reqs = (res, l1)" by fastforce
    obtain q1 where q1: "l1 = reqs @ q1" "length q1 \<le> 1" "list_all (page_read (sv_client s) [sh_url r]) q1"
      using fetch_log [of net "sv_client s" "sv_maxPageChars s" "sh_url r" reqs] f by auto
    define k where "k = nat (sv_maxPages s - int (Suc i))"
    have k: "nat (sv_maxPages s - int i) = Suc k" "sv_maxPages s - int i = int k + 1" "sv_maxPages s - int (Suc i) = int k"
      using False by (auto simp: k_def)
    obtain q2 where q2: "snd (fetch_pages net s (Suc i) rs l1) = l1 @ q2" "int (length q2) \<le> int k"
      "list_all (page_read (sv_client s) (map sh_url (take k rs))) q2"
      using Cons.IH [of "Suc i" l1] unfolding k(3) by auto
    have "snd (fetch_pages net s i (r # rs) reqs) = reqs @ q1 @ q2"
      using False f q1(1) q2(1) by (auto split: prod.split)
    moreover have "list_all (page_read (sv_client s) (map sh_url (take (Suc k) (r # rs)))) (q1 @ q2)"
      using q1(3) q2(3) by (auto simp: list_all_iff intro: page_read_mono [rotated])
    ultimately show ?thesis using q1(2) q2(2) k(2)
      unfolding k(1) by (intro exI [of _ "q1 @ q2"]) (simp del: fetch_pages.simps take_Suc_Cons)
  qed
qed

text \<open>
  What the tool relies on in a \<open>Provider\<close>: a search makes at most one request, through the client the
  provider was built with. The requests of a whole call follow.
\<close>

locale search_provider =
  fixes search :: "string \<Rightarrow> int \<Rightarrow> web_log \<Rightarrow> (string + search_hit list) \<times> web_log"
    and client :: string
  assumes one_request: "\<exists>qs. snd (search q m reqs) = reqs @ qs \<and> length qs \<le> 1 \<and> list_all (\<lambda>cq. fst cq = client) qs"
begin

lemma run_requests:
  assumes s: "search = Search net (sv_provider s)" "sv_client s = client" "0 \<le> sv_maxPages s"
  shows "\<exists>qs pages. snd (Run net s args reqs) = reqs @ qs @ pages
         \<and> list_all (\<lambda>cq. fst cq = client) qs \<and> length qs \<le> 1
         \<and> int (length pages) \<le> sv_maxPages s
         \<and> (case Search net (sv_provider s) (the (run_query net args)) (sv_maxResults s) reqs of
              (Inr hits, _) \<Rightarrow>
                list_all (page_read client (map sh_url (take (nat (sv_maxPages s)) hits))) pages
            | _ \<Rightarrow> pages = [])"
proof -
  define q where "q = the (run_query net args)"
  obtain r l1 where S: "Search net (sv_provider s) q (sv_maxResults s) reqs = (r, l1)" by fastforce
  obtain qs where qs: "l1 = reqs @ qs" "length qs \<le> 1" "list_all (\<lambda>cq. fst cq = client) qs"
    using one_request [of q "sv_maxResults s" reqs] S s(1) by auto
  show ?thesis
  proof (cases "run_query net args")
    case None
    then show ?thesis using s(3)
      by (intro exI [of _ "[]"]) (auto simp: Run_def split: prod.splits sum.splits)
  next
    case (Some q')
    then have q': "q' = q" by (simp add: q_def)
    show ?thesis
    proof (cases r)
      case (Inl err)
      then show ?thesis using s Some q' S qs unfolding q_def [symmetric]
        by (intro exI [of _ qs] exI [of _ "[]"]) (auto simp: Run_def)
    next
      case (Inr hits)
      obtain ps where ps: "snd (fetch_pages net s 0 hits l1) = l1 @ ps" "int (length ps) \<le> sv_maxPages s"
        "list_all (page_read client (map sh_url (take (nat (sv_maxPages s)) hits))) ps"
        using fetch_pages_log [of net s 0 hits l1] s by auto
      show ?thesis
      proof (cases "hits = []")
        case True
        then show ?thesis using s Some q' S qs Inr unfolding q_def [symmetric]
          by (intro exI [of _ qs] exI [of _ "[]"]) (auto simp: Run_def)
      next
        case False
        then show ?thesis using Some q' S qs Inr ps unfolding q_def [symmetric]
          by (intro exI [of _ qs] exI [of _ ps]) (auto simp: Run_def split: prod.split)
      qed
    qed
  qed
qed

end

lemma web_send_one_request:
  "\<exists>qs. snd (web_send net c q reqs) = reqs @ qs \<and> length qs \<le> 1 \<and> list_all (\<lambda>cq. fst cq = c) qs"
  by (auto simp: web_send_log)

lemma Search_of_web_send:
  "snd (ddg_Search net base c q m reqs) = snd (web_send net c (ddg_request base q) reqs)"
  "snd (searxng_Search net base c q m reqs) = snd (web_send net c (searxng_request base q) reqs)"
  "snd (brave_Search net base key c q m reqs) = snd (web_send net c (brave_request base key q m) reqs)"
  by (auto simp: ddg_Search_def searxng_Search_def brave_Search_def split: prod.splits sum.splits)

interpretation ddg: search_provider "ddg_Search net base c" c for net base c
  by unfold_locales (simp only: Search_of_web_send web_send_one_request)

interpretation searxng: search_provider "searxng_Search net base c" c for net base c
  by unfold_locales (simp only: Search_of_web_send web_send_one_request)

interpretation brave: search_provider "brave_Search net base key c" c for net base key c
  by unfold_locales (simp only: Search_of_web_send web_send_one_request)

lemma service_provider:
  assumes "service_on cfg c = Some s"
  shows "search_provider (Search net (sv_provider s)) c"
proof -
  have "Search net (DuckDuckGo base c) = ddg_Search net base c"
    "Search net (SearXNG base c) = searxng_Search net base c"
    "Search net (Brave base key c) = brave_Search net base key c" for base key
    by (simp_all add: fun_eq_iff Search_def)
  then show ?thesis
    using assms ddg.search_provider_axioms searxng.search_provider_axioms brave.search_provider_axioms
    by (auto simp: service_on_def NewService_def)
qed

lemma service_on_client:
  "service_on cfg client = Some s \<Longrightarrow> sv_client s = client \<and> 0 \<le> sv_maxPages s \<and> 0 < sv_maxResults s \<and> 0 < sv_maxPageChars s"
  by (auto simp: service_on_def NewService_def)

text \<open>
  The clients a gateway has cached after earlier searches: for each its handler, the identifier of its
  proxy and the address that proxy had. Nothing ties an identifier to one address: \<open>AddExternalProxy\<close>
  gives every proxy added while running the name \<open>ext-1\<close>.
\<close>

type_synonym past_search = "handler \<times> string \<times> string"

definition ws_clients :: "(string \<Rightarrow> string option) \<Rightarrow> past_search list \<Rightarrow> string \<Rightarrow> string option" where
  "ws_clients dial earlier = foldl (\<lambda>c (h, p, a). snd (wsFor dial h (Some p) a c)) (\<lambda>_. None) earlier"

definition tunnel_to :: "string \<Rightarrow> string" where
  "tunnel_to addr = trim_prefix (trim_prefix addr ''socks5h://'') ''socks5://''"

definition addresses_of :: "string \<Rightarrow> past_search list \<Rightarrow> string set" where
  "addresses_of p earlier = {a. \<exists>h. (h, p, a) \<in> set earlier}"

lemma ws_clients_snoc:
  "ws_clients dial (earlier @ [(h, p, a)]) = snd (wsFor dial h (Some p) a (ws_clients dial earlier))"
  by (simp add: ws_clients_def)

lemma wsFor_client:
  assumes "wsFor dial h (Some p) addr clients = (r, clients')"
  shows "clients' q = Some c \<Longrightarrow> clients q = Some c \<or> q = p \<and> c = tunnel_to addr"
    and "r = Some c \<Longrightarrow> clients p = Some c \<or> c = tunnel_to addr"
    and "clients q = Some c \<Longrightarrow> clients' q = Some c"
  using assms
  by (auto simp: wsFor_def tunnel_to_def NewSOCKS5Dialer_def Let_def split: if_splits option.splits sum.splits)

lemma ws_clients_own: "ws_clients dial earlier q = Some c \<Longrightarrow> c \<in> tunnel_to ` addresses_of q earlier"
proof (induction earlier rule: rev_induct)
  case Nil
  then show ?case by (simp add: ws_clients_def)
next
  case (snoc x earlier)
  obtain h p a where x: "x = (h, p, a)" by (cases x)
  obtain r c' where w: "wsFor dial h (Some p) a (ws_clients dial earlier) = (r, c')" by fastforce
  have "c' q = Some c" using snoc.prems w by (simp add: x ws_clients_snoc)
  from wsFor_client(1) [OF w this] show ?case using snoc.IH by (auto simp: addresses_of_def x)
qed

text \<open>
  A tunnel once opened under an identifier is used for every later proxy of that name, whatever
  address it has.
\<close>

lemma ws_clients_kept:
  "ws_clients dial earlier p = Some c \<Longrightarrow> ws_clients dial (earlier @ later) p = Some c"
proof (induction later rule: rev_induct)
  case (snoc x later)
  obtain h q a where x: "x = (h, q, a)" by (cases x)
  obtain r c' where w: "wsFor dial h (Some q) a (ws_clients dial (earlier @ later)) = (r, c')" by fastforce
  show ?case using wsFor_client(3) [OF w] snoc w ws_clients_snoc [of dial "earlier @ later"] by (simp add: x)
qed simp

theorem reused_id_searches_old_tunnel:
  assumes "ws_clients dial earlier p = Some old" and "hd_driver h = ''zen''" "WebSearchEnabled (hd_cfg h)"
  shows "fst (wsFor dial h (Some p) addr (ws_clients dial (earlier @ later))) = Some old"
  using ws_clients_kept [OF assms(1)] assms(2,3) by (simp add: wsFor_def)

text \<open>
  C35: A search on behalf of a chat leaves through the tunnel of the proxy the chat was answered by,
  provided every earlier search under that proxy's identifier was for the same address: then every
  request of the call goes to that proxy's address, there are at most one more than the configured
  number of pages, and each after the search itself reads an \<open>http\<close> or \<open>https\<close> page that the search
  returned. The proviso is not kept by the program: every proxy added while running is called \<open>ext-1\<close>,
  and \<open>reused_id_searches_old_tunnel\<close> shows that the later one's searches leave through the first
  one's tunnel. Redirects, which the HTTP client follows on the same tunnel, are not modelled.
\<close>

theorem search_egress_is_own_proxy:
  assumes "fst (wsFor dial h (Some p) addr (ws_clients dial earlier)) = Some client"
    and "service_on (hd_cfg h) client = Some s"
    and "addresses_of p earlier \<subseteq> {addr}"
  shows "client = tunnel_to addr
    \<and> (\<exists>qs pages. snd (Run net s args reqs) = reqs @ qs @ pages
         \<and> list_all (\<lambda>cq. fst cq = client) qs \<and> length qs \<le> 1
         \<and> int (length pages) \<le> sv_maxPages s
         \<and> (case Search net (sv_provider s) (the (run_query net args)) (sv_maxResults s) reqs of
              (Inr hits, _) \<Rightarrow>
                list_all (page_read client (map sh_url (take (nat (sv_maxPages s)) hits))) pages
            | _ \<Rightarrow> pages = []))"
proof
  obtain r c where w: "wsFor dial h (Some p) addr (ws_clients dial earlier) = (r, c)" by fastforce
  have "ws_clients dial earlier p = Some client \<or> client = tunnel_to addr"
    using wsFor_client(2) [OF w] assms(1) w by simp
  then show "client = tunnel_to addr" using ws_clients_own assms(3) by blast
next
  note sv = service_on_client [OF assms(2)]
  show "\<exists>qs pages. snd (Run net s args reqs) = reqs @ qs @ pages
         \<and> list_all (\<lambda>cq. fst cq = client) qs \<and> length qs \<le> 1
         \<and> int (length pages) \<le> sv_maxPages s
         \<and> (case Search net (sv_provider s) (the (run_query net args)) (sv_maxResults s) reqs of
              (Inr hits, _) \<Rightarrow>
                list_all (page_read client (map sh_url (take (nat (sv_maxPages s)) hits))) pages
            | _ \<Rightarrow> pages = [])"
    by (rule search_provider.run_requests [OF service_provider [OF assms(2)] refl]) (use sv in simp_all)
qed

text \<open>A search whose only hit, behind a redirect link, is read as well.\<close>

definition search_handler :: handler where
  "search_handler = \<lparr> hd_cfg = DefaultConfig, hd_driver = ''zen'', hd_env_keys = [], hd_pow = None \<rparr>"

definition hit_page :: html where
  "hit_page = Other_node [Elem ''html'' [] [Elem ''body'' []
     [Elem ''a'' [(''class'', ''result__a''), (''href'', ''//duckduckgo.com/l/?uddg=https%3A%2F%2Fx.org%2F'')] [Text_node '' X ''],
      Elem ''script'' [] [Text_node ''track()''],
      Elem ''a'' [(''class'', ''result__snippet'')] [Text_node ''about X'']]]]"

definition hit_net :: web_net where
  "hit_net = plain_net\<lparr> wn_html := (\<lambda>_. Inr hit_page) \<rparr>"

definition hit_service :: search_service where
  "hit_service = \<lparr> sv_provider = DuckDuckGo [] ''10.0.0.1:1080'', sv_client = ''10.0.0.1:1080'', sv_maxResults = 5,
     sv_maxPages = 2, sv_maxPageChars = 6000 \<rparr>"

lemma hit_service: "service_on (hd_cfg search_handler) ''10.0.0.1:1080'' = Some hit_service"
  by (simp add: service_on_def NewService_def search_handler_def hit_service_def DefaultConfig_def trim_space_def)

text \<open>Two searches came before it: one under another proxy, one under its own at the same address.\<close>

definition past_searches :: "past_search list" where
  "past_searches = [(search_handler, ''ext-1'', ''socks5://9.9.9.9:1080''),
     (search_handler, ''p1'', ''socks5://10.0.0.1:1080'')]"

lemma hit_client:
  "fst (wsFor (\<lambda>_. None) search_handler (Some ''p1'') ''socks5://10.0.0.1:1080'' (ws_clients (\<lambda>_. None) past_searches))
   = Some ''10.0.0.1:1080''"
  by code_simp

lemma hit_addresses: "addresses_of ''p1'' past_searches \<subseteq> {''socks5://10.0.0.1:1080''}"
  by (auto simp: addresses_of_def past_searches_def)

definition hit :: search_hit where
  "hit = \<lparr> sh_title = ''X'', sh_url = ''https://x.org/'', sh_snippet = ''about X'' \<rparr>"

lemma hit_search:
  "Search hit_net (sv_provider hit_service) ''x'' 5 []
   = (Inr [hit], [(''10.0.0.1:1080'', ddg_request [] ''x'')])"
  by code_simp

lemma plain_send:
  "web_send (plain_net\<lparr> wn_html := f \<rparr>) c q reqs
   = (Inr \<lparr> wa_status = 200, wa_body = [], wa_broken = False \<rparr>, reqs @ [(c, q)])"
  by (simp add: web_send_def plain_net_def)

lemma plain_fetch:
  "has_prefix url ''https://'' \<Longrightarrow> FetchPageText (plain_net\<lparr> wn_html := f \<rparr>) c m url reqs
   = (Inr (shorten m (ExtractText (f []))), reqs @ [(c, page_request url)])"
  by (simp add: FetchPageText_def plain_send page_body_def parse_body_def)




lemma Run_log:
  "run_query net args = Some q \<Longrightarrow> Search net (sv_provider s) q (sv_maxResults s) reqs = (Inr hits, reqs') \<Longrightarrow> hits \<noteq> []
   \<Longrightarrow> snd (Run net s args reqs) = snd (fetch_pages net s 0 hits reqs')"
  by (simp add: Run_def del: fetch_pages.simps split: prod.split)

lemma hit_requests:
  "map (wq_url \<circ> snd) (snd (Run hit_net hit_service ''x'' [])) = [''https://html.duckduckgo.com/html/'', ''https://x.org/'']"
proof -
  have q: "run_query hit_net ''x'' = Some ''x''" by code_simp
  have "snd (fetch_pages hit_net hit_service 0 [hit] [(''10.0.0.1:1080'', ddg_request [] ''x'')])
      = [(''10.0.0.1:1080'', ddg_request [] ''x''), (''10.0.0.1:1080'', page_request ''https://x.org/'')]"
    unfolding hit_net_def by (simp add: plain_fetch has_prefix_def hit_def hit_service_def split: prod.split)
  moreover have "sv_maxResults hit_service = 5" by (simp add: hit_service_def)
  ultimately have "snd (Run hit_net hit_service ''x'' [])
      = [(''10.0.0.1:1080'', ddg_request [] ''x''), (''10.0.0.1:1080'', page_request ''https://x.org/'')]"
    using Run_log [OF q, of hit_service "[]"] hit_search by (simp del: fetch_pages.simps)
  then show ?thesis by (simp add: ddg_request_def page_request_def)
qed

theorem search_egress_is_own_proxy_witness:
  "tunnel_to ''socks5://10.0.0.1:1080'' = ''10.0.0.1:1080''
   \<and> (\<exists>qs pages. snd (Run hit_net hit_service ''x'' []) = [] @ qs @ pages
         \<and> list_all (\<lambda>cq. fst cq = ''10.0.0.1:1080'') qs \<and> length qs \<le> 1
         \<and> int (length pages) \<le> sv_maxPages hit_service)
   \<and> length (snd (Run hit_net hit_service ''x'' [])) = 2"
proof -
  have "length (snd (Run hit_net hit_service ''x'' [])) = 2"
    using arg_cong [OF hit_requests, of length] by simp
  then show ?thesis
    using search_egress_is_own_proxy [OF hit_client hit_service hit_addresses, of hit_net "''x''" "[]"] by (metis)
qed

text \<open>The tunnel of an earlier \<open>ext-1\<close> serves the later one.\<close>

theorem reused_id_searches_old_tunnel_witness:
  "fst (wsFor (\<lambda>_. None) search_handler (Some ''ext-1'') ''socks5://7.7.7.7:1080''
      (ws_clients (\<lambda>_. None) (past_searches @ []))) = Some ''9.9.9.9:1080''"
proof -
  have "ws_clients (\<lambda>_. None) past_searches ''ext-1'' = Some ''9.9.9.9:1080''" by code_simp
  moreover have "hd_driver search_handler = ''zen''" "WebSearchEnabled (hd_cfg search_handler)"
    by (simp_all add: search_handler_def DefaultConfig_def)
  ultimately show ?thesis by (rule reused_id_searches_old_tunnel)
qed

section \<open>Bounds\<close>

lemma first_hits_length: "0 \<le> m \<Longrightarrow> int (length (first_hits m hits)) \<le> m"
  by (simp add: first_hits_def)

lemma ExtractText_error: "ExtractText (Inl err) = []"
  by (simp add: ExtractText_def)

text \<open>
  A page read for the model is at most the configured number of characters and the truncation
  mark long, whatever the server sends, and one longer than that ends in the mark.
\<close>

theorem page_text_bounded:
  assumes "service_on cfg client = Some s"
    and "FetchPageText net (sv_client s) (sv_maxPageChars s) url reqs = (Inr text, reqs')"
  shows "int (length text) \<le> sv_maxPageChars s + 18
    \<and> (int (length text) > sv_maxPageChars s \<longrightarrow> has_suffix text truncated_mark)"
proof -
  have m: "0 < sv_maxPageChars s" using service_on_client [OF assms(1)] by simp
  obtain full where "text = shorten (sv_maxPageChars s) full"
    using assms(2) by (auto simp: FetchPageText_def split: if_splits prod.splits sum.splits)
  then show ?thesis using m
    by (auto simp: shorten_def truncated_mark_def has_suffix_def)
qed

text \<open>Without a key \<open>snippet\<close> a hit has no snippet.\<close>

lemma string_field_absent: "\<forall>(k, j) \<in> set m. to_lower k \<noteq> name \<Longrightarrow> string_field name m v = Some v"
  by (induction m) auto

theorem snippet_under_other_key:
  assumes "\<forall>(k, j) \<in> set m. to_lower k \<noteq> ''snippet''" and "decode_hit (JObj m) = Some r"
  shows "sh_snippet r = []"
  using assms string_field_absent [of m "''snippet''" "[]"] by (auto split: option.splits)

definition brave_example :: json where
  "brave_example = JObj [(''web'', JObj [(''results'', JArr
     [JObj [(''title'', JStr ''A''), (''url'', JStr ''https://a.org''), (''description'', JStr ''first'')],
      JObj [(''title'', JStr ''B''), (''url'', JStr ''https://b.org'')]])])]"

theorem brave_ignores_limit:
  "fst (Search (plain_net\<lparr> wn_first := (\<lambda>_. Some brave_example) \<rparr>) (Brave [] ''key'' ''10.0.0.1:1080'') ''q'' 1 [])
   = Inr [\<lparr> sh_title = ''A'', sh_url = ''https://a.org'', sh_snippet = [] \<rparr>,
          \<lparr> sh_title = ''B'', sh_url = ''https://b.org'', sh_snippet = [] \<rparr>]"
proof -
  have "brave_hits brave_example = Some [\<lparr> sh_title = ''A'', sh_url = ''https://a.org'', sh_snippet = [] \<rparr>,
          \<lparr> sh_title = ''B'', sh_url = ''https://b.org'', sh_snippet = [] \<rparr>]" by code_simp
  then show ?thesis by (simp add: Search_def brave_Search_def web_send_def plain_net_def decode_body_def)
qed

lemma map_sum_Inr: "map_sum id f x = Inr y \<longleftrightarrow> (\<exists>z. x = Inr z \<and> y = f z)"
  by (cases x) auto

theorem hits_limited:
  assumes "service_on cfg client = Some s" and "trim_space (SearxngURL cfg) \<noteq> [] \<or> trim_space (BraveAPIKey cfg) = []"
    and "Search net (sv_provider s) q (sv_maxResults s) reqs = (Inr hits, reqs')"
  shows "int (length hits) \<le> sv_maxResults s"
proof -
  have m: "0 < sv_maxResults s" using service_on_client [OF assms(1)] by simp
  obtain full where "hits = first_hits (sv_maxResults s) full"
    using assms
    by (auto simp: Search_def service_on_def NewService_def ddg_Search_def searxng_Search_def map_sum_Inr
        split: if_splits prod.splits sum.splits)
  then show ?thesis using first_hits_length m by simp
qed

theorem page_text_bounded_witness:
  "int (length ''about X'') \<le> sv_maxPageChars hit_service + 18"
proof -
  have e: "shorten (sv_maxPageChars hit_service) (ExtractText (Inr (Text_node ''about X''))) = ''about X''"
    unfolding shorten_def hit_service_def by code_simp
  have "has_prefix ''https://x.org/'' ''https://''" by (simp add: has_prefix_def)
  note f = plain_fetch [OF this, of "\<lambda>_. Inr (Text_node ''about X'')" "sv_client hit_service" "sv_maxPageChars hit_service" "[]",
      unfolded e]
  show ?thesis using page_text_bounded [OF hit_service f] by blast
qed

end
