(* ===== verification/Proton_Auth.thy ===== *)
theory Proton_Auth
  imports Proton_Client "HOL-Library.AList"
begin

text \<open>
  \<^verbatim>\<open>internal/protonvpn/auth.go\<close>: the login at the VPN provider, six requests around the SRP
  computation of a package outside the repository, which is an argument, as are the provider's
  answers. Every request is written down. \<open>json.Marshal\<close> of a map of strings does not fail; a body
  to send is its pairs in the order of their keys. A cookie is its name and value.
\<close>

section \<open>Requests and answers\<close>

record auth_request =
  aq_method :: string
  aq_url :: string
  aq_headers :: "(string \<times> string) list"
  aq_cookies :: "(string \<times> string) list"
  aq_body :: "(string \<times> string) list option"

record auth_answer =
  aa_status :: int
  aa_body :: string
  aa_broken :: "string option"
  aa_cookies :: "(string \<times> string) list"

type_synonym auth_log = "auth_request list"

record session_response =
  sr_access :: string
  sr_refresh :: string
  sr_uid :: string

record auth_info =
  ai_version :: int
  ai_modulus :: string
  ai_ephemeral :: string
  ai_salt :: string
  ai_session :: string

record auth_response =
  ar_expires_in :: int
  ar_uid :: string

text \<open>
  \<open>an_do\<close> answers a request after a log, \<open>Inl\<close> the transport's error. \<open>an_bad_url\<close> is the error
  \<open>url.Parse\<close> finds in an URL. The decoders give \<open>encoding/json\<close>'s error or the fields the code
  reads. \<open>an_srp\<close> is \<open>srp.NewAuth\<close> on version, user name, password, salt, modulus and server
  ephemeral, and then the proofs (client proof, client ephemeral). \<open>an_order\<close> is the order a map is
  walked in.
\<close>

record auth_net =
  an_do :: "auth_log \<Rightarrow> auth_request \<Rightarrow> string + auth_answer"
  an_bad_url :: "string \<Rightarrow> string option"
  an_session :: "string \<Rightarrow> string + session_response"
  an_info :: "string \<Rightarrow> string + auth_info"
  an_auth :: "string \<Rightarrow> string + auth_response"
  an_user :: "string \<Rightarrow> string + string"
  an_salts :: "string \<Rightarrow> string + unit"
  an_srp :: "int \<Rightarrow> string \<Rightarrow> string \<Rightarrow> string \<Rightarrow> string \<Rightarrow> string \<Rightarrow> string + (string + byte list \<times> byte list)"
  an_order :: "(string \<times> string) list \<Rightarrow> (string \<times> string) list"
  an_now :: time

record srp_client =
  sc_username :: string
  sc_password :: string
  sc_base :: string

definition NewSRPAuth :: "string \<Rightarrow> string \<Rightarrow> string \<Rightarrow> srp_client" where
  "NewSRPAuth username password apiBase = \<lparr> sc_username = username, sc_password = password, sc_base = apiBase \<rparr>"

definition commonHeaders :: "string \<Rightarrow> (string \<times> string) list" where
  "commonHeaders uid =
     [(''Accept'', ''application/vnd.protonmail.v1+json''),
      (''x-pm-appversion'', ''web-vpn-settings@5.0.353.0''),
      (''x-pm-locale'', ''en_US''),
      (''User-Agent'', ''Mozilla/5.0 (Macintosh; Intel Mac OS X 10_15_7) AppleWebKit/537.36 (KHTML, like Gecko) Chrome/131.0.0.0 Safari/537.36'')]
     @ (if uid \<noteq> [] then [(''x-pm-uid'', uid)] else [])"

definition maxHTTPBodySize :: nat where "maxHTTPBodySize = 10485760"

text \<open>A body of at most one byte more than the limit is read; only then is an error of the body met.\<close>

definition readBody :: "auth_answer \<Rightarrow> string + string" where
  "readBody a =
     (if length (aa_body a) > maxHTTPBodySize then Inl (''response body exceeds '' @ nat_digits maxHTTPBodySize @ '' bytes'')
      else (case aa_broken a of Some err \<Rightarrow> Inl err | None \<Rightarrow> Inr (aa_body a)))"

text \<open>\<open>mergeCookies\<close>: a map by name, the later of two cookies wins, then the list of its values.\<close>

definition cookie_map :: "(string \<times> string) list \<Rightarrow> (string \<times> string) list" where
  "cookie_map cs = fold (\<lambda>c m. AList.update (fst c) (snd c) m) cs []"

definition mergeCookies ::
  "((string \<times> string) list \<Rightarrow> (string \<times> string) list) \<Rightarrow> (string \<times> string) list \<Rightarrow> (string \<times> string) list
     \<Rightarrow> (string \<times> string) list" where
  "mergeCookies order existing newCookies = order (cookie_map (existing @ newCookies))"

definition api_error :: "int \<Rightarrow> string \<Rightarrow> string" where
  "api_error status body = ''API error '' @ itoa status @ '': '' @ body"

text \<open>
  \<open>http.NewRequest\<close> and \<open>Do\<close>, as every step begins. The log has what the code asks the client for; a
  redirect, which the client follows by itself (with the body again on 307 and 308), is not in it.
\<close>

definition auth_send :: "auth_net \<Rightarrow> auth_request \<Rightarrow> auth_log \<Rightarrow> (string + auth_answer) \<times> auth_log" where
  "auth_send net q reqs =
     (case an_bad_url net (aq_url q) of
        Some err \<Rightarrow> (Inl (''failed to create request: '' @ err), reqs)
      | None \<Rightarrow>
          (case an_do net reqs q of
             Inl err \<Rightarrow> (Inl (''failed to send request: '' @ err), reqs @ [q])
           | Inr a \<Rightarrow> (Inr a, reqs @ [q])))"

text \<open>Reading, checking and decoding an answer, as five of the six steps end.\<close>

definition auth_decode :: "(string \<Rightarrow> string + 'a) \<Rightarrow> auth_answer \<Rightarrow> string + 'a" where
  "auth_decode dec a =
     (case readBody a of
        Inl err \<Rightarrow> Inl (''failed to read response: '' @ err)
      | Inr body \<Rightarrow>
          if aa_status a \<noteq> 200 then Inl (api_error (aa_status a) body)
          else (case dec body of
                  Inl err \<Rightarrow> Inl (''failed to unmarshal response: '' @ err)
                | Inr x \<Rightarrow> Inr x))"

section \<open>The steps\<close>

definition session_request :: "srp_client \<Rightarrow> auth_request" where
  "session_request c =
     \<lparr> aq_method = ''POST'', aq_url = sc_base c @ ''/api/auth/v4/sessions'',
       aq_headers = commonHeaders [] @ [(''x-enforce-unauthsession'', ''true'')], aq_cookies = [], aq_body = None \<rparr>"

definition getSession :: "auth_net \<Rightarrow> srp_client \<Rightarrow> auth_log \<Rightarrow> (string + session_response) \<times> auth_log" where
  "getSession net c reqs =
     (case auth_send net (session_request c) reqs of
        (Inl err, reqs) \<Rightarrow> (Inl err, reqs)
      | (Inr a, reqs) \<Rightarrow> (auth_decode (an_session net) a, reqs))"

definition cookies_request :: "srp_client \<Rightarrow> string \<Rightarrow> string \<Rightarrow> string \<Rightarrow> auth_request" where
  "cookies_request c accessToken refreshToken uid =
     \<lparr> aq_method = ''POST'', aq_url = sc_base c @ ''/api/core/v4/auth/cookies'',
       aq_headers = [(''Content-Type'', ''application/json'')] @ commonHeaders uid
         @ [(''Authorization'', ''Bearer '' @ accessToken)],
       aq_cookies = [],
       aq_body = Some [(''ClientID'', ''WebVPNSettings''), (''GrantType'', ''refresh_token''),
         (''RefreshToken'', refreshToken), (''ResponseType'', ''token''), (''UID'', uid)] \<rparr>"

text \<open>\<open>getCookies\<close> reads a body only to report it, and then ignores an error in it.\<close>

definition getCookies ::
  "auth_net \<Rightarrow> srp_client \<Rightarrow> string \<Rightarrow> string \<Rightarrow> string \<Rightarrow> auth_log \<Rightarrow> (string + (string \<times> string) list) \<times> auth_log" where
  "getCookies net c accessToken refreshToken uid reqs =
     (case auth_send net (cookies_request c accessToken refreshToken uid) reqs of
        (Inl err, reqs) \<Rightarrow> (Inl err, reqs)
      | (Inr a, reqs) \<Rightarrow>
          (if aa_status a \<noteq> 200 then Inl (api_error (aa_status a) (take maxHTTPBodySize (aa_body a)))
           else Inr (aa_cookies a), reqs))"

definition info_request :: "srp_client \<Rightarrow> string \<Rightarrow> (string \<times> string) list \<Rightarrow> string \<Rightarrow> auth_request" where
  "info_request c uid cookies intent =
     \<lparr> aq_method = ''POST'', aq_url = sc_base c @ ''/api/core/v4/auth/info'',
       aq_headers = [(''Content-Type'', ''application/json'')] @ commonHeaders uid,
       aq_cookies = cookies, aq_body = Some [(''Intent'', intent), (''Username'', sc_username c)] \<rparr>"

definition getAuthInfo ::
  "auth_net \<Rightarrow> srp_client \<Rightarrow> string \<Rightarrow> (string \<times> string) list \<Rightarrow> string \<Rightarrow> auth_log \<Rightarrow> (string + auth_info) \<times> auth_log" where
  "getAuthInfo net c uid cookies intent reqs =
     (case auth_send net (info_request c uid cookies intent) reqs of
        (Inl err, reqs) \<Rightarrow> (Inl err, reqs)
      | (Inr a, reqs) \<Rightarrow> (auth_decode (an_info net) a, reqs))"

definition proof_request ::
  "srp_client \<Rightarrow> string \<Rightarrow> byte list \<Rightarrow> byte list \<Rightarrow> string \<Rightarrow> (string \<times> string) list \<Rightarrow> auth_request" where
  "proof_request c srpsession clientProof clientEphemeral uid cookies =
     \<lparr> aq_method = ''POST'', aq_url = sc_base c @ ''/api/core/v4/auth'',
       aq_headers = [(''Content-Type'', ''application/json'')] @ commonHeaders uid,
       aq_cookies = cookies,
       aq_body = Some [(''ClientEphemeral'', b64_padded clientEphemeral), (''ClientProof'', b64_padded clientProof),
         (''SRPSession'', srpsession), (''Username'', sc_username c)] \<rparr>"

definition authenticate ::
  "auth_net \<Rightarrow> srp_client \<Rightarrow> string \<Rightarrow> byte list \<Rightarrow> byte list \<Rightarrow> string \<Rightarrow> (string \<times> string) list \<Rightarrow> auth_log
     \<Rightarrow> (string + auth_response \<times> (string \<times> string) list) \<times> auth_log" where
  "authenticate net c srpsession clientProof clientEphemeral uid cookies reqs =
     (case auth_send net (proof_request c srpsession clientProof clientEphemeral uid cookies) reqs of
        (Inl err, reqs) \<Rightarrow> (Inl err, reqs)
      | (Inr a, reqs) \<Rightarrow> (map_sum id (\<lambda>r. (r, aa_cookies a)) (auth_decode (an_auth net) a), reqs))"

definition get_request :: "srp_client \<Rightarrow> string \<Rightarrow> string \<Rightarrow> (string \<times> string) list \<Rightarrow> auth_request" where
  "get_request c path uid cookies =
     \<lparr> aq_method = ''GET'', aq_url = sc_base c @ path, aq_headers = commonHeaders uid,
       aq_cookies = cookies, aq_body = None \<rparr>"

definition getUserInfo ::
  "auth_net \<Rightarrow> srp_client \<Rightarrow> string \<Rightarrow> (string \<times> string) list \<Rightarrow> auth_log \<Rightarrow> (string + string) \<times> auth_log" where
  "getUserInfo net c uid cookies reqs =
     (case auth_send net (get_request c ''/api/core/v4/users'' uid cookies) reqs of
        (Inl err, reqs) \<Rightarrow> (Inl err, reqs)
      | (Inr a, reqs) \<Rightarrow> (auth_decode (an_user net) a, reqs))"

definition getKeySalts ::
  "auth_net \<Rightarrow> srp_client \<Rightarrow> string \<Rightarrow> (string \<times> string) list \<Rightarrow> auth_log \<Rightarrow> (string + unit) \<times> auth_log" where
  "getKeySalts net c uid cookies reqs =
     (case auth_send net (get_request c ''/api/core/v4/keys/salts'' uid cookies) reqs of
        (Inl err, reqs) \<Rightarrow> (Inl err, reqs)
      | (Inr a, reqs) \<Rightarrow> (auth_decode (an_salts net) a, reqs))"

section \<open>The login\<close>

definition srp_login :: "auth_net \<Rightarrow> srp_client \<Rightarrow> auth_log \<Rightarrow> (string + session) \<times> auth_log" where
  "srp_login net c reqs =
     (case getSession net c reqs of
        (Inl err, reqs) \<Rightarrow> (Inl (''failed to get session: '' @ err), reqs)
      | (Inr s, reqs) \<Rightarrow>
     (case getCookies net c (sr_access s) (sr_refresh s) (sr_uid s) reqs of
        (Inl err, reqs) \<Rightarrow> (Inl (''failed to get cookies: '' @ err), reqs)
      | (Inr cookies, reqs) \<Rightarrow>
     (case getAuthInfo net c (sr_uid s) cookies ''Auto'' reqs of
        (Inl err, reqs) \<Rightarrow> (Inl (''failed to get auth info: '' @ err), reqs)
      | (Inr i, reqs) \<Rightarrow>
     (case an_srp net (ai_version i) (sc_username c) (sc_password c) (ai_salt i) (ai_modulus i) (ai_ephemeral i) of
        Inl err \<Rightarrow> (Inl (''failed to create SRP auth: '' @ err), reqs)
      | Inr (Inl err) \<Rightarrow> (Inl (''failed to generate SRP proofs: '' @ err), reqs)
      | Inr (Inr (clientProof, clientEphemeral)) \<Rightarrow>
     (case authenticate net c (ai_session i) clientProof clientEphemeral (sr_uid s) cookies reqs of
        (Inl err, reqs) \<Rightarrow> (Inl (''authentication failed: '' @ err), reqs)
      | (Inr (r, authCookies), reqs) \<Rightarrow>
          let cookies = mergeCookies (an_order net) cookies authCookies
          in
     (case getUserInfo net c (ar_uid r) cookies reqs of
        (Inl err, reqs) \<Rightarrow> (Inl (''failed to get user info: '' @ err), reqs)
      | (Inr user, reqs) \<Rightarrow>
     (case getKeySalts net c (ar_uid r) cookies reqs of
        (Inl err, reqs) \<Rightarrow> (Inl (''failed to get key salts: '' @ err), reqs)
      | (Inr _, reqs) \<Rightarrow>
          (Inr \<lparr> se_uid = ar_uid r, se_user = user, se_cookies = cookies,
             se_expires = an_now net + wrap64 (ar_expires_in r * Second) \<rparr>, reqs))))))))"

text \<open>The client's login, on the network: the SRP step of the client is this one.\<close>

definition on_network :: "auth_net \<Rightarrow> string \<Rightarrow> session_env \<Rightarrow> session_env" where
  "on_network net apiBase e = e\<lparr> sn_srp := \<lambda>u p. fst (srp_login net (NewSRPAuth u p apiBase) []) \<rparr>"

end
