(* ===== verification/Proton_Auth_Laws.thy ===== *)
theory Proton_Auth_Laws
  imports Proton_Auth "HOL-Library.Multiset" "HOL-Library.Sublist"
begin

text \<open>
  What the login promises: its requests in their order, which cookies the session has and which
  requests carry them, and that the password reaches nothing but the SRP computation.
\<close>

section \<open>Merged cookies\<close>

lemma cookie_map_lookup: "map_of (fold (\<lambda>c m. AList.update (fst c) (snd c) m) cs m) = map_of m ++ map_of (rev cs)"
proof (induction cs arbitrary: m)
  case (Cons c cs)
  have "map_of (rev (c # cs)) = map_of [c] ++ map_of (rev cs)" by (simp add: map_of_append)
  then show ?case using Cons.IH [of "AList.update (fst c) (snd c) m"]
    by (simp add: update_conv' map_add_upd_left fun_eq_iff map_add_def split: option.split)
qed simp

lemma cookie_map_distinct: "distinct (map fst m) \<Longrightarrow>
    distinct (map fst (fold (\<lambda>c m. AList.update (fst c) (snd c) m) cs m))"
  by (induction cs arbitrary: m) (simp_all add: distinct_update)

text \<open>A map may be walked in any order: the list it gives has the same entries.\<close>

definition any_order :: "((string \<times> string) list \<Rightarrow> (string \<times> string) list) \<Rightarrow> bool" where
  "any_order order \<longleftrightarrow> (\<forall>xs. mset (order xs) = mset xs)"

lemma any_order_lookup:
  assumes "any_order order" "distinct (map fst xs)"
  shows "distinct (map fst (order xs))" "map_of (order xs) = map_of xs"
proof -
  have m: "mset (order xs) = mset xs" using assms(1) by (simp add: any_order_def)
  then have "mset (map fst (order xs)) = mset (map fst xs)" by simp
  then show d: "distinct (map fst (order xs))" using assms(2) by (metis mset_eq_imp_distinct_iff)
  have "set (order xs) = set xs" using m by (metis set_mset_mset)
  then show "map_of (order xs) = map_of xs" using d assms(2) by (simp add: map_of_inject_set)
qed

lemma mergeCookies_lookup:
  assumes "any_order order"
  shows "distinct (map fst (mergeCookies order old new))"
    "map_of (mergeCookies order old new) = map_of (rev (old @ new))"
  using any_order_lookup [OF assms cookie_map_distinct [of "[]" "old @ new"]] cookie_map_lookup [of "old @ new" "[]"]
  by (simp_all add: mergeCookies_def cookie_map_def del: fold_append rev_append)

section \<open>The exchange\<close>

text \<open>
  \<open>done_step net q reqs reqs' a\<close>: the request was made after the log and answered with status 200.
\<close>

definition done_step :: "auth_net \<Rightarrow> auth_request \<Rightarrow> auth_log \<Rightarrow> auth_log \<Rightarrow> auth_answer \<Rightarrow> bool" where
  "done_step net q reqs reqs' a \<longleftrightarrow> reqs' = reqs @ [q] \<and> an_do net reqs q = Inr a \<and> aa_status a = 200"

definition failed_step :: "auth_request \<Rightarrow> auth_log \<Rightarrow> auth_log \<Rightarrow> bool" where
  "failed_step q reqs reqs' \<longleftrightarrow> reqs' = reqs \<or> reqs' = reqs @ [q]"

lemma auth_decode_ok: "auth_decode dec a = Inr x \<Longrightarrow> aa_status a = 200"
  by (auto simp: auth_decode_def split: sum.splits if_splits)

lemma auth_send_Inr: "auth_send net q reqs = (Inr a, reqs') \<Longrightarrow> reqs' = reqs @ [q] \<and> an_do net reqs q = Inr a"
  by (auto simp: auth_send_def split: option.splits sum.splits)

lemma auth_send_Inl: "auth_send net q reqs = (Inl err, reqs') \<Longrightarrow> failed_step q reqs reqs'"
  by (auto simp: auth_send_def failed_step_def split: option.splits sum.splits)

lemma map_sum_Inr_iff: "map_sum id f x = Inr y \<longleftrightarrow> (\<exists>z. x = Inr z \<and> y = f z)"
  by (cases x) auto

text \<open>Every step, by what its answer is made of.\<close>

definition auth_step :: "auth_net \<Rightarrow> auth_request \<Rightarrow> (auth_answer \<Rightarrow> string + 'a) \<Rightarrow> auth_log \<Rightarrow> (string + 'a) \<times> auth_log" where
  "auth_step net q dec reqs =
     (case auth_send net q reqs of (Inl err, reqs) \<Rightarrow> (Inl err, reqs) | (Inr a, reqs) \<Rightarrow> (dec a, reqs))"

lemma as_steps:
  "getSession net c = auth_step net (session_request c) (auth_decode (an_session net))"
  "getCookies net c access refresh uid = auth_step net (cookies_request c access refresh uid)
     (\<lambda>a. if aa_status a \<noteq> 200 then Inl (api_error (aa_status a) (take maxHTTPBodySize (aa_body a))) else Inr (aa_cookies a))"
  "getAuthInfo net c uid cookies intent = auth_step net (info_request c uid cookies intent) (auth_decode (an_info net))"
  "authenticate net c ss cp ce uid cookies = auth_step net (proof_request c ss cp ce uid cookies)
     (\<lambda>a. map_sum id (\<lambda>r. (r, aa_cookies a)) (auth_decode (an_auth net) a))"
  "getUserInfo net c uid cookies = auth_step net (get_request c ''/api/core/v4/users'' uid cookies) (auth_decode (an_user net))"
  "getKeySalts net c uid cookies = auth_step net (get_request c ''/api/core/v4/keys/salts'' uid cookies) (auth_decode (an_salts net))"
  by (simp_all add: fun_eq_iff auth_step_def getSession_def getCookies_def getAuthInfo_def authenticate_def
      getUserInfo_def getKeySalts_def)

lemma auth_step_Inl: "auth_step net q dec reqs = (Inl err, reqs') \<Longrightarrow> failed_step q reqs reqs'"
  using auth_send_Inl [of net q reqs] auth_send_Inr [of net q reqs]
  by (auto simp: auth_step_def failed_step_def split: prod.splits sum.splits)

lemma auth_step_Inr:
  assumes "auth_step net q dec reqs = (Inr x, reqs')" and "\<And>a y. dec a = Inr y \<Longrightarrow> aa_status a = 200"
  shows "\<exists>a. done_step net q reqs reqs' a \<and> dec a = Inr x"
  using assms auth_send_Inr [of net q reqs]
  by (auto simp: auth_step_def done_step_def split: prod.splits sum.splits)

lemma step_results:
  "getSession net c l = (Inr s, l') \<Longrightarrow> \<exists>a. done_step net (session_request c) l l' a"
  "getCookies net c ac rf uid l = (Inr ck, l') \<Longrightarrow> \<exists>a. done_step net (cookies_request c ac rf uid) l l' a \<and> ck = aa_cookies a"
  "getAuthInfo net c uid ck intent l = (Inr i, l') \<Longrightarrow> \<exists>a. done_step net (info_request c uid ck intent) l l' a"
  "authenticate net c ss cp ce uid ck l = (Inr (r, new), l') \<Longrightarrow>
     \<exists>a. done_step net (proof_request c ss cp ce uid ck) l l' a \<and> new = aa_cookies a"
  "getUserInfo net c uid ck l = (Inr u, l') \<Longrightarrow> \<exists>a. done_step net (get_request c ''/api/core/v4/users'' uid ck) l l' a"
  "getKeySalts net c uid ck l = (Inr k, l') \<Longrightarrow> \<exists>a. done_step net (get_request c ''/api/core/v4/keys/salts'' uid ck) l l' a"
  unfolding as_steps
  by (drule auth_step_Inr; auto simp: map_sum_Inr_iff dest: auth_decode_ok split: if_splits)+

lemma step_failures:
  "getSession net c l = (Inl e, l') \<Longrightarrow> failed_step (session_request c) l l'"
  "getCookies net c ac rf uid l = (Inl e, l') \<Longrightarrow> failed_step (cookies_request c ac rf uid) l l'"
  "getAuthInfo net c uid ck intent l = (Inl e, l') \<Longrightarrow> failed_step (info_request c uid ck intent) l l'"
  "authenticate net c ss cp ce uid ck l = (Inl e, l') \<Longrightarrow> failed_step (proof_request c ss cp ce uid ck) l l'"
  "getUserInfo net c uid ck l = (Inl e, l') \<Longrightarrow> failed_step (get_request c ''/api/core/v4/users'' uid ck) l l'"
  "getKeySalts net c uid ck l = (Inl e, l') \<Longrightarrow> failed_step (get_request c ''/api/core/v4/keys/salts'' uid ck) l l'"
  unfolding as_steps by (rule auth_step_Inl, assumption)+

definition login_urls :: "string \<Rightarrow> string list" where
  "login_urls base = map (\<lambda>p. base @ p)
     [''/api/auth/v4/sessions'', ''/api/core/v4/auth/cookies'', ''/api/core/v4/auth/info'', ''/api/core/v4/auth'',
      ''/api/core/v4/users'', ''/api/core/v4/keys/salts'']"

lemma request_urls [simp]:
  "aq_url (session_request c) = sc_base c @ ''/api/auth/v4/sessions''"
  "aq_url (cookies_request c ac rf uid) = sc_base c @ ''/api/core/v4/auth/cookies''"
  "aq_url (info_request c uid ck intent) = sc_base c @ ''/api/core/v4/auth/info''"
  "aq_url (proof_request c ss cp ce uid ck) = sc_base c @ ''/api/core/v4/auth''"
  "aq_url (get_request c path uid ck) = sc_base c @ path"
  by (simp_all add: session_request_def cookies_request_def info_request_def proof_request_def get_request_def)

text \<open>A login that succeeds, taken apart.\<close>

lemma login_success:
  assumes "srp_login net c reqs = (Inr se, reqs')"
  obtains s ck i cp ce r new u l1 l2 l3 l4 l5 where
    "getSession net c reqs = (Inr s, l1)" "getCookies net c (sr_access s) (sr_refresh s) (sr_uid s) l1 = (Inr ck, l2)"
    "getAuthInfo net c (sr_uid s) ck ''Auto'' l2 = (Inr i, l3)"
    "authenticate net c (ai_session i) cp ce (sr_uid s) ck l3 = (Inr (r, new), l4)"
    "getUserInfo net c (ar_uid r) (mergeCookies (an_order net) ck new) l4 = (Inr u, l5)"
    "getKeySalts net c (ar_uid r) (mergeCookies (an_order net) ck new) l5 = (Inr (), reqs')"
    "se = \<lparr> se_uid = ar_uid r, se_user = u, se_cookies = mergeCookies (an_order net) ck new,
       se_expires = an_now net + wrap64 (ar_expires_in r * Second) \<rparr>"
  using assms
  by (auto simp: srp_login_def Let_def split: prod.splits sum.splits intro: that)

text \<open>
  C34: A login succeeds only after its six requests, in their order, were all answered with status 200.
  The cookies of the session are one per name, those of the authentication replacing the
  initial ones of the same name in whatever order the map is walked; the two requests after it
  carry exactly these cookies and the session's user id, the one before it the initial cookies.
\<close>

theorem login_session_cookies:
  assumes "any_order (an_order net)" and "srp_login net c [] = (Inr se, qs)"
  shows "\<exists>q1 q2 q3 q4 q5 q6 a2 a4. qs = [q1, q2, q3, q4, q5, q6] \<and> map aq_url qs = login_urls (sc_base c)
    \<and> list_all (\<lambda>k. \<exists>a. an_do net (take k qs) (qs ! k) = Inr a \<and> aa_status a = 200) [0..<6]
    \<and> an_do net [q1] q2 = Inr a2 \<and> an_do net [q1, q2, q3] q4 = Inr a4
    \<and> distinct (map fst (se_cookies se))
    \<and> map_of (se_cookies se) = map_of (rev (aa_cookies a2 @ aa_cookies a4))
    \<and> aq_cookies q4 = aa_cookies a2 \<and> aq_cookies q5 = se_cookies se \<and> aq_cookies q6 = se_cookies se
    \<and> aq_headers q5 = commonHeaders (se_uid se) \<and> aq_headers q6 = commonHeaders (se_uid se)"
  using assms(2)
proof (rule login_success)
  fix s ck i cp ce r new u l1 l2 l3 l4 l5
  define m where "m = mergeCookies (an_order net) ck new"
  assume steps: "getSession net c [] = (Inr s, l1)" "getCookies net c (sr_access s) (sr_refresh s) (sr_uid s) l1 = (Inr ck, l2)"
    "getAuthInfo net c (sr_uid s) ck ''Auto'' l2 = (Inr i, l3)"
    "authenticate net c (ai_session i) cp ce (sr_uid s) ck l3 = (Inr (r, new), l4)"
    "getUserInfo net c (ar_uid r) (mergeCookies (an_order net) ck new) l4 = (Inr u, l5)"
    "getKeySalts net c (ar_uid r) (mergeCookies (an_order net) ck new) l5 = (Inr (), qs)"
    and se: "se = \<lparr> se_uid = ar_uid r, se_user = u, se_cookies = mergeCookies (an_order net) ck new,
       se_expires = an_now net + wrap64 (ar_expires_in r * Second) \<rparr>"
  define q2 where "q2 = cookies_request c (sr_access s) (sr_refresh s) (sr_uid s)"
  define q4 where "q4 = proof_request c (ai_session i) cp ce (sr_uid s) ck"
  note steps = steps [folded m_def q2_def q4_def]
  obtain a1 where a1: "done_step net (session_request c) [] l1 a1" using step_results(1) [OF steps(1)] by blast
  obtain a2 where a2: "done_step net q2 l1 l2 a2" "ck = aa_cookies a2"
    using step_results(2) [OF steps(2)] by (auto simp: q2_def)
  obtain a3 where a3: "done_step net (info_request c (sr_uid s) ck ''Auto'') l2 l3 a3"
    using step_results(3) [OF steps(3)] by blast
  obtain a4 where a4: "done_step net q4 l3 l4 a4" "new = aa_cookies a4"
    using step_results(4) [OF steps(4)] by (auto simp: q4_def)
  define q3 where "q3 = info_request c (sr_uid s) ck ''Auto''"
  define q5 where "q5 = get_request c ''/api/core/v4/users'' (ar_uid r) m"
  define q6 where "q6 = get_request c ''/api/core/v4/keys/salts'' (ar_uid r) m"
  obtain a5 where a5: "done_step net q5 l4 l5 a5" using step_results(5) [OF steps(5)] by (auto simp: q5_def)
  obtain a6 where a6: "done_step net q6 l5 qs a6" using step_results(6) [OF steps(6)] by (auto simp: q6_def)
  define q1 where "q1 = session_request c"
  note d = a1 [folded q1_def] a2(1) a3 [folded q3_def] a4(1) a5 a6
  have qs: "qs = [q1, q2, q3, q4, q5, q6]" using d by (auto simp: done_step_def)
  have l: "l1 = [q1]" "l2 = [q1, q2]" "l3 = [q1, q2, q3]" "l4 = [q1, q2, q3, q4]" "l5 = [q1, q2, q3, q4, q5]"
    using d by (auto simp: done_step_def)
  have ans: "an_do net [] q1 = Inr a1 \<and> aa_status a1 = 200" "an_do net [q1] q2 = Inr a2 \<and> aa_status a2 = 200"
    "an_do net [q1, q2] q3 = Inr a3 \<and> aa_status a3 = 200" "an_do net [q1, q2, q3] q4 = Inr a4 \<and> aa_status a4 = 200"
    "an_do net [q1, q2, q3, q4] q5 = Inr a5 \<and> aa_status a5 = 200"
    "an_do net [q1, q2, q3, q4, q5] q6 = Inr a6 \<and> aa_status a6 = 200"
    using d unfolding done_step_def l by blast+
  have six: "[0..<6] = [0, 1, 2, 3, 4, 5 :: nat]" by (simp add: upt_rec)
  have all: "list_all (\<lambda>k. \<exists>a. an_do net (take k qs) (qs ! k) = Inr a \<and> aa_status a = 200) [0..<6]"
    unfolding six qs using ans by simp
  have urls: "map aq_url qs = login_urls (sc_base c)"
    unfolding qs by (simp add: login_urls_def q1_def q2_def q3_def q4_def q5_def q6_def)
  have cookies: "distinct (map fst (se_cookies se))" "map_of (se_cookies se) = map_of (rev (aa_cookies a2 @ aa_cookies a4))"
    unfolding se using mergeCookies_lookup [OF assms(1), of ck new] by (simp_all add: a2(2) a4(2))
  have carried: "aq_cookies q4 = aa_cookies a2" "aq_cookies q5 = se_cookies se" "aq_cookies q6 = se_cookies se"
    "aq_headers q5 = commonHeaders (se_uid se)" "aq_headers q6 = commonHeaders (se_uid se)"
    by (simp_all add: q4_def q5_def q6_def proof_request_def get_request_def se m_def a2(2))
  show ?thesis
    by (rule exI [of _ q1], rule exI [of _ q2], rule exI [of _ q3], rule exI [of _ q4], rule exI [of _ q5],
        rule exI [of _ q6], rule exI [of _ a2], rule exI [of _ a4])
      (intro conjI qs urls all cookies carried ans [THEN conjunct1])
qed

text \<open>Six answers, of which the second and the fourth set a cookie of the same name.\<close>

definition demo_auth :: auth_net where
  "demo_auth = \<lparr> an_do = (\<lambda>reqs _. Inr \<lparr> aa_status = 200, aa_body = ''{}'', aa_broken = None,
       aa_cookies = (if length reqs = 1 then [(''AUTH-u'', ''old''), (''Tag'', ''default'')]
                     else if length reqs = 3 then [(''AUTH-u'', ''new'')] else []) \<rparr>),
     an_bad_url = (\<lambda>_. None), an_session = (\<lambda>_. Inr \<lparr> sr_access = ''a'', sr_refresh = ''r'', sr_uid = ''u'' \<rparr>),
     an_info = (\<lambda>_. Inr \<lparr> ai_version = 4, ai_modulus = ''m'', ai_ephemeral = ''e'', ai_salt = ''s'', ai_session = ''i'' \<rparr>),
     an_auth = (\<lambda>_. Inr \<lparr> ar_expires_in = 3600, ar_uid = ''v'' \<rparr>), an_user = (\<lambda>_. Inr ''user''),
     an_salts = (\<lambda>_. Inr ()), an_srp = (\<lambda>_ _ _ _ _ _. Inr (Inr ([1, 2], [3]))), an_order = rev, an_now = 0 \<rparr>"

definition demo_session :: session where
  "demo_session = \<lparr> se_uid = ''v'', se_user = ''user'', se_cookies = [(''Tag'', ''default''), (''AUTH-u'', ''new'')],
     se_expires = 3600 * Second \<rparr>"

definition demo_client :: srp_client where
  "demo_client = NewSRPAuth ''me'' ''secret'' ''https://api''"

lemma demo_send: "auth_send demo_auth q reqs = (Inr \<lparr> aa_status = 200, aa_body = ''{}'', aa_broken = None,
    aa_cookies = (if length reqs = 1 then [(''AUTH-u'', ''old''), (''Tag'', ''default'')]
                  else if length reqs = 3 then [(''AUTH-u'', ''new'')] else []) \<rparr>, reqs @ [q])"
  by (simp add: auth_send_def demo_auth_def)

lemma demo_decode: "length body \<le> 10485760 \<Longrightarrow> auth_decode dec \<lparr> aa_status = 200, aa_body = body, aa_broken = None, aa_cookies = ck \<rparr>
    = (case dec body of Inl err \<Rightarrow> Inl (''failed to unmarshal response: '' @ err) | Inr x \<Rightarrow> Inr x)"
  by (simp add: auth_decode_def readBody_def maxHTTPBodySize_def)

lemma demo_merge: "mergeCookies rev [(''AUTH-u'', ''old''), (''Tag'', ''default'')] [(''AUTH-u'', ''new'')]
    = [(''Tag'', ''default''), (''AUTH-u'', ''new'')]"
  by (simp add: mergeCookies_def cookie_map_def)

lemma demo_login: "fst (srp_login demo_auth demo_client []) = Inr demo_session"
proof -
  have n: "an_session demo_auth = (\<lambda>_. Inr \<lparr> sr_access = ''a'', sr_refresh = ''r'', sr_uid = ''u'' \<rparr>)"
    "an_info demo_auth = (\<lambda>_. Inr \<lparr> ai_version = 4, ai_modulus = ''m'', ai_ephemeral = ''e'', ai_salt = ''s'', ai_session = ''i'' \<rparr>)"
    "an_auth demo_auth = (\<lambda>_. Inr \<lparr> ar_expires_in = 3600, ar_uid = ''v'' \<rparr>)" "an_user demo_auth = (\<lambda>_. Inr ''user'')"
    "an_salts demo_auth = (\<lambda>_. Inr ())" "an_srp demo_auth = (\<lambda>_ _ _ _ _ _. Inr (Inr ([1, 2], [3])))"
    "an_order demo_auth = rev" "an_now demo_auth = 0"
    by (simp_all add: demo_auth_def)
  show ?thesis
    unfolding srp_login_def Let_def
    by (simp add: getSession_def getCookies_def getAuthInfo_def authenticate_def getUserInfo_def getKeySalts_def
        demo_send demo_decode n demo_merge demo_session_def Second_def)
qed

theorem login_session_cookies_witness:
  "map_of (se_cookies demo_session) ''AUTH-u'' = Some ''new''
   \<and> (\<exists>qs. srp_login demo_auth demo_client [] = (Inr demo_session, qs) \<and> map aq_url qs = login_urls (sc_base demo_client))"
proof -
  obtain qs where l: "srp_login demo_auth demo_client [] = (Inr demo_session, qs)"
    using demo_login by (cases "srp_login demo_auth demo_client []") auto
  have o: "any_order (an_order demo_auth)" by (simp add: any_order_def demo_auth_def)
  have "map aq_url qs = login_urls (sc_base demo_client)" using login_session_cookies [OF o l] by blast
  then show ?thesis using l by (auto simp: demo_session_def)
qed

section \<open>Every outcome\<close>

text \<open>
  What the code asks of the answer to the request number \<open>k\<close>: the second is taken for its cookies, so its
  status is enough; the others are read, have status 200 and a body that decodes.
\<close>

definition accepted :: "auth_net \<Rightarrow> nat \<Rightarrow> auth_answer \<Rightarrow> bool" where
  "accepted net k a \<longleftrightarrow>
     (if k = 0 then \<exists>x. auth_decode (an_session net) a = Inr x
      else if k = 1 then aa_status a = 200
      else if k = 2 then \<exists>x. auth_decode (an_info net) a = Inr x
      else if k = 3 then \<exists>x. auth_decode (an_auth net) a = Inr x
      else if k = 4 then \<exists>x. auth_decode (an_user net) a = Inr x
      else \<exists>x. auth_decode (an_salts net) a = Inr x)"

definition answered :: "auth_net \<Rightarrow> auth_log \<Rightarrow> nat \<Rightarrow> bool" where
  "answered net qs n \<longleftrightarrow> (\<forall>k < n. \<exists>a. an_do net (take k qs) (qs ! k) = Inr a \<and> accepted net k a)"

definition carries_proof :: "auth_request \<Rightarrow> bool" where
  "carries_proof q \<longleftrightarrow> (case aq_body q of None \<Rightarrow> False | Some kvs \<Rightarrow> ''ClientProof'' \<in> fst ` set kvs)"

text \<open>The fourth request is the one with the proofs computed from the third answer.\<close>

definition proof_made :: "auth_net \<Rightarrow> srp_client \<Rightarrow> auth_log \<Rightarrow> bool" where
  "proof_made net c qs \<longleftrightarrow>
     (\<exists>a i p e uid cookies. an_do net (take 2 qs) (qs ! 2) = Inr a \<and> auth_decode (an_info net) a = Inr i
        \<and> an_srp net (ai_version i) (sc_username c) (sc_password c) (ai_salt i) (ai_modulus i) (ai_ephemeral i) = Inr (Inr (p, e))
        \<and> qs ! 3 = proof_request c (ai_session i) p e uid cookies)"

definition login_log :: "auth_net \<Rightarrow> srp_client \<Rightarrow> nat \<Rightarrow> auth_log \<Rightarrow> bool" where
  "login_log net c n qs \<longleftrightarrow> length qs \<le> 6 \<and> map aq_url qs = take (length qs) (login_urls (sc_base c)) \<and> answered net qs n
     \<and> (\<forall>k < length qs. carries_proof (qs ! k) \<longrightarrow> k = 3) \<and> (3 < length qs \<longrightarrow> proof_made net c qs)"

lemma login_log_Nil: "login_log net c 0 []"
  by (simp add: login_log_def answered_def)

lemma login_log_less: "login_log net c n qs \<Longrightarrow> m \<le> n \<Longrightarrow> login_log net c m qs"
  by (simp add: login_log_def answered_def)

text \<open>One more request, of which only what came before is known to be answered.\<close>

lemma login_log_sent:
  assumes "login_log net c (length l) l" "length l < 6" "aq_url q = login_urls (sc_base c) ! length l"
    and "carries_proof q \<Longrightarrow> length l = 3" "length l = 3 \<Longrightarrow> proof_made net c (l @ [q])"
  shows "login_log net c (length l) (l @ [q])"
proof -
  have m: "proof_made net c (l @ [q])" if "3 < length l"
  proof -
    have "take 2 (l @ [q]) = take 2 l" "(l @ [q]) ! 2 = l ! 2" "(l @ [q]) ! 3 = l ! 3"
      using that by (simp_all add: nth_append)
    then have "proof_made net c (l @ [q]) = proof_made net c l" unfolding proof_made_def by (simp only:)
    then show ?thesis using that assms(1) by (simp add: login_log_def)
  qed
  have "length (login_urls (sc_base c)) = 6" by (simp add: login_urls_def)
  then have u: "map aq_url (l @ [q]) = take (length (l @ [q])) (login_urls (sc_base c))"
    using assms(1,2,3) by (simp add: login_log_def take_Suc_conv_app_nth)
  have "answered net (l @ [q]) (length l)"
    using assms(1) by (auto simp: login_log_def answered_def nth_append)
  moreover have "\<forall>k < length (l @ [q]). carries_proof ((l @ [q]) ! k) \<longrightarrow> k = 3"
    using assms(1,4) by (auto simp: login_log_def nth_append less_Suc_eq)
  moreover have "3 < length (l @ [q]) \<longrightarrow> proof_made net c (l @ [q])"
    using m assms(5) by (auto simp: less_Suc_eq)
  ultimately show ?thesis using u assms(2) by (simp add: login_log_def del: map_append)
qed

lemma login_log_done:
  assumes "login_log net c (length l) (l @ [q])" "an_do net l q = Inr a" "accepted net (length l) a"
  shows "login_log net c (length (l @ [q])) (l @ [q])"
proof -
  have "answered net (l @ [q]) (length (l @ [q]))"
    unfolding answered_def
  proof (intro allI impI)
    fix k assume "k < length (l @ [q])"
    then consider "k < length l" | "k = length l" by fastforce
    then show "\<exists>a. an_do net (take k (l @ [q])) ((l @ [q]) ! k) = Inr a \<and> accepted net k a"
    proof cases
      case 1
      with assms(1) show ?thesis unfolding login_log_def answered_def by blast
    next
      case 2
      with assms(2,3) show ?thesis by simp
    qed
  qed
  with assms(1) show ?thesis unfolding login_log_def by blast
qed

text \<open>A step of the login that fails, and one that succeeds.\<close>

lemma login_log_failed:
  assumes "login_log net c (length l) l" "failed_step q l l'" "length l < 6" "aq_url q = login_urls (sc_base c) ! length l"
    and "carries_proof q \<Longrightarrow> length l = 3" "length l = 3 \<Longrightarrow> proof_made net c (l @ [q])"
  shows "login_log net c (length l' - 1) l'"
  using assms(2) login_log_sent [OF assms(1,3-6)] login_log_less [OF assms(1)] by (auto simp: failed_step_def)

lemma login_log_step:
  assumes "login_log net c (length l) l" "done_step net q l l' a" "accepted net (length l) a" "length l < 6"
    and "aq_url q = login_urls (sc_base c) ! length l" "carries_proof q \<Longrightarrow> length l = 3"
    and "length l = 3 \<Longrightarrow> proof_made net c (l @ [q])"
  shows "login_log net c (Suc (length l)) l' \<and> length l' = Suc (length l)"
  using assms(2,3) login_log_done [OF login_log_sent [OF assms(1,4-7)]] by (simp add: done_step_def)

lemma step_accepted:
  "getSession net c l = (Inr s, l') \<Longrightarrow> \<exists>a. done_step net (session_request c) l l' a \<and> auth_decode (an_session net) a = Inr s"
  "getAuthInfo net c uid ck intent l = (Inr i, l') \<Longrightarrow>
     \<exists>a. done_step net (info_request c uid ck intent) l l' a \<and> auth_decode (an_info net) a = Inr i"
  "authenticate net c ss cp ce uid ck l = (Inr (r, new), l') \<Longrightarrow>
     \<exists>a. done_step net (proof_request c ss cp ce uid ck) l l' a \<and> auth_decode (an_auth net) a = Inr r"
  "getUserInfo net c uid ck l = (Inr u, l') \<Longrightarrow>
     \<exists>a. done_step net (get_request c ''/api/core/v4/users'' uid ck) l l' a \<and> auth_decode (an_user net) a = Inr u"
  "getKeySalts net c uid ck l = (Inr k, l') \<Longrightarrow>
     \<exists>a. done_step net (get_request c ''/api/core/v4/keys/salts'' uid ck) l l' a \<and> auth_decode (an_salts net) a = Inr k"
  unfolding as_steps
  by (drule auth_step_Inr; auto simp: map_sum_Inr_iff dest: auth_decode_ok split: if_splits)+

lemma request_proofs:
  "\<not> carries_proof (session_request c)" "\<not> carries_proof (cookies_request c ac rf uid)"
  "\<not> carries_proof (info_request c uid ck intent)" "\<not> carries_proof (get_request c path uid ck)"
  by (simp_all add: carries_proof_def session_request_def cookies_request_def info_request_def get_request_def)

lemma urls_nth:
  "login_urls b ! 0 = b @ ''/api/auth/v4/sessions''" "login_urls b ! 1 = b @ ''/api/core/v4/auth/cookies''"
  "login_urls b ! 2 = b @ ''/api/core/v4/auth/info''" "login_urls b ! 3 = b @ ''/api/core/v4/auth''"
  "login_urls b ! 4 = b @ ''/api/core/v4/users''" "login_urls b ! 5 = b @ ''/api/core/v4/keys/salts''"
  by (simp_all add: login_urls_def)

text \<open>The last three requests, from the proofs on.\<close>

lemma login_tail:
  assumes l3: "login_log net c 3 l3" "length l3 = 3" and "proof_made net c (l3 @ [proof_request c (ai_session i) p e uid ck])"
    and au: "authenticate net c (ai_session i) p e uid ck l3 = (x, l4)"
  shows "case x of Inl err \<Rightarrow> login_log net c (length l4 - 1) l4
    | Inr (r, new) \<Rightarrow> login_log net c 4 l4 \<and> length l4 = 4
       \<and> (\<forall>m y l5. getUserInfo net c (ar_uid r) m l4 = (y, l5) \<longrightarrow>
            (case y of Inl err \<Rightarrow> login_log net c (length l5 - 1) l5
             | Inr u \<Rightarrow> login_log net c 5 l5 \<and> length l5 = 5
                \<and> (\<forall>z l6. getKeySalts net c (ar_uid r) m l5 = (z, l6) \<longrightarrow>
                     (case z of Inl err \<Rightarrow> login_log net c (length l6 - 1) l6
                      | Inr _ \<Rightarrow> login_log net c 6 l6 \<and> length l6 = 6))))"
proof -
  let ?q = "proof_request c (ai_session i) p e uid ck"
  have six: "login_log net c 6 l6 \<and> length l6 = 6" if "login_log net c 5 l5" "length l5 = 5"
    "getKeySalts net c u m l5 = (Inr z, l6)" for u m z l5 l6
    using step_accepted(5) [OF that(3)] that
      login_log_step [of net c l5 "get_request c ''/api/core/v4/keys/salts'' u m" l6]
    by (auto simp: request_proofs urls_nth accepted_def)
  have five: "login_log net c 5 l5 \<and> length l5 = 5" if "login_log net c 4 l4" "length l4 = 4"
    "getUserInfo net c u m l4 = (Inr y, l5)" for u m y l4 l5
    using step_accepted(4) [OF that(3)] that
      login_log_step [of net c l4 "get_request c ''/api/core/v4/users'' u m" l5]
    by (auto simp: request_proofs urls_nth accepted_def)
  have four: "login_log net c 4 l4 \<and> length l4 = 4" if "x = Inr (r, new)" for r new
    using step_accepted(3) [OF au [unfolded that]] assms(3) l3 login_log_step [of net c l3 ?q l4]
    by (auto simp: urls_nth accepted_def)
  have f4: "login_log net c (length l4 - 1) l4" if "x = Inl err" for err
    using step_failures(4) [OF au [unfolded that]] assms(3) l3
    by (intro login_log_failed [of net c l3 ?q]) (simp_all add: urls_nth)
  have f5: "login_log net c (length l5 - 1) l5" if "login_log net c 4 l4" "length l4 = 4"
    "getUserInfo net c u m l4 = (Inl err, l5)" for u m err l4 l5
    using step_failures(5) [OF that(3)] that
    by (intro login_log_failed [of net c l4 "get_request c ''/api/core/v4/users'' u m"]) (simp_all add: request_proofs urls_nth)
  have f6: "login_log net c (length l6 - 1) l6" if "login_log net c 5 l5" "length l5 = 5"
    "getKeySalts net c u m l5 = (Inl err, l6)" for u m err l5 l6
    using step_failures(6) [OF that(3)] that
    by (intro login_log_failed [of net c l5 "get_request c ''/api/core/v4/keys/salts'' u m"]) (simp_all add: request_proofs urls_nth)
  have z: "case z of Inl err \<Rightarrow> login_log net c (length l6 - 1) l6 | Inr _ \<Rightarrow> login_log net c 6 l6 \<and> length l6 = 6"
    if "login_log net c 5 l5 \<and> length l5 = 5" "getKeySalts net c u m l5 = (z, l6)" for u m l5 z l6
    by (cases z) (use that six [of l5 u m _ l6] f6 [of l5 u m _ l6] in auto)
  show ?thesis
  proof (cases x)
    case (Inl err)
    then show ?thesis using f4 by simp
  next
    case (Inr rn)
    obtain r new where rn: "rn = (r, new)" by fastforce
    note l4 = four [OF Inr [unfolded rn]]
    have "case y of Inl err \<Rightarrow> login_log net c (length l5 - 1) l5
             | Inr u \<Rightarrow> login_log net c 5 l5 \<and> length l5 = 5
                \<and> (\<forall>z l6. getKeySalts net c (ar_uid r) m l5 = (z, l6) \<longrightarrow>
                     (case z of Inl err \<Rightarrow> login_log net c (length l6 - 1) l6
                      | Inr _ \<Rightarrow> login_log net c 6 l6 \<and> length l6 = 6))"
      if y: "getUserInfo net c (ar_uid r) m l4 = (y, l5)" for m y l5
    proof (cases y)
      case (Inl err)
      then show ?thesis using f5 [of l4 "ar_uid r" m err l5] l4 y by auto
    next
      case (Inr u)
      then have l5: "login_log net c 5 l5 \<and> length l5 = 5" using five l4 y by blast
      have "\<forall>z l6. getKeySalts net c (ar_uid r) m l5 = (z, l6) \<longrightarrow>
                     (case z of Inl err \<Rightarrow> login_log net c (length l6 - 1) l6
                      | Inr _ \<Rightarrow> login_log net c 6 l6 \<and> length l6 = 6)"
        by (intro allI impI) (rule z [OF l5])
      with l5 show ?thesis unfolding Inr sum.case by blast
    qed
    with l4 show ?thesis unfolding Inr rn sum.case prod.case by blast
  qed
qed

text \<open>
  C30: Whatever the provider answers and wherever a login stops, its requests are the first ones of the
  six, in their order, and every one but the last was answered and its answer accepted: nothing is
  sent after a step that failed, the SRP computation included. A client proof is in the body of the fourth request only, which goes to
  the authentication's address and carries the proofs the SRP computation made from the third answer. A
  login that succeeds has made all six requests and accepted all six answers. (Redirects, which Go's client follows within one
  request, are not modelled.)
\<close>

theorem login_in_order:
  "let (out, qs) = srp_login net c []
   in login_log net c (length qs - 1) qs
    \<and> (case out of Inl _ \<Rightarrow> True | Inr _ \<Rightarrow> length qs = 6 \<and> login_log net c 6 qs)"
proof -
  obtain x1 l1 where s1: "getSession net c [] = (x1, l1)" by fastforce
  show ?thesis
  proof (cases x1)
    case (Inl err)
    with step_failures(1) [OF s1 [unfolded Inl]] have "login_log net c (length l1 - 1) l1"
      by (intro login_log_failed [of net c "[]" "session_request c"]) (simp_all add: login_log_Nil request_proofs urls_nth(1) [simplified])
    then show ?thesis by (simp add: srp_login_def s1 Inl)
  next
    case (Inr s)
    have L1: "login_log net c 1 l1" "length l1 = 1"
      using step_accepted(1) [OF s1 [unfolded Inr]] login_log_step [of net c "[]" "session_request c" l1]
      by (auto simp: login_log_Nil request_proofs urls_nth(1) [simplified] accepted_def)
    obtain x2 l2 where s2: "getCookies net c (sr_access s) (sr_refresh s) (sr_uid s) l1 = (x2, l2)" by fastforce
    let ?q2 = "cookies_request c (sr_access s) (sr_refresh s) (sr_uid s)"
    show ?thesis
    proof (cases x2)
      case (Inl err)
      with step_failures(2) [OF s2 [unfolded Inl]] L1 have "login_log net c (length l2 - 1) l2"
        by (intro login_log_failed [of net c l1 ?q2]) (simp_all add: request_proofs urls_nth(2) [simplified])
      then show ?thesis by (simp add: srp_login_def s1 Inr s2 Inl)
    next
      case (Inr ck)
      have L2: "login_log net c 2 l2" "length l2 = 2"
        using step_results(2) [OF s2 [unfolded Inr]] L1 login_log_step [of net c l1 ?q2 l2]
        by (auto simp: request_proofs urls_nth(2) [simplified] accepted_def done_step_def numeral_2_eq_2)
      obtain x3 l3 where s3: "getAuthInfo net c (sr_uid s) ck ''Auto'' l2 = (x3, l3)" by fastforce
      let ?q3 = "info_request c (sr_uid s) ck ''Auto''"
      show ?thesis
      proof (cases x3)
        case (Inl err)
        with step_failures(3) [OF s3 [unfolded Inl]] L2 have "login_log net c (length l3 - 1) l3"
          by (intro login_log_failed [of net c l2 ?q3]) (simp_all add: request_proofs urls_nth)
        then show ?thesis by (simp add: srp_login_def s1 \<open>x1 = Inr s\<close> s2 Inr s3 Inl)
      next
        case (Inr i)
        from step_accepted(2) [OF s3 [unfolded Inr]] obtain a3 where
          a3: "done_step net ?q3 l2 l3 a3" "auth_decode (an_info net) a3 = Inr i" by blast
        have L3: "login_log net c 3 l3" "length l3 = 3"
          using a3 L2 login_log_step [of net c l2 ?q3 l3 a3] by (auto simp: request_proofs urls_nth accepted_def)
        have l3: "l3 = l2 @ [?q3]" "an_do net l2 ?q3 = Inr a3" using a3(1) by (simp_all add: done_step_def)
        have pm: "proof_made net c (l3 @ [proof_request c (ai_session i) p e (sr_uid s) ck])"
          if "an_srp net (ai_version i) (sc_username c) (sc_password c) (ai_salt i) (ai_modulus i) (ai_ephemeral i)
              = Inr (Inr (p, e))" for p e
          unfolding proof_made_def using l3 a3(2) that L2(2) by (auto simp: nth_append)
        note so_far = s1 s2 s3 \<open>x1 = Inr s\<close> \<open>x2 = Inr ck\<close> Inr
        have early: "login_log net c (length l3 - 1) l3" using login_log_less [OF L3(1), of 2] L3(2) by simp
        define srp where "srp = an_srp net (ai_version i) (sc_username c) (sc_password c) (ai_salt i) (ai_modulus i) (ai_ephemeral i)"
        consider err where "srp = Inl err" | err where "srp = Inr (Inl err)" | p e where "srp = Inr (Inr (p, e))"
          by (metis obj_sumE surj_pair)
        then show ?thesis
        proof cases
          case (3 p e)
          obtain x l4 where au: "authenticate net c (ai_session i) p e (sr_uid s) ck l3 = (x, l4)" by fastforce
          note tail = login_tail [OF L3 pm [OF 3 [unfolded srp_def]] au]
          show ?thesis
          proof (cases x)
            case (Inl err)
            with tail show ?thesis by (simp add: srp_login_def so_far srp_def [symmetric] 3 au)
          next
            case (Inr rn)
            obtain r new where rn: "rn = (r, new)" by fastforce
            define m where "m = mergeCookies (an_order net) ck new"
            obtain y l5 where y: "getUserInfo net c (ar_uid r) m l4 = (y, l5)" by fastforce
            note tail5 = tail [unfolded Inr rn sum.case prod.case, THEN conjunct2, THEN conjunct2, rule_format, OF y]
            show ?thesis
            proof (cases y)
              case (Inl err)
              with tail5 show ?thesis
                by (simp add: srp_login_def so_far srp_def [symmetric] 3 au Inr rn Let_def m_def [symmetric] y)
            next
              case (Inr u)
              obtain z l6 where z: "getKeySalts net c (ar_uid r) m l5 = (z, l6)" by fastforce
              note tail6 = tail5 [unfolded Inr sum.case, THEN conjunct2, THEN conjunct2, rule_format, OF z]
              then show ?thesis using login_log_less [of net c 6 l6 5]
                by (cases z) (simp_all add: srp_login_def so_far srp_def [symmetric] 3 au \<open>x = Inr rn\<close> rn Let_def
                    m_def [symmetric] y Inr z)
            qed
          qed
        qed (simp_all add: srp_login_def so_far srp_def [symmetric] early [simplified])
      qed
    qed
  qed
qed

section \<open>The password\<close>

text \<open>
  The password is used by the SRP computation only: two logins of the same user whose SRP
  computations answer alike make the same requests, byte for byte, and have the same outcome.
\<close>

theorem password_reaches_only_srp:
  assumes "\<And>v salt m e. an_srp net v u p salt m e = an_srp net v u p' salt m e"
  shows "srp_login net (NewSRPAuth u p base) reqs = srp_login net (NewSRPAuth u p' base) reqs"
  using assms
  by (simp add: srp_login_def NewSRPAuth_def getSession_def getCookies_def getAuthInfo_def authenticate_def getUserInfo_def
      getKeySalts_def session_request_def cookies_request_def info_request_def proof_request_def get_request_def cong: sum.case_cong prod.case_cong)

theorem password_reaches_only_srp_witness:
  "srp_login demo_auth (NewSRPAuth ''me'' ''secret'' ''https://api'') [] = srp_login demo_auth (NewSRPAuth ''me'' ''other'' ''https://api'') []"
  by (rule password_reaches_only_srp) (simp add: demo_auth_def)

section \<open>The client on the network\<close>

text \<open>
  A login of the client that succeeds has stored the session the network gave it, and with it the
  credentials of its arguments, whichever ones the SRP computation was done with.
\<close>

theorem login_stores_session:
  assumes "Login (on_network net base e) user pass c = (None, c')"
  shows "\<exists>se. fst (srp_login net (NewSRPAuth (pc_user c) (pc_pass c) base) []) = Inr se
    \<and> pv_session (pc_store c') = Some se \<and> pv_credentials (pc_store c') = Some (user, pass)"
  using assms
  by (auto simp: Login_def on_network_def store_write_def store_writes split: sum.splits prod.splits option.splits if_splits)

end
