(* ===== verification/Host_Figures.thy ===== *)
theory Host_Figures
  imports Metrics Proxy_Pool Gateway_Http
begin

text \<open>
  \<^verbatim>\<open>internal/metrics/sysinfo.go\<close>, the parsing of what the kernel says of itself, and the handlers of
  \<^verbatim>\<open>internal/handler/handler.go\<close> that report it with the pool and the traffic
  (\<open>handleStats\<close>, \<open>handleMetrics\<close>). The text of a file under \<open>/proc\<close>, the answers of the runtime and
  of \<open>statfs\<close>, and \<open>strconv.ParseFloat\<close> on finite numbers (0 where it fails) are arguments.
\<close>

section \<open>The figures\<close>

record system_info =
  si_os :: string
  si_arch :: string
  si_go_version :: string
  si_num_cpu :: int
  si_cpu_model :: string
  si_mem_total :: nat
  si_mem_avail :: nat
  si_load1 :: rat
  si_load5 :: rat
  si_load15 :: rat
  si_host_uptime :: int
  si_rss :: rat
  si_heap :: rat
  si_sys :: rat
  si_goroutines :: int
  si_process_uptime :: rat
  si_disk_total :: rat
  si_disk_free :: rat

text \<open>\<open>ParseUint\<close> with its error ignored: 0 on a malformed text, the largest value on one too large.\<close>

definition uint_or_limit :: "string \<Rightarrow> nat" where
  "uint_or_limit s = (case parse_nat s of None \<Rightarrow> 0 | Some n \<Rightarrow> if n < 2 ^ 64 then n else 2 ^ 64 - 1)"

definition kilobytes :: "string \<Rightarrow> nat" where
  "kilobytes s = uint_or_limit (trim_space (trim_suffix (trim_space s) '' kB''))"

definition cpuModelLinux :: "string option \<Rightarrow> string" where
  "cpuModelLinux file =
     (case file of
        None \<Rightarrow> []
      | Some b \<Rightarrow>
          (case filter (\<lambda>l. has_prefix l ''model name'' \<and> cut l CHR '':'' \<noteq> None) (split_on CHR 0x0A b) of
             [] \<Rightarrow> []
           | l # _ \<Rightarrow> trim_space (snd (the (cut l CHR '':'')))))"

definition mem_line :: "string \<Rightarrow> system_info \<Rightarrow> system_info" where
  "mem_line l info =
     (case cut l CHR '':'' of
        None \<Rightarrow> info
      | Some (k, v) \<Rightarrow>
          if k = ''MemTotal'' then info\<lparr> si_mem_total := kilobytes v div 1024 \<rparr>
          else if k = ''MemAvailable'' then info\<lparr> si_mem_avail := kilobytes v div 1024 \<rparr>
          else info)"

definition readMemInfo :: "string option \<Rightarrow> system_info \<Rightarrow> system_info" where
  "readMemInfo file info = (case file of None \<Rightarrow> info | Some b \<Rightarrow> fold mem_line (split_on CHR 0x0A b) info)"

definition readLoadAvg :: "(string \<Rightarrow> rat) \<Rightarrow> string option \<Rightarrow> system_info \<Rightarrow> system_info" where
  "readLoadAvg parse_float file info =
     (case file of
        None \<Rightarrow> info
      | Some b \<Rightarrow>
          (let f = Prelude.fields b
           in if length f \<ge> 3
              then info\<lparr> si_load1 := parse_float (f ! 0), si_load5 := parse_float (f ! 1), si_load15 := parse_float (f ! 2) \<rparr>
              else info))"

definition readUptime :: "(string \<Rightarrow> rat) \<Rightarrow> string option \<Rightarrow> system_info \<Rightarrow> system_info" where
  "readUptime parse_float file info =
     (case file of
        None \<Rightarrow> info
      | Some b \<Rightarrow>
          (case Prelude.fields b of
             [] \<Rightarrow> info
           | w # _ \<Rightarrow> info\<lparr> si_host_uptime := trunc (parse_float w) \<rparr>))"

definition readRSS :: "string option \<Rightarrow> system_info \<Rightarrow> system_info" where
  "readRSS file info =
     (case file of
        None \<Rightarrow> info
      | Some b \<Rightarrow>
          (case filter (\<lambda>l. has_prefix l ''VmRSS:'') (split_on CHR 0x0A b) of
             [] \<Rightarrow> info
           | l # _ \<Rightarrow> info\<lparr> si_rss := rnd (rnd (of_nat (kilobytes (trim_prefix l ''VmRSS:''))) / 1024) \<rparr>))"

text \<open>
  \<open>diskUsage\<close>: up from the directory until \<open>statfs\<close> answers (blocks, available blocks, block size).
  \<open>filepath.Abs\<close> gives the clean path, here its segments with the innermost first.
\<close>

definition path_text :: "string list \<Rightarrow> string" where
  "path_text up = ''/'' @ join ''/'' (rev up)"

fun nearest_statfs :: "(string \<Rightarrow> (nat \<times> nat \<times> nat) option) \<Rightarrow> string list \<Rightarrow> (nat \<times> nat \<times> nat) option" where
  "nearest_statfs statfs up =
     (case statfs (path_text up) of
        Some st \<Rightarrow> Some st
      | None \<Rightarrow> (case up of [] \<Rightarrow> None | _ # parent \<Rightarrow> nearest_statfs statfs parent))"

declare nearest_statfs.simps [simp del]

definition diskUsage ::
  "(string \<Rightarrow> (nat \<times> nat \<times> nat) option) \<Rightarrow> string list option \<Rightarrow> system_info \<Rightarrow> system_info" where
  "diskUsage statfs dir info =
     (case Option.bind dir (nearest_statfs statfs) of
        None \<Rightarrow> info
      | Some (blocks, avail, bsize) \<Rightarrow>
          info\<lparr> si_disk_total := rnd (rnd (of_nat (blocks * bsize mod 2 ^ 64)) / 2 ^ 30),
                si_disk_free := rnd (rnd (of_nat (avail * bsize mod 2 ^ 64)) / 2 ^ 30) \<rparr>)"

text \<open>What the host answers; \<open>None\<close> is a file that cannot be read.\<close>

record host_env =
  ho_os :: string
  ho_arch :: string
  ho_go_version :: string
  ho_num_cpu :: int
  ho_goroutines :: int
  ho_started :: time
  ho_now :: time
  ho_file :: "string \<Rightarrow> string option"
  ho_float :: "string \<Rightarrow> rat"
  ho_heap :: nat
  ho_sys :: nat
  ho_statfs :: "string \<Rightarrow> (nat \<times> nat \<times> nat) option"
  ho_abs :: "string \<Rightarrow> string list option"

definition CollectSystemInfo :: "host_env \<Rightarrow> string \<Rightarrow> system_info" where
  "CollectSystemInfo h dataDir =
     (let info = \<lparr> si_os = ho_os h, si_arch = ho_arch h, si_go_version = ho_go_version h, si_num_cpu = ho_num_cpu h,
            si_cpu_model = [], si_mem_total = 0, si_mem_avail = 0, si_load1 = 0, si_load5 = 0, si_load15 = 0,
            si_host_uptime = 0, si_rss = 0, si_heap = rnd (rnd (of_nat (ho_heap h)) / 2 ^ 20),
            si_sys = rnd (rnd (of_nat (ho_sys h)) / 2 ^ 20),
            si_goroutines = ho_goroutines h, si_process_uptime = seconds (time_sub (ho_now h) (ho_started h)), si_disk_total = 0, si_disk_free = 0 \<rparr>;
          info = (if ho_os h = ''linux''
                  then readRSS (ho_file h ''/proc/self/status'')
                    (readUptime (ho_float h) (ho_file h ''/proc/uptime'')
                      (readLoadAvg (ho_float h) (ho_file h ''/proc/loadavg'')
                        (readMemInfo (ho_file h ''/proc/meminfo'')
                          (info\<lparr> si_cpu_model := cpuModelLinux (ho_file h ''/proc/cpuinfo'') \<rparr>))))
                  else info)
      in if dataDir \<noteq> [] then diskUsage (ho_statfs h) (ho_abs h dataDir) info else info)"

section \<open>Reports\<close>

definition handleStats :: "pool \<Rightarrow> int \<times> pool_stats" where
  "handleStats s = (200, Stats s)"

text \<open>
  \<open>handleMetrics\<close>: the metrics are absent when there is no store. \<open>snap\<close> is the outcome of its
  snapshot, \<open>path_dir\<close> is \<open>filepath.Dir\<close>.
\<close>

record metrics_report =
  rp_pool :: pool_stats
  rp_proxies :: "proxy_snapshot list"
  rp_metrics :: "metrics_snapshot option"
  rp_system :: "system_info option"

definition handleMetrics ::
  "(string \<Rightarrow> string) \<Rightarrow> config \<Rightarrow> host_env \<Rightarrow> (string + metrics_snapshot) option \<Rightarrow> pool
     \<Rightarrow> openai_error + metrics_report" where
  "handleMetrics path_dir cfg host snap s =
     (case snap of
        Some (Inl _) \<Rightarrow> Inl (writeError 500 ''Failed to load metrics'')
      | _ \<Rightarrow>
          Inr \<lparr> rp_pool = Stats s, rp_proxies = map Snapshot (List_proxies s),
                rp_metrics = (case snap of Some (Inr m) \<Rightarrow> Some m | _ \<Rightarrow> None),
                rp_system = (case snap of Some _ \<Rightarrow> Some (CollectSystemInfo host (path_dir (MetricsDBPath cfg))) | None \<Rightarrow> None) \<rparr>)"

section \<open>What the figures are\<close>

text \<open>The line of a total, as the kernel writes it.\<close>

lemma digit_not_space: "is_digit c \<Longrightarrow> \<not> is_space c"
  by (auto simp: is_digit_def is_space_def)

lemma kilobytes_line:
  assumes "n < 2 ^ 64"
  shows "kilobytes (replicate k CHR '' '' @ nat_digits n @ '' kB'') = n"
proof -
  define d where "d = nat_digits n"
  have d: "d \<noteq> []" "\<not> is_space (hd d)" "\<not> is_space (last d)" "parse_nat d = Some n"
    using hd_nat_digits [of n] nat_digits_digit [of "last (nat_digits n)" n] digit_not_space
    by (auto simp: d_def)
  have sp: "dropWhile is_space (replicate k CHR '' '' @ u) = dropWhile is_space u" for u
    by (induction k) (auto simp: is_space_def)
  have keep: "u \<noteq> [] \<Longrightarrow> \<not> is_space (hd u) \<Longrightarrow> dropWhile is_space u = u" for u by (cases u) auto
  have "trim_space (replicate k CHR '' '' @ d @ '' kB'') = d @ '' kB''"
    using d keep [of "d @ '' kB''"] by (simp add: trim_space_def sp is_space_def)
  moreover have "trim_suffix (d @ '' kB'') '' kB'' = d" by (simp add: trim_suffix_def has_suffix_def)
  moreover have "trim_space d = d"
    using d keep [of d] keep [of "rev d"] by (simp add: trim_space_def hd_rev)
  ultimately show ?thesis using d(4) assms by (simp add: kilobytes_def uint_or_limit_def d_def)
qed

text \<open>The disk is that of the nearest directory \<open>statfs\<close> knows, whichever files are missing below it.\<close>

lemma nearest_statfs_nearest:
  assumes "\<forall>i < k. statfs (path_text (drop i up)) = None" "k \<le> length up" "statfs (path_text (drop k up)) = Some st"
  shows "nearest_statfs statfs up = Some st"
  using assms
proof (induction up arbitrary: k)
  case Nil
  then show ?case by (simp add: nearest_statfs.simps)
next
  case (Cons a up)
  show ?case
  proof (cases k)
    case 0
    then show ?thesis using Cons.prems by (simp add: nearest_statfs.simps)
  next
    case (Suc j)
    have "nearest_statfs statfs up = Some st"
      using Cons.prems Suc by (intro Cons.IH [of j]) fastforce+
    moreover have "statfs (path_text (a # up)) = None" using Cons.prems(1) Suc by fastforce
    ultimately show ?thesis by (simp add: nearest_statfs.simps)
  qed
qed

end
