(* ===== verification/Vpn_Image.thy ===== *)
theory Vpn_Image
  imports Docker_Manager
begin

text \<open>
  The two waits of \<^verbatim>\<open>internal/proxy/docker.go\<close>: the one-time build of the VPN image
  (\<open>ensureVPNImage\<close>, under a \<open>sync.Once\<close>) and the wait for a new container's tunnel
  (\<open>waitForReady\<close>). The daemon's answers and what the selection of the wait meets, in its order,
  are arguments; the build context that is sent is the embedded files.
\<close>

section \<open>The image\<close>

text \<open>\<open>bi_drain\<close> is the error of copying the build's output, not what that output says.\<close>

record build_env =
  bi_present :: bool
  bi_build :: "string option"
  bi_drain :: "string option"

record vpn_image =
  vi_once :: bool
  vi_err :: "string option"
  vi_done :: bool

definition build_vpn_image :: "build_env \<Rightarrow> vpn_image \<Rightarrow> vpn_image" where
  "build_vpn_image e v =
     (if bi_present e then v
      else (case bi_build e of
              Some err \<Rightarrow> v\<lparr> vi_err := Some (''VPN image build failed: '' @ err) \<rparr>
            | None \<Rightarrow>
                (case bi_drain e of
                   Some err \<Rightarrow> v\<lparr> vi_err := Some (''VPN image build: '' @ err) \<rparr>
                 | None \<Rightarrow> v\<lparr> vi_done := True \<rparr>)))"

definition ensureVPNImage :: "build_env \<Rightarrow> vpn_image \<Rightarrow> string option \<times> vpn_image" where
  "ensureVPNImage e v =
     (let v = (if vi_once v then v else (build_vpn_image e v)\<lparr> vi_once := True \<rparr>) in (vi_err v, v))"

text \<open>The first call decides: every later one returns what it returned and leaves the state alone.\<close>

theorem first_build_decides:
  assumes "ensureVPNImage e v = (r, v')"
  shows "ensureVPNImage e' v' = (r, v')"
  using assms by (auto simp: ensureVPNImage_def Let_def)

section \<open>The tunnel\<close>

datatype wait_event = Tick bool | Timed_out | Cancelled string

fun waitForReady :: "wait_event list \<Rightarrow> string option option" where
  "waitForReady [] = None"
| "waitForReady (Tick healthy # es) = (if healthy then Some None else waitForReady es)"
| "waitForReady (Timed_out # es) = Some (Some ''timeout waiting for container to be ready'')"
| "waitForReady (Cancelled err # es) = Some (Some err)"

text \<open>It is ready exactly when a check succeeds before the timer or the context ends the wait.\<close>

theorem ready_iff:
  "waitForReady es = Some None \<longleftrightarrow>
     (\<exists>n rest. es = replicate n (Tick False) @ Tick True # rest)"
proof (induction es rule: waitForReady.induct)
  case (2 healthy es)
  show ?case
  proof (cases healthy)
    case True
    then have "Tick healthy # es = replicate 0 (Tick False) @ Tick True # es" by simp
    then show ?thesis using True by (metis waitForReady.simps(2))
  next
    case False
    have "(\<exists>n rest. Tick False # es = replicate n (Tick False) @ Tick True # rest)
        \<longleftrightarrow> (\<exists>n rest. es = replicate n (Tick False) @ Tick True # rest)" (is "?l \<longleftrightarrow> ?r")
    proof
      assume ?l
      then obtain n rest where "Tick False # es = replicate n (Tick False) @ Tick True # rest" by blast
      then show ?r by (cases n) auto
    next
      assume ?r
      then obtain n rest where "es = replicate n (Tick False) @ Tick True # rest" by blast
      then have "Tick False # es = replicate (Suc n) (Tick False) @ Tick True # rest" by simp
      then show ?l by blast
    qed
    then show ?thesis using False 2 by simp
  qed
qed (auto simp: Cons_eq_append_conv Cons_replicate_eq)

theorem wait_ends: "Timed_out \<in> set es \<Longrightarrow> waitForReady es \<noteq> None"
  by (induction es rule: waitForReady.induct) auto

end
