(* ===== verification/Web_Pages.thy ===== *)
theory Web_Pages
  imports Gateway_Http
begin

text \<open>
  \<^verbatim>\<open>internal/web/web.go\<close>, the embedded pages, \<open>handleSPA\<close> of \<^verbatim>\<open>internal/handler/handler.go\<close> and
  the level of \<^verbatim>\<open>internal/logger/logger.go\<close>. The embedded files are data: \<open>opens\<close> says whether
  \<open>Open\<close> finds a name, \<open>file_server\<close> is \<open>http.FileServer\<close> on them.
\<close>

record page =
  pg_headers :: "(string \<times> string) list"
  pg_body :: string

definition html_type :: "string \<times> string" where
  "html_type = (''Content-Type'', ''text/html; charset=utf-8'')"

definition no_cache :: "string \<times> string" where "no_cache = (''Cache-Control'', ''no-cache'')"

definition web_handler :: "(string \<Rightarrow> bool) \<Rightarrow> (string \<Rightarrow> page) \<Rightarrow> string \<Rightarrow> string \<Rightarrow> page" where
  "web_handler opens file_server index path =
     (let cached = (if has_suffix path ''.js'' \<or> has_suffix path ''.css'' \<or> path = ''/'' then [no_cache] else [])
      in if \<not> opens (trim_prefix path ''/'')
         then \<lparr> pg_headers = cached @ [html_type], pg_body = index \<rparr>
         else (file_server path)\<lparr> pg_headers := cached @ pg_headers (file_server path) \<rparr>)"

definition handleSPA :: "string \<Rightarrow> page" where
  "handleSPA manage = \<lparr> pg_headers = [html_type, no_cache], pg_body = manage \<rparr>"

datatype log_level = DebugLevel | InfoLevel | WarnLevel | ErrorLevel

definition parse_level :: "string \<Rightarrow> log_level" where
  "parse_level level =
     (if level = ''debug'' then DebugLevel
      else if level = ''info'' then InfoLevel
      else if level = ''warn'' then WarnLevel
      else if level = ''error'' then ErrorLevel
      else InfoLevel)"

text \<open>Levels are ordered by severity; a message below the logger's level is dropped.\<close>

fun severity :: "log_level \<Rightarrow> nat" where
  "severity DebugLevel = 0"
| "severity InfoLevel = 1"
| "severity WarnLevel = 2"
| "severity ErrorLevel = 3"

instantiation log_level :: linorder
begin

definition less_eq_log_level :: "log_level \<Rightarrow> log_level \<Rightarrow> bool" where
  "less_eq_log_level a b \<longleftrightarrow> severity a \<le> severity b"

definition less_log_level :: "log_level \<Rightarrow> log_level \<Rightarrow> bool" where
  "less_log_level a b \<longleftrightarrow> severity a < severity b"

instance
proof
  fix a b :: log_level
  show "a \<le> b \<Longrightarrow> b \<le> a \<Longrightarrow> a = b"
    by (cases a; cases b) (simp_all add: less_eq_log_level_def)
qed (auto simp: less_eq_log_level_def less_log_level_def)

end

text \<open>An unknown level never hides an error, whatever is written in the configuration.\<close>

theorem errors_always_logged: "parse_level level \<le> ErrorLevel"
  by (simp add: parse_level_def less_eq_log_level_def)

text \<open>A missing script is answered with the start page, marked as a page of HTML.\<close>

theorem missing_asset_is_index:
  assumes "\<not> opens name"
  shows "pg_body (web_handler opens fs index (''/'' @ name)) = index
    \<and> last (pg_headers (web_handler opens fs index (''/'' @ name))) = html_type"
  using assms by (simp add: web_handler_def Let_def trim_prefix_def has_prefix_def)

end
