(* ===== verification/Spec2Isabelle.thy ===== *)
theory Spec2Isabelle
  imports Powsolver Pow_Limits Pow_Race Pool_Lease Gateway_Laws Chat_Outcomes Docker_Laws
    Settings_Laws Gateway_Main OpenCode_Cli_Laws OpenCode_Server_Laws Metrics_Laws Export_Laws
    Web_Search_Laws Proton_Auth_Laws Host_Figures Vpn_Image Web_Pages
begin

text \<open>
  A model of the gateway \<^verbatim>\<open>opencode-multi-agents\<close> and the theorems that make it correct.

  \<^bold>\<open>The program.\<close> The gateway is an HTTP server with the interface of the OpenAI API. A request
  passes the middleware (keys, limits, CORS, logging), takes a proxy from a pool, and is forwarded by
  one of three drivers through that proxy's tunnel. Proxies are WireGuard containers that a Docker
  manager starts with certificates of a VPN provider, or external SOCKS5 servers. When the
  upstream throttles an address, the pool bans it, retires the proxy and spawns another. Keys
  can be earned by proof of work. A search tool may be injected into a chat; its calls
  are intercepted, executed through the same tunnel and replayed. Accounts, proxies and settings are
  kept in an SQLite database behind a management API; requests and traffic are recorded in another.

  \<^bold>\<open>Theories and sources.\<close> Definitions carry the names of the functions they model; names that clash have a
  suffix or a prefix of their component. All paths are under \<^verbatim>\<open>src/\<close>.

  \<^item> Go's standard library, as far as the sources use it. \<open>Prelude\<close>: \<open>int64\<close> with wrap-around, instants and
    durations in nanoseconds, ASCII strings, the locale \<open>invariant_ops\<close> of machines that keep an
    invariant. \<open>Go_Std\<close>: \<open>strconv\<close>, base64, host and port, \<open>float64\<close> as rationals with rounding to nearest even.
    \<open>Go_Duration\<close> and \<open>Duration_Text\<close>: reading and printing of durations. \<open>Go_Calendar\<close>: dates.
  \<^item> Proof of work. \<open>Pow_Challenge\<close> (\<^verbatim>\<open>internal/pow/pow.go\<close>): preimage, leading zero bits, verification.
    \<open>Pow_Difficulty\<close> (\<^verbatim>\<open>difficulty.go\<close>): the controller and the flood escalation. \<open>Pow_Store\<close>
    (\<^verbatim>\<open>store.go\<close>): tables and statements. \<open>Pow_Service\<close> (\<^verbatim>\<open>internal/handler/pow.go\<close>): both handlers and
    the limits of a key. \<open>Pow_Redeem\<close> and \<open>Pow_Limits\<close>: what issuance and limiters guarantee over
    any sequence of requests. \<open>Pow_Race\<close>: redemptions cut at their statements, any number of them
    overlapping. \<open>Powsolver\<close> (\<^verbatim>\<open>cmd/powsolver/main.go\<close>): the workers under every
    interleaving.
  \<^item> Configuration. \<open>Config\<close> (\<^verbatim>\<open>internal/config/config.go\<close>): defaults, environment, validation.
    \<open>Config_Store\<close> and \<open>Store_Laws\<close> (\<^verbatim>\<open>store.go\<close>): the database, its transactions and seeding.
  \<^item> Proxies. \<open>Proxy_Types\<close>, \<open>Proxy_Pool\<close> (\<^verbatim>\<open>internal/proxy/types.go\<close>, \<^verbatim>\<open>pool.go\<close>): the pool's record and
    operations; \<open>Pool_Machine\<close>, \<open>Pool_Laws\<close>, \<open>Pool_Lease\<close>: its operations as data, invariants, bans, fairness,
    leases and rotation over every sequence of them. \<open>Socks5\<close> and \<open>Proxy_Managers\<close>
    (\<^verbatim>\<open>socks5_manager.go\<close>, \<^verbatim>\<open>composite_manager.go\<close>): the wire protocol, external and composite managers.
    \<open>Docker_Manager\<close>, \<open>Docker_Laws\<close> and \<open>Vpn_Image\<close> (\<^verbatim>\<open>docker.go\<close>): containers as calls to the daemon,
    the one-time image build and the wait for a tunnel.
  \<^item> The VPN provider. \<open>Proton_Store\<close>, \<open>Proton_Client\<close>, \<open>Proton_Laws\<close> (\<^verbatim>\<open>internal/protonvpn/types.go\<close>,
    \<^verbatim>\<open>store.go\<close>, \<^verbatim>\<open>client.go\<close>): tables, sessions, certificates and the choice of a server.
    \<open>Proton_Auth\<close> and \<open>Proton_Auth_Laws\<close> (\<^verbatim>\<open>auth.go\<close>): the six requests of a login.
  \<^item> The front. \<open>Gateway_Http\<close> and \<open>Gateway_Laws\<close> (\<^verbatim>\<open>internal/handler/handler.go\<close>): errors, routes, middleware,
    credentials. \<open>Chat_Retry\<close>, \<open>Chat_Laws\<close>, \<open>Chat_Outcomes\<close>: the retry loops of chats and model lists as the
    calls they make to the pool and the upstream, and their answers on each course of events.
    \<open>Stream_Tools\<close> and \<open>Tool_Rounds\<close> (\<^verbatim>\<open>tools.go\<close> and the relay): the streamed relay that withholds tool
    calls, and the search rounds. \<open>Web_Search\<close> and \<open>Web_Search_Laws\<close> (\<^verbatim>\<open>internal/websearch\<close>): providers,
    text extraction and one call of the tool. \<open>Manage\<close>, \<open>Manage_Laws\<close>, \<open>Settings_Laws\<close> (\<^verbatim>\<open>manage.go\<close>): the
    management API. \<open>Web_Pages\<close> (\<^verbatim>\<open>internal/web/web.go\<close>, \<^verbatim>\<open>internal/logger/logger.go\<close>).
  \<^item> Drivers. \<open>Upstream_Client\<close>, \<open>OpenCode_Cli\<close>, \<open>OpenCode_Server\<close> with their laws
    (\<^verbatim>\<open>internal/upstream/client.go\<close>, \<^verbatim>\<open>opencode_cli.go\<close>, \<^verbatim>\<open>opencode_client.go\<close>).
  \<^item> Figures. \<open>Metrics\<close>, \<open>Metrics_Laws\<close>, \<open>Metrics_Export\<close>, \<open>Export_Laws\<close> (\<^verbatim>\<open>internal/metrics/metrics.go\<close>,
    \<^verbatim>\<open>pricing.go\<close>, \<^verbatim>\<open>prometheus.go\<close>) and \<open>Host_Figures\<close> (\<^verbatim>\<open>sysinfo.go\<close>, the metrics handlers).
  \<^item> Start-up. \<open>Gateway_Main\<close> (\<^verbatim>\<open>cmd/gateway/main.go\<close>): how accounts and addresses become managers.

  \<^bold>\<open>State and effects.\<close> A struct is a record, its methods are functions that return the new record; a
  handler returns its answer with the state. What a mutex protects is one step; where an operation
  releases the lock in between, its locked parts are steps of their own and what others did meanwhile is an
  input. Statements of a database fail where an input says so, with the driver's text. Random choices, the
  clock, the order in which Go walks a map and the order of map-like tables are inputs too, so a theorem holds for
  all of them. Calls to the pool, the daemon or the network are written down as a list in the order they
  are made, which is what the theorems about leases, tunnels and containers speak of.

  \<^bold>\<open>Interfaces.\<close> \<open>invariant_ops\<close> is interpreted on the pool, the difficulty controller, the solver, the
  databases and the management API; \<open>single_use\<close> on the challenge store and on the whole issuance service;
  \<open>row_table\<close> on the tables of accounts and proxies; \<open>proxy_source\<close> on the external manager;
  \<open>lease_ledger\<close>, the contract between the handlers and the pool, on the pool's model;
  \<open>search_provider\<close> on the three search engines.

  \<^bold>\<open>What is shown.\<close> One challenge yields at most one key, however many redemptions of it overlap; what is
  handed out is stored, and every key goes back to a solution that verifies; limits hold over any second or
  burst, rounding of \<open>float64\<close> included. A banned address is not handed out while the ban runs; a leased proxy is
  acquired by nobody else, and only conversations bound to it before share it; missing proxies are spawned
  exactly once; the choice among idle proxies is fair, rotation ends. Every proxy a handler takes is given
  back or marked, its attempts are bounded, no required key is bypassed and no key of the gateway, configured or
  issued, is sent upstream while any other credential is forwarded as it came. Withheld lines of a stream
  are sent or were calls of the gateway's own tool. Requests of a turn, of each driver and of the search tool,
  leave through the tunnel of their own proxy as long as its identifier was not used with another
  address. The text of a page is the words outside its hidden parts, up to the cut of a long one. A login makes its six
  requests in order, sends its proof in one of them and nothing after a step that failed. Creating a proxy is
  all or nothing, creating a container unless its context ends first. Accounts are what the API answered,
  settings written to the database read back as the same configuration, the counters of requests are the rows of the
  database, those whose statement failed and those pruned. Each theorem with a hypothesis has a witness at
  concrete data.

  \<^bold>\<open>Bounds and fuel.\<close> No definition uses fuel that its theorems do not account for: loops recurse on the attempts
  or rounds that are left, on the list they walk or on the events they meet; the solver is a transition system. The
  retry loops are bounded by the configured retries and by the answers of the pool, and the rounds of a search by
  \<open>WebSearchMaxRounds\<close>. \<open>float64\<close> values are rationals in the range of normal numbers: overflow,
  infinities and denormal numbers are outside the model. Strings are byte lists; white space, letter case and
  quoting are those of ASCII.

  \<^bold>\<open>Not modelled.\<close> Cryptographic functions and packages outside the repository (the SRP computation, curve
  and hash functions, the HTML and JSON parsers, the Docker client, the SQLite driver, the SOCKS dialer) are
  arguments, as are parts of the standard library whose result is one value to the code (\<open>url.Parse\<close>'s
  verdict, \<open>ParseFloat\<close>, \<open>%f\<close>). Serving sockets, signals, shutdown, tickers that call the modelled steps,
  embedded files and the set-up of the logging package are plain I/O. Redirects that an HTTP client follows
  by itself, escaped slashes in the paths the router matches, the overflow of the round-robin counter after
  2^63 hand-outs and the end of a context where no input says so are outside the model; that a transaction rolled back changes nothing is the database's promise. Not modelled are the solver's HTTP exchange
  and its command line, the unused helpers of \<^verbatim>\<open>store.go\<close> and \<^verbatim>\<open>sysinfo.go\<close> that nothing calls, and the
  indexes of the databases.
\<close>

end
